(* ===== verification/Spur_Base.thy ===== *)
theory Spur_Base
  imports Main "HOL-Library.List_Lexorder" "HOL-Library.Product_Lexorder"
begin

text \<open>
  The prelude of the development: Python's exceptions as values, the result type
  \<open>exc + 'a\<close> with its sequencing, Python strings as lists of code points, the
  insertion-ordered dictionary, and the generic list lemmas the components share.

  A Python function that may raise is a HOL function into \<open>'a res\<close>; \<open>Inl e\<close> is
  "raises e". A Python \<open>str\<close> is a list of Unicode code points (\<open>pystr\<close>), because
  \<open>len\<close>, indexing and the comparison of strings count code points and because a string
  read from JSON may hold a lone surrogate, which a byte model could not express.
\<close>

named_theorems res_simps \<open>evaluation of the result type\<close>
named_theorems enc_simps \<open>encoders and encodability\<close>

section \<open>Strings\<close>

type_synonym pystr = "nat list"

definition lit :: "string \<Rightarrow> pystr" where
  "lit s = map of_char s"

lemma lit_eq_iff [simp]: "lit s = lit t \<longleftrightarrow> s = t"
proof
  assume "lit s = lit t"
  then have "map of_char s = (map of_char t :: nat list)" by (simp add: lit_def)
  then show "s = t"
    by (rule map_injective) (simp add: inj_def)
qed simp

lemma lit_Nil [simp]: "lit [] = []"
  by (simp add: lit_def)

lemma lit_eq_Nil [simp]: "lit s = [] \<longleftrightarrow> s = []" "[] = lit s \<longleftrightarrow> s = []"
  by (auto simp: lit_def)

lemma length_lit [simp]: "length (lit s) = length s"
  by (simp add: lit_def)

text \<open>\<open>s.startswith(p)\<close>\<close>

fun startswith :: "pystr \<Rightarrow> pystr \<Rightarrow> bool" where
  "startswith s [] = True"
| "startswith [] (c # p) = False"
| "startswith (d # s) (c # p) = (d = c \<and> startswith s p)"

lemma startswith_iff: "startswith s p \<longleftrightarrow> (\<exists>t. s = p @ t)"
  by (induction s p rule: startswith.induct) auto

lemma startswith_same_length: "length s = length p \<Longrightarrow> startswith s p \<longleftrightarrow> s = p"
  by (auto simp: startswith_iff)

section \<open>Exceptions and results\<close>

text \<open>
  The exceptions the program raises, catches or lets pass. The ones that carry a message
  keep it, since \<open>_handle_event\<close> and \<open>_handle_req\<close> send it to the client.
\<close>

datatype exc =
    EventValidationError pystr
  | FilterValidationError pystr
  | CommissioningError pystr
  | ClockUnavailable pystr
  | JSONDecodeError
  | UnicodeEncodeError
  | UnicodeDecodeError
  | ValueError pystr
  | RuntimeError pystr
  | TypeError
  | KeyError
  | IndexError
  | AttributeError
  | RecursionError
  | StopIteration
  | OverflowError
  | OSError
  | SqliteError
  | StorageError pystr
  | StromaEventError
  | StromaKeyError
  | SubprocessError
  | WebSocketDisconnect
  | RelayError
  | EOFError
  | KeyboardInterrupt

text \<open>
  The subclasses of \<open>ValueError\<close> among them: an \<open>except ValueError\<close> clause catches
  these and no other.
\<close>

fun is_value_error :: "exc \<Rightarrow> bool" where
  "is_value_error (EventValidationError _) = True"
| "is_value_error (FilterValidationError _) = True"
| "is_value_error (CommissioningError _) = True"
| "is_value_error (ClockUnavailable _) = True"
| "is_value_error JSONDecodeError = True"
| "is_value_error UnicodeEncodeError = True"
| "is_value_error UnicodeDecodeError = True"
| "is_value_error (ValueError _) = True"
| "is_value_error _ = False"

type_synonym 'a res = "exc + 'a"

definition rbind :: "'a res \<Rightarrow> ('a \<Rightarrow> 'b res) \<Rightarrow> 'b res" where
  "rbind m k = (case m of Inl e \<Rightarrow> Inl e | Inr x \<Rightarrow> k x)"

definition ensure :: "bool \<Rightarrow> exc \<Rightarrow> unit res" where
  "ensure b e = (if b then Inr () else Inl e)"

text \<open>\<open>try: m except (...) as e: raise h e\<close>, the clause given by the predicate \<open>c\<close>.\<close>

definition recast :: "'a res \<Rightarrow> (exc \<Rightarrow> bool) \<Rightarrow> exc \<Rightarrow> 'a res" where
  "recast m c e' = (case m of Inl e \<Rightarrow> (if c e then Inl e' else Inl e) | Inr x \<Rightarrow> Inr x)"

fun rmap :: "('a \<Rightarrow> 'b res) \<Rightarrow> 'a list \<Rightarrow> 'b list res" where
  "rmap f [] = Inr []"
| "rmap f (x # xs) = rbind (f x) (\<lambda>y. rbind (rmap f xs) (\<lambda>ys. Inr (y # ys)))"

text \<open>A loop over a list that threads a state and may raise.\<close>

fun rfold :: "('a \<Rightarrow> 's \<Rightarrow> 's res) \<Rightarrow> 'a list \<Rightarrow> 's \<Rightarrow> 's res" where
  "rfold f [] s = Inr s"
| "rfold f (x # xs) s = rbind (f x s) (rfold f xs)"

text \<open>\<open>all\<close> and \<open>any\<close> over a generator whose test may raise are not needed: the
  tests of the source are total on the values they see.\<close>

lemma rbind_Inl [simp, res_simps]: "rbind (Inl e) k = Inl e"
  by (simp add: rbind_def)

lemma rbind_Inr [simp, res_simps]: "rbind (Inr x) k = k x"
  by (simp add: rbind_def)

lemma rbind_eq_Inr: "rbind m k = Inr y \<longleftrightarrow> (\<exists>x. m = Inr x \<and> k x = Inr y)"
  by (cases m) auto

lemma rbind_eq_Inl:
  "rbind m k = Inl e \<longleftrightarrow> m = Inl e \<or> (\<exists>x. m = Inr x \<and> k x = Inl e)"
  by (cases m) auto

lemma rbind_assoc: "rbind (rbind m k) h = rbind m (\<lambda>x. rbind (k x) h)"
  by (cases m) auto

lemma ensure_True [simp, res_simps]: "ensure True e = Inr ()"
  by (simp add: ensure_def)

lemma ensure_False [simp, res_simps]: "ensure False e = Inl e"
  by (simp add: ensure_def)

lemma ensure_eq_Inr: "ensure b e = Inr u \<longleftrightarrow> b"
  by (simp add: ensure_def)

lemma ensure_eq_Inl: "ensure b e = Inl e' \<longleftrightarrow> \<not> b \<and> e' = e"
  by (auto simp: ensure_def)

lemma recast_Inr [simp, res_simps]: "recast (Inr x) c e = Inr x"
  by (simp add: recast_def)

lemma recast_eq_Inr: "recast m c e = Inr x \<longleftrightarrow> m = Inr x"
  by (cases m) (auto simp: recast_def)

lemma recast_eq_Inl:
  "recast m c e' = Inl e'' \<longleftrightarrow> (\<exists>e. m = Inl e \<and> e'' = (if c e then e' else e))"
  by (cases m) (auto simp: recast_def)

lemmas res_cases = rbind_eq_Inr rbind_eq_Inl ensure_eq_Inr ensure_eq_Inl
  recast_eq_Inr recast_eq_Inl

lemma rmap_cong_Inr:
  "(\<And>x. x \<in> set xs \<Longrightarrow> f x = Inr (g x)) \<Longrightarrow> rmap f xs = Inr (map g xs)"
  by (induction xs) auto

lemma rmap_eq_Inr_length: "rmap f xs = Inr ys \<Longrightarrow> length ys = length xs"
  by (induction xs arbitrary: ys) (auto simp: rbind_eq_Inr)

text \<open>What is written can be read back; so nothing is written alike that differs.\<close>

locale round_trip =
  fixes writes :: "'a \<Rightarrow> 'b" and reads :: "'b \<Rightarrow> 'a res" and good :: "'a \<Rightarrow> bool"
  assumes restores: "good x \<Longrightarrow> reads (writes x) = Inr x"
begin

lemma inject: "good x \<Longrightarrow> good y \<Longrightarrow> writes x = writes y \<longleftrightarrow> x = y"
  by (metis restores sum.inject(2))

lemma reads_written: "good x \<Longrightarrow> reads (writes x) = Inr y \<longleftrightarrow> y = x"
  by (auto simp: restores)

lemma all_restored: "list_all good xs \<Longrightarrow> rmap reads (map writes xs) = Inr xs"
  by (induction xs) (auto simp: restores)

lemma distinct_written: "list_all good xs \<Longrightarrow> distinct (map writes xs) \<longleftrightarrow> distinct xs"
  by (auto simp: distinct_map inj_on_def inject list_all_iff)

end

lemma rfold_append: "rfold f (xs @ ys) s = rbind (rfold f xs s) (rfold f ys)"
proof (induction xs arbitrary: s)
  case (Cons x xs)
  then show ?case by (cases "f x s") auto
qed simp

lemma rfold_total:
  "(\<And>x s. x \<in> set xs \<Longrightarrow> f x s = Inr (g x s)) \<Longrightarrow> rfold f xs s = Inr (fold g xs s)"
  by (induction xs arbitrary: s) auto

lemma rfold_invariant:
  assumes "rfold f xs s = Inr t" and "P s"
    and "\<And>x s t. x \<in> set xs \<Longrightarrow> P s \<Longrightarrow> f x s = Inr t \<Longrightarrow> P t"
  shows "P t"
  using assms by (induction xs arbitrary: s) (auto simp: rbind_eq_Inr)

text \<open>
  Code that changes a shared object and may raise after it did: the new state comes back with
  the exception, since nothing rolls it back.
\<close>

type_synonym ('s, 'a) act = "'s \<Rightarrow> 'a res \<times> 's"

definition areturn :: "'a \<Rightarrow> ('s, 'a) act" where
  "areturn x = (\<lambda>s. (Inr x, s))"

definition araise :: "exc \<Rightarrow> ('s, 'a) act" where
  "araise e = (\<lambda>s. (Inl e, s))"

definition abind :: "('s, 'a) act \<Rightarrow> ('a \<Rightarrow> ('s, 'b) act) \<Rightarrow> ('s, 'b) act" where
  "abind m k = (\<lambda>s. case m s of (Inl e, t) \<Rightarrow> (Inl e, t) | (Inr x, t) \<Rightarrow> k x t)"

fun aloop :: "('a \<Rightarrow> ('s, unit) act) \<Rightarrow> 'a list \<Rightarrow> ('s, unit) act" where
  "aloop f [] = areturn ()"
| "aloop f (x # xs) = abind (f x) (\<lambda>_. aloop f xs)"

lemma areturn_eq [simp, res_simps]: "areturn x s = (Inr x, s)"
  by (simp add: areturn_def)

lemma araise_eq [simp, res_simps]: "araise e s = (Inl e, s)"
  by (simp add: araise_def)

lemma abind_Inr [simp, res_simps]: "m s = (Inr x, t) \<Longrightarrow> abind m k s = k x t"
  by (simp add: abind_def)

lemma abind_Inl [simp, res_simps]: "m s = (Inl e, t) \<Longrightarrow> abind m k s = (Inl e, t)"
  by (simp add: abind_def)

lemma abind_eq_Inr:
  "abind m k s = (Inr y, u) \<longleftrightarrow> (\<exists>x t. m s = (Inr x, t) \<and> k x t = (Inr y, u))"
  by (auto simp: abind_def split: prod.splits sum.splits)

lemma abind_areturn [simp]: "abind (areturn x) k = k x"
  by (simp add: abind_def areturn_def)

lemma abind_araise [simp]: "abind (araise e) k = araise e"
  by (simp add: abind_def araise_def)

lemma abind_assoc: "abind (abind m k) h = abind m (\<lambda>x. abind (k x) h)"
  by (auto simp: abind_def fun_eq_iff split: prod.splits sum.splits)

text \<open>A result, a read of the state, a change of it.\<close>

definition alift :: "'a res \<Rightarrow> ('s, 'a) act" where
  "alift m = (\<lambda>s. (m, s))"

definition areads :: "('s \<Rightarrow> 'a res) \<Rightarrow> ('s, 'a) act" where
  "areads f = (\<lambda>s. (f s, s))"

definition amodify :: "('s \<Rightarrow> 's) \<Rightarrow> ('s, unit) act" where
  "amodify f = (\<lambda>s. (Inr (), f s))"

lemma act_simps [simp]:
  "alift m s = (m, s)" "areads f s = (f s, s)" "amodify g s = (Inr (), g s)"
  by (simp_all add: alift_def areads_def amodify_def)

lemma abind_alift [simp]:
  "abind (alift (Inr x)) k = k x" "abind (alift (Inl e)) k = araise e"
  by (simp_all add: abind_def alift_def araise_def)

lemma abind_apply:
  "abind m k s = (case m s of (Inl e, t) \<Rightarrow> (Inl e, t) | (Inr x, t) \<Rightarrow> k x t)"
  by (simp add: abind_def)

lemma abind_alift_apply:
  "abind (alift m) k s = (case m of Inl e \<Rightarrow> (Inl e, s) | Inr x \<Rightarrow> k x s)"
  by (simp add: abind_def)

lemma abind_areads_apply:
  "abind (areads f) k s = (case f s of Inl e \<Rightarrow> (Inl e, s) | Inr x \<Rightarrow> k x s)"
  by (simp add: abind_def)

lemma abind_amodify_apply [simp]: "abind (amodify g) k s = k () (g s)"
  by (simp add: abind_def)

lemmas abind_lift_apply = abind_alift_apply abind_areads_apply

text \<open>An operation whose changes are undone when it raises.\<close>

definition transaction :: "('s \<Rightarrow> ('s \<times> 'a) res) \<Rightarrow> ('s, 'a) act" where
  "transaction f s = (case f s of Inl x \<Rightarrow> (Inl x, s) | Inr (t, r) \<Rightarrow> (Inr r, t))"

lemma transaction_simps [simp]:
  "f s = Inl x \<Longrightarrow> transaction f s = (Inl x, s)" "f s = Inr (t, r) \<Longrightarrow> transaction f s = (Inr r, t)"
  by (simp_all add: transaction_def)

lemma transaction_cases:
  assumes "transaction f s = (x, t)"
  obtains e where "f s = Inl e" "x = Inl e" "t = s" | r where "f s = Inr (t, r)" "x = Inr r"
  using assms by (auto simp: transaction_def split: sum.splits prod.splits)

text \<open>Every run of an action relates the state before it to the state after it.\<close>

definition arelates :: "('s \<Rightarrow> 's \<Rightarrow> bool) \<Rightarrow> ('s, 'a) act \<Rightarrow> bool" where
  "arelates R m \<longleftrightarrow> (\<forall>s. R s (snd (m s)))"

lemma arelatesD: "arelates R m \<Longrightarrow> m s = (x, t) \<Longrightarrow> R s t"
  by (metis arelates_def snd_conv)

lemma arelates_abind:
  "transp R \<Longrightarrow> arelates R m \<Longrightarrow> (\<And>x. arelates R (k x)) \<Longrightarrow> arelates R (abind m k)"
  unfolding arelates_def abind_def
  by (auto split: prod.split sum.split) (metis snd_conv transpE)+

lemma arelates_pure [simp]:
  "reflp R \<Longrightarrow> arelates R (areturn x)" "reflp R \<Longrightarrow> arelates R (araise e)"
  "reflp R \<Longrightarrow> arelates R (alift m)" "reflp R \<Longrightarrow> arelates R (areads f)"
  by (simp_all add: arelates_def reflpD)

lemma arelates_modify [simp]: "arelates R (amodify f) \<longleftrightarrow> (\<forall>s. R s (f s))"
  by (simp add: arelates_def)

text \<open>
  A contract on what an action may do to the state: doing nothing keeps it, and one thing after
  another does. The theories of the components interpret it with relations of their own.
\<close>

locale step_contract =
  fixes R :: "'s \<Rightarrow> 's \<Rightarrow> bool"
  assumes reflexive: "reflp R" and transitive: "transp R"
begin

lemma same: "R s s"
  by (rule reflpD [OF reflexive])

lemma further: "R s t \<Longrightarrow> R t u \<Longrightarrow> R s u"
  by (rule transpD [OF transitive])

lemma steps:
  assumes "\<And>s t. step s t \<Longrightarrow> R s t" shows "step\<^sup>*\<^sup>* s t \<Longrightarrow> R s t"
  by (induction rule: rtranclp_induct) (auto intro: same further assms)

lemma pure:
  "arelates R (areturn x)" "arelates R (araise e)" "arelates R (alift m)" "arelates R (areads f)"
  by (simp_all add: arelates_def same)

lemma sequence: "arelates R m \<Longrightarrow> (\<And>x. arelates R (k x)) \<Longrightarrow> arelates R (abind m k)"
  by (rule arelates_abind [OF transitive])

lemma branch: "arelates R m \<Longrightarrow> arelates R n \<Longrightarrow> arelates R (if c then m else n)"
  by simp

lemma optional:
  "arelates R m \<Longrightarrow> (\<And>x. arelates R (f x)) \<Longrightarrow> arelates R (case v of None \<Rightarrow> m | Some x \<Rightarrow> f x)"
  by (simp split: option.split)

lemma pair: "(\<And>x y. arelates R (f x y)) \<Longrightarrow> arelates R (case p of (x, y) \<Rightarrow> f x y)"
  by (simp split: prod.split)

lemma guarded:
  "arelates R m \<Longrightarrow> arelates R (\<lambda>s. if P s then m s else (x, s))"
  "arelates R m \<Longrightarrow> arelates R (\<lambda>s. if P s then (x, s) else m s)"
  by (simp_all add: arelates_def same)

lemmas closed = pure sequence branch optional pair guarded

text \<open>At one state, of which more may be known.\<close>

lemma at: "arelates R m \<Longrightarrow> R s (snd (m s))"
  by (simp add: arelates_def)

lemma followed:
  assumes "R s (snd (m s))" "\<And>x. arelates R (k x)"
  shows "R s (snd (abind m k s))"
proof -
  obtain x t where m: "m s = (x, t)" by (cases "m s")
  then show ?thesis
    using assms(1) further at [OF assms(2), of t] by (cases x) (auto simp: abind_apply)
qed

lemma checked:
  "(\<And>x. m = Inr x \<Longrightarrow> R s (snd (k x s))) \<Longrightarrow> R s (snd (abind (alift m) k s))"
  "(\<And>x. f s = Inr x \<Longrightarrow> R s (snd (k x s))) \<Longrightarrow> R s (snd (abind (areads f) k s))"
  using same by (simp_all add: abind_lift_apply split: sum.split)

lemma reading:
  "(\<And>s x. f s = Inr x \<Longrightarrow> R s (snd (k x s))) \<Longrightarrow> arelates R (abind (areads f) k)"
  by (simp add: arelates_def checked(2))

end

section \<open>Dictionaries\<close>

text \<open>
  A Python \<open>dict\<close> iterates in insertion order and storing under a key that is present
  keeps its position, so a dict is an association list; \<open>map_of\<close> looks a key up.
\<close>

fun dict_set :: "'k \<Rightarrow> 'v \<Rightarrow> ('k \<times> 'v) list \<Rightarrow> ('k \<times> 'v) list" where
  "dict_set k v [] = [(k, v)]"
| "dict_set k v ((k', v') # d) =
     (if k' = k then (k, v) # d else (k', v') # dict_set k v d)"

definition dict_pop :: "'k \<Rightarrow> ('k \<times> 'v) list \<Rightarrow> ('k \<times> 'v) list" where
  "dict_pop k d = [(k', v) \<leftarrow> d. k' \<noteq> k]"

definition has_key :: "'k \<Rightarrow> ('k \<times> 'v) list \<Rightarrow> bool" where
  "has_key k d = (map_of d k \<noteq> None)"

lemma map_of_dict_set [simp]: "map_of (dict_set k v d) = (map_of d)(k \<mapsto> v)"
  by (induction d) (auto simp: fun_eq_iff)

lemma dict_set_new: "k \<notin> fst ` set d \<Longrightarrow> dict_set k v d = d @ [(k, v)]"
  by (induction d) auto

lemma keys_dict_set: "fst ` set (dict_set k v d) = insert k (fst ` set d)"
proof (induction d)
  case (Cons p d)
  then show ?case by (cases p) (simp add: insert_commute)
qed simp

lemma distinct_keys_dict_set [simp]:
  "distinct (map fst (dict_set k v d)) = distinct (map fst d)"
proof (induction d)
  case (Cons p d)
  then show ?case by (cases p) (simp add: keys_dict_set)
qed simp

lemma map_of_dict_pop [simp]: "map_of (dict_pop k d) = (map_of d)(k := None)"
  by (induction d) (auto simp: dict_pop_def fun_eq_iff)

lemma distinct_keys_dict_pop: "distinct (map fst d) \<Longrightarrow> distinct (map fst (dict_pop k d))"
  by (induction d) (auto simp: dict_pop_def)

lemma set_dict_pop: "set (dict_pop k d) = {(k', v). (k', v) \<in> set d \<and> k' \<noteq> k}"
  by (auto simp: dict_pop_def)

lemma dict_set_values:
  assumes "\<And>v'. (k, v') \<in> set d \<Longrightarrow> v' = v"
  shows "set (dict_set k v d) = insert (k, v) (set d)"
  using assms
proof (induction d)
  case (Cons p d)
  obtain k' v' where p: "p = (k', v')" by (cases p)
  have IH: "set (dict_set k v d) = insert (k, v) (set d)" using Cons by auto
  show ?case
  proof (cases "k' = k")
    case True
    then have "v' = v" using Cons.prems [of v'] p by simp
    with True p show ?thesis by simp
  next
    case False
    with IH p show ?thesis by auto
  qed
qed simp

section \<open>The newest elements of a list\<close>

text \<open>
  \<open>ORDER BY key DESC\<close> and Python's \<open>sorted(..., reverse=True)\<close>, where no two elements
  have the same key.
\<close>

definition newest_first :: "('a \<Rightarrow> 'k::linorder) \<Rightarrow> 'a list \<Rightarrow> 'a list" where
  "newest_first key xs = rev (sort_key key xs)"

lemma set_newest_first [simp]: "set (newest_first key xs) = set xs"
  by (simp add: newest_first_def)

lemma distinct_newest_first [simp]: "distinct (newest_first key xs) = distinct xs"
  by (simp add: newest_first_def)

lemma length_newest_first [simp]: "length (newest_first key xs) = length xs"
  by (simp add: newest_first_def)

lemma newest_first_filter: "newest_first key (filter P xs) = filter P (newest_first key xs)"
  by (simp add: newest_first_def rev_filter [symmetric] filter_sort)

lemma insort_key_map: "insort_key f (g x) (map g xs) = map g (insort_key (\<lambda>x. f (g x)) x xs)"
  by (induction xs) auto

lemma sort_key_map: "sort_key f (map g xs) = map g (sort_key (\<lambda>x. f (g x)) xs)"
  by (induction xs) (auto simp: insort_key_map)

lemma newest_first_map: "newest_first f (map g xs) = map g (newest_first (\<lambda>x. f (g x)) xs)"
  by (simp add: newest_first_def sort_key_map rev_map)

lemma newest_first_sorted: "sorted (rev (map key (newest_first key xs)))"
  by (simp add: newest_first_def rev_map)

text \<open>Over distinct elements with distinct keys the order depends on the set alone.\<close>

lemma newest_first_unique:
  assumes "set xs = set ys" "distinct xs" "distinct ys" "inj_on key (set xs)"
  shows "newest_first key xs = newest_first key ys"
proof -
  have "map key (sort_key key xs) = map key (sort_key key ys)"
    using assms
    by (intro sorted_distinct_set_unique) (auto simp: distinct_map)
  then have "sort_key key xs = sort_key key ys"
    using assms by (intro map_inj_on [of key]) auto
  then show ?thesis by (simp add: newest_first_def)
qed

lemma take_filter_prefix:
  assumes "\<forall>x \<in> set (take k xs). P x"
  shows "take k (filter P xs) = take k xs"
proof -
  have "filter P xs = filter P (take k xs) @ filter P (drop k xs)"
    by (metis append_take_drop_id filter_append)
  also have "filter P (take k xs) = take k xs" using assms by simp
  finally show ?thesis by (cases "length xs \<le> k") auto
qed

lemma in_take_filter:
  assumes "x \<in> set (take k (filter P xs))" "Q x" "\<And>x. Q x \<Longrightarrow> P x"
  shows "x \<in> set (take k (filter Q xs))"
proof -
  let ?A = "filter P xs"
  have "filter Q xs = filter Q ?A" using assms(3) by (auto intro: filter_cong)
  also have "\<dots> = filter Q (take k ?A) @ filter Q (drop k ?A)"
    by (metis append_take_drop_id filter_append)
  finally have "filter Q xs = filter Q (take k ?A) @ filter Q (drop k ?A)" .
  moreover have "length (filter Q (take k ?A)) \<le> k"
    using length_filter_le [of Q "take k ?A"] by simp
  ultimately have "take k (filter Q xs)
      = filter Q (take k ?A) @ take (k - length (filter Q (take k ?A))) (filter Q (drop k ?A))"
    by simp
  with assms(1,2) show ?thesis by simp
qed

text \<open>
  Merging: the first \<open>k\<close> of each of several selections contain the first \<open>k\<close> of their
  union.
\<close>

theorem newest_of_merge:
  assumes ys: "distinct ys" "set ys = (\<Union>Q \<in> QS. set (take k (filter Q (newest_first key xs))))"
    and xs: "distinct xs" "inj_on key (set xs)"
  shows "take k (newest_first key ys)
    = take k (filter (\<lambda>x. \<exists>Q \<in> QS. Q x) (newest_first key xs))"
proof -
  let ?P = "\<lambda>x. \<exists>Q \<in> QS. Q x"
  let ?A = "filter ?P (newest_first key xs)"
  have sub: "set ys \<subseteq> set ?A"
    unfolding ys(2) by (auto dest!: in_set_takeD)
  have top: "set (take k ?A) \<subseteq> set ys"
  proof
    fix x assume x: "x \<in> set (take k ?A)"
    then have "x \<in> set ?A" by (rule in_set_takeD)
    then obtain Q where Q: "Q \<in> QS" "Q x" by auto
    then have "x \<in> set (take k (filter Q (newest_first key xs)))"
      using x in_take_filter [of x k ?P _ Q] by blast
    with Q ys(2) show "x \<in> set ys" by blast
  qed
  have eq: "newest_first key ys = newest_first key (filter (\<lambda>x. x \<in> set ys) (filter ?P xs))"
  proof (rule newest_first_unique)
    show "set ys = set (filter (\<lambda>x. x \<in> set ys) (filter ?P xs))" using sub by auto
    show "inj_on key (set ys)" using inj_on_subset [OF xs(2)] sub by auto
  qed (use ys(1) xs(1) in simp_all)
  have "take k (newest_first key ys) = take k (filter (\<lambda>x. x \<in> set ys) ?A)"
    unfolding eq by (simp only: newest_first_filter)
  also have "\<dots> = take k ?A"
    using top by (intro take_filter_prefix) auto
  finally show ?thesis .
qed

end
