(* ===== verification/Py_Values.thy ===== *)
theory Py_Values
  imports Spur_Base
begin

text \<open>
  The Python values the program handles: what \<open>json.loads\<close> can return. A \<open>bool\<close> is an
  \<open>int\<close> in Python (\<open>isinstance(True, int)\<close>), which the checks of the source rely on in
  both directions, so the two share the constructor \<open>VNum\<close>: \<open>isinstance(x, int)\<close> is
  "x is a \<open>VNum\<close>", \<open>type(x) is int\<close> is "x is a \<open>VNum (NInt _)\<close>".
  A finite float is \<open>m * 2 ^ e\<close> with odd \<open>m\<close>; the zeros, the infinities and NaN are
  constructors of their own.
\<close>

datatype pynum = NInt int | NBool bool

fun num_val :: "pynum \<Rightarrow> int" where
  "num_val (NInt i) = i"
| "num_val (NBool b) = (if b then 1 else 0)"

datatype pyfloat = FFin int int | FZero bool | FInf bool | FNan

datatype pyval =
    VNone
  | VNum pynum
  | VFloat pyfloat
  | VStr pystr
  | VList "pyval list"
  | VDict "(pystr \<times> pyval) list"

type_synonym pydict = "(pystr \<times> pyval) list"

abbreviation VInt :: "int \<Rightarrow> pyval" where
  "VInt i \<equiv> VNum (NInt i)"

abbreviation vlit :: "string \<Rightarrow> pyval" where
  "vlit s \<equiv> VStr (lit s)"

section \<open>isinstance and type tests\<close>

fun is_num :: "pyval \<Rightarrow> bool" where
  "is_num (VNum _) = True"
| "is_num _ = False"

fun is_str :: "pyval \<Rightarrow> bool" where
  "is_str (VStr _) = True"
| "is_str _ = False"

fun as_int :: "pyval \<Rightarrow> int option" where
  "as_int (VNum (NInt i)) = Some i"
| "as_int _ = None"

fun the_str :: "pyval \<Rightarrow> pystr" where
  "the_str (VStr s) = s"
| "the_str _ = []"

fun the_num :: "pyval \<Rightarrow> pynum" where
  "the_num (VNum n) = n"
| "the_num _ = NInt 0"

text \<open>The strings of a list, if it is a list of strings: \<open>_is_string_list\<close>'s guard.\<close>

fun str_items :: "pyval list \<Rightarrow> pystr list option" where
  "str_items [] = Some []"
| "str_items (VStr s # vs) = map_option (Cons s) (str_items vs)"
| "str_items (_ # vs) = None"

fun num_items :: "pyval list \<Rightarrow> pynum list option" where
  "num_items [] = Some []"
| "num_items (VNum n # vs) = map_option (Cons n) (num_items vs)"
| "num_items (_ # vs) = None"

lemma map_VStr_inject [simp]: "map VStr xs = map VStr ys \<longleftrightarrow> xs = ys"
  by (rule inj_map_eq_map) (simp add: inj_def)

lemma map_VNum_inject [simp]: "map VNum xs = map VNum ys \<longleftrightarrow> xs = ys"
  by (rule inj_map_eq_map) (simp add: inj_def)

lemma str_items_map [simp]: "str_items (map VStr ss) = Some ss"
  by (induction ss) auto

lemma num_items_map [simp]: "num_items (map VNum ns) = Some ns"
  by (induction ns) auto

lemma str_items_Some_iff: "str_items vs = Some ss \<longleftrightarrow> vs = map VStr ss"
  by (induction vs arbitrary: ss rule: str_items.induct) auto

lemma num_items_Some_iff: "num_items vs = Some ns \<longleftrightarrow> vs = map VNum ns"
  by (induction vs arbitrary: ns rule: num_items.induct) auto

section \<open>Decimal text of integers\<close>

text \<open>\<open>int.__repr__\<close>.\<close>

fun nat_text :: "nat \<Rightarrow> pystr" where
  "nat_text n = (if n < 10 then [48 + n] else nat_text (n div 10) @ [48 + n mod 10])"

declare nat_text.simps [simp del]

definition int_text :: "int \<Rightarrow> pystr" where
  "int_text i = (if i < 0 then 45 # nat_text (nat (- i)) else nat_text (nat i))"

text \<open>\<open>str(n)\<close> of an \<open>int\<close> or \<open>bool\<close>.\<close>

fun num_str :: "pynum \<Rightarrow> pystr" where
  "num_str (NInt i) = int_text i"
| "num_str (NBool b) = (if b then lit ''True'' else lit ''False'')"

lemma nat_text_nonempty [simp]: "nat_text n \<noteq> []"
  by (subst nat_text.simps) simp

lemma nat_text_digits: "c \<in> set (nat_text n) \<Longrightarrow> 48 \<le> c \<and> c \<le> 57"
proof (induction n rule: nat_text.induct)
  case (1 n)
  then show ?case
    by (subst (asm) (2) nat_text.simps) (auto split: if_splits)
qed

text \<open>The value of a digit string; \<open>nat_text\<close> is its right inverse.\<close>

definition digits_val :: "pystr \<Rightarrow> nat" where
  "digits_val ds = foldl (\<lambda>a d. a * 10 + (d - 48)) 0 ds"

lemma digits_val_nat_text [simp]: "digits_val (nat_text n) = n"
proof (induction n rule: nat_text.induct)
  case (1 n)
  show ?case
  proof (cases "n < 10")
    case True
    then show ?thesis by (subst nat_text.simps) (simp add: digits_val_def)
  next
    case False
    with "1.IH" have "digits_val (nat_text (n div 10)) = n div 10" by simp
    with False show ?thesis
      by (subst nat_text.simps) (simp add: digits_val_def)
  qed
qed

lemma nat_text_inject [simp]: "nat_text m = nat_text n \<longleftrightarrow> m = n"
  by (metis digits_val_nat_text)

lemma hd_nat_text: "hd (nat_text n) = 48 \<longleftrightarrow> n = 0"
proof (induction n rule: nat_text.induct)
  case (1 n)
  show ?case
  proof (cases "n < 10")
    case True
    then show ?thesis by (subst nat_text.simps) simp
  next
    case False
    with "1.IH" show ?thesis by (subst nat_text.simps) (simp add: hd_append)
  qed
qed

section \<open>Hexadecimal strings\<close>

definition hex_digit :: "nat \<Rightarrow> bool" where
  "hex_digit c = (48 \<le> c \<and> c \<le> 57 \<or> 97 \<le> c \<and> c \<le> 102)"

definition hex_char :: "nat \<Rightarrow> nat" where
  "hex_char d = (if d < 10 then 48 + d else 87 + d)"

lemma hex_digit_hex_char [simp]: "d < 16 \<Longrightarrow> hex_digit (hex_char d)"
  by (auto simp: hex_digit_def hex_char_def)

text \<open>The test \<open>char in "0123456789abcdef"\<close> of the source is \<open>hex_digit\<close>.\<close>

lemma hex_digit_iff: "hex_digit c \<longleftrightarrow> c \<in> set (lit ''0123456789abcdef'')"
proof -
  have "set (lit ''0123456789abcdef'') = {48..57} \<union> {97..102}"
    by (simp add: lit_def atLeastAtMost_insertL [symmetric] eval_nat_numeral) auto
  then show ?thesis by (auto simp: hex_digit_def)
qed

end
