(* ===== verification/Py_Float.thy ===== *)
theory Py_Float
  imports Py_Values
begin

text \<open>
  The two conversions the JSON text of a float needs: \<open>float(token)\<close> (correctly rounded
  to IEEE binary64, ties to even) and \<open>float.__repr__\<close> (the shortest decimal text that
  reads back as the same float). The program computes nothing with floats it reads, but a
  float in a signed JSON body is re-encoded when the body is compared with its canonical
  text, so the model prints it as Python does.
\<close>

fun bitlen :: "nat \<Rightarrow> nat" where
  "bitlen n = (if n = 0 then 0 else Suc (bitlen (n div 2)))"

declare bitlen.simps [simp del]

fun strip2 :: "nat \<Rightarrow> int \<Rightarrow> nat \<times> int" where
  "strip2 m e = (if m \<noteq> 0 \<and> even m then strip2 (m div 2) (e + 1) else (m, e))"

declare strip2.simps [simp del]

definition round_div :: "nat \<Rightarrow> nat \<Rightarrow> nat" where
  "round_div n d =
     (let q = n div d; r = n mod d
      in if d < 2 * r \<or> (2 * r = d \<and> odd q) then q + 1 else q)"

text \<open>The ratio \<open>n / (d * b ^ e)\<close> as a numerator and a denominator.\<close>

definition scale :: "nat \<Rightarrow> nat \<Rightarrow> nat \<Rightarrow> int \<Rightarrow> nat \<times> nat" where
  "scale b n d e = (if 0 \<le> e then (n, d * b ^ nat e) else (n * b ^ nat (- e), d))"

definition float_of_ratio :: "bool \<Rightarrow> nat \<Rightarrow> nat \<Rightarrow> pyfloat" where
  "float_of_ratio neg n d =
     (if n = 0 then FZero neg
      else
        let k0 = int (bitlen n) - int (bitlen d);
            k = (case scale 2 n d k0 of (a, b) \<Rightarrow> if b \<le> a then k0 else k0 - 1);
            e = max (k - 52) (- 1074);
            q = (case scale 2 n d e of (a, b) \<Rightarrow> round_div a b)
        in if q = 0 then FZero neg
           else if 1024 < int (bitlen q) + e then FInf neg
           else (case strip2 q e of
                   (m, x) \<Rightarrow> FFin (if neg then - int m else int m) x))"

text \<open>\<open>digits * 10 ^ x\<close>\<close>

definition float_of_decimal :: "bool \<Rightarrow> nat \<Rightarrow> int \<Rightarrow> pyfloat" where
  "float_of_decimal neg n x =
     (case scale 10 n 1 (- x) of (a, b) \<Rightarrow> float_of_ratio neg a b)"

fun float_ratio :: "pyfloat \<Rightarrow> nat \<times> nat" where
  "float_ratio (FFin m e) = scale 2 (nat \<bar>m\<bar>) 1 (- e)"
| "float_ratio _ = (0, 1)"

text \<open>
  The candidates with \<open>n\<close> significant digits around the value \<open>a / b\<close>, whose decimal
  point is at \<open>p\<close>: the one nearest to it that reads back as the float, if any does.
\<close>

definition repr_try :: "pyfloat \<Rightarrow> int \<Rightarrow> nat \<Rightarrow> nat option" where
  "repr_try f p n =
     (let (a, b) = float_ratio f;
          (u, v) = scale 10 a b (p - int n);
          lo = u div v; hi = lo + 1;
          ok = (\<lambda>c. float_of_decimal False c (p - int n) = f);
          near = (if 2 * (u mod v) < v \<or> (2 * (u mod v) = v \<and> even lo) then lo else hi);
          far = (if near = lo then hi else lo)
      in if ok near then Some near else if ok far then Some far else None)"

fun repr_search :: "pyfloat \<Rightarrow> int \<Rightarrow> nat \<Rightarrow> nat list \<Rightarrow> nat \<times> nat" where
  "repr_search f p n [] = (0, n)"
| "repr_search f p n (k # ks) =
     (case repr_try f p k of Some c \<Rightarrow> (c, k) | None \<Rightarrow> repr_search f p n ks)"

definition strip_zeros :: "pystr \<Rightarrow> pystr" where
  "strip_zeros s = rev (dropWhile (\<lambda>c. c = 48) (rev s))"

definition repr_digits :: "pystr \<Rightarrow> int \<Rightarrow> pystr" where
  "repr_digits ds p =
     (if - 4 < p \<and> p \<le> 16 then
        (if p \<le> 0 then lit ''0.'' @ replicate (nat (- p)) 48 @ ds
         else if int (length ds) \<le> p
           then ds @ replicate (nat p - length ds) 48 @ lit ''.0''
         else take (nat p) ds @ lit ''.'' @ drop (nat p) ds)
      else
        (let x = p - 1; xs = nat_text (nat \<bar>x\<bar>)
         in take 1 ds @ (if length ds = 1 then [] else lit ''.'' @ drop 1 ds)
            @ lit ''e'' @ (if x < 0 then lit ''-'' else lit ''+'')
            @ (if length xs < 2 then 48 # xs else xs)))"

text \<open>The text \<open>json.dumps\<close> writes for a float.\<close>

fun float_text :: "pyfloat \<Rightarrow> pystr" where
  "float_text (FInf neg) = (if neg then lit ''-Infinity'' else lit ''Infinity'')"
| "float_text FNan = lit ''NaN''"
| "float_text (FZero neg) = (if neg then lit ''-0.0'' else lit ''0.0'')"
| "float_text (FFin m e) =
     (let f = FFin \<bar>m\<bar> e;
          (a, b) = float_ratio f;
          p0 = int (length (nat_text a)) - int (length (nat_text b));
          p = (case scale 10 a b p0 of (u, v) \<Rightarrow> if v \<le> u then p0 + 1 else p0);
          (c, n) = repr_search f p 17 [1..<18];
          cs = nat_text c
      in (if m < 0 then lit ''-'' else [])
         @ repr_digits (strip_zeros cs) (p + int (length cs) - int n))"

end
