(* ===== verification/Py_Bytes.thy ===== *)
theory Py_Bytes
  imports Py_Values "HOL-Library.Word"
begin

text \<open>
  Bytes: the UTF-8 encoding of a string (\<open>str.encode("utf-8")\<close>, which raises for a
  surrogate), \<open>bytes.fromhex\<close> and \<open>bytes.hex\<close>.
\<close>

type_synonym byte = "8 word"

section \<open>UTF-8\<close>

text \<open>Unicode scalar values: the code points UTF-8 can encode.\<close>

definition scalar :: "nat \<Rightarrow> bool" where
  "scalar c = (c < 55296 \<or> 57344 \<le> c \<and> c < 1114112)"

definition encodable :: "pystr \<Rightarrow> bool" where
  "encodable s = list_all scalar s"

definition utf8_char :: "nat \<Rightarrow> nat list" where
  "utf8_char c =
     (if c < 128 then [c]
      else if c < 2048 then [192 + c div 64, 128 + c mod 64]
      else if c < 65536 then [224 + c div 4096, 128 + c div 64 mod 64, 128 + c mod 64]
      else [240 + c div 262144, 128 + c div 4096 mod 64, 128 + c div 64 mod 64,
            128 + c mod 64])"

definition utf8_encode :: "pystr \<Rightarrow> byte list res" where
  "utf8_encode s =
     (if encodable s then Inr (map word_of_nat (concat (map utf8_char s)))
      else Inl UnicodeEncodeError)"

lemma encodable_simps [simp, enc_simps]:
  "encodable []"
  "encodable (c # s) \<longleftrightarrow> scalar c \<and> encodable s"
  "encodable (s @ t) \<longleftrightarrow> encodable s \<and> encodable t"
  by (auto simp: encodable_def)

lemma encodable_concat [enc_simps]: "encodable (concat ss) \<longleftrightarrow> list_all encodable ss"
  by (induction ss) auto

lemma scalar_small [simp, enc_simps]: "c < 55296 \<Longrightarrow> scalar c"
  by (simp add: scalar_def)

lemma of_char_bound: "(of_char c :: nat) < 256"
proof -
  have "of_char c mod 256 < (256 :: nat)" by (rule mod_less_divisor) simp
  then show ?thesis by simp
qed

lemma encodable_lit [simp, enc_simps]: "encodable (lit s)"
proof (induction s)
  case (Cons c s)
  have "(of_char c :: nat) < 55296" using of_char_bound [of c] by linarith
  with Cons show ?case by (simp add: lit_def)
qed simp

lemma utf8_encode_Inr [simp]:
  "encodable s \<Longrightarrow> utf8_encode s = Inr (map word_of_nat (concat (map utf8_char s)))"
  by (simp add: utf8_encode_def)

lemma utf8_encode_eq_Inl: "utf8_encode s = Inl e \<longleftrightarrow> \<not> encodable s \<and> e = UnicodeEncodeError"
  by (auto simp: utf8_encode_def)

lemma utf8_char_bytes: "scalar c \<Longrightarrow> b \<in> set (utf8_char c) \<Longrightarrow> b < 256"
  by (auto simp: utf8_char_def scalar_def split: if_splits)

text \<open>The encodings form a prefix code, so a string is determined by its bytes.\<close>

lemma utf8_char_decode:
  assumes "scalar c"
  shows "c = (case utf8_char c of
      [a] \<Rightarrow> a
    | [a, b] \<Rightarrow> (a - 192) * 64 + (b - 128)
    | [a, b, d] \<Rightarrow> (a - 224) * 4096 + (b - 128) * 64 + (d - 128)
    | [a, b, d, e] \<Rightarrow> (a - 240) * 262144 + (b - 128) * 4096 + (d - 128) * 64 + (e - 128)
    | _ \<Rightarrow> 0)"
proof -
  define p q r where "p = c div 64" and "q = p div 64" and "r = q div 64"
  have eqs: "c = 64 * p + c mod 64" "p = 64 * q + p mod 64" "q = 64 * r + q mod 64"
    by (simp_all add: p_def q_def r_def)
  have "utf8_char c =
     (if c < 128 then [c] else if c < 2048 then [192 + p, 128 + c mod 64]
      else if c < 65536 then [224 + q, 128 + p mod 64, 128 + c mod 64]
      else [240 + r, 128 + q mod 64, 128 + p mod 64, 128 + c mod 64])"
    by (simp add: utf8_char_def p_def q_def r_def flip: div_mult2_eq)
  with eqs show ?thesis by simp
qed

lemma utf8_char_nonempty [simp]: "utf8_char c \<noteq> []"
  by (simp add: utf8_char_def)

lemma utf8_char_length:
  assumes "scalar c"
  shows "length (utf8_char c) =
    (let b = hd (utf8_char c) in if b < 128 then 1 else if b < 224 then 2 else if b < 240 then 3 else 4)"
proof -
  have "c < 2048 \<Longrightarrow> c div 64 < 32" "c < 65536 \<Longrightarrow> c div 4096 < 16"
    by (simp_all add: less_mult_imp_div_less)
  then show ?thesis by (simp add: utf8_char_def)
qed

lemma utf8_char_prefix:
  assumes "scalar c" "scalar d" "utf8_char c @ s = utf8_char d @ t"
  shows "c = d \<and> s = t"
proof -
  have "hd (utf8_char c) = hd (utf8_char d)"
    using assms(3) by (metis hd_append2 utf8_char_nonempty)
  then have "length (utf8_char c) = length (utf8_char d)"
    using assms(1,2) by (simp add: utf8_char_length)
  with assms(3) have "utf8_char c = utf8_char d \<and> s = t" by simp
  with utf8_char_decode [OF assms(1)] utf8_char_decode [OF assms(2)] show ?thesis by metis
qed

lemma utf8_concat_inject:
  "encodable s \<Longrightarrow> encodable t \<Longrightarrow>
   concat (map utf8_char s) = concat (map utf8_char t) \<Longrightarrow> s = t"
proof (induction s arbitrary: t)
  case (Cons c s)
  show ?case
  proof (cases t)
    case (Cons d u)
    have "c = d \<and> concat (map utf8_char s) = concat (map utf8_char u)"
      by (rule utf8_char_prefix) (use Cons.prems Cons in simp_all)
    with Cons.IH [of u] Cons.prems Cons show ?thesis by simp
  qed (use Cons.prems in simp)
qed simp

theorem utf8_encode_inject:
  assumes "utf8_encode s = Inr b" "utf8_encode t = Inr b"
  shows "s = t"
proof -
  have e: "encodable s" "encodable t" using assms by (auto simp: utf8_encode_def split: if_splits)
  let ?bytes = "\<lambda>s. concat (map utf8_char s)"
  have small: "encodable u \<Longrightarrow> x \<in> set (?bytes u) \<Longrightarrow> x < 256" for u x
    by (auto simp: encodable_def list_all_iff dest: utf8_char_bytes)
  have "map word_of_nat (?bytes s) = (map word_of_nat (?bytes t) :: byte list)"
    using assms e by simp
  then have "map unat (map word_of_nat (?bytes s) :: byte list)
      = map unat (map word_of_nat (?bytes t) :: byte list)" by simp
  moreover have "map unat (map word_of_nat (?bytes u) :: byte list) = ?bytes u"
    if "encodable u" for u
    unfolding map_map by (rule map_idI) (use small [OF that] in \<open>simp add: unat_of_nat\<close>)
  ultimately show ?thesis using e by (simp add: utf8_concat_inject)
qed

section \<open>Hexadecimal text of bytes\<close>

definition byte_hex :: "byte \<Rightarrow> pystr" where
  "byte_hex b = [hex_char (unat b div 16), hex_char (unat b mod 16)]"

definition bytes_hex :: "byte list \<Rightarrow> pystr" where
  "bytes_hex bs = concat (map byte_hex bs)"

definition hex_value :: "nat \<Rightarrow> nat option" where
  "hex_value c =
     (if 48 \<le> c \<and> c \<le> 57 then Some (c - 48)
      else if 97 \<le> c \<and> c \<le> 102 then Some (c - 87)
      else if 65 \<le> c \<and> c \<le> 70 then Some (c - 55)
      else None)"

text \<open>
  \<open>bytes.fromhex\<close> accepts both cases and skips ASCII white space between bytes; anything
  else is a \<open>ValueError\<close>.
\<close>

definition ascii_space :: "nat \<Rightarrow> bool" where
  "ascii_space c = (c = 32 \<or> 9 \<le> c \<and> c \<le> 13)"

fun bytes_fromhex :: "pystr \<Rightarrow> byte list res" where
  "bytes_fromhex [] = Inr []"
| "bytes_fromhex [c] =
     (if ascii_space c then Inr [] else Inl (ValueError (lit ''non-hexadecimal number'')))"
| "bytes_fromhex (c # d # s) =
     (if ascii_space c then bytes_fromhex (d # s)
      else case (hex_value c, hex_value d) of
             (Some h, Some l) \<Rightarrow>
               rbind (bytes_fromhex s) (\<lambda>bs. Inr (word_of_nat (16 * h + l) # bs))
           | _ \<Rightarrow> Inl (ValueError (lit ''non-hexadecimal number'')))"

lemma length_bytes_hex [simp]: "length (bytes_hex bs) = 2 * length bs"
  by (induction bs) (auto simp: bytes_hex_def byte_hex_def)

lemma nibble_bounds: "unat (b :: byte) div 16 < 16" "unat b mod 16 < 16"
proof -
  have "unat b < 2 ^ LENGTH(8)" by (rule unsigned_less)
  then have "unat b < 256" by simp
  then show "unat b div 16 < 16" by (rule less_mult_imp_div_less [of _ 16 16, simplified])
  show "unat b mod 16 < 16" by simp
qed

lemma bytes_hex_digits: "list_all hex_digit (bytes_hex bs)"
proof (induction bs)
  case (Cons b bs)
  with nibble_bounds [of b] show ?case by (simp add: bytes_hex_def byte_hex_def)
qed (simp add: bytes_hex_def)

lemma hex_value_hex_digit: "hex_digit c \<Longrightarrow> \<exists>h. hex_value c = Some h"
  by (auto simp: hex_digit_def hex_value_def)

lemma hex_digit_not_space: "hex_digit c \<Longrightarrow> \<not> ascii_space c"
  by (auto simp: hex_digit_def ascii_space_def)

lemma hex_value_hex_char [simp]: "d < 16 \<Longrightarrow> hex_value (hex_char d) = Some d"
  by (auto simp: hex_value_def hex_char_def)

lemma fromhex_pair:
  assumes "hex_digit c" "hex_digit d"
  shows "\<exists>b. bytes_fromhex (c # d # s) = rbind (bytes_fromhex s) (\<lambda>bs. Inr (b # bs))"
proof -
  from assms obtain h l where "hex_value c = Some h" "hex_value d = Some l"
    using hex_value_hex_digit by blast
  then show ?thesis using assms(1) by (auto simp: hex_digit_not_space)
qed

lemma fromhex_of_hex:
  "list_all hex_digit s \<Longrightarrow> even (length s)
    \<Longrightarrow> \<exists>bs. bytes_fromhex s = Inr bs \<and> 2 * length bs = length s"
proof (induction "length s" arbitrary: s rule: less_induct)
  case less
  show ?case
  proof (cases s rule: bytes_fromhex.cases)
    case (3 c d t)
    with less.prems less.hyps [of t] obtain bs where bs: "bytes_fromhex t = Inr bs" "2 * length bs = length t"
      by (auto simp del: bytes_fromhex.simps)
    from 3 less.prems obtain b
      where "bytes_fromhex s = rbind (bytes_fromhex t) (\<lambda>bs. Inr (b # bs))"
      using fromhex_pair [of c d t] by (auto simp del: bytes_fromhex.simps)
    with bs 3 show ?thesis by simp
  qed (use less in auto)
qed

text \<open>Decoding undoes encoding.\<close>

lemma fromhex_bytes_hex [simp]: "bytes_fromhex (bytes_hex bs) = Inr bs"
proof (induction bs)
  case (Cons b bs)
  note d = nibble_bounds [of b]
  then have "\<not> ascii_space (hex_char (unat b div 16))"
    by (intro hex_digit_not_space hex_digit_hex_char)
  moreover have "word_of_nat (16 * (unat b div 16) + unat b mod 16) = b"
    by simp
  ultimately show ?case using Cons d
    by (simp add: bytes_hex_def byte_hex_def)
qed (simp add: bytes_hex_def)

end
