(* ===== verification/Py_Json.thy ===== *)
theory Py_Json
  imports Py_Float Py_Bytes
begin

text \<open>
  Python's \<open>json\<close> module as the program uses it: \<open>json.dumps\<close> with
  \<open>ensure_ascii\<close>, \<open>sort_keys\<close> and the compact or default separators, and
  \<open>json.loads\<close> of a string. The reader follows the C scanner of CPython: strict strings,
  the surrogate pairs of \<open>\\u\<close> escapes joined, \<open>NaN\<close> and \<open>Infinity\<close> accepted, an
  integer of more than 4300 digits refused with a plain \<open>ValueError\<close>.

  The printer and the reader are inverse to each other on the values the program stores and
  signs (\<open>loads_dumps\<close>), which is what lets it compare a body with its canonical text and
  read back the events and jobs it keeps as JSON.
\<close>

section \<open>Printing\<close>

record json_style =
  ensure_ascii :: bool
  compact :: bool

definition hex4 :: "nat \<Rightarrow> pystr" where
  "hex4 u = [hex_char (u div 4096 mod 16), hex_char (u div 256 mod 16),
             hex_char (u div 16 mod 16), hex_char (u mod 16)]"

definition u_escape :: "nat \<Rightarrow> pystr" where
  "u_escape u = 92 # 117 # hex4 u"

definition json_char :: "bool \<Rightarrow> nat \<Rightarrow> pystr" where
  "json_char ascii c =
     (if c = 34 then [92, 34]
      else if c = 92 then [92, 92]
      else if c = 8 then [92, 98]
      else if c = 12 then [92, 102]
      else if c = 10 then [92, 110]
      else if c = 13 then [92, 114]
      else if c = 9 then [92, 116]
      else if c < 32 then u_escape c
      else if ascii \<and> 126 < c then
        (if c < 65536 then u_escape c
         else u_escape (55296 + (c - 65536) div 1024) @
              u_escape (56320 + (c - 65536) mod 1024))
      else [c])"

definition json_string :: "bool \<Rightarrow> pystr \<Rightarrow> pystr" where
  "json_string ascii s = 34 # concat (map (json_char ascii) s) @ [34]"

fun num_text :: "pynum \<Rightarrow> pystr" where
  "num_text (NInt i) = int_text i"
| "num_text (NBool b) = (if b then lit ''true'' else lit ''false'')"

fun join :: "pystr \<Rightarrow> pystr list \<Rightarrow> pystr" where
  "join sep [] = []"
| "join sep [x] = x"
| "join sep (x # y # xs) = x @ sep @ join sep (y # xs)"

text \<open>The separators are \<open>(",", ":")\<close> when compact and \<open>(", ", ": ")\<close> by default.\<close>

definition pad :: "json_style \<Rightarrow> pystr" where
  "pad o' = (if compact o' then [] else [32])"

abbreviation item_sep :: "json_style \<Rightarrow> pystr" where
  "item_sep o' \<equiv> 44 # pad o'"

abbreviation key_sep :: "json_style \<Rightarrow> pystr" where
  "key_sep o' \<equiv> 58 # pad o'"

fun dumps :: "json_style \<Rightarrow> pyval \<Rightarrow> pystr" where
  "dumps o' VNone = lit ''null''"
| "dumps o' (VNum n) = num_text n"
| "dumps o' (VFloat f) = float_text f"
| "dumps o' (VStr s) = json_string (ensure_ascii o') s"
| "dumps o' (VList vs) = 91 # join (item_sep o') (map (dumps o') vs) @ [93]"
| "dumps o' (VDict d) =
     123 # join (item_sep o')
       (map (\<lambda>(k, v). json_string (ensure_ascii o') k @ key_sep o' @ dumps o' v) d) @ [125]"

text \<open>
  \<open>sort_keys=True\<close> writes every dict in the order of its keys: the text is that of the
  value with its dicts sorted.
\<close>

fun sort_keys :: "pyval \<Rightarrow> pyval" where
  "sort_keys (VList vs) = VList (map sort_keys vs)"
| "sort_keys (VDict d) = VDict (sort_key fst (map (\<lambda>(k, v). (k, sort_keys v)) d))"
| "sort_keys v = v"

definition style_raw :: json_style where
  "style_raw = \<lparr>ensure_ascii = False, compact = True\<rparr>"

definition style_ascii :: json_style where
  "style_ascii = \<lparr>ensure_ascii = True, compact = True\<rparr>"

definition style_default :: json_style where
  "style_default = \<lparr>ensure_ascii = True, compact = False\<rparr>"

lemma style_simps [simp]:
  "ensure_ascii style_raw = False" "pad style_raw = []"
  "ensure_ascii style_ascii = True" "pad style_ascii = []"
  "ensure_ascii style_default = True" "pad style_default = [32]"
  by (simp_all add: style_raw_def style_ascii_def style_default_def pad_def)

section \<open>Reading\<close>

definition ws :: "nat \<Rightarrow> bool" where
  "ws c = (c = 32 \<or> c = 9 \<or> c = 10 \<or> c = 13)"

abbreviation skip_ws :: "pystr \<Rightarrow> pystr" where
  "skip_ws s \<equiv> dropWhile ws s"

definition digit :: "nat \<Rightarrow> bool" where
  "digit c = (48 \<le> c \<and> c \<le> 57)"

definition read_hex4 :: "nat \<Rightarrow> nat \<Rightarrow> nat \<Rightarrow> nat \<Rightarrow> nat option" where
  "read_hex4 a b c d =
     (case (hex_value a, hex_value b, hex_value c, hex_value d) of
        (Some a, Some b, Some c, Some d) \<Rightarrow> Some (((a * 16 + b) * 16 + c) * 16 + d)
      | _ \<Rightarrow> None)"

fun simple_escape :: "nat \<Rightarrow> nat option" where
  "simple_escape e =
     (if e = 34 \<or> e = 92 \<or> e = 47 then Some e
      else if e = 98 then Some 8 else if e = 102 then Some 12
      else if e = 110 then Some 10 else if e = 114 then Some 13
      else if e = 116 then Some 9 else None)"

declare simple_escape.simps [simp del]

definition is_high :: "nat \<Rightarrow> bool" where
  "is_high u = (55296 \<le> u \<and> u \<le> 56319)"

definition is_low :: "nat \<Rightarrow> bool" where
  "is_low u = (56320 \<le> u \<and> u \<le> 57343)"

definition join_pair :: "nat \<Rightarrow> nat \<Rightarrow> nat" where
  "join_pair h l = 65536 + (h - 55296) * 1024 + (l - 56320)"

text \<open>
  The characters after the opening quote: the string and what follows the closing quote.
  A high surrogate escape takes the low one after it along; any other is kept as it is.
\<close>

definition consr :: "nat \<Rightarrow> (pystr \<times> pystr) res \<Rightarrow> (pystr \<times> pystr) res" where
  "consr c m = (case m of Inl e \<Rightarrow> Inl e | Inr (s, r) \<Rightarrow> Inr (c # s, r))"

fun scan_string :: "pystr \<Rightarrow> (pystr \<times> pystr) res" where
  "scan_string [] = Inl JSONDecodeError"
| "scan_string (c # s) =
     (if c = 34 then Inr ([], s)
      else if c < 32 then Inl JSONDecodeError
      else if c \<noteq> 92 then consr c (scan_string s)
      else (case s of
          [] \<Rightarrow> Inl JSONDecodeError
        | e # s1 \<Rightarrow>
            if e = 117 then
              (case s1 of
                 h1 # h2 # h3 # h4 # s2 \<Rightarrow>
                   (case read_hex4 h1 h2 h3 h4 of
                      None \<Rightarrow> Inl JSONDecodeError
                    | Some u \<Rightarrow>
                        (case s2 of
                           b # e' # g1 # g2 # g3 # g4 # s3 \<Rightarrow>
                             if is_high u \<and> b = 92 \<and> e' = 117 then
                               (case read_hex4 g1 g2 g3 g4 of
                                  None \<Rightarrow> Inl JSONDecodeError
                                | Some l \<Rightarrow>
                                    if is_low l then consr (join_pair u l) (scan_string s3)
                                    else consr u (scan_string s2))
                             else consr u (scan_string s2)
                         | _ \<Rightarrow> consr u (scan_string s2)))
               | _ \<Rightarrow> Inl JSONDecodeError)
            else (case simple_escape e of
                    None \<Rightarrow> Inl JSONDecodeError
                  | Some c' \<Rightarrow> consr c' (scan_string s1))))"

declare scan_string.simps(2) [simp del]

text \<open>The number token: its integer digits, then optional fraction and exponent.\<close>

definition take_digits :: "pystr \<Rightarrow> pystr \<times> pystr" where
  "take_digits s = (takeWhile digit s, dropWhile digit s)"

definition scan_int :: "pystr \<Rightarrow> (pystr \<times> pystr) option" where
  "scan_int s =
     (case s of
        [] \<Rightarrow> None
      | c # r \<Rightarrow> if c = 48 then Some ([48], r)
                 else if digit c then Some (take_digits s) else None)"

definition scan_frac :: "pystr \<Rightarrow> (pystr \<times> pystr) option" where
  "scan_frac s =
     (case s of
        c # d # r \<Rightarrow> if c = 46 \<and> digit d then Some (take_digits (d # r)) else None
      | _ \<Rightarrow> None)"

definition scan_exp :: "pystr \<Rightarrow> (int \<times> pystr) option" where
  "scan_exp s =
     (case s of
        c # r \<Rightarrow>
          if c = 101 \<or> c = 69 then
            (let (neg, r1) = (case r of
                                x # r' \<Rightarrow> if x = 45 then (True, r')
                                           else if x = 43 then (False, r') else (False, r)
                              | [] \<Rightarrow> (False, r));
                 (ds, r2) = take_digits r1
             in if ds = [] then None
                else Some (if neg then - int (digits_val ds) else int (digits_val ds), r2))
          else None
      | [] \<Rightarrow> None)"

definition scan_number :: "bool \<Rightarrow> pystr \<Rightarrow> (pyval \<times> pystr) res" where
  "scan_number neg s =
     (case scan_int s of
        None \<Rightarrow> Inl JSONDecodeError
      | Some (ds, r) \<Rightarrow>
          let (fs, r1) = (case scan_frac r of None \<Rightarrow> ([], r) | Some p \<Rightarrow> p);
              (x, r2) = (case scan_exp r1 of None \<Rightarrow> (0, r1) | Some p \<Rightarrow> p)
          in if scan_frac r = None \<and> scan_exp r = None then
               (if 4300 < length ds then Inl (ValueError (lit ''Exceeds the limit (4300 digits)''))
                else Inr (VInt (if neg then - int (digits_val ds) else int (digits_val ds)), r))
             else Inr (VFloat (float_of_decimal neg (digits_val (ds @ fs))
                                 (x - int (length fs))), r2))"

text \<open>
  The recursive readers take fuel that bounds the depth of the calls; \<open>loads\<close> gives twice
  the length of the text, which is always enough. CPython's own limit
  on nesting, its recursion limit, is not modelled; \<open>RecursionError\<close> below stands for the fuel
  running out and is never the result of \<open>loads\<close> (\<open>loads_no_fuel_error\<close>).
\<close>

definition dict_of_pairs :: "(pystr \<times> pyval) list \<Rightarrow> pydict" where
  "dict_of_pairs ps = fold (\<lambda>(k, v). dict_set k v) ps []"

fun parse_value :: "nat \<Rightarrow> pystr \<Rightarrow> (pyval \<times> pystr) res"
  and parse_elems :: "nat \<Rightarrow> pystr \<Rightarrow> (pyval list \<times> pystr) res"
  and parse_members :: "nat \<Rightarrow> pystr \<Rightarrow> ((pystr \<times> pyval) list \<times> pystr) res"
where
  "parse_value 0 s = Inl RecursionError"
| "parse_value (Suc n) s =
     (case s of
        [] \<Rightarrow> Inl JSONDecodeError
      | c # r \<Rightarrow>
          if c = 34 then
            rbind (scan_string r) (\<lambda>(t, r'). Inr (VStr t, r'))
          else if c = 123 then
            (case skip_ws r of
               [] \<Rightarrow> Inl JSONDecodeError
             | d # r' \<Rightarrow>
                 if d = 125 then Inr (VDict [], r')
                 else rbind (parse_members n (d # r'))
                        (\<lambda>(ps, r2). Inr (VDict (dict_of_pairs ps), r2)))
          else if c = 91 then
            (case skip_ws r of
               [] \<Rightarrow> Inl JSONDecodeError
             | d # r' \<Rightarrow>
                 if d = 93 then Inr (VList [], r')
                 else rbind (parse_elems n (d # r')) (\<lambda>(vs, r2). Inr (VList vs, r2)))
          else if startswith s (lit ''null'') then Inr (VNone, drop 4 s)
          else if startswith s (lit ''true'') then Inr (VNum (NBool True), drop 4 s)
          else if startswith s (lit ''false'') then Inr (VNum (NBool False), drop 5 s)
          else if startswith s (lit ''NaN'') then Inr (VFloat FNan, drop 3 s)
          else if startswith s (lit ''Infinity'') then Inr (VFloat (FInf False), drop 8 s)
          else if startswith s (lit ''-Infinity'') then Inr (VFloat (FInf True), drop 9 s)
          else if c = 45 then scan_number True r
          else scan_number False s)"
| "parse_elems 0 s = Inl RecursionError"
| "parse_elems (Suc n) s =
     rbind (parse_value n s) (\<lambda>(v, r).
       (case skip_ws r of
          [] \<Rightarrow> Inl JSONDecodeError
        | d # r' \<Rightarrow>
            if d = 93 then Inr ([v], r')
            else if d = 44 then
              rbind (parse_elems n (skip_ws r')) (\<lambda>(vs, r2). Inr (v # vs, r2))
            else Inl JSONDecodeError))"
| "parse_members 0 s = Inl RecursionError"
| "parse_members (Suc n) s =
     (case s of
        [] \<Rightarrow> Inl JSONDecodeError
      | q # r \<Rightarrow>
          if q \<noteq> 34 then Inl JSONDecodeError
          else rbind (scan_string r) (\<lambda>(k, r1).
            (case skip_ws r1 of
               [] \<Rightarrow> Inl JSONDecodeError
             | d # r2 \<Rightarrow>
                 if d \<noteq> 58 then Inl JSONDecodeError
                 else rbind (parse_value n (skip_ws r2)) (\<lambda>(v, r3).
                   (case skip_ws r3 of
                      [] \<Rightarrow> Inl JSONDecodeError
                    | d' # r4 \<Rightarrow>
                        if d' = 125 then Inr ([(k, v)], r4)
                        else if d' = 44 then
                          rbind (parse_members n (skip_ws r4))
                            (\<lambda>(ps, r5). Inr ((k, v) # ps, r5))
                        else Inl JSONDecodeError)))))"

definition loads :: "pystr \<Rightarrow> pyval res" where
  "loads s =
     (if startswith s [65279] then Inl JSONDecodeError
      else rbind (parse_value (2 * length s + 2) (skip_ws s)) (\<lambda>(v, r).
             if skip_ws r = [] then Inr v else Inl JSONDecodeError))"

declare dropWhile_eq_Nil_conv [simp del]

section \<open>The readers consume their input\<close>

lemma consr_eq_Inr: "consr c m = Inr (s, r) \<longleftrightarrow> (\<exists>t. s = c # t \<and> m = Inr (t, r))"
  by (cases m) (auto simp: consr_def)

lemma consr_eq_Inl: "consr c m = Inl e \<longleftrightarrow> m = Inl e"
  by (cases m) (auto simp: consr_def)

lemma scan_string_shorter: "scan_string s = Inr (t, r) \<Longrightarrow> length r < length s"
proof (induction "length s" arbitrary: s t rule: less_induct)
  case less
  show ?case
  proof (cases s)
    case (Cons c s')
    note prem = less.prems [unfolded Cons]
    have IH: "scan_string u = Inr (t', r) \<Longrightarrow> length u < length s \<Longrightarrow> length r < length u"
      for u t'
      using less.hyps [of u] by blast
    from prem show ?thesis
      by (subst (asm) scan_string.simps(2))
        (auto simp: consr_eq_Inr Cons split: if_splits list.splits option.splits dest!: IH)
  qed (use less.prems in simp)
qed

lemma scan_string_error: "scan_string s = Inl e \<Longrightarrow> e = JSONDecodeError"
proof (induction "length s" arbitrary: s rule: less_induct)
  case less
  show ?case
  proof (cases s)
    case (Cons c s')
    note prem = less.prems [unfolded Cons]
    have IH: "scan_string u = Inl e \<Longrightarrow> length u < length s \<Longrightarrow> e = JSONDecodeError" for u
      using less.hyps [of u] by blast
    from prem show ?thesis
      by (subst (asm) scan_string.simps(2))
        (auto simp: consr_eq_Inl Cons split: if_splits list.splits option.splits dest: IH)
  qed (use less.prems in simp)
qed

lemma take_digits_length: "take_digits s = (ds, r) \<Longrightarrow> length r \<le> length s"
  by (auto simp: take_digits_def length_dropWhile_le)

lemma scan_int_shorter: "scan_int s = Some (ds, r) \<Longrightarrow> length r < length s"
  by (auto simp: scan_int_def take_digits_def length_dropWhile_le less_Suc_eq_le
      split: list.splits if_splits)

lemma scan_frac_length: "scan_frac s = Some (ds, r) \<Longrightarrow> length r \<le> length s"
  by (auto simp: scan_frac_def split: list.splits if_splits dest!: take_digits_length)

lemma scan_exp_length: "scan_exp s = Some (x, r) \<Longrightarrow> length r \<le> length s"
  by (auto simp: scan_exp_def split: list.splits if_splits prod.splits dest!: take_digits_length)

lemma scan_number_shorter: "scan_number neg s = Inr (v, r) \<Longrightarrow> length r < length s"
  by (fastforce simp: scan_number_def Let_def split: option.splits prod.splits if_splits
      dest: scan_int_shorter scan_frac_length scan_exp_length)

lemma scan_number_error: "scan_number neg s = Inl e \<Longrightarrow> e \<noteq> RecursionError"
  by (auto simp: scan_number_def Let_def split: option.splits prod.splits if_splits)

lemma skip_ws_length: "length (skip_ws s) \<le> length s"
  by (rule length_dropWhile_le)

lemma skip_ws_Cons: "skip_ws s = c # r \<Longrightarrow> length r < length s"
  using skip_ws_length [of s] by simp

lemma startswith_length: "startswith s p \<Longrightarrow> length p \<le> length s"
  by (auto simp: startswith_iff)

definition shrinks :: "(pystr \<Rightarrow> ('a \<times> pystr) res) \<Rightarrow> bool" where
  "shrinks p = (\<forall>s v r. p s = Inr (v, r) \<longrightarrow> length r < length s)"

lemma shrinksD: "shrinks p \<Longrightarrow> p s = Inr (v, r) \<Longrightarrow> length r < length s"
  by (simp add: shrinks_def)

lemma parse_shrinks: "shrinks (parse_value n) \<and> shrinks (parse_elems n) \<and> shrinks (parse_members n)"
proof (induction n)
  case 0
  show ?case by (simp add: shrinks_def)
next
  case (Suc n)
  then have IH: "parse_value n s = Inr (v, r) \<Longrightarrow> length r < length s"
      "parse_elems n s = Inr (vs, r) \<Longrightarrow> length r < length s"
      "parse_members n s = Inr (ps, r) \<Longrightarrow> length r < length s" for s v r vs ps
    by (auto dest: shrinksD)
  have E: "shrinks (parse_elems (Suc n))"
    unfolding shrinks_def
  proof (intro allI impI)
    fix s vs r assume p: "parse_elems (Suc n) s = Inr (vs, r)"
    then obtain v r1 where v: "parse_value n s = Inr (v, r1)" by (auto simp: rbind_eq_Inr)
    show "length r < length s"
    proof (cases "skip_ws r1")
      case (Cons d r')
      with p v IH(1) [OF v] skip_ws_Cons [OF Cons] show ?thesis
        by (auto simp: rbind_eq_Inr split: if_splits dest!: IH(2)
            dest: order.strict_trans2 [OF _ skip_ws_length])
    qed (use p v in simp)
  qed
  have M: "shrinks (parse_members (Suc n))"
    unfolding shrinks_def
  proof (intro allI impI)
    fix s ps r' assume p: "parse_members (Suc n) s = Inr (ps, r')"
    then obtain r where s: "s = 34 # r"
      by (auto split: list.splits if_splits)
    with p obtain k r1 where k: "scan_string r = Inr (k, r1)" by (auto simp: rbind_eq_Inr)
    with p s obtain r2 where r2: "skip_ws r1 = 58 # r2"
      by (auto split: list.splits if_splits)
    with p s k obtain v r3 where v: "parse_value n (skip_ws r2) = Inr (v, r3)"
      by (auto simp: rbind_eq_Inr)
    note len = scan_string_shorter [OF k] skip_ws_Cons [OF r2] skip_ws_length [of r2]
      IH(1) [OF v]
    show "length r' < length s"
    proof (cases "skip_ws r3")
      case (Cons d r4)
      with p s k r2 v len skip_ws_Cons [OF Cons] show ?thesis
        by (auto simp: rbind_eq_Inr split: if_splits dest!: IH(3)
            dest: order.strict_trans2 [OF _ skip_ws_length])
    qed (use p s k r2 v in simp)
  qed
  have V: "shrinks (parse_value (Suc n))"
    unfolding shrinks_def
  proof (intro allI impI)
    fix s v r assume "parse_value (Suc n) s = Inr (v, r)"
    then show "length r < length s"
      by (auto simp: rbind_eq_Inr split: list.splits if_splits
        dest!: IH skip_ws_Cons scan_string_shorter scan_number_shorter startswith_length)
  qed
  from E M V show ?case by blast
qed

text \<open>Enough fuel: twice the length of the text.\<close>

definition fuelled :: "nat \<Rightarrow> nat \<Rightarrow> (pystr \<Rightarrow> 'a res) \<Rightarrow> bool" where
  "fuelled k n p = (\<forall>s. 2 * length s + k \<le> n \<longrightarrow> p s \<noteq> Inl RecursionError)"

lemma fuelledD: "fuelled k n p \<Longrightarrow> p s = Inl RecursionError \<Longrightarrow> n < 2 * length s + k"
  by (meson fuelled_def leI)

lemma parse_fuelled:
  "fuelled 1 n (parse_value n) \<and> fuelled 2 n (parse_elems n) \<and> fuelled 2 n (parse_members n)"
proof (induction n)
  case 0
  show ?case by (simp add: fuelled_def)
next
  case (Suc n)
  then have IH: "parse_value n s = Inl RecursionError \<Longrightarrow> n < 2 * length s + 1"
      "parse_elems n s = Inl RecursionError \<Longrightarrow> n < 2 * length s + 2"
      "parse_members n s = Inl RecursionError \<Longrightarrow> n < 2 * length s + 2" for s
    by (auto dest: fuelledD)
  have V: "parse_value n s = Inr (v, r) \<Longrightarrow> length r < length s" for s v r
    using parse_shrinks [of n] by (auto dest: shrinksD)
  have E: "n < 2 * length s + 1" if p: "parse_elems (Suc n) s = Inl RecursionError" for s
  proof (cases "parse_value n s")
    case (Inr vr)
    then obtain v r1 where v: "parse_value n s = Inr (v, r1)" by (cases vr) auto
    show ?thesis
    proof (cases "skip_ws r1")
      case (Cons d r')
      with p v have "n < 2 * length (skip_ws r') + 2"
        by (auto simp: rbind_eq_Inl split: if_splits dest!: IH(2))
      with V [OF v] skip_ws_Cons [OF Cons] skip_ws_length [of r'] show ?thesis by linarith
    qed (use p v in simp)
  qed (use p IH(1) in auto)
  have M: "n < 2 * length s + 1" if p: "parse_members (Suc n) s = Inl RecursionError" for s
  proof -
    from p obtain r where s: "s = 34 # r"
      by (auto split: list.splits if_splits)
    with p obtain k r1 where k: "scan_string r = Inr (k, r1)"
      by (cases "scan_string r") (auto dest: scan_string_error)
    with p s obtain r2 where r2: "skip_ws r1 = 58 # r2"
      by (auto split: list.splits if_splits)
    note len = scan_string_shorter [OF k] skip_ws_Cons [OF r2] skip_ws_length [of r2]
    show ?thesis
    proof (cases "parse_value n (skip_ws r2)")
      case (Inl e)
      with p s k r2 have "n < 2 * length (skip_ws r2) + 1" by (auto dest: IH(1))
      with len s show ?thesis by simp
    next
      case (Inr vr)
      then obtain v r3 where v: "parse_value n (skip_ws r2) = Inr (v, r3)" by (cases vr) auto
      show ?thesis
      proof (cases "skip_ws r3")
        case (Cons d r4)
        with p s k r2 v have "n < 2 * length (skip_ws r4) + 2"
          by (auto simp: rbind_eq_Inl split: if_splits dest!: IH(3))
        with V [OF v] skip_ws_Cons [OF Cons] skip_ws_length [of r4] len s
        show ?thesis by simp
      qed (use p s k r2 v in simp)
    qed
  qed
  have W: "n < 2 * length s" if p: "parse_value (Suc n) s = Inl RecursionError" for s
  proof -
    from p obtain c r where s: "s = c # r" by (cases s) auto
    with p obtain d r' where r': "skip_ws r = d # r'" and
      "parse_elems n (d # r') = Inl RecursionError \<or>
       parse_members n (d # r') = Inl RecursionError"
      by (auto simp: rbind_eq_Inl split: list.splits if_splits
          dest: scan_string_error scan_number_error)
    then have "n < 2 * length (d # r') + 2" using IH by blast
    with skip_ws_length [of r] r' s show ?thesis by simp
  qed
  from E M W show ?case unfolding fuelled_def by fastforce
qed

theorem loads_no_fuel_error: "loads s \<noteq> Inl RecursionError"
proof
  assume "loads s = Inl RecursionError"
  then have "parse_value (2 * length s + 2) (skip_ws s) = Inl RecursionError"
    by (auto simp: loads_def rbind_eq_Inl split: if_splits prod.splits)
  moreover have "fuelled 1 (2 * length s + 2) (parse_value (2 * length s + 2))"
    using parse_fuelled by blast
  ultimately have "2 * length s + 2 < 2 * length (skip_ws s) + 1"
    by (rule fuelledD [rotated])
  with skip_ws_length [of s] show False by simp
qed

section \<open>Reading what was written\<close>

lemma read_hex4_hex4:
  assumes "u < 65536"
  shows "read_hex4 (hex_char (u div 4096)) (hex_char (u div 256 mod 16))
     (hex_char (u div 16 mod 16)) (hex_char (u mod 16)) = Some u"
proof -
  have "u div 4096 * 16 + u div 256 mod 16 = u div 256"
    using div_mult_mod_eq [of "u div 256" 16] by (simp add: div_mult2_eq [symmetric])
  moreover have "u div 256 * 16 + u div 16 mod 16 = u div 16"
    using div_mult_mod_eq [of "u div 16" 16] by (simp add: div_mult2_eq [symmetric])
  moreover have "u div 16 * 16 + u mod 16 = u"
    by (rule div_mult_mod_eq)
  moreover have "u div 4096 < 16"
    using assms by (simp add: less_mult_imp_div_less)
  ultimately show ?thesis by (simp add: read_hex4_def)
qed

lemma scan_escape_single:
  assumes "read_hex4 a b c d = Some u" "\<not> is_high u"
  shows "scan_string (92 # 117 # a # b # c # d # s) = consr u (scan_string s)"
  using assms
  by (simp add: scan_string.simps(2) [of 92 "117 # a # b # c # d # s"] split: list.split)

lemma scan_escape_pair:
  assumes "read_hex4 a b c d = Some h" "is_high h" "read_hex4 a' b' c' d' = Some l" "is_low l"
  shows "scan_string (92 # 117 # a # b # c # d # 92 # 117 # a' # b' # c' # d' # s)
    = consr (join_pair h l) (scan_string s)"
  using assms
  by (simp add: scan_string.simps(2)
      [of 92 "117 # a # b # c # d # 92 # 117 # a' # b' # c' # d' # s"])

lemma scan_u_escape:
  assumes "u < 65536" "\<not> is_high u"
  shows "scan_string (u_escape u @ s) = consr u (scan_string s)"
  using scan_escape_single [OF read_hex4_hex4 [OF assms(1)] assms(2)] assms(1)
  by (simp add: u_escape_def hex4_def)

lemma scan_u_pair:
  assumes "is_high h" "is_low l"
  shows "scan_string (u_escape h @ u_escape l @ s) = consr (join_pair h l) (scan_string s)"
proof -
  have "h < 65536" "l < 65536" using assms by (auto simp: is_high_def is_low_def)
  with scan_escape_pair [OF read_hex4_hex4 assms(1) read_hex4_hex4 assms(2)] show ?thesis
    by (simp add: u_escape_def hex4_def)
qed

lemma scan_simple:
  "simple_escape e = Some c \<Longrightarrow> e \<noteq> 117 \<Longrightarrow>
   scan_string (92 # e # s) = consr c (scan_string s)"
  by (simp add: scan_string.simps(2) [of 92 "e # s"])

lemma scan_plain:
  "32 \<le> c \<Longrightarrow> c \<noteq> 34 \<Longrightarrow> c \<noteq> 92 \<Longrightarrow> scan_string (c # s) = consr c (scan_string s)"
  by (simp add: scan_string.simps(2) [of c s])

lemma scan_json_char:
  assumes "scalar c"
  shows "scan_string (json_char a c @ s) = consr c (scan_string s)"
proof (cases "a \<and> 65535 < c")
  case True
  define k where "k = c - 65536"
  have k: "k < 1048576" "c = 65536 + k" using True assms by (auto simp: k_def scalar_def)
  have d: "k div 1024 < 1024" using k(1) by (simp add: less_mult_imp_div_less)
  then have "is_high (55296 + k div 1024)" "is_low (56320 + k mod 1024)"
    by (auto simp: is_high_def is_low_def)
  moreover have "join_pair (55296 + k div 1024) (56320 + k mod 1024) = c"
    by (simp add: join_pair_def k(2))
  ultimately show ?thesis
    using scan_u_pair True by (simp add: json_char_def k(2))
next
  case False
  show ?thesis
  proof (cases "c < 32 \<or> c = 34 \<or> c = 92 \<or> (a \<and> 126 < c)")
    case True
    with False assms have "c < 65536" "\<not> is_high c" by (auto simp: is_high_def scalar_def)
    with True False show ?thesis
      by (auto simp: json_char_def scan_u_escape scan_simple simple_escape.simps)
  next
    case False
    then show ?thesis by (auto simp: json_char_def scan_plain)
  qed
qed

lemma scan_json_string:
  "encodable t \<Longrightarrow> scan_string (concat (map (json_char a) t) @ 34 # r) = Inr (t, r)"
  by (induction t) (auto simp: scan_json_char consr_def scan_string.simps(2) [of 34 r])

text \<open>What may follow a number without becoming part of it.\<close>

definition stops :: "pystr \<Rightarrow> bool" where
  "stops r = (case r of [] \<Rightarrow> True
     | c # _ \<Rightarrow> \<not> digit c \<and> c \<noteq> 46 \<and> c \<noteq> 101 \<and> c \<noteq> 69)"

lemma stops_simps [simp]:
  "stops []" "stops (44 # r)" "stops (93 # r)" "stops (125 # r)"
  by (auto simp: stops_def digit_def)

lemma scan_tail_stops: "stops r \<Longrightarrow> scan_frac r = None \<and> scan_exp r = None"
  by (auto simp: stops_def scan_frac_def scan_exp_def split: list.splits)

lemma takeWhile_digits:
  "stops r \<Longrightarrow> list_all digit ds \<Longrightarrow> take_digits (ds @ r) = (ds, r)"
proof -
  assume "stops r" "list_all digit ds"
  moreover from \<open>stops r\<close> have "takeWhile digit r = []" "dropWhile digit r = r"
    by (auto simp: stops_def split: list.splits)
  ultimately show ?thesis
    by (simp add: take_digits_def list_all_iff)
qed

lemma nat_text_all_digits: "list_all digit (nat_text n)"
  using nat_text_digits by (auto simp: list_all_iff digit_def)

lemma scan_int_nat_text: "stops r \<Longrightarrow> scan_int (nat_text n @ r) = Some (nat_text n, r)"
proof (cases "n = 0")
  case True
  then show ?thesis by (simp add: scan_int_def nat_text.simps)
next
  case False
  assume r: "stops r"
  obtain c cs where t: "nat_text n = c # cs" by (cases "nat_text n") auto
  with False hd_nat_text [of n] nat_text_all_digits [of n] have "c \<noteq> 48" "digit c" by auto
  with t takeWhile_digits [OF r nat_text_all_digits, of n] show ?thesis
    by (simp add: scan_int_def)
qed

definition int_printable :: "int \<Rightarrow> bool" where
  "int_printable i = (length (nat_text (nat \<bar>i\<bar>)) \<le> 4300)"

lemma scan_number_nat:
  "stops r \<Longrightarrow> length (nat_text n) \<le> 4300 \<Longrightarrow>
   scan_number neg (nat_text n @ r) = Inr (VInt (if neg then - int n else int n), r)"
  by (simp add: scan_number_def scan_int_nat_text scan_tail_stops)

text \<open>
  The values whose text reads back as themselves: strings that UTF-8 can encode (a lone
  surrogate pair would be joined), no float, unique keys.
\<close>

fun json_ok :: "pyval \<Rightarrow> bool" where
  "json_ok VNone = True"
| "json_ok (VNum (NInt i)) = int_printable i"
| "json_ok (VNum (NBool b)) = True"
| "json_ok (VFloat f) = False"
| "json_ok (VStr s) = encodable s"
| "json_ok (VList vs) = list_all json_ok vs"
| "json_ok (VDict d) =
     (distinct (map fst d) \<and> list_all (\<lambda>(k, v). encodable k \<and> json_ok v) d)"

lemma ws_simps [simp]: "\<not> ws 44" "\<not> ws 58" "\<not> ws 93" "\<not> ws 125" "\<not> ws 34"
    "\<not> ws 91" "\<not> ws 123" "ws 32"
  by (simp_all add: ws_def)

lemma int_text_head:
  "\<exists>c t. int_text i = c # t \<and> (digit c \<or> c = 45)"
proof (cases "i < 0")
  case False
  obtain c t where t: "nat_text (nat i) = c # t" by (cases "nat_text (nat i)") auto
  with nat_text_all_digits [of "nat i"] False show ?thesis by (auto simp: int_text_def)
qed (auto simp: int_text_def)

lemma int_text_head_not: "startswith (int_text i) [65279] \<Longrightarrow> False"
  using int_text_head [of i] by (auto simp: digit_def)

text \<open>The first character of a value's text: never white space, never a closer.\<close>

definition opens :: "pystr \<Rightarrow> bool" where
  "opens s = (\<exists>c t. s = c # t \<and> \<not> ws c \<and> c \<noteq> 93 \<and> c \<noteq> 125)"

lemma opens_append [simp]: "opens s \<Longrightarrow> opens (s @ t)"
  by (auto simp: opens_def)

lemma opens_skip [simp]: "opens s \<Longrightarrow> skip_ws s = s"
  by (auto simp: opens_def)

lemma pad_skip [simp]: "opens s \<Longrightarrow> skip_ws (pad o' @ s) = s"
  by (auto simp: pad_def)

lemma opens_string [simp]: "opens (json_string a s)"
  by (simp add: opens_def json_string_def)

lemma dumps_opens: "json_ok v \<Longrightarrow> opens (dumps o' v)"
proof (cases v)
  case (VNum n)
  then show ?thesis
  proof (cases n)
    case (NInt i)
    with VNum int_text_head [of i] show ?thesis
      by (auto simp: opens_def ws_def digit_def)
  next
    case (NBool b)
    with VNum show ?thesis by (simp add: opens_def ws_def lit_def)
  qed
qed (auto simp: opens_def ws_def lit_def json_string_def)

lemma join_Cons: "xs \<noteq> [] \<Longrightarrow> join sep (x # xs) = x @ sep @ join sep xs"
  by (cases xs) auto

lemma opens_join: "xs \<noteq> [] \<Longrightarrow> opens (hd xs) \<Longrightarrow> opens (join sep xs)"
  by (induction sep xs rule: join.induct) auto

text \<open>One statement of "this text reads as this value", with the fuel that is enough.\<close>

definition reads :: "json_style \<Rightarrow> pyval \<Rightarrow> bool" where
  "reads o' v = (\<forall>r n. stops r \<longrightarrow> 2 * length (dumps o' v @ r) + 1 \<le> n
     \<longrightarrow> parse_value n (dumps o' v @ r) = Inr (v, r))"

lemma readsD:
  "reads o' v \<Longrightarrow> stops r \<Longrightarrow> 2 * length (dumps o' v @ r) + 1 \<le> n
    \<Longrightarrow> parse_value n (dumps o' v @ r) = Inr (v, r)"
  by (simp add: reads_def)

lemma parse_elems_join:
  assumes "vs \<noteq> []" "\<forall>v \<in> set vs. reads o' v \<and> json_ok v"
    and "2 * length (join (item_sep o') (map (dumps o') vs) @ 93 # r) + 2 \<le> n"
  shows "parse_elems n (join (item_sep o') (map (dumps o') vs) @ 93 # r) = Inr (vs, r)"
  using assms
proof (induction vs arbitrary: n rule: list_nonempty_induct)
  case (single v)
  then obtain m where n: "n = Suc m" by (cases n) auto
  with single have "parse_value m (dumps o' v @ 93 # r) = Inr (v, 93 # r)"
    by (intro readsD) auto
  with n show ?case by simp
next
  case (cons v vs)
  then obtain m where n: "n = Suc m" by (cases n) auto
  let ?rest = "join (item_sep o') (map (dumps o') vs) @ 93 # r"
  have t: "join (item_sep o') (map (dumps o') (v # vs)) @ 93 # r
      = dumps o' v @ 44 # pad o' @ ?rest"
    using cons.hyps by (simp add: join_Cons)
  have len: "2 * length (dumps o' v @ 44 # pad o' @ ?rest) + 2 \<le> Suc m"
    using cons.prems(2) unfolding t n .
  then have "parse_value m (dumps o' v @ 44 # pad o' @ ?rest)
      = Inr (v, 44 # pad o' @ ?rest)"
    using cons.prems(1) by (intro readsD) auto
  moreover have "opens ?rest"
    using cons.hyps cons.prems(1) by (cases vs) (auto intro!: opens_append opens_join dumps_opens)
  moreover have "parse_elems m ?rest = Inr (vs, r)"
    using cons.IH [of m] cons.prems(1) len by simp
  ultimately show ?case unfolding t n by simp
qed

definition member_text :: "json_style \<Rightarrow> pystr \<times> pyval \<Rightarrow> pystr" where
  "member_text o' = (\<lambda>(k, v). json_string (ensure_ascii o') k @ key_sep o' @ dumps o' v)"

lemma dumps_VDict:
  "dumps o' (VDict d) = 123 # join (item_sep o') (map (member_text o') d) @ [125]"
  by (simp add: member_text_def)

lemma opens_member [simp]: "opens (member_text o' p)"
  by (cases p) (simp add: member_text_def)

lemma parse_member:
  assumes "encodable k" "reads o' v" "json_ok v" "stops (c # r)" "c = 44 \<or> c = 125"
    and "2 * length (member_text o' (k, v) @ c # r) + 2 \<le> Suc m"
  shows "parse_members (Suc m) (member_text o' (k, v) @ c # r) =
    (if c = 125 then Inr ([(k, v)], r)
     else rbind (parse_members m (skip_ws r)) (\<lambda>(ps, r5). Inr ((k, v) # ps, r5)))"
proof -
  have "parse_value m (dumps o' v @ c # r) = Inr (v, c # r)"
    using assms by (intro readsD) (auto simp: member_text_def)
  moreover have "scan_string (concat (map (json_char (ensure_ascii o')) k) @ 34 # 58 #
      pad o' @ dumps o' v @ c # r) = Inr (k, 58 # pad o' @ dumps o' v @ c # r)"
    using assms(1) by (rule scan_json_string)
  ultimately show ?thesis
    using assms(3,5) by (auto simp: member_text_def json_string_def dumps_opens)
qed

lemma parse_members_join:
  assumes "d \<noteq> []" "\<forall>(k, v) \<in> set d. encodable k \<and> reads o' v \<and> json_ok v"
    and "2 * length (join (item_sep o') (map (member_text o') d) @ 125 # r) + 2 \<le> n"
  shows "parse_members n (join (item_sep o') (map (member_text o') d) @ 125 # r) = Inr (d, r)"
  using assms
proof (induction d arbitrary: n rule: list_nonempty_induct)
  case (single p)
  then obtain m k v where n: "n = Suc m" and p: "p = (k, v)" by (cases n; cases p) auto
  with single show ?case using parse_member [of k o' v 125 r m] by simp
next
  case (cons p d)
  then obtain m k v where n: "n = Suc m" and p: "p = (k, v)" by (cases n; cases p) auto
  let ?rest = "join (item_sep o') (map (member_text o') d) @ 125 # r"
  have t: "join (item_sep o') (map (member_text o') (p # d)) @ 125 # r
      = member_text o' (k, v) @ 44 # pad o' @ ?rest"
    using cons.hyps by (simp add: join_Cons p)
  have len: "2 * length (member_text o' (k, v) @ 44 # pad o' @ ?rest) + 2 \<le> Suc m"
    using cons.prems(2) unfolding t n .
  have "opens ?rest"
    using cons.hyps by (cases d) (auto intro!: opens_append opens_join)
  moreover have "parse_members m ?rest = Inr (d, r)"
    using cons.IH [of m] cons.prems(1) len by simp
  ultimately show ?case
    using parse_member [of k o' v 44 "pad o' @ ?rest" m] cons.prems(1) len
    unfolding t n by (simp add: p)
qed

lemma dict_of_pairs_distinct: "distinct (map fst d) \<Longrightarrow> dict_of_pairs d = d"
proof -
  have "distinct (map fst (e @ d)) \<Longrightarrow> fold (\<lambda>(k, v). dict_set k v) d e = e @ d" for e
    by (induction d arbitrary: e) (auto simp: dict_set_new)
  then show "distinct (map fst d) \<Longrightarrow> dict_of_pairs d = d"
    by (simp add: dict_of_pairs_def)
qed

lemma startswith_Cons [simp]:
  "startswith (d # s) (lit (x # xs)) \<longleftrightarrow> d = of_char x \<and> startswith s (lit xs)"
  by (simp add: lit_def)

lemma reads_int: "int_printable i \<Longrightarrow> reads o' (VInt i)"
proof (unfold reads_def, intro allI impI)
  fix r n
  assume i: "int_printable i" and r: "stops r"
    and n: "2 * length (dumps o' (VInt i) @ r) + 1 \<le> n"
  then obtain m where m: "n = Suc m" by (cases n) auto
  obtain c t where t: "nat_text (nat \<bar>i\<bar>) = c # t" by (cases "nat_text (nat \<bar>i\<bar>)") auto
  have c: "digit c" using t nat_text_all_digits [of "nat \<bar>i\<bar>"] by simp
  have num: "scan_number b (c # t @ r) = Inr (VInt (if b then - \<bar>i\<bar> else \<bar>i\<bar>), r)" for b
    using scan_number_nat [OF r, of "nat \<bar>i\<bar>" b] i t by (simp add: int_printable_def)
  show "parse_value n (dumps o' (VInt i) @ r) = Inr (VInt i, r)"
  proof (cases "i < 0")
    case True
    then have "\<bar>i\<bar> = - i" by simp
    with True t have "dumps o' (VInt i) = 45 # c # t" by (simp add: int_text_def)
    then show ?thesis using c num [of True] True by (auto simp: m digit_def)
  next
    case False
    then have "\<bar>i\<bar> = i" by simp
    with False t have "dumps o' (VInt i) = c # t" by (simp add: int_text_def)
    then show ?thesis using c num [of False] False by (auto simp: m digit_def)
  qed
qed

lemma reads_atom:
  assumes "\<And>m r. parse_value (Suc m) (dumps o' v @ r) = Inr (v, r)"
  shows "reads o' v"
  unfolding reads_def
proof (intro allI impI)
  fix r n assume "2 * length (dumps o' v @ r) + 1 \<le> n"
  then obtain m where "n = Suc m" by (cases n) auto
  then show "parse_value n (dumps o' v @ r) = Inr (v, r)" using assms by simp
qed

lemma reads_str: "encodable s \<Longrightarrow> reads o' (VStr s)"
  by (rule reads_atom) (simp add: json_string_def scan_json_string)

lemma reads_list:
  assumes "\<forall>v \<in> set vs. reads o' v \<and> json_ok v"
  shows "reads o' (VList vs)"
  unfolding reads_def
proof (intro allI impI)
  fix r n assume n: "2 * length (dumps o' (VList vs) @ r) + 1 \<le> n"
  then obtain m where m: "n = Suc m" by (cases n) auto
  let ?body = "join (item_sep o') (map (dumps o') vs) @ 93 # r"
  show "parse_value n (dumps o' (VList vs) @ r) = Inr (VList vs, r)"
  proof (cases "vs = []")
    case False
    with assms have o: "opens ?body"
      by (cases vs) (auto intro!: opens_append opens_join dumps_opens)
    then obtain c t where b: "?body = c # t" "c \<noteq> 93" "\<not> ws c" by (auto simp: opens_def)
    have "parse_elems m ?body = Inr (vs, r)"
      using False assms n m by (intro parse_elems_join) auto
    with o b show ?thesis by (simp add: m)
  qed (simp add: m)
qed

lemma reads_dict:
  assumes "\<forall>(k, v) \<in> set d. encodable k \<and> reads o' v \<and> json_ok v" "distinct (map fst d)"
  shows "reads o' (VDict d)"
  unfolding reads_def
proof (intro allI impI)
  fix r n assume n: "2 * length (dumps o' (VDict d) @ r) + 1 \<le> n"
  then obtain m where m: "n = Suc m" by (cases n) auto
  let ?body = "join (item_sep o') (map (member_text o') d) @ 125 # r"
  show "parse_value n (dumps o' (VDict d) @ r) = Inr (VDict d, r)"
  proof (cases "d = []")
    case False
    then have o: "opens ?body" by (cases d) (auto intro!: opens_append opens_join)
    then obtain c t where b: "?body = c # t" "c \<noteq> 125" "\<not> ws c" by (auto simp: opens_def)
    have "parse_members m ?body = Inr (d, r)"
      using False assms n m
      by (intro parse_members_join) (auto simp: dumps_VDict simp del: dumps.simps(6))
    with o b assms(2) show ?thesis
      by (simp add: m dumps_VDict dict_of_pairs_distinct del: dumps.simps(6))
  qed (simp add: m)
qed

lemma json_ok_reads: "json_ok v \<Longrightarrow> reads o' v"
proof (induction v)
  case VNone
  then show ?case by (intro reads_atom) (simp add: lit_def)
next
  case (VNum n)
  then show ?case
  proof (cases n)
    case (NInt i)
    with VNum show ?thesis by (simp add: reads_int)
  next
    case (NBool b)
    then show ?thesis by (intro reads_atom) (simp add: lit_def)
  qed
next
  case (VList vs)
  then show ?case by (intro reads_list) (auto simp: list_all_iff)
next
  case (VDict d)
  then show ?case
    by (intro reads_dict) (fastforce simp: list_all_iff Basic_BNFs.snds.simps)+
qed (auto intro: reads_str)

theorem loads_dumps: "json_ok v \<Longrightarrow> loads (dumps o' v) = Inr v"
proof -
  assume v: "json_ok v"
  then have o: "opens (dumps o' v)" by (rule dumps_opens)
  have "parse_value (2 * length (dumps o' v) + 2) (dumps o' v @ []) = Inr (v, [])"
    using json_ok_reads [OF v] by (rule readsD) simp_all
  moreover have "\<not> startswith (dumps o' v) [65279]"
    using v by (cases v rule: json_ok.cases)
      (auto simp: lit_def json_string_def dest!: int_text_head_not)
  ultimately show ?thesis using o by (simp add: loads_def)
qed

interpretation json: round_trip "dumps o'" loads json_ok for o'
  by unfold_locales (rule loads_dumps)

text \<open>A reader accepts white space after the value: the files end with a newline.\<close>

lemma skip_ws_newline [simp]: "skip_ws [10] = []"
  by (simp add: ws_def)

lemma loads_line:
  assumes "json_ok (VDict d)"
  shows "loads (dumps o' (VDict d) @ [10]) = Inr (VDict d)"
proof -
  have "parse_value (2 * length (dumps o' (VDict d) @ [10]) + 2) (dumps o' (VDict d) @ [10])
      = Inr (VDict d, [10])"
    using json_ok_reads [OF assms] by (rule readsD) (simp_all add: stops_def digit_def)
  moreover have "opens (dumps o' (VDict d) @ [10])"
    using dumps_opens [OF assms] by (rule opens_append)
  moreover have "\<not> startswith (dumps o' (VDict d) @ [10]) [65279]" by simp
  ultimately show ?thesis by (simp only: loads_def opens_skip) (simp add: ws_def)
qed

end
