(* ===== verification/Json_Facts.thy ===== *)
theory Json_Facts
  imports Py_Json
begin

text \<open>
  What the reader of JSON guarantees whatever the text: the keys of every dictionary it
  returns are distinct, and it raises only \<open>JSONDecodeError\<close> and, for an integer of more than
  4300 digits, a plain \<open>ValueError\<close>.
\<close>

fun keys_unique :: "pyval \<Rightarrow> bool" where
  "keys_unique (VList vs) = list_all keys_unique vs"
| "keys_unique (VDict d) = (distinct (map fst d) \<and> list_all (\<lambda>(k, v). keys_unique v) d)"
| "keys_unique _ = True"

lemma dict_of_pairs_keys:
  "distinct (map fst (dict_of_pairs ps)) \<and> snd ` set (dict_of_pairs ps) \<subseteq> snd ` set ps"
proof -
  have s: "snd ` set (dict_set k v d) \<subseteq> insert v (snd ` set d)" for k v and d :: "('a \<times> 'b) list"
  proof (induction d)
    case (Cons p d)
    then show ?case by (cases p) (simp, blast)
  qed simp
  have "distinct (map fst d) \<Longrightarrow> distinct (map fst (fold (\<lambda>(k, v). dict_set k v) ps d))
    \<and> snd ` set (fold (\<lambda>(k, v). dict_set k v) ps d) \<subseteq> snd ` set d \<union> snd ` set ps" for d
  proof (induction ps arbitrary: d)
    case (Cons p ps)
    obtain k v where p: "p = (k, v)" by (cases p)
    from Cons.IH [of "dict_set k v d"] Cons.prems s [of k v d] show ?case by (simp add: p) blast
  qed simp
  from this [of "[]"] show ?thesis by (simp add: dict_of_pairs_def)
qed

lemma keys_unique_of_pairs:
  assumes "list_all (\<lambda>(k, v). keys_unique v) ps"
  shows "keys_unique (VDict (dict_of_pairs ps))"
  using assms dict_of_pairs_keys [of ps] by (fastforce simp: list_all_iff)

lemma keys_unique_empty [simp]: "keys_unique (VDict [])"
  by simp

lemma scan_number_keys: "scan_number neg s = Inr (v, r) \<Longrightarrow> keys_unique v"
  by (auto simp: scan_number_def Let_def split: option.splits if_splits prod.splits)

lemma parse_keys:
  "parse_value n s = Inr (v, r) \<Longrightarrow> keys_unique v"
  "parse_elems n s = Inr (vs, r) \<Longrightarrow> list_all keys_unique vs"
  "parse_members n s = Inr (ps, r) \<Longrightarrow> list_all (\<lambda>(k, v). keys_unique v) ps"
proof (induction n arbitrary: s v r vs ps)
  case (Suc n)
  {
    case 1
    then show ?case
      using Suc(2,3)
      by (auto simp: rbind_eq_Inr simp del: keys_unique.simps(2) split: list.splits if_splits
          dest: scan_number_keys intro!: keys_unique_of_pairs)
  next
    case 2
    then show ?case using Suc(1) [of s] Suc(2)
      by (cases "parse_value n s") (auto simp: rbind_eq_Inr split: list.splits if_splits)
  next
    case 3
    then obtain t where t: "s = 34 # t" by (auto split: list.splits if_splits)
    with 3 obtain k r1 where s: "s = 34 # t" "scan_string t = Inr (k, r1)"
      by (cases "scan_string t") auto
    with 3 obtain r2 where r2: "skip_ws r1 = 58 # r2"
      by (auto split: list.splits if_splits)
    show ?case using 3 s r2 Suc(1) [of "skip_ws r2"] Suc(3)
      by (cases "parse_value n (skip_ws r2)") (auto simp: rbind_eq_Inr split: list.splits if_splits)
  }
qed simp_all

definition json_exc :: "exc \<Rightarrow> bool" where
  "json_exc x = (x = JSONDecodeError \<or> x = RecursionError
     \<or> x = ValueError (lit ''Exceeds the limit (4300 digits)''))"

lemma json_exc_intros [simp]: "json_exc JSONDecodeError" "json_exc RecursionError"
  "json_exc (ValueError (lit ''Exceeds the limit (4300 digits)''))"
  by (simp_all add: json_exc_def)

lemma scan_number_exc: "scan_number neg s = Inl x \<Longrightarrow> json_exc x"
  by (auto simp: scan_number_def Let_def split: option.splits if_splits prod.splits)

lemma parse_exc:
  "parse_value n s = Inl x \<Longrightarrow> json_exc x"
  "parse_elems n s = Inl x \<Longrightarrow> json_exc x"
  "parse_members n s = Inl x \<Longrightarrow> json_exc x"
proof (induction n arbitrary: s)
  case (Suc n)
  {
    case 1
    then show ?case using Suc(2,3)
      by (auto simp: rbind_eq_Inl split: list.splits if_splits dest: scan_string_error scan_number_exc)
  next
    case 2
    then show ?case using Suc(1) [of s] Suc(2)
      by (cases "parse_value n s")
        (auto simp: rbind_eq_Inl json_exc_intros split: list.splits if_splits)
  next
    case 3
    then obtain r where s: "s = 34 # r \<or> json_exc x"
      by (auto simp: json_exc_intros split: list.splits if_splits)
    show ?case
    proof (cases "json_exc x")
      case False
      with s have s': "s = 34 # r" by blast
      with 3 False obtain k r1 where k: "scan_string r = Inr (k, r1)"
        by (cases "scan_string r") (auto simp: json_exc_intros dest: scan_string_error)
      with 3 False s' obtain r2 where r2: "skip_ws r1 = 58 # r2"
        by (auto simp: json_exc_intros split: list.splits if_splits)
      show ?thesis using 3 False s' k r2 Suc(1) [of "skip_ws r2"] Suc(3)
        by (cases "parse_value n (skip_ws r2)")
          (auto simp: rbind_eq_Inl json_exc_intros split: list.splits if_splits)
    qed
  }
qed simp_all

lemma loads_keys_unique: "loads s = Inr v \<Longrightarrow> keys_unique v"
  by (auto simp: loads_def rbind_eq_Inr simp del: parse_value.simps split: if_splits dest: parse_keys)

lemma loads_error: "loads s = Inl x \<Longrightarrow>
  x = JSONDecodeError \<or> x = ValueError (lit ''Exceeds the limit (4300 digits)'')"
  using loads_no_fuel_error [of s]
  by (auto simp: loads_def rbind_eq_Inl json_exc_def simp del: parse_value.simps split: if_splits dest!: parse_exc)
section \<open>Values with sorted keys\<close>

lemma insort_key_sorted: "sorted (map f (x # xs)) \<Longrightarrow> insort_key f x xs = x # xs"
  by (cases xs) auto

lemma sort_key_sorted: "sorted (map f xs) \<Longrightarrow> sort_key f xs = xs"
  by (induction xs) (auto simp: insort_key_sorted)

lemma map_fst_sort_keys: "map fst (sort_key fst d) = sort (map fst d)"
  using sort_key_map [of "\<lambda>x. x" fst d] by simp

lemma map_of_sort_key: "distinct (map fst d) \<Longrightarrow> map_of (sort_key fst d) = map_of d"
  by (rule map_of_inject_set [THEN iffD2]) (simp_all add: map_fst_sort_keys)

lemma sort_keys_dict: "sort_keys (VDict d) = VDict (sort_key fst (map (\<lambda>(k, v). (k, sort_keys v)) d))"
  by simp

lemma map_fst_pairs [simp]: "map (fst \<circ> (\<lambda>(k, v). (k, f v))) d = map fst d"
  by (induction d) auto

lemma map_of_pairs: "map_of (map (\<lambda>(k, v). (k, f v)) d) x = map_option f (map_of d x)"
  by (induction d) auto

lemma json_ok_sort_keys: "json_ok v \<Longrightarrow> json_ok (sort_keys v)"
proof (induction v)
  case (VNum n)
  then show ?case by (cases n) auto
next
  case (VList vs)
  then show ?case by (auto simp: list_all_iff)
next
  case (VDict d)
  have "json_ok (sort_keys v)" if "(k, v) \<in> set d" for k v
    using VDict.IH [of "(k, v)" v] VDict.prems that
    by (auto simp: list_all_iff Basic_BNFs.snds.simps)
  with VDict.prems show ?case
    by (auto simp: list_all_iff map_fst_sort_keys)
qed auto

lemma sort_keys_idem: "sort_keys (sort_keys v) = sort_keys v"
proof (induction v)
  case (VDict d)
  let ?e = "sort_key fst (map (\<lambda>(k, v). (k, sort_keys v)) d)"
  have "map (\<lambda>(k, v). (k, sort_keys v)) ?e = ?e"
    using VDict by (intro map_idI) (fastforce simp: Basic_BNFs.snds.simps)
  then show ?case by (simp add: sort_key_sorted)
qed auto

end
