(* ===== verification/Sha256.thy ===== *)
theory Sha256
  imports Py_Bytes
begin

unbundle bit_operations_syntax

text \<open>
  \<open>hashlib.sha256\<close>, which names every event: FIPS 180-4 on 32-bit words. The event id of
  the relay is the hexadecimal digest of the canonical text, so ids are computed by the
  model, not assumed.
\<close>

type_synonym u32 = "32 word"

definition rotr :: "nat \<Rightarrow> u32 \<Rightarrow> u32" where
  "rotr n w = (drop_bit n w OR push_bit (32 - n) w)"

definition ch :: "u32 \<Rightarrow> u32 \<Rightarrow> u32 \<Rightarrow> u32" where
  "ch x y z = ((x AND y) XOR (NOT x AND z))"

definition maj :: "u32 \<Rightarrow> u32 \<Rightarrow> u32 \<Rightarrow> u32" where
  "maj x y z = ((x AND y) XOR (x AND z) XOR (y AND z))"

definition bsig0 :: "u32 \<Rightarrow> u32" where
  "bsig0 x = (rotr 2 x XOR rotr 13 x XOR rotr 22 x)"

definition bsig1 :: "u32 \<Rightarrow> u32" where
  "bsig1 x = (rotr 6 x XOR rotr 11 x XOR rotr 25 x)"

definition ssig0 :: "u32 \<Rightarrow> u32" where
  "ssig0 x = (rotr 7 x XOR rotr 18 x XOR drop_bit 3 x)"

definition ssig1 :: "u32 \<Rightarrow> u32" where
  "ssig1 x = (rotr 17 x XOR rotr 19 x XOR drop_bit 10 x)"

text \<open>The round constants and the initial state, in decimal.\<close>

definition k256 :: "u32 list" where
  "k256 =
   [1116352408, 1899447441, 3049323471, 3921009573, 961987163, 1508970993, 2453635748, 2870763221,
    3624381080, 310598401, 607225278, 1426881987, 1925078388, 2162078206, 2614888103, 3248222580,
    3835390401, 4022224774, 264347078, 604807628, 770255983, 1249150122, 1555081692, 1996064986,
    2554220882, 2821834349, 2952996808, 3210313671, 3336571891, 3584528711, 113926993, 338241895,
    666307205, 773529912, 1294757372, 1396182291, 1695183700, 1986661051, 2177026350, 2456956037,
    2730485921, 2820302411, 3259730800, 3345764771, 3516065817, 3600352804, 4094571909, 275423344,
    430227734, 506948616, 659060556, 883997877, 958139571, 1322822218, 1537002063, 1747873779,
    1955562222, 2024104815, 2227730452, 2361852424, 2428436474, 2756734187, 3204031479, 3329325298]"

definition h256 :: "u32 list" where
  "h256 =
   [1779033703, 3144134277, 1013904242, 2773480762, 1359893119, 2600822924, 528734635, 1541459225]"

text \<open>Padding: a one bit, zeros, the bit length as 64 bits big endian.\<close>

definition be_bytes :: "nat \<Rightarrow> nat \<Rightarrow> byte list" where
  "be_bytes n x = map (\<lambda>i. word_of_nat (x div 256 ^ (n - 1 - i) mod 256)) [0..<n]"

definition sha_pad :: "byte list \<Rightarrow> byte list" where
  "sha_pad m =
     m @ [128] @ replicate ((119 - length m mod 64) mod 64) 0 @ be_bytes 8 (8 * length m)"

fun words_of :: "byte list \<Rightarrow> u32 list" where
  "words_of (a # b # c # d # s) =
     word_of_nat (((unat a * 256 + unat b) * 256 + unat c) * 256 + unat d) # words_of s"
| "words_of _ = []"

text \<open>The message schedule, kept newest first: 16 words of the block, then 48 more.\<close>

fun extend :: "nat \<Rightarrow> u32 list \<Rightarrow> u32 list" where
  "extend 0 w = w"
| "extend (Suc n) w =
     extend n ((ssig1 (w ! 1) + w ! 6 + ssig0 (w ! 14) + w ! 15) # w)"

definition schedule :: "u32 list \<Rightarrow> u32 list" where
  "schedule block = rev (extend 48 (rev block))"

fun sha_round :: "u32 \<times> u32 \<Rightarrow> u32 list \<Rightarrow> u32 list" where
  "sha_round (k, w) [a, b, c, d, e, f, g, h] =
     (let t1 = h + bsig1 e + ch e f g + k + w;
          t2 = bsig0 a + maj a b c
      in [t1 + t2, a, b, c, d + t1, e, f, g])"
| "sha_round _ s = s"

definition compress :: "u32 list \<Rightarrow> u32 list \<Rightarrow> u32 list" where
  "compress block h = map2 (+) h (fold sha_round (zip k256 (schedule block)) h)"

fun sha_blocks :: "nat \<Rightarrow> u32 list \<Rightarrow> u32 list \<Rightarrow> u32 list" where
  "sha_blocks 0 ws h = h"
| "sha_blocks (Suc n) ws h = sha_blocks n (drop 16 ws) (compress (take 16 ws) h)"

definition word_bytes :: "u32 \<Rightarrow> byte list" where
  "word_bytes w = be_bytes 4 (unat w)"

definition sha256 :: "byte list \<Rightarrow> byte list" where
  "sha256 m =
     (let p = sha_pad m
      in concat (map word_bytes (sha_blocks (length p div 64) (words_of p) h256)))"

definition sha256_hex :: "byte list \<Rightarrow> pystr" where
  "sha256_hex m = bytes_hex (sha256 m)"

section \<open>The digest has 32 bytes\<close>

lemma length_sha_round [simp]: "length (sha_round p s) = length s"
  by (induction p s rule: sha_round.induct) (simp_all add: Let_def)

lemma length_fold_round [simp]: "length (fold sha_round ps s) = length s"
  by (induction ps arbitrary: s) auto

lemma length_compress [simp]: "length (compress b h) = length h"
  by (simp add: compress_def)

lemma length_sha_blocks [simp]: "length (sha_blocks n ws h) = length h"
  by (induction n ws h rule: sha_blocks.induct) auto

lemma length_sha256 [simp]: "length (sha256 m) = 32"
proof -
  have "length (concat (map word_bytes ws)) = 4 * length ws" for ws
    by (induction ws) (auto simp: word_bytes_def be_bytes_def)
  then show ?thesis by (simp add: sha256_def Let_def h256_def)
qed

lemma sha256_hex_digits: "length (sha256_hex m) = 64" "list_all hex_digit (sha256_hex m)"
  by (simp_all add: sha256_hex_def bytes_hex_digits)

end
