(* ===== verification/Events.thy ===== *)
theory Events
  imports Json_Facts Sha256
begin

text \<open>
  \<open>spurline/events.py\<close>: the event a relay accepts, its canonical serialisation and id, and
  the checks of \<open>validate_event\<close> in the order the code makes them. The signature scheme
  is the third-party library coincurve: a parameter of the model (\<open>crypto\<close>).
\<close>

section \<open>Events\<close>

text \<open>
  \<open>created_at\<close> and \<open>kind\<close> are \<open>pynum\<close>: \<open>isinstance(x, int)\<close> lets a JSON \<open>true\<close>
  through, and the value keeps being a \<open>bool\<close> until SQLite stores it.
\<close>

record stored_event =
  ev_id :: pystr
  ev_pubkey :: pystr
  ev_created_at :: pynum
  ev_kind :: pynum
  ev_tags :: "pystr list list"
  ev_content :: pystr
  ev_sig :: pystr

text \<open>\<open>d.get(k)\<close>; where the code writes \<open>d[k]\<close> after checking the key it is the same.\<close>

definition dget :: "pydict \<Rightarrow> string \<Rightarrow> pyval" where
  "dget d k = (case map_of d (lit k) of None \<Rightarrow> VNone | Some v \<Rightarrow> v)"

definition tags_val :: "pystr list list \<Rightarrow> pyval" where
  "tags_val ts = VList (map (\<lambda>t. VList (map VStr t)) ts)"

text \<open>The tags a value holds, if it is a list of lists of strings.\<close>

fun tag_items :: "pyval list \<Rightarrow> pystr list list option" where
  "tag_items [] = Some []"
| "tag_items (VList us # vs) =
     (case str_items us of None \<Rightarrow> None | Some t \<Rightarrow> map_option (Cons t) (tag_items vs))"
| "tag_items (_ # vs) = None"

fun tags_of :: "pyval \<Rightarrow> pystr list list option" where
  "tags_of (VList vs) = tag_items vs"
| "tags_of _ = None"

definition need :: "pydict \<Rightarrow> string \<Rightarrow> pyval res" where
  "need d k = (case map_of d (lit k) of None \<Rightarrow> Inl KeyError | Some v \<Rightarrow> Inr v)"

fun need_str :: "pyval \<Rightarrow> pystr res" where
  "need_str (VStr s) = Inr s"
| "need_str _ = Inl TypeError"

fun need_num :: "pyval \<Rightarrow> pynum res" where
  "need_num (VNum n) = Inr n"
| "need_num _ = Inl TypeError"

definition need_tags :: "pyval \<Rightarrow> pystr list list res" where
  "need_tags v = (case tags_of v of None \<Rightarrow> Inl TypeError | Some ts \<Rightarrow> Inr ts)"

text \<open>
  \<open>StoredEvent.from_dict\<close>: a missing key raises. Python would store a value of another
  type unchecked; the record is typed, so that case is a \<open>TypeError\<close> here. It does not
  arise: \<open>from_dict\<close> is called on a validated event and on what \<open>to_dict\<close> wrote.
\<close>

definition from_dict :: "pydict \<Rightarrow> stored_event res" where
  "from_dict d =
     rbind (rbind (need d ''id'') need_str) (\<lambda>i.
     rbind (rbind (need d ''pubkey'') need_str) (\<lambda>p.
     rbind (rbind (need d ''created_at'') need_num) (\<lambda>c.
     rbind (rbind (need d ''kind'') need_num) (\<lambda>k.
     rbind (rbind (need d ''tags'') need_tags) (\<lambda>ts.
     rbind (rbind (need d ''content'') need_str) (\<lambda>x.
     rbind (rbind (need d ''sig'') need_str) (\<lambda>s.
       Inr \<lparr>ev_id = i, ev_pubkey = p, ev_created_at = c, ev_kind = k, ev_tags = ts,
            ev_content = x, ev_sig = s\<rparr>)))))))"

definition to_dict :: "stored_event \<Rightarrow> pydict" where
  "to_dict e =
     [(lit ''id'', VStr (ev_id e)),
      (lit ''pubkey'', VStr (ev_pubkey e)),
      (lit ''created_at'', VNum (ev_created_at e)),
      (lit ''kind'', VNum (ev_kind e)),
      (lit ''tags'', tags_val (ev_tags e)),
      (lit ''content'', VStr (ev_content e)),
      (lit ''sig'', VStr (ev_sig e))]"

section \<open>Canonical text and id\<close>

definition payload_fields :: "pydict \<Rightarrow> pyval list res" where
  "payload_fields d =
     rmap (need d) [''pubkey'', ''created_at'', ''kind'', ''tags'', ''content'']"

definition canonical_event_payload :: "pydict \<Rightarrow> pystr res" where
  "canonical_event_payload d =
     rbind (payload_fields d) (\<lambda>vs. Inr (dumps style_raw (VList (VInt 0 # vs))))"

definition event_id :: "pydict \<Rightarrow> pystr res" where
  "event_id d =
     rbind (canonical_event_payload d) (\<lambda>p.
     rbind (utf8_encode p) (\<lambda>b. Inr (sha256_hex b)))"

section \<open>Validation\<close>

definition is_hex :: "pyval \<Rightarrow> nat \<Rightarrow> bool" where
  "is_hex v n =
     (case v of VStr s \<Rightarrow> length s = n \<and> list_all hex_digit s | _ \<Rightarrow> False)"

fun valid_tags :: "pyval \<Rightarrow> bool" where
  "valid_tags (VList ts) =
     list_all (\<lambda>t. case t of VList us \<Rightarrow> list_all is_str us | _ \<Rightarrow> False) ts"
| "valid_tags _ = False"

text \<open>
  coincurve, a parameter: whether it is installed, whether \<open>PublicKeyXOnly(pubkey)\<close> accepts
  32 bytes as a point (it raises \<open>ValueError\<close> otherwise), and
  \<open>verify(signature, message)\<close> under that key.
\<close>

record crypto =
  coincurve :: bool
  xonly_ok :: "byte list \<Rightarrow> bool"
  schnorr_ok :: "byte list \<Rightarrow> byte list \<Rightarrow> byte list \<Rightarrow> bool"

definition verify_event_signature :: "crypto \<Rightarrow> pydict \<Rightarrow> unit res" where
  "verify_event_signature c d =
     (if \<not> coincurve c
      then Inl (EventValidationError (lit ''coincurve is required for signature verification''))
      else
        rbind (bytes_fromhex (the_str (dget d ''id''))) (\<lambda>message.
        rbind (bytes_fromhex (the_str (dget d ''sig''))) (\<lambda>signature.
        rbind (bytes_fromhex (the_str (dget d ''pubkey''))) (\<lambda>pubkey.
          if \<not> xonly_ok c pubkey
          then Inl (ValueError (lit ''The public key could not be parsed or is invalid.''))
          else if \<not> schnorr_ok c pubkey signature message
          then Inl (EventValidationError (lit ''signature verification failed''))
          else Inr ()))))"

definition required_fields :: "string list" where
  "required_fields =
     [''content'', ''created_at'', ''id'', ''kind'', ''pubkey'', ''sig'', ''tags'']"

definition missing_fields :: "pydict \<Rightarrow> string list" where
  "missing_fields d = [k \<leftarrow> required_fields. \<not> has_key (lit k) d]"

abbreviation EVE :: "string \<Rightarrow> exc" where
  "EVE s \<equiv> EventValidationError (lit s)"

fun validate_event :: "crypto \<Rightarrow> bool \<Rightarrow> int \<Rightarrow> pyval \<Rightarrow> stored_event res" where
  "validate_event c verify_signature now (VDict d) =
     (if missing_fields d \<noteq> [] then
        Inl (EventValidationError
               (lit ''missing fields: '' @ join (lit '', '') (map lit (missing_fields d))))
      else if \<not> is_hex (dget d ''id'') 64 then Inl (EVE ''id must be 32 bytes of lowercase hex'')
      else if \<not> is_hex (dget d ''pubkey'') 64
        then Inl (EVE ''pubkey must be 32 bytes of lowercase hex'')
      else if \<not> is_hex (dget d ''sig'') 128
        then Inl (EVE ''sig must be 64 bytes of lowercase hex'')
      else if \<not> is_num (dget d ''created_at'') then Inl (EVE ''created_at must be an integer'')
      else if num_val (the_num (dget d ''created_at'')) > now + 900
        then Inl (EVE ''created_at is too far in the future'')
      else if \<not> is_num (dget d ''kind'') then Inl (EVE ''kind must be an integer'')
      else if \<not> is_str (dget d ''content'') then Inl (EVE ''content must be a string'')
      else if \<not> valid_tags (dget d ''tags'') then Inl (EVE ''tags must be a list of string lists'')
      else
        rbind (event_id d) (\<lambda>expected_id.
          if the_str (dget d ''id'') \<noteq> expected_id
          then Inl (EVE ''id does not match serialized event'')
          else
            rbind (if verify_signature then verify_event_signature c d else Inr ())
              (\<lambda>_. from_dict d)))"
| "validate_event c verify_signature now _ = Inl (EVE ''event must be an object'')"

declare validate_event.simps(1) [simp del]

section \<open>Reading back a dictionary form\<close>

lemma tag_items_Some_iff: "tag_items vs = Some ts \<longleftrightarrow> VList vs = tags_val ts"
proof (induction vs arbitrary: ts rule: tag_items.induct)
  case (2 us vs)
  show ?case
  proof (cases ts)
    case (Cons t ts')
    have IH: "tag_items vs = Some ts' \<longleftrightarrow> VList vs = tags_val ts'" if "str_items us = Some t"
      using 2 that by blast
    then show ?thesis
      by (auto simp: Cons tags_val_def str_items_Some_iff split: option.splits)
  qed (auto simp: tags_val_def split: option.splits)
qed (auto simp: tags_val_def)

lemma tags_of_Some_iff: "tags_of v = Some ts \<longleftrightarrow> v = tags_val ts"
  by (cases v) (auto simp: tag_items_Some_iff tags_val_def)

lemma tags_val_inject [simp]: "tags_val ts = tags_val us \<longleftrightarrow> ts = us"
  by (metis option.inject tags_of_Some_iff)

lemma tags_of_tags_val [simp]: "tags_of (tags_val ts) = Some ts"
  by (simp add: tags_of_Some_iff)

lemma all_str_iff: "list_all is_str us \<longleftrightarrow> (\<exists>ss. us = map VStr ss)"
proof
  assume "list_all is_str us"
  then have "us = map VStr (map the_str us)"
    by (induction us) (auto elim: is_str.elims)
  then show "\<exists>ss. us = map VStr ss" by blast
qed (auto simp: list_all_iff)

lemma valid_tags_iff: "valid_tags v \<longleftrightarrow> (\<exists>ts. v = tags_val ts)"
proof
  assume "valid_tags v"
  then obtain us where v: "v = VList us"
    and us: "list_all (\<lambda>t. case t of VList ss \<Rightarrow> list_all is_str ss | _ \<Rightarrow> False) us"
    by (cases v) auto
  from us have "\<exists>ts. us = map (\<lambda>t. VList (map VStr t)) ts"
  proof (induction us)
    case (Cons u us)
    then obtain t ts where "u = VList (map VStr t)" "us = map (\<lambda>t. VList (map VStr t)) ts"
      by (auto simp: all_str_iff split: pyval.splits)
    then show ?case by (intro exI [of _ "t # ts"]) simp
  qed simp
  then show "\<exists>ts. v = tags_val ts" by (auto simp: v tags_val_def)
qed (auto simp: tags_val_def list_all_iff all_str_iff)

lemma dget_simps [simp]:
  "dget ((lit k, v) # d) k' = (if k = k' then v else dget d k')"
  "dget [] k = VNone"
  by (auto simp: dget_def)

lemma need_simps [simp]:
  "need ((lit k, v) # d) k' = (if k = k' then Inr v else need d k')"
  "need [] k = Inl KeyError"
  by (auto simp: need_def)

lemma has_key_simps [simp]:
  "has_key k ((k', v) # d) = (k = k' \<or> has_key k d)"
  "has_key k [] = False"
  by (auto simp: has_key_def)

lemma need_has_key: "has_key (lit k) d \<Longrightarrow> need d k = Inr (dget d k)"
  by (auto simp: need_def dget_def has_key_def)

lemma missing_fields_Nil:
  "missing_fields d = [] \<longleftrightarrow> (\<forall>k \<in> set required_fields. has_key (lit k) d)"
  by (auto simp: missing_fields_def filter_empty_conv)

theorem from_dict_to_dict [simp]: "from_dict (to_dict e) = Inr e"
  by (simp add: from_dict_def to_dict_def need_tags_def)

interpretation dictionary: round_trip to_dict from_dict "\<lambda>_. True"
  by unfold_locales simp

lemmas to_dict_inject = dictionary.inject [OF TrueI TrueI]

section \<open>What an accepted event satisfies\<close>

definition hex_string :: "nat \<Rightarrow> pystr \<Rightarrow> bool" where
  "hex_string n s = (length s = n \<and> list_all hex_digit s)"

lemma is_hex_iff: "is_hex v n \<longleftrightarrow> (\<exists>s. v = VStr s \<and> hex_string n s)"
  by (auto simp: is_hex_def hex_string_def split: pyval.splits)

lemma hex_string_encodable: "hex_string n s \<Longrightarrow> encodable s"
  by (auto simp: hex_string_def encodable_def list_all_iff hex_digit_def)

lemma is_num_iff: "is_num v \<longleftrightarrow> (\<exists>n. v = VNum n)"
  by (cases v) auto

lemma is_str_iff: "is_str v \<longleftrightarrow> (\<exists>s. v = VStr s)"
  by (cases v) auto

text \<open>The canonical text of a stored event.\<close>

definition event_payload :: "stored_event \<Rightarrow> pystr" where
  "event_payload e = dumps style_raw
     (VList [VInt 0, VStr (ev_pubkey e), VNum (ev_created_at e), VNum (ev_kind e),
             tags_val (ev_tags e), VStr (ev_content e)])"

definition event_encodable :: "stored_event \<Rightarrow> bool" where
  "event_encodable e =
     (encodable (ev_pubkey e) \<and> encodable (ev_content e) \<and> list_all (list_all encodable) (ev_tags e))"

definition event_digest :: "stored_event \<Rightarrow> pystr" where
  "event_digest e = sha256_hex (map word_of_nat (concat (map utf8_char (event_payload e))))"

text \<open>
  The well-formed events: what every accepted event is, whatever the signature setting. The
  storage proofs rest on this predicate.
\<close>

definition wf_event :: "stored_event \<Rightarrow> bool" where
  "wf_event e =
     (hex_string 64 (ev_id e) \<and> hex_string 64 (ev_pubkey e) \<and> hex_string 128 (ev_sig e)
      \<and> event_encodable e \<and> ev_id e = event_digest e)"

lemma encodable_hex_char [simp]: "encodable (hex4 u)"
  by (simp add: hex4_def hex_char_def)

lemma encodable_json_char [simp]: "encodable (json_char False c) \<longleftrightarrow> scalar c"
  by (auto simp: json_char_def u_escape_def)

lemma encodable_json_string [simp]: "encodable (json_string False s) \<longleftrightarrow> encodable s"
  by (induction s) (auto simp: json_string_def)

lemma encodable_nat_text [simp]: "encodable (nat_text n)"
  using nat_text_digits [of _ n] by (fastforce simp: encodable_def list_all_iff)

lemma encodable_int_text [simp]: "encodable (int_text i)"
  by (simp add: int_text_def)

lemma encodable_num_text [simp]: "encodable (num_text n)"
  by (cases n) auto

lemma encodable_join [simp]:
  "encodable sep \<Longrightarrow> encodable (join sep xs) \<longleftrightarrow> list_all encodable xs"
  by (induction sep xs rule: join.induct) auto

lemma encodable_tags_text [simp]:
  "encodable (dumps style_raw (tags_val ts)) \<longleftrightarrow> list_all (list_all encodable) ts"
  by (auto simp: tags_val_def list_all_iff)

lemma encodable_payload: "encodable (event_payload e) \<longleftrightarrow> event_encodable e"
  by (auto simp: event_payload_def event_encodable_def)

lemma payload_to_dict: "canonical_event_payload (to_dict e) = Inr (event_payload e)"
  by (simp add: canonical_event_payload_def payload_fields_def to_dict_def event_payload_def)

lemma event_id_to_dict:
  "event_id (to_dict e) =
     (if event_encodable e then Inr (event_digest e) else Inl UnicodeEncodeError)"
  by (simp add: event_id_def payload_to_dict encodable_payload utf8_encode_def event_digest_def)

lemma event_digest_hex: "hex_string 64 (event_digest e)"
  by (simp add: event_digest_def hex_string_def sha256_hex_digits)

text \<open>
  The dictionary of a checked event: its seven fields are those of \<open>e\<close>, in any order, and
  other keys are ignored.
\<close>

definition holds_event :: "pydict \<Rightarrow> stored_event \<Rightarrow> bool" where
  "holds_event d e = (\<forall>(k, v) \<in> set (to_dict e). map_of d k = Some v)"

lemma holds_event_to_dict [simp]: "holds_event (to_dict e) e"
  by (simp add: holds_event_def to_dict_def)

lemma holds_event_need:
  assumes "holds_event d e"
  shows "need d ''id'' = Inr (VStr (ev_id e))" "need d ''pubkey'' = Inr (VStr (ev_pubkey e))"
    "need d ''created_at'' = Inr (VNum (ev_created_at e))"
    "need d ''kind'' = Inr (VNum (ev_kind e))" "need d ''tags'' = Inr (tags_val (ev_tags e))"
    "need d ''content'' = Inr (VStr (ev_content e))" "need d ''sig'' = Inr (VStr (ev_sig e))"
  using assms by (auto simp: holds_event_def to_dict_def need_def)

lemma holds_event_dget:
  assumes "holds_event d e"
  shows "dget d ''id'' = VStr (ev_id e)" "dget d ''pubkey'' = VStr (ev_pubkey e)"
    "dget d ''created_at'' = VNum (ev_created_at e)"
    "dget d ''kind'' = VNum (ev_kind e)" "dget d ''tags'' = tags_val (ev_tags e)"
    "dget d ''content'' = VStr (ev_content e)" "dget d ''sig'' = VStr (ev_sig e)"
  using assms by (auto simp: holds_event_def to_dict_def dget_def)

lemma holds_event_keys: "holds_event d e \<Longrightarrow> missing_fields d = []"
  unfolding missing_fields_Nil
  by (auto simp: holds_event_def to_dict_def required_fields_def has_key_def)

lemma from_dict_holds: "from_dict d = Inr e \<longleftrightarrow> holds_event d e"
proof
  assume "holds_event d e"
  then show "from_dict d = Inr e"
    by (simp add: from_dict_def holds_event_need need_tags_def)
next
  assume d: "from_dict d = Inr e"
  have str: "need_str v = Inr s \<longleftrightarrow> v = VStr s" for v s by (cases v) auto
  have num: "need_num v = Inr n \<longleftrightarrow> v = VNum n" for v n by (cases v) auto
  have tgs: "need_tags v = Inr ts \<longleftrightarrow> v = tags_val ts" for v ts
    by (auto simp: need_tags_def tags_of_Some_iff split: option.splits)
  have got: "need d k = Inr v \<longleftrightarrow> map_of d (lit k) = Some v" for k v
    by (auto simp: need_def split: option.splits)
  from d show "holds_event d e"
    by (auto simp: from_dict_def rbind_eq_Inr str num tgs got holds_event_def to_dict_def)
qed

lemma event_id_holds: "holds_event d e \<Longrightarrow> event_id d = event_id (to_dict e)"
  by (simp add: event_id_def canonical_event_payload_def payload_fields_def
      holds_event_need holds_event_need [OF holds_event_to_dict])

lemma verify_signature_holds:
  "holds_event d e \<Longrightarrow> verify_event_signature c d = verify_event_signature c (to_dict e)"
  by (simp add: verify_event_signature_def holds_event_dget
      holds_event_dget [OF holds_event_to_dict])

text \<open>
  What acceptance comes to: the seven fields are present with their types, the id and the
  keys are lowercase hex, the time is at most 900 seconds ahead, the id is the digest of the
  canonical text and, when asked for, the signature verifies.
\<close>

lemma validate_event_iff:
  "validate_event c vs now v = Inr e \<longleftrightarrow>
     (\<exists>d. v = VDict d \<and> holds_event d e) \<and> wf_event e
     \<and> num_val (ev_created_at e) \<le> now + 900
     \<and> (vs \<longrightarrow> verify_event_signature c (to_dict e) = Inr ())"
  (is "?L \<longleftrightarrow> ?R")
proof
  assume R: ?R
  then obtain d where d: "v = VDict d" "holds_event d e" by blast
  from R have w: "wf_event e" by blast
  have "event_id d = Inr (ev_id e)"
    using w event_id_holds [OF d(2)] by (simp add: event_id_to_dict wf_event_def)
  with R w d show ?L
    by (auto simp: validate_event.simps(1) holds_event_keys holds_event_dget is_hex_iff
        wf_event_def valid_tags_iff verify_signature_holds [OF d(2)] from_dict_holds)
next
  assume L: ?L
  then obtain d where d: "v = VDict d" by (cases v) auto
  note L' = L [unfolded d validate_event.simps(1)]
  have h: "holds_event d e"
    using L' by (auto simp: rbind_eq_Inr from_dict_holds split: if_splits)
  have i: "event_id (to_dict e) = Inr (ev_id e)"
    using L' event_id_holds [OF h] by (auto simp: rbind_eq_Inr holds_event_dget [OF h] split: if_splits)
  with L' h show ?R
    by (auto simp: d rbind_eq_Inr is_hex_iff holds_event_dget [OF h] wf_event_def
        event_id_to_dict verify_signature_holds [OF h] split: if_splits)
qed

section \<open>The id commits to the event\<close>

definition num_printable :: "pynum \<Rightarrow> bool" where
  "num_printable n = (case n of NInt i \<Rightarrow> int_printable i | NBool _ \<Rightarrow> True)"

definition event_printable :: "stored_event \<Rightarrow> bool" where
  "event_printable e = (num_printable (ev_created_at e) \<and> num_printable (ev_kind e))"

definition payload_bytes :: "stored_event \<Rightarrow> byte list" where
  "payload_bytes e = map word_of_nat (concat (map utf8_char (event_payload e)))"

interpretation hex: round_trip bytes_hex bytes_fromhex "\<lambda>_. True"
  by unfold_locales simp

lemmas bytes_hex_inject [simp] = hex.inject [OF TrueI TrueI]

lemma json_ok_num [simp]: "json_ok (VNum n) \<longleftrightarrow> num_printable n"
  by (cases n) (auto simp: num_printable_def)

lemma json_ok_tags [simp]: "json_ok (tags_val ts) \<longleftrightarrow> list_all (list_all encodable) ts"
  by (auto simp: tags_val_def list_all_iff)

lemma int_printable_small: "\<bar>i\<bar> < 10 \<Longrightarrow> int_printable i"
  by (simp add: int_printable_def nat_text.simps)

lemma length_nat_text: "n < 10 ^ k \<Longrightarrow> 0 < k \<Longrightarrow> length (nat_text n) \<le> k"
proof (induction n arbitrary: k rule: nat_text.induct)
  case (1 n)
  show ?case
  proof (cases "n < 10")
    case True
    with "1.prems" show ?thesis by (subst nat_text.simps) simp
  next
    case False
    with "1.prems" obtain j where j: "k = Suc j" "0 < j"
      by (cases k; cases "k - 1") auto
    with "1.prems" have "n div 10 < 10 ^ j" by (simp add: less_mult_imp_div_less mult.commute)
    with "1.IH" [OF False] j False show ?thesis by (subst nat_text.simps) simp
  qed
qed

lemma int_printable_64: "- (2 ^ 63) \<le> i \<Longrightarrow> i < 2 ^ 63 \<Longrightarrow> int_printable i"
proof -
  assume "- (2 ^ 63) \<le> i" "i < 2 ^ 63"
  then have "nat \<bar>i\<bar> < 10 ^ 20" by simp
  then have "length (nat_text (nat \<bar>i\<bar>)) \<le> 20" by (rule length_nat_text) simp
  then show ?thesis by (simp add: int_printable_def)
qed

lemma event_payload_inject:
  assumes "event_encodable e" "event_encodable e'" "event_printable e" "event_printable e'"
    and "event_payload e = event_payload e'"
  shows "ev_pubkey e = ev_pubkey e' \<and> ev_created_at e = ev_created_at e' \<and>
    ev_kind e = ev_kind e' \<and> ev_tags e = ev_tags e' \<and> ev_content e = ev_content e'"
proof -
  let ?v = "\<lambda>e. VList [VInt 0, VStr (ev_pubkey e), VNum (ev_created_at e), VNum (ev_kind e),
             tags_val (ev_tags e), VStr (ev_content e)]"
  have ok: "event_encodable e \<Longrightarrow> event_printable e \<Longrightarrow> json_ok (?v e)" for e
    by (simp add: event_encodable_def event_printable_def int_printable_small
        num_printable_def)
  have "loads (event_payload e) = Inr (?v e)" "loads (event_payload e') = Inr (?v e')"
    unfolding event_payload_def using assms(1-4) by (intro loads_dumps ok; simp)+
  with assms(5) show ?thesis by simp
qed

lemma event_id_commits_helper:
  assumes "wf_event e" "wf_event e'" "ev_id e = ev_id e'"
  shows "sha256 (payload_bytes e) = sha256 (payload_bytes e')"
  using assms by (simp add: wf_event_def event_digest_def sha256_hex_def payload_bytes_def)

lemma payload_bytes_inject:
  assumes "event_encodable e" "event_encodable e'" "payload_bytes e = payload_bytes e'"
  shows "event_payload e = event_payload e'"
proof (rule utf8_encode_inject)
  show "utf8_encode (event_payload e) = Inr (payload_bytes e)"
    using assms by (simp add: encodable_payload payload_bytes_def)
  show "utf8_encode (event_payload e') = Inr (payload_bytes e)"
    using assms by (simp add: encodable_payload payload_bytes_def)
qed

section \<open>Sample events\<close>

text \<open>The event with these fields and the id its author computes.\<close>

definition mk_event ::
  "pystr \<Rightarrow> int \<Rightarrow> int \<Rightarrow> pystr list list \<Rightarrow> pystr \<Rightarrow> pystr \<Rightarrow> stored_event" where
  "mk_event p t k ts x s =
     (let e = \<lparr>ev_id = [], ev_pubkey = p, ev_created_at = NInt t, ev_kind = NInt k,
                ev_tags = ts, ev_content = x, ev_sig = s\<rparr>
      in e\<lparr>ev_id := event_digest e\<rparr>)"

lemma event_digest_id [simp]: "event_digest (e\<lparr>ev_id := i\<rparr>) = event_digest e"
  by (simp add: event_digest_def event_payload_def)

lemma mk_event_simps [simp]:
  "ev_pubkey (mk_event p t k ts x s) = p" "ev_created_at (mk_event p t k ts x s) = NInt t"
  "ev_kind (mk_event p t k ts x s) = NInt k" "ev_tags (mk_event p t k ts x s) = ts"
  "ev_content (mk_event p t k ts x s) = x" "ev_sig (mk_event p t k ts x s) = s"
  by (simp_all add: mk_event_def Let_def)

lemma wf_mk_event:
  assumes "hex_string 64 p" "hex_string 128 s" "list_all (list_all encodable) ts" "encodable x"
  shows "wf_event (mk_event p t k ts x s)"
proof -
  have "encodable p" using assms(1)
    by (auto simp: hex_string_def encodable_def list_all_iff hex_digit_def)
  then have "event_encodable (mk_event p t k ts x s)"
    using assms by (simp add: event_encodable_def)
  moreover have "ev_id (mk_event p t k ts x s) = event_digest (mk_event p t k ts x s)"
    by (simp add: mk_event_def Let_def event_digest_def event_payload_def)
  ultimately show ?thesis using assms by (simp add: wf_event_def event_digest_hex)
qed

lemma hex_string_replicate [simp]: "hex_digit c \<Longrightarrow> hex_string n (replicate n c)"
  by (simp add: hex_string_def list_all_iff)

lemma hex_digit_ab [simp]: "hex_digit 97" "hex_digit 98" "hex_digit 99" "hex_digit 102"
  by (simp_all add: hex_digit_def)

end
