(* ===== verification/Filters.thy ===== *)
theory Filters
  imports Events
begin

text \<open>
  \<open>spurline/filters.py\<close>: the subscription filters of NIP-01. A client's filter is an
  arbitrary JSON object; \<open>normalize_filters\<close> keeps the entries it understands. Its guards
  fix the type of every entry it keeps, so a normalised filter is a list of typed entries in
  the order of the dictionary, at most one per key.
\<close>

datatype fentry =
    Ids "pystr list"
  | Authors "pystr list"
  | Kinds "pynum list"
  | Since pynum
  | Until pynum
  | Limit pynum
  | TagF pystr "pystr list"

type_synonym relay_filter = "fentry list"

text \<open>The key an entry has in the dictionary; a tag filter's key is \<open>#\<close> and the tag name.\<close>

fun fkey :: "fentry \<Rightarrow> pystr" where
  "fkey (Ids _) = lit ''ids''"
| "fkey (Authors _) = lit ''authors''"
| "fkey (Kinds _) = lit ''kinds''"
| "fkey (Since _) = lit ''since''"
| "fkey (Until _) = lit ''until''"
| "fkey (Limit _) = lit ''limit''"
| "fkey (TagF name _) = 35 # name"

section \<open>Bounds\<close>

abbreviation FVE :: "string \<Rightarrow> exc" where
  "FVE s \<equiv> FilterValidationError (lit s)"

text \<open>\<open>values = value if isinstance(value, list) else [value]\<close>\<close>

fun entry_values :: "fentry \<Rightarrow> pyval list" where
  "entry_values (Ids ps) = map VStr ps"
| "entry_values (Authors ps) = map VStr ps"
| "entry_values (Kinds ks) = map VNum ks"
| "entry_values (Since n) = [VNum n]"
| "entry_values (Until n) = [VNum n]"
| "entry_values (Limit n) = [VNum n]"
| "entry_values (TagF _ vs) = map VStr vs"

definition fits64 :: "int \<Rightarrow> bool" where
  "fits64 i = (- (2 ^ 63) \<le> i \<and> i < 2 ^ 63)"

fun check_item :: "pyval \<Rightarrow> unit \<Rightarrow> unit res" where
  "check_item (VNum n) _ =
     ensure (fits64 (num_val n)) (FVE ''filter integers must fit signed 64-bit range'')"
| "check_item (VStr s) _ =
     ensure (length s \<le> 4096) (FVE ''filter strings must not exceed 4096 characters'')"
| "check_item _ _ = Inr ()"

fun partial_prefixes :: "fentry \<Rightarrow> nat" where
  "partial_prefixes (Ids ps) = length [p \<leftarrow> ps. length p \<noteq> 64]"
| "partial_prefixes (Authors ps) = length [p \<leftarrow> ps. length p \<noteq> 64]"
| "partial_prefixes _ = 0"

text \<open>One turn of the loop over the entries; the state is \<open>values_count\<close>.\<close>

definition check_entry :: "fentry \<Rightarrow> nat \<Rightarrow> nat res" where
  "check_entry f values_count =
     (let count = values_count + length (entry_values f)
      in if 2000 < count then Inl (FVE ''at most 2000 values per filter are allowed'')
         else rbind (rfold check_item (entry_values f) ()) (\<lambda>_.
           if 128 < partial_prefixes f
           then Inl (FVE ''at most 128 prefixes per field are allowed'')
           else Inr count))"

definition validate_filter_bounds :: "relay_filter list \<Rightarrow> unit res" where
  "validate_filter_bounds filters =
     (if 16 < length filters then Inl (FVE ''at most 16 filters are allowed'')
      else rfold (\<lambda>relay_filter _. rbind (rfold check_entry relay_filter 0) (\<lambda>_. Inr ())) filters ())"

section \<open>Normalisation\<close>

text \<open>
  The typed entry a key and value give, if the code keeps them. \<open>"limit"\<close>, \<open>"since"\<close> and
  \<open>"until"\<close> take any \<open>int\<close>, booleans included; a tag key is \<open>#\<close> and one character.
\<close>

definition clean_entry :: "pystr \<Rightarrow> pyval \<Rightarrow> fentry option" where
  "clean_entry key v =
     (case v of
        VList vs \<Rightarrow>
          (if key = lit ''ids'' \<or> key = lit ''authors'' then
             map_option (if key = lit ''ids'' then Ids else Authors) (str_items vs)
           else if key = lit ''kinds'' then map_option Kinds (num_items vs)
           else if startswith key (lit ''#'') \<and> length key = 2
             then map_option (TagF (drop 1 key)) (str_items vs)
           else None)
      | VNum n \<Rightarrow>
          (if key = lit ''since'' then Some (Since n)
           else if key = lit ''until'' then Some (Until n)
           else if key = lit ''limit'' then Some (Limit n)
           else None)
      | _ \<Rightarrow> None)"

definition clean_filter :: "pydict \<Rightarrow> relay_filter" where
  "clean_filter d = List.map_filter (\<lambda>(k, v). clean_entry k v) d"

fun clean_filters :: "pyval list \<Rightarrow> relay_filter list" where
  "clean_filters [] = []"
| "clean_filters (VDict d # vs) = clean_filter d # clean_filters vs"
| "clean_filters (_ # vs) = clean_filters vs"

definition normalize_filters :: "pyval list \<Rightarrow> relay_filter list res" where
  "normalize_filters filters =
     (if 16 < length filters then Inl (FVE ''at most 16 filters are allowed'')
      else let normalized = clean_filters filters
           in rbind (validate_filter_bounds normalized) (\<lambda>_. Inr normalized))"

section \<open>Matching\<close>

text \<open>The entries of a key: a list with at most one element, as keys are unique.\<close>

definition get_ids :: "relay_filter \<Rightarrow> pystr list option" where
  "get_ids f = (case [ps. Ids ps \<leftarrow> f] of [] \<Rightarrow> None | ps # _ \<Rightarrow> Some ps)"

definition get_authors :: "relay_filter \<Rightarrow> pystr list option" where
  "get_authors f = (case [ps. Authors ps \<leftarrow> f] of [] \<Rightarrow> None | ps # _ \<Rightarrow> Some ps)"

definition get_kinds :: "relay_filter \<Rightarrow> pynum list option" where
  "get_kinds f = (case [ks. Kinds ks \<leftarrow> f] of [] \<Rightarrow> None | ks # _ \<Rightarrow> Some ks)"

definition get_since :: "relay_filter \<Rightarrow> pynum option" where
  "get_since f = (case [n. Since n \<leftarrow> f] of [] \<Rightarrow> None | n # _ \<Rightarrow> Some n)"

definition get_until :: "relay_filter \<Rightarrow> pynum option" where
  "get_until f = (case [n. Until n \<leftarrow> f] of [] \<Rightarrow> None | n # _ \<Rightarrow> Some n)"

definition get_limit :: "relay_filter \<Rightarrow> pynum option" where
  "get_limit f = (case [n. Limit n \<leftarrow> f] of [] \<Rightarrow> None | n # _ \<Rightarrow> Some n)"

definition tag_filters :: "relay_filter \<Rightarrow> (pystr \<times> pystr list) list" where
  "tag_filters f = [(name, vs). TagF name vs \<leftarrow> f]"

definition matches_prefixes :: "pystr \<Rightarrow> pystr list \<Rightarrow> bool" where
  "matches_prefixes value prefixes = list_ex (startswith value) prefixes"

definition matches_tag :: "stored_event \<Rightarrow> pystr \<Rightarrow> pystr list \<Rightarrow> bool" where
  "matches_tag e tag_name vals =
     list_ex (\<lambda>tag. 2 \<le> length tag \<and> tag ! 0 = tag_name \<and> tag ! 1 \<in> set vals) (ev_tags e)"

text \<open>Python's \<open>in\<close> on integers compares values, so \<open>true\<close> is 1.\<close>

definition num_in :: "pynum \<Rightarrow> pynum list \<Rightarrow> bool" where
  "num_in n ns = list_ex (\<lambda>m. num_val m = num_val n) ns"

definition matches_filter :: "stored_event \<Rightarrow> relay_filter \<Rightarrow> bool" where
  "matches_filter e f =
     (if (case get_ids f of Some ps \<Rightarrow> \<not> matches_prefixes (ev_id e) ps | None \<Rightarrow> False)
        then False
      else if (case get_authors f of Some ps \<Rightarrow> \<not> matches_prefixes (ev_pubkey e) ps | None \<Rightarrow> False)
        then False
      else if (case get_kinds f of Some ks \<Rightarrow> \<not> num_in (ev_kind e) ks | None \<Rightarrow> False)
        then False
      else if (case get_since f of Some n \<Rightarrow> num_val (ev_created_at e) < num_val n | None \<Rightarrow> False)
        then False
      else if (case get_until f of Some n \<Rightarrow> num_val (ev_created_at e) > num_val n | None \<Rightarrow> False)
        then False
      else list_all (\<lambda>(name, vs). matches_tag e name vs) (tag_filters f))"

definition matches_any_filter :: "stored_event \<Rightarrow> relay_filter list \<Rightarrow> bool" where
  "matches_any_filter e filters = list_ex (matches_filter e) filters"

text \<open>\<open>filter_limit\<close> with its defaults: 500 when no filter asks, at most 5000, at least 1.\<close>

definition filter_limit :: "relay_filter list \<Rightarrow> int" where
  "filter_limit filters =
     (let requested = map num_val (List.map_filter get_limit filters)
      in if requested = [] then 500 else max 1 (min (Max (set requested)) 5000))"

end
