(* ===== verification/Event_Store.thy ===== *)
theory Event_Store
  imports Filters
begin

text \<open>
  \<open>spurline/store.py\<close>: the SQLite tables as lists of rows in rowid order, and the
  statements the code runs on them. A call runs under the lock and inside one transaction,
  so it is one function from the old tables to the new; where it raises, the transaction is
  rolled back and the result \<open>Inl\<close> carries no new tables.
\<close>

section \<open>Tables\<close>

record event_row =
  r_id :: pystr
  r_pubkey :: pystr
  r_created_at :: int
  r_kind :: int
  r_tags_json :: pystr
  r_content :: pystr
  r_sig :: pystr
  r_raw_json :: pystr

text \<open>\<open>event_tags\<close>: event id, name, value, with all three the primary key.\<close>

type_synonym tag_row = "pystr \<times> pystr \<times> pystr"

record deletion_row =
  del_event_id :: pystr
  deleted_by :: pystr
  deletion_event_id :: pystr
  deleted_at :: int

datatype job_state = Pending | Unavailable | Issued

record job_row =
  j_digest :: pystr
  j_inputs :: pystr
  j_state :: job_state
  j_receipt :: "pystr option"
  j_broadcast :: bool

record store =
  events :: "event_row list"
  event_tags :: "tag_row list"
  deletions :: "deletion_row list"
  witness_jobs :: "job_row list"

definition empty_store :: store where
  "empty_store = \<lparr>events = [], event_tags = [], deletions = [], witness_jobs = []\<rparr>"

text \<open>
  Binding a parameter: the driver encodes a string as UTF-8 (a surrogate raises
  \<open>UnicodeEncodeError\<close>) and an integer as 64 bits (\<open>OverflowError\<close>).
\<close>

definition bind_text :: "pystr \<Rightarrow> unit res" where
  "bind_text s = ensure (encodable s) UnicodeEncodeError"

definition bind_int :: "int \<Rightarrow> unit res" where
  "bind_int i = ensure (fits64 i) OverflowError"

section \<open>save\<close>

definition row_of :: "stored_event \<Rightarrow> event_row" where
  "row_of e =
     \<lparr>r_id = ev_id e, r_pubkey = ev_pubkey e, r_created_at = num_val (ev_created_at e),
      r_kind = num_val (ev_kind e), r_tags_json = dumps style_ascii (tags_val (ev_tags e)),
      r_content = ev_content e, r_sig = ev_sig e,
      r_raw_json = dumps style_raw (VDict (to_dict e))\<rparr>"

definition bind_row :: "event_row \<Rightarrow> unit res" where
  "bind_row r =
     rbind (bind_text (r_id r)) (\<lambda>_.
     rbind (bind_text (r_pubkey r)) (\<lambda>_.
     rbind (bind_int (r_created_at r)) (\<lambda>_.
     rbind (bind_int (r_kind r)) (\<lambda>_.
     rbind (bind_text (r_tags_json r)) (\<lambda>_.
     rbind (bind_text (r_content r)) (\<lambda>_.
     rbind (bind_text (r_sig r)) (\<lambda>_.
       bind_text (r_raw_json r))))))))"

definition insert_tag :: "tag_row \<Rightarrow> tag_row list \<Rightarrow> tag_row list res" where
  "insert_tag t ts =
     (case t of (i, n, v) \<Rightarrow>
        rbind (bind_text i) (\<lambda>_.
        rbind (bind_text n) (\<lambda>_.
        rbind (bind_text v) (\<lambda>_.
          Inr (if t \<in> set ts then ts else ts @ [t])))))"

definition tag_rows :: "pystr \<Rightarrow> pystr list list \<Rightarrow> tag_row list" where
  "tag_rows eid tags = [(eid, tag ! 0, tag ! 1). tag \<leftarrow> tags, 2 \<le> length tag]"

definition index_tags :: "pystr \<Rightarrow> pystr list list \<Rightarrow> tag_row list \<Rightarrow> tag_row list res" where
  "index_tags eid tags ts = rfold insert_tag (tag_rows eid tags) ts"

definition is_lower_hex :: "pystr \<Rightarrow> nat \<Rightarrow> bool" where
  "is_lower_hex s n = (length s = n \<and> list_all hex_digit s)"

text \<open>\<open>INSERT OR REPLACE\<close> under the primary key \<open>(event_id, deleted_by)\<close>.\<close>

definition replace_deletion :: "deletion_row \<Rightarrow> deletion_row list \<Rightarrow> deletion_row list" where
  "replace_deletion d ds =
     [d' \<leftarrow> ds. \<not> (del_event_id d' = del_event_id d \<and> deleted_by d' = deleted_by d)] @ [d]"

definition record_deletion ::
  "stored_event \<Rightarrow> pystr list \<Rightarrow> deletion_row list \<Rightarrow> deletion_row list res" where
  "record_deletion e tag ds =
     (if length tag < 2 \<or> tag ! 0 \<noteq> lit ''e'' then Inr ds
      else
        let target_id = tag ! 1
        in if \<not> is_lower_hex target_id 64 \<or> target_id = ev_id e then Inr ds
           else
             rbind (bind_text target_id) (\<lambda>_.
             rbind (bind_text (ev_pubkey e)) (\<lambda>_.
             rbind (bind_text (ev_id e)) (\<lambda>_.
             rbind (bind_int (num_val (ev_created_at e))) (\<lambda>_.
               Inr (replace_deletion
                      \<lparr>del_event_id = target_id, deleted_by = ev_pubkey e,
                       deletion_event_id = ev_id e, deleted_at = num_val (ev_created_at e)\<rparr>
                      ds))))))"

definition record_deletions ::
  "stored_event \<Rightarrow> deletion_row list \<Rightarrow> deletion_row list res" where
  "record_deletions e ds = rfold (record_deletion e) (ev_tags e) ds"

text \<open>
  The witness job of the event, queued in the same transaction: pending while fewer than
  \<open>queue_limit\<close> jobs are pending, otherwise recorded as unavailable. \<open>INSERT OR IGNORE\<close>
  keeps an earlier job of the same digest.
\<close>

definition count_pending :: "store \<Rightarrow> nat" where
  "count_pending s = length [j \<leftarrow> witness_jobs s. j_state j = Pending]"

definition enqueue_job :: "pydict \<Rightarrow> int \<Rightarrow> store \<Rightarrow> store res" where
  "enqueue_job job queue_limit s =
     (let st = (if int (count_pending s) < queue_limit then Pending else Unavailable)
      in rbind (rbind (need job ''signed_event_digest'') need_str) (\<lambda>digest.
         rbind (bind_text digest) (\<lambda>_.
           Inr (if digest \<in> j_digest ` set (witness_jobs s) then s
                else s\<lparr>witness_jobs := witness_jobs s @
                  [\<lparr>j_digest = digest, j_inputs = dumps style_default (VDict job), j_state = st,
                    j_receipt = None, j_broadcast = False\<rparr>]\<rparr>))))"

definition insert_event :: "stored_event \<Rightarrow> store \<Rightarrow> (store \<times> bool) res" where
  "insert_event e s =
     rbind (bind_row (row_of e)) (\<lambda>_.
       if ev_id e \<in> r_id ` set (events s) then Inr (s, False)
       else rbind (index_tags (ev_id e) (ev_tags e) (event_tags s)) (\<lambda>ts.
              Inr (s\<lparr>events := events s @ [row_of e], event_tags := ts\<rparr>, True)))"

text \<open>\<open>UPDATE ... SET state='issued', receipt=?, broadcast=0 WHERE digest=? AND state='pending'\<close>\<close>

definition complete_job :: "stored_event \<Rightarrow> pystr \<Rightarrow> store \<Rightarrow> store res" where
  "complete_job e digest s =
     rbind (bind_text digest) (\<lambda>_.
       Inr (s\<lparr>witness_jobs := map (\<lambda>j.
         if j_digest j = digest \<and> j_state j = Pending
         then j\<lparr>j_state := Issued, j_receipt := Some (dumps style_default (VDict (to_dict e))),
               j_broadcast := False\<rparr>
         else j) (witness_jobs s)\<rparr>))"

definition save ::
  "stored_event \<Rightarrow> pydict option \<Rightarrow> int \<Rightarrow> pystr option \<Rightarrow> store \<Rightarrow> (store \<times> bool) res" where
  "save e witness_job queue_limit completed s =
     rbind (case witness_job of None \<Rightarrow> Inr s | Some job \<Rightarrow> enqueue_job job queue_limit s) (\<lambda>s1.
     rbind (insert_event e s1) (\<lambda>(s2, inserted).
     rbind (if num_val (ev_kind e) = 5
            then rbind (record_deletions e (deletions s2)) (\<lambda>ds. Inr (s2\<lparr>deletions := ds\<rparr>))
            else Inr s2) (\<lambda>s3.
     rbind (case completed of None \<Rightarrow> Inr s3 | Some digest \<Rightarrow> complete_job e digest s3) (\<lambda>s4.
       Inr (s4, inserted)))))"

section \<open>Witness jobs\<close>

definition witness_rows :: "pystr option \<Rightarrow> store \<Rightarrow> job_row list res" where
  "witness_rows digest s =
     (case digest of
        Some d \<Rightarrow> rbind (bind_text d) (\<lambda>_. Inr [j \<leftarrow> witness_jobs s. j_digest j = d])
      | None \<Rightarrow> Inr (take 32 [j \<leftarrow> witness_jobs s.
                  j_state j = Pending \<or> (j_state j = Issued \<and> \<not> j_broadcast j)]))"

definition witness_update :: "pystr \<Rightarrow> bool \<Rightarrow> store \<Rightarrow> store res" where
  "witness_update digest unavailable s =
     rbind (bind_text digest) (\<lambda>_.
       Inr (s\<lparr>witness_jobs := map (\<lambda>j.
         if unavailable then
           (if j_digest j = digest \<and> j_state j = Pending then j\<lparr>j_state := Unavailable\<rparr> else j)
         else
           (if j_digest j = digest \<and> j_state j = Issued then j\<lparr>j_broadcast := True\<rparr> else j))
         (witness_jobs s)\<rparr>))"

section \<open>query\<close>

text \<open>
  A complete id is compared with \<open>IN\<close>, a prefix by the range from the prefix to the prefix
  followed by the last code point. SQLite orders text by its UTF-8 bytes, which is the order
  of the code points.
\<close>

definition last_code_point :: nat where
  "last_code_point = 1114111"

definition in_range :: "pystr \<Rightarrow> pystr \<Rightarrow> bool" where
  "in_range v p = (p \<le> v \<and> v < p @ [last_code_point])"

definition column_clause :: "pystr \<Rightarrow> pystr list \<Rightarrow> bool" where
  "column_clause v prefixes =
     (let exact = [p \<leftarrow> prefixes. length p = 64]
      in v \<in> set exact \<or> list_ex (in_range v) [p \<leftarrow> prefixes. length p \<noteq> 64])"

definition not_deleted :: "store \<Rightarrow> event_row \<Rightarrow> bool" where
  "not_deleted s r =
     (\<not> list_ex (\<lambda>d. del_event_id d = r_id r \<and> deleted_by d = r_pubkey r) (deletions s))"

definition where_clause :: "store \<Rightarrow> relay_filter \<Rightarrow> event_row \<Rightarrow> bool" where
  "where_clause s f r =
     (not_deleted s r
      \<and> (case get_ids f of None \<Rightarrow> True | Some ps \<Rightarrow> column_clause (r_id r) ps)
      \<and> (case get_authors f of None \<Rightarrow> True | Some ps \<Rightarrow> column_clause (r_pubkey r) ps)
      \<and> (case get_kinds f of None \<Rightarrow> True | Some ks \<Rightarrow> r_kind r \<in> set (map num_val ks))
      \<and> (case get_since f of None \<Rightarrow> True | Some n \<Rightarrow> num_val n \<le> r_created_at r)
      \<and> (case get_until f of None \<Rightarrow> True | Some n \<Rightarrow> r_created_at r \<le> num_val n)
      \<and> list_all (\<lambda>(name, vs). list_ex (\<lambda>v. (r_id r, name, v) \<in> set (event_tags s)) vs)
          (tag_filters f))"

text \<open>The text parameters of the statement; the integers fit, by the bounds check.\<close>

definition text_params :: "relay_filter \<Rightarrow> pystr list" where
  "text_params f =
     (case get_ids f of None \<Rightarrow> [] | Some ps \<Rightarrow> ps) @
     (case get_authors f of None \<Rightarrow> [] | Some ps \<Rightarrow> ps) @
     concat (map (\<lambda>(name, vs). name # vs) (tag_filters f))"

definition bind_filter :: "relay_filter \<Rightarrow> unit res" where
  "bind_filter f = ensure (list_all encodable (text_params f)) UnicodeEncodeError"

definition decode_row :: "event_row \<Rightarrow> stored_event res" where
  "decode_row r =
     rbind (loads (r_raw_json r)) (\<lambda>v. case v of VDict d \<Rightarrow> from_dict d | _ \<Rightarrow> Inl TypeError)"

definition row_key :: "event_row \<Rightarrow> int \<times> pystr" where
  "row_key r = (r_created_at r, r_id r)"

definition event_key :: "stored_event \<Rightarrow> int \<times> pystr" where
  "event_key e = (num_val (ev_created_at e), ev_id e)"

type_synonym match_dict = "(pystr \<times> stored_event) list"

definition add_match :: "event_row \<Rightarrow> match_dict \<Rightarrow> match_dict res" where
  "add_match r m = rbind (decode_row r) (\<lambda>e. Inr (dict_set (ev_id e) e m))"

definition select_rows :: "store \<Rightarrow> nat \<Rightarrow> relay_filter \<Rightarrow> event_row list" where
  "select_rows s limit f = take limit (newest_first row_key (filter (where_clause s f) (events s)))"

definition run_filter :: "store \<Rightarrow> nat \<Rightarrow> relay_filter \<Rightarrow> match_dict \<Rightarrow> match_dict res" where
  "run_filter s limit f m =
     rbind (bind_filter f) (\<lambda>_. rfold add_match (select_rows s limit f) m)"

definition query :: "relay_filter list \<Rightarrow> store \<Rightarrow> stored_event list res" where
  "query filters s =
     rbind (validate_filter_bounds filters) (\<lambda>_.
       let limit = nat (filter_limit filters)
       in rbind (rfold (run_filter s limit) filters []) (\<lambda>m.
            Inr (take limit (newest_first event_key (map snd m)))))"

section \<open>Migration\<close>

text \<open>
  A database file, possibly of an older version: a table may be missing. The first start
  after the upgrade builds the tag index from \<open>tags_json\<close>.
\<close>

record disk =
  d_events :: "event_row list option"
  d_jobs :: "job_row list option"
  d_deletions :: "deletion_row list option"
  d_tags :: "tag_row list option"

definition or_empty :: "'a list option \<Rightarrow> 'a list" where
  "or_empty t = (case t of None \<Rightarrow> [] | Some rows \<Rightarrow> rows)"

definition backfill_row :: "event_row \<Rightarrow> tag_row list \<Rightarrow> tag_row list res" where
  "backfill_row r ts =
     rbind (loads (r_tags_json r)) (\<lambda>v.
     rbind (need_tags v) (\<lambda>tags. index_tags (r_id r) tags ts))"

definition migrate :: "disk \<Rightarrow> store res" where
  "migrate d =
     rbind (case d_tags d of
              Some ts \<Rightarrow> Inr ts
            | None \<Rightarrow> rfold backfill_row (or_empty (d_events d)) []) (\<lambda>ts.
       Inr \<lparr>events = or_empty (d_events d), event_tags = ts,
            deletions = or_empty (d_deletions d), witness_jobs = or_empty (d_jobs d)\<rparr>)"

end
