(* ===== verification/Store_Spec.thy ===== *)
theory Store_Spec
  imports Event_Store
begin

text \<open>
  What the event store promises (\<open>docs/storage-backends.md\<close>: filters are ORed, results are
  deduplicated, same-author deletions hide their targets, the newest come first, the largest
  requested limit applies to the merged result), as an abstract store, and the proof that
  the SQL statements of \<open>Event_Store\<close> implement it.
\<close>

section \<open>The abstract store\<close>

text \<open>
  The events in the order they were first saved, and the deletion claims: a target id and
  the author who claimed it.
\<close>

record spec_store =
  sp_events :: "stored_event list"
  sp_hidden :: "(pystr \<times> pystr) set"

definition delete_targets :: "stored_event \<Rightarrow> pystr set" where
  "delete_targets e =
     {tag ! 1 | tag. tag \<in> set (ev_tags e) \<and> 2 \<le> length tag \<and> tag ! 0 = lit ''e''
        \<and> hex_string 64 (tag ! 1) \<and> tag ! 1 \<noteq> ev_id e}"

definition spec_save :: "stored_event \<Rightarrow> spec_store \<Rightarrow> spec_store" where
  "spec_save e a =
     \<lparr>sp_events = (if ev_id e \<in> ev_id ` set (sp_events a) then sp_events a
                   else sp_events a @ [e]),
      sp_hidden = sp_hidden a \<union>
        (if num_val (ev_kind e) = 5 then delete_targets e \<times> {ev_pubkey e} else {})\<rparr>"

definition spec_visible :: "spec_store \<Rightarrow> stored_event \<Rightarrow> bool" where
  "spec_visible a e = ((ev_id e, ev_pubkey e) \<notin> sp_hidden a)"

definition spec_query :: "relay_filter list \<Rightarrow> spec_store \<Rightarrow> stored_event list" where
  "spec_query filters a =
     take (nat (filter_limit filters))
       (newest_first event_key
          [e \<leftarrow> sp_events a. spec_visible a e \<and> matches_any_filter e filters])"

section \<open>The invariant of the tables\<close>

definition storable :: "stored_event \<Rightarrow> bool" where
  "storable e =
     (wf_event e \<and> fits64 (num_val (ev_created_at e)) \<and> fits64 (num_val (ev_kind e)))"

definition stored_events :: "store \<Rightarrow> stored_event list" where
  "stored_events s = map (\<lambda>r. projr (decode_row r)) (events s)"

definition represents :: "stored_event list \<Rightarrow> store \<Rightarrow> bool" where
  "represents es s =
     (events s = map row_of es \<and> list_all storable es \<and> distinct (map ev_id es)
      \<and> set (event_tags s) = (\<Union>e \<in> set es. set (tag_rows (ev_id e) (ev_tags e))))"

text \<open>Every row is the row of an acceptable event, ids are unique, the tag index is complete.\<close>

definition store_inv :: "store \<Rightarrow> bool" where
  "store_inv s = represents (stored_events s) s"

definition abs_store :: "store \<Rightarrow> spec_store" where
  "abs_store s =
     \<lparr>sp_events = stored_events s,
      sp_hidden = (\<lambda>d. (del_event_id d, deleted_by d)) ` set (deletions s)\<rparr>"

lemma fits64_printable: "fits64 (num_val n) \<Longrightarrow> num_printable n"
  by (cases n) (auto simp: num_printable_def fits64_def int_printable_64)

lemma storable_json_ok: "storable e \<Longrightarrow> json_ok (VDict (to_dict e))"
  by (auto simp: storable_def wf_event_def event_encodable_def to_dict_def fits64_printable
      dest: hex_string_encodable)

lemma row_of_simps [simp]:
  "r_id (row_of e) = ev_id e" "r_pubkey (row_of e) = ev_pubkey e"
  "r_created_at (row_of e) = num_val (ev_created_at e)"
  "r_kind (row_of e) = num_val (ev_kind e)"
  "r_tags_json (row_of e) = dumps style_ascii (tags_val (ev_tags e))"
  by (simp_all add: row_of_def)

lemma decode_row_of [simp]: "storable e \<Longrightarrow> decode_row (row_of e) = Inr e"
  using loads_dumps [OF storable_json_ok, of e style_raw]
  by (simp add: decode_row_def row_of_def)

interpretation row: round_trip row_of decode_row storable
  by unfold_locales simp

lemma represents_stored: "represents es s \<Longrightarrow> stored_events s = es"
  unfolding represents_def stored_events_def
  by (auto simp: list_all_iff intro!: map_idI)

lemma represents_inv: "represents es s \<Longrightarrow> store_inv s"
  by (simp add: store_inv_def represents_stored)

lemma store_inv_represents: "store_inv s \<Longrightarrow> represents (stored_events s) s"
  by (simp add: store_inv_def)

lemma store_inv_empty: "store_inv empty_store"
  by (rule represents_inv [of "[]"]) (simp add: represents_def empty_store_def)

section \<open>Saving\<close>

lemma encodable_raw_json: "event_encodable e \<Longrightarrow> encodable (ev_id e) \<Longrightarrow> encodable (ev_sig e)
  \<Longrightarrow> encodable (dumps style_raw (VDict (to_dict e)))"
  by (simp add: to_dict_def event_encodable_def)

lemma encodable_u_escape [simp]: "encodable (u_escape u)"
  by (simp add: u_escape_def)

lemma encodable_ascii_char [simp]: "encodable (json_char True c)"
  by (auto simp: json_char_def)

lemma encodable_ascii_string [simp]: "encodable (json_string True s)"
  by (induction s) (auto simp: json_string_def)

lemma encodable_ascii_tags [simp]: "encodable (dumps style_ascii (tags_val ts))"
  by (auto simp: tags_val_def list_all_iff)

lemma bind_text_eq [simp]: "encodable s \<Longrightarrow> bind_text s = Inr ()"
  by (simp add: bind_text_def)

lemma wf_event_encodable:
  assumes "wf_event e"
  shows "encodable (ev_id e)" "encodable (ev_pubkey e)" "encodable (ev_sig e)"
    "encodable (ev_content e)" "encodable (dumps style_raw (VDict (to_dict e)))"
  using assms hex_string_encodable encodable_raw_json [of e]
  unfolding wf_event_def event_encodable_def by blast+

lemma bind_row_wf:
  assumes "wf_event e"
  shows "bind_row (row_of e) = ensure (storable e) OverflowError"
  using assms
  by (simp add: bind_row_def row_of_def storable_def bind_int_def wf_event_encodable
      ensure_def del: dumps.simps)

lemma insert_tag_Inr:
  "encodable i \<Longrightarrow> encodable n \<Longrightarrow> encodable v \<Longrightarrow>
   insert_tag (i, n, v) ts = Inr (if (i, n, v) \<in> set ts then ts else ts @ [(i, n, v)])"
  by (simp add: insert_tag_def)

lemma index_tags_wf:
  assumes "encodable eid" "list_all (list_all encodable) tags"
  shows "\<exists>ts'. index_tags eid tags ts = Inr ts' \<and> set ts' = set ts \<union> set (tag_rows eid tags)"
proof -
  let ?ins = "\<lambda>t ts. if t \<in> set ts then ts else ts @ [t]"
  have elem: "encodable (tag ! 0) \<and> encodable (tag ! 1)"
    if "tag \<in> set tags" "2 \<le> length tag" for tag
  proof -
    have "tag ! 0 \<in> set tag" "tag ! 1 \<in> set tag" using that(2) by (auto intro!: nth_mem)
    then show ?thesis using that(1) assms(2) unfolding list_all_iff by blast
  qed
  have enc: "(i, n, v) \<in> set (tag_rows eid tags) \<Longrightarrow> encodable i \<and> encodable n \<and> encodable v"
    for i n v
    using assms(1) elem by (auto simp: tag_rows_def)
  have "index_tags eid tags ts = Inr (fold ?ins (tag_rows eid tags) ts)"
    unfolding index_tags_def
    by (rule rfold_total) (auto simp: insert_tag_Inr dest!: enc)
  moreover have "set (fold ?ins rows ts) = set ts \<union> set rows" for rows
    by (induction rows arbitrary: ts) auto
  ultimately show ?thesis by blast
qed

lemma record_deletion_wf:
  assumes "storable e"
  shows "record_deletion e tag ds = Inr
    (if 2 \<le> length tag \<and> tag ! 0 = lit ''e'' \<and> hex_string 64 (tag ! 1) \<and> tag ! 1 \<noteq> ev_id e
     then replace_deletion
       \<lparr>del_event_id = tag ! 1, deleted_by = ev_pubkey e,
        deletion_event_id = ev_id e, deleted_at = num_val (ev_created_at e)\<rparr> ds
     else ds)"
  using assms hex_string_encodable
  by (auto simp: record_deletion_def is_lower_hex_def hex_string_def Let_def storable_def
      wf_event_def bind_int_def)

definition hidden_by :: "deletion_row list \<Rightarrow> (pystr \<times> pystr) set" where
  "hidden_by ds = (\<lambda>d. (del_event_id d, deleted_by d)) ` set ds"

lemma hidden_by_replace:
  "hidden_by (replace_deletion d ds) = insert (del_event_id d, deleted_by d) (hidden_by ds)"
  by (auto simp: hidden_by_def replace_deletion_def image_iff)

lemma record_deletions_wf:
  assumes "storable e"
  shows "\<exists>ds'. record_deletions e ds = Inr ds' \<and>
    hidden_by ds' = hidden_by ds \<union> delete_targets e \<times> {ev_pubkey e}"
proof -
  let ?ok = "\<lambda>tag. 2 \<le> length tag \<and> tag ! 0 = lit ''e'' \<and> hex_string 64 (tag ! 1) \<and> tag ! 1 \<noteq> ev_id e"
  let ?row = "\<lambda>tag. \<lparr>del_event_id = tag ! 1, deleted_by = ev_pubkey e,
    deletion_event_id = ev_id e, deleted_at = num_val (ev_created_at e)\<rparr>"
  let ?step = "\<lambda>tag ds. if ?ok tag then replace_deletion (?row tag) ds else ds"
  have "record_deletions e ds = Inr (fold ?step (ev_tags e) ds)"
    unfolding record_deletions_def by (rule rfold_total) (rule record_deletion_wf [OF assms])
  moreover have "hidden_by (fold ?step tags ds)
      = hidden_by ds \<union> {tag ! 1 | tag. tag \<in> set tags \<and> ?ok tag} \<times> {ev_pubkey e}" for tags
    by (induction tags arbitrary: ds) (auto simp: hidden_by_replace)
  ultimately show ?thesis unfolding delete_targets_def by simp
qed

lemma represents_frame [simp]:
  "represents es (s\<lparr>deletions := ds\<rparr>) = represents es s"
  "represents es (s\<lparr>witness_jobs := js\<rparr>) = represents es s"
  by (simp_all add: represents_def)

lemma represents_ids: "represents es s \<Longrightarrow> r_id ` set (events s) = ev_id ` set es"
  by (simp add: represents_def image_image)

lemma insert_event_represents:
  assumes "represents es s" "storable e"
  shows "\<exists>s'. insert_event e s = Inr (s', ev_id e \<notin> ev_id ` set es)
    \<and> represents (if ev_id e \<in> ev_id ` set es then es else es @ [e]) s'
    \<and> deletions s' = deletions s \<and> witness_jobs s' = witness_jobs s"
proof (cases "ev_id e \<in> ev_id ` set es")
  case True
  with assms show ?thesis
    by (simp add: insert_event_def bind_row_wf [OF storable_def [THEN iffD1, THEN conjunct1]]
        represents_ids)
next
  case False
  have wf: "wf_event e" using assms(2) by (simp add: storable_def)
  obtain ts' where ts': "index_tags (ev_id e) (ev_tags e) (event_tags s) = Inr ts'"
    "set ts' = set (event_tags s) \<union> set (tag_rows (ev_id e) (ev_tags e))"
    using index_tags_wf wf_event_encodable(1) [OF wf] wf
    by (metis event_encodable_def wf_event_def)
  with False assms show ?thesis
    by (simp add: insert_event_def bind_row_wf [OF wf] represents_ids)
      (auto simp: represents_def)
qed

lemma enqueue_job_represents:
  "enqueue_job job q s = Inr s' \<Longrightarrow>
    represents es s' = represents es s \<and> deletions s' = deletions s \<and> events s' = events s"
  by (auto simp: enqueue_job_def Let_def rbind_eq_Inr split: if_splits)

lemma complete_job_represents:
  "complete_job e d s = Inr s' \<Longrightarrow>
    represents es s' = represents es s \<and> deletions s' = deletions s \<and> events s' = events s"
  by (auto simp: complete_job_def rbind_eq_Inr)

lemma abs_store_represents:
  "represents es s \<Longrightarrow> abs_store s = \<lparr>sp_events = es, sp_hidden = hidden_by (deletions s)\<rparr>"
  by (simp add: abs_store_def represents_stored hidden_by_def)

text \<open>
  Whatever job goes with it, a successful \<open>save\<close> takes the tables from one state of the
  abstract store to the next.
\<close>

lemma save_simulates:
  assumes inv: "store_inv s" and e: "storable e"
    and ok: "save e wj q completed s = Inr (s', b)"
  shows "store_inv s'" "abs_store s' = spec_save e (abs_store s)"
    "b \<longleftrightarrow> ev_id e \<notin> ev_id ` set (stored_events s)"
proof -
  define es where "es = stored_events s"
  have rep: "represents es s" using inv by (simp add: store_inv_def es_def)
  from ok obtain s1 where s1: "(case wj of None \<Rightarrow> Inr s | Some job \<Rightarrow> enqueue_job job q s) = Inr s1"
    by (auto simp: save_def rbind_eq_Inr)
  then have r1: "represents es s1" "deletions s1 = deletions s"
    using rep enqueue_job_represents by (auto split: option.splits)
  obtain s2 where s2: "insert_event e s1 = Inr (s2, ev_id e \<notin> ev_id ` set es)"
    "represents (if ev_id e \<in> ev_id ` set es then es else es @ [e]) s2"
    "deletions s2 = deletions s1"
    using insert_event_represents [OF r1(1) e] by blast
  obtain ds where ds: "record_deletions e (deletions s2) = Inr ds"
    "hidden_by ds = hidden_by (deletions s2) \<union> delete_targets e \<times> {ev_pubkey e}"
    using record_deletions_wf [OF e] by blast
  define s3 where "s3 = (if num_val (ev_kind e) = 5 then s2\<lparr>deletions := ds\<rparr> else s2)"
  have "rbind (case completed of None \<Rightarrow> Inr s3 | Some digest \<Rightarrow> complete_job e digest s3)
      (\<lambda>s4. Inr (s4, ev_id e \<notin> ev_id ` set es)) = Inr (s', b)"
    using ok s1 s2(1) ds(1)
    by (cases "num_val (ev_kind e) = 5") (simp_all add: save_def s3_def split: option.splits)
  then have s': "b \<longleftrightarrow> ev_id e \<notin> ev_id ` set es" "deletions s' = deletions s3"
    "represents x s' = represents x s3" for x
    using complete_job_represents by (auto simp: rbind_eq_Inr split: option.splits)
  have r3: "represents (if ev_id e \<in> ev_id ` set es then es else es @ [e]) s'"
    unfolding s'(3) s3_def using s2(2) by simp
  then show "store_inv s'" by (rule represents_inv)
  show "b \<longleftrightarrow> ev_id e \<notin> ev_id ` set (stored_events s)"
    using s'(1) by (simp add: es_def)
  show "abs_store s' = spec_save e (abs_store s)"
    unfolding abs_store_represents [OF r3] abs_store_represents [OF rep] spec_save_def
    using s'(2) ds(2) s2(3) r1(2) by (simp add: s3_def)
qed

lemma save_total:
  assumes "store_inv s" "wf_event e"
  shows "(\<exists>s' b. save e None q None s = Inr (s', b)) \<longleftrightarrow> storable e"
    "\<not> storable e \<Longrightarrow> save e None q None s = Inl OverflowError"
proof -
  have rep: "represents (stored_events s) s" using assms(1) by (simp add: store_inv_def)
  show no: "save e None q None s = Inl OverflowError" if "\<not> storable e"
    using that assms(2) by (simp add: save_def insert_event_def bind_row_wf)
  show "(\<exists>s' b. save e None q None s = Inr (s', b)) \<longleftrightarrow> storable e"
  proof
    assume e: "storable e"
    obtain s2 where "insert_event e s = Inr (s2, ev_id e \<notin> ev_id ` set (stored_events s))"
      using insert_event_represents [OF rep e] by blast
    moreover obtain ds where "record_deletions e (deletions s2) = Inr ds"
      using record_deletions_wf [OF e] by blast
    ultimately show "\<exists>s' b. save e None q None s = Inr (s', b)"
      by (simp add: save_def)
  qed (use no in fastforce)
qed

section \<open>Querying\<close>

lemma in_range_startswith:
  "list_all (\<lambda>c. c < last_code_point) v \<Longrightarrow> in_range v p \<longleftrightarrow> startswith v p"
proof (induction p arbitrary: v)
  case Nil
  then show ?case by (cases v) (auto simp: in_range_def)
next
  case (Cons c p)
  then show ?case by (cases v) (auto simp: in_range_def)
qed

lemma hex_string_below: "hex_string n v \<Longrightarrow> list_all (\<lambda>c. c < last_code_point) v"
  by (auto simp: hex_string_def hex_digit_def last_code_point_def list_all_iff)

lemma column_clause_hex:
  assumes "hex_string 64 v"
  shows "column_clause v ps \<longleftrightarrow> matches_prefixes v ps"
proof -
  have r: "in_range v p \<longleftrightarrow> startswith v p" for p
    using in_range_startswith [OF hex_string_below [OF assms]] .
  have x: "length p = 64 \<Longrightarrow> startswith v p \<longleftrightarrow> v = p" for p
    using assms by (simp add: startswith_same_length hex_string_def)
  show ?thesis
    by (auto simp: column_clause_def matches_prefixes_def list_ex_iff r) (use x in blast)+
qed

lemma tag_clause_iff:
  assumes rep: "represents es s" and e: "e \<in> set es"
  shows "list_ex (\<lambda>v. (ev_id e, name, v) \<in> set (event_tags s)) vs \<longleftrightarrow> matches_tag e name vs"
proof -
  have same: "e' \<in> set es \<Longrightarrow> ev_id e' = ev_id e \<Longrightarrow> e' = e" for e'
    using rep e by (auto simp: represents_def distinct_map inj_on_def)
  have "(ev_id e, name, v) \<in> set (event_tags s) \<longleftrightarrow> (ev_id e, name, v) \<in> set (tag_rows (ev_id e) (ev_tags e))"
    for v
  proof
    assume "(ev_id e, name, v) \<in> set (event_tags s)"
    then obtain e' where e': "e' \<in> set es" "(ev_id e, name, v) \<in> set (tag_rows (ev_id e') (ev_tags e'))"
      using rep by (auto simp: represents_def)
    then have "ev_id e' = ev_id e" by (auto simp: tag_rows_def)
    with e' same show "(ev_id e, name, v) \<in> set (tag_rows (ev_id e) (ev_tags e))" by blast
  qed (use rep e in \<open>auto simp: represents_def\<close>)
  then show ?thesis
    by (auto simp: list_ex_iff matches_tag_def tag_rows_def)
qed

lemma where_clause_iff:
  assumes rep: "represents es s" and e: "e \<in> set es"
  shows "where_clause s f (row_of e) \<longleftrightarrow> spec_visible (abs_store s) e \<and> matches_filter e f"
proof -
  have st: "hex_string 64 (ev_id e)" "hex_string 64 (ev_pubkey e)"
    using rep e by (auto simp: represents_def list_all_iff storable_def wf_event_def)
  have vis: "not_deleted s (row_of e) \<longleftrightarrow> spec_visible (abs_store s) e"
    by (simp add: not_deleted_def spec_visible_def abs_store_def list_ex_iff image_iff) metis
  have num: "num_val n \<in> set (map num_val ns) \<longleftrightarrow> num_in n ns" for n ns
    by (auto simp: num_in_def list_ex_iff image_iff intro: sym)
  show ?thesis
    unfolding where_clause_def matches_filter_def vis row_of_simps num
      column_clause_hex [OF st(1)] column_clause_hex [OF st(2)] tag_clause_iff [OF rep e]
    by (cases "get_since f"; cases "get_until f") (auto simp: not_less split: option.splits)
qed

lemma inj_event_key: "distinct (map ev_id es) \<Longrightarrow> inj_on event_key (set es)"
  by (auto simp: distinct_map inj_on_def event_key_def)

text \<open>The events one filter selects, and the dictionary they are collected in.\<close>

definition spec_select :: "spec_store \<Rightarrow> nat \<Rightarrow> relay_filter \<Rightarrow> stored_event list" where
  "spec_select a k f =
     take k (filter (\<lambda>e. spec_visible a e \<and> matches_filter e f) (newest_first event_key (sp_events a)))"

lemma select_rows_represents:
  assumes "represents es s"
  shows "select_rows s k f = map row_of (spec_select (abs_store s) k f)"
proof -
  have "filter (where_clause s f) (map row_of es)
      = map row_of (filter (\<lambda>e. spec_visible (abs_store s) e \<and> matches_filter e f) es)"
    unfolding filter_map using where_clause_iff [OF assms]
    by (auto intro!: arg_cong [of _ _ "map row_of"] filter_cong)
  moreover have "row_key (row_of e) = event_key e" for e
    by (simp add: row_key_def event_key_def)
  moreover have "events s = map row_of es" using assms by (simp add: represents_def)
  moreover have "sp_events (abs_store s) = es"
    using assms by (simp add: abs_store_def represents_stored)
  ultimately show ?thesis
    by (simp add: select_rows_def spec_select_def newest_first_map take_map newest_first_filter)
qed

definition collect :: "stored_event list \<Rightarrow> match_dict \<Rightarrow> match_dict" where
  "collect = fold (\<lambda>e. dict_set (ev_id e) e)"

lemma add_match_rows:
  "list_all storable es \<Longrightarrow> rfold add_match (map row_of es) m = Inr (collect es m)"
  unfolding collect_def
  by (induction es arbitrary: m) (simp_all add: add_match_def)

lemma run_filter_represents:
  assumes rep: "represents es s" and f: "list_all encodable (text_params f)"
  shows "run_filter s k f m = Inr (collect (spec_select (abs_store s) k f) m)"
proof -
  have "set (spec_select (abs_store s) k f) \<subseteq> set es"
    using rep by (auto simp: spec_select_def abs_store_def represents_stored dest!: in_set_takeD)
  then have "list_all storable (spec_select (abs_store s) k f)"
    using rep by (auto simp: represents_def list_all_iff)
  with f show ?thesis
    by (simp add: run_filter_def bind_filter_def select_rows_represents [OF rep] add_match_rows)
qed

lemma run_filters:
  assumes rep: "represents es s"
  shows "rfold (run_filter s k) fs m =
    (if list_all (\<lambda>f. list_all encodable (text_params f)) fs
     then Inr (collect (concat (map (spec_select (abs_store s) k) fs)) m)
     else Inl UnicodeEncodeError)"
proof (induction fs arbitrary: m)
  case (Cons f fs)
  show ?case
  proof (cases "list_all encodable (text_params f)")
    case True
    then show ?thesis using Cons by (simp add: run_filter_represents [OF rep] collect_def)
  next
    case False
    then show ?thesis by (simp add: run_filter_def bind_filter_def)
  qed
qed (simp add: collect_def)

lemma collect_values:
  assumes "inj_on ev_id (set xs \<union> snd ` set m)" "\<forall>(i, e) \<in> set m. i = ev_id e"
    and "distinct (map fst m)"
  shows "set (collect xs m) = (\<lambda>e. (ev_id e, e)) ` set xs \<union> set m
    \<and> distinct (map fst (collect xs m))"
  using assms
proof (induction xs arbitrary: m)
  case (Cons x xs)
  have one: "set (dict_set (ev_id x) x m) = insert (ev_id x, x) (set m)"
  proof (rule dict_set_values)
    fix v assume v: "(ev_id x, v) \<in> set m"
    then have "ev_id v = ev_id x" "v \<in> snd ` set m" using Cons.prems(2) by force+
    then show "v = x" using Cons.prems(1) by (auto simp: inj_on_def)
  qed
  have "set (collect xs (dict_set (ev_id x) x m))
      = (\<lambda>e. (ev_id e, e)) ` set xs \<union> set (dict_set (ev_id x) x m)
    \<and> distinct (map fst (collect xs (dict_set (ev_id x) x m)))"
    using Cons.prems by (intro Cons.IH) (auto simp: one)
  then show ?case by (simp add: collect_def one)
qed (simp add: collect_def)

lemma collect_distinct:
  assumes "inj_on ev_id (set xs)"
  shows "distinct (map snd (collect xs []))" "set (map snd (collect xs [])) = set xs"
proof -
  have c: "set (collect xs []) = (\<lambda>e. (ev_id e, e)) ` set xs"
    "distinct (map fst (collect xs []))"
    using collect_values [of xs "[]"] assms by auto
  then show "set (map snd (collect xs [])) = set xs" by (auto simp: image_image)
  have "inj_on snd (set (collect xs []))" unfolding c(1) by (auto simp: inj_on_def)
  with c(2) show "distinct (map snd (collect xs []))" by (auto simp: distinct_map)
qed

text \<open>
  The query refines the specification: per-filter selections of \<open>limit\<close> rows each, merged,
  sorted and cut again, give the newest \<open>limit\<close> of the visible events that any filter matches.
\<close>

lemma merge_selections:
  assumes "distinct (map ev_id (sp_events a))"
  shows "take k (newest_first event_key (map snd (collect (concat (map (spec_select a k) fs)) [])))
    = take k (newest_first event_key [e \<leftarrow> sp_events a. spec_visible a e \<and> matches_any_filter e fs])"
proof -
  let ?Q = "\<lambda>f e. spec_visible a e \<and> matches_filter e f"
  let ?xs = "concat (map (spec_select a k) fs)"
  have sub: "set ?xs \<subseteq> set (sp_events a)"
    by (auto simp: spec_select_def dest!: in_set_takeD)
  have inj: "inj_on ev_id (set ?xs)"
    by (rule inj_on_subset [OF _ sub]) (use assms in \<open>simp add: distinct_map\<close>)
  have "take k (newest_first event_key (map snd (collect ?xs [])))
      = take k (filter (\<lambda>x. \<exists>Q \<in> ?Q ` set fs. Q x) (newest_first event_key (sp_events a)))"
  proof (rule newest_of_merge)
    show "set (map snd (collect ?xs []))
        = (\<Union>Q \<in> ?Q ` set fs. set (take k (filter Q (newest_first event_key (sp_events a)))))"
      unfolding collect_distinct(2) [OF inj] by (simp add: spec_select_def)
  qed (use assms collect_distinct(1) [OF inj] inj_event_key in \<open>auto simp: distinct_map\<close>)
  also have "(\<lambda>x. \<exists>Q \<in> ?Q ` set fs. Q x) = (\<lambda>e. spec_visible a e \<and> matches_any_filter e fs)"
    by (auto simp: matches_any_filter_def list_ex_iff)
  finally show ?thesis by (simp add: newest_first_filter)
qed

definition query_params :: "relay_filter list \<Rightarrow> unit res" where
  "query_params fs =
     rbind (validate_filter_bounds fs) (\<lambda>_.
       ensure (list_all (\<lambda>f. list_all encodable (text_params f)) fs) UnicodeEncodeError)"

lemma query_simulates:
  assumes "store_inv s"
  shows "query fs s = rbind (query_params fs) (\<lambda>_. Inr (spec_query fs (abs_store s)))"
proof -
  have rep: "represents (stored_events s) s" using assms by (simp add: store_inv_def)
  then have d: "distinct (map ev_id (sp_events (abs_store s)))"
    by (simp add: represents_def abs_store_def)
  show ?thesis
    by (simp add: query_def query_params_def run_filters [OF rep] merge_selections [OF d]
        spec_query_def rbind_assoc Let_def ensure_def rbind_def split: sum.split)
qed

section \<open>Migration\<close>

lemma json_ok_tags_text:
  assumes "list_all (list_all encodable) ts"
  shows "loads (dumps style_ascii (tags_val ts)) = Inr (tags_val ts)"
  using assms by (intro loads_dumps) simp_all

lemma backfill_row_of:
  assumes "storable e"
  shows "\<exists>ts'. backfill_row (row_of e) ts = Inr ts'
    \<and> set ts' = set ts \<union> set (tag_rows (ev_id e) (ev_tags e))"
proof -
  have w: "wf_event e" "list_all (list_all encodable) (ev_tags e)"
    using assms unfolding storable_def wf_event_def event_encodable_def by blast+
  show ?thesis
    using index_tags_wf [OF wf_event_encodable(1) [OF w(1)] w(2)] json_ok_tags_text [OF w(2)]
    by (simp add: backfill_row_def need_tags_def)
qed

lemma backfill_rows:
  "list_all storable es \<Longrightarrow>
   \<exists>ts'. rfold backfill_row (map row_of es) ts = Inr ts'
     \<and> set ts' = set ts \<union> (\<Union>e \<in> set es. set (tag_rows (ev_id e) (ev_tags e)))"
proof (induction es arbitrary: ts)
  case (Cons e es)
  obtain ts1 where ts1: "backfill_row (row_of e) ts = Inr ts1"
    "set ts1 = set ts \<union> set (tag_rows (ev_id e) (ev_tags e))"
    using backfill_row_of [of e ts] Cons.prems by auto
  obtain ts2 where "rfold backfill_row (map row_of es) ts1 = Inr ts2"
    "set ts2 = set ts1 \<union> (\<Union>e \<in> set es. set (tag_rows (ev_id e) (ev_tags e)))"
    using Cons by fastforce
  with ts1 show ?case by auto
qed simp

text \<open>Every event of the old file is there, with its deletions, and is found by its tags.\<close>

lemma migrate_backfills:
  assumes es: "list_all storable es" "distinct (map ev_id es)"
    and d: "d_events d = Some (map row_of es)" "d_tags d = None"
  shows "\<exists>s. migrate d = Inr s \<and> represents es s \<and> witness_jobs s = or_empty (d_jobs d)
    \<and> deletions s = or_empty (d_deletions d)"
  using backfill_rows [OF es(1), of "[]"] es d
  by (auto simp: migrate_def represents_def or_empty_def)

definition disk_of :: "store \<Rightarrow> disk" where
  "disk_of s = \<lparr>d_events = Some (events s), d_jobs = Some (witness_jobs s),
     d_deletions = Some (deletions s), d_tags = Some (event_tags s)\<rparr>"

lemma migrate_current [simp]: "migrate (disk_of s) = Inr s"
  by (simp add: migrate_def disk_of_def or_empty_def)

end
