(* ===== verification/Job_Queue.thy ===== *)
theory Job_Queue
  imports Store_Spec
begin

text \<open>
  The witness job table of \<open>store.py\<close> as a state machine: what \<open>save\<close> and \<open>witness_update\<close>
  may do to a job, the bound on the pending jobs, and the operations on the store as one
  step relation.
\<close>

section \<open>The life of a job\<close>

inductive job_step :: "job_row \<Rightarrow> job_row \<Rightarrow> bool" where
  issue: "j_state j = Pending \<Longrightarrow>
    job_step j (j\<lparr>j_state := Issued, j_receipt := Some r, j_broadcast := False\<rparr>)"
| give_up: "j_state j = Pending \<Longrightarrow> job_step j (j\<lparr>j_state := Unavailable\<rparr>)"
| announce: "j_state j = Issued \<Longrightarrow> job_step j (j\<lparr>j_broadcast := True\<rparr>)"

inductive_cases job_stepE: "job_step j j'"

definition job_ok :: "job_row \<Rightarrow> bool" where
  "job_ok j = ((j_state j = Issued \<longleftrightarrow> j_receipt j \<noteq> None) \<and> (j_broadcast j \<longrightarrow> j_state j = Issued))"

definition job_fresh :: "job_row \<Rightarrow> bool" where
  "job_fresh j = (j_state j \<noteq> Issued \<and> j_receipt j = None \<and> \<not> j_broadcast j)"

lemma job_fresh_ok: "job_fresh j \<Longrightarrow> job_ok j"
  by (auto simp: job_fresh_def job_ok_def)

lemma job_step_ok: "job_step j j' \<Longrightarrow> job_ok j \<Longrightarrow> job_ok j'"
  by (auto simp: job_ok_def elim: job_stepE)

lemma job_step_same: "job_step j j' \<Longrightarrow> j_digest j' = j_digest j \<and> j_inputs j' = j_inputs j"
  by (auto elim: job_stepE)

lemma job_steps_same: "job_step\<^sup>*\<^sup>* j j' \<Longrightarrow> j_digest j' = j_digest j \<and> j_inputs j' = j_inputs j"
  by (induction rule: rtranclp_induct) (auto dest: job_step_same)

lemma job_steps_ok: "job_step\<^sup>*\<^sup>* j j' \<Longrightarrow> job_ok j \<Longrightarrow> job_ok j'"
  by (induction rule: rtranclp_induct) (auto dest: job_step_ok)

lemma job_step_final: "job_step j j' \<Longrightarrow> j_state j \<noteq> Pending \<Longrightarrow>
    j_state j' = j_state j \<and> j_receipt j' = j_receipt j"
  by (auto elim: job_stepE)

lemma job_steps_final: "job_step\<^sup>*\<^sup>* j j' \<Longrightarrow> j_state j \<noteq> Pending \<Longrightarrow>
    j_state j' = j_state j \<and> j_receipt j' = j_receipt j"
  by (induction rule: rtranclp_induct) (auto dest: job_step_final)

text \<open>The table grows at its end; the rows that were there make steps of their own.\<close>

definition jobs_evolve :: "job_row list \<Rightarrow> job_row list \<Rightarrow> bool" where
  "jobs_evolve js js' =
     (\<exists>old new. js' = old @ new \<and> list_all2 job_step\<^sup>*\<^sup>* js old
        \<and> list_all (\<lambda>j. \<exists>j0. job_fresh j0 \<and> job_step\<^sup>*\<^sup>* j0 j) new)"

definition jobs_ok :: "store \<Rightarrow> bool" where
  "jobs_ok s = (distinct (map j_digest (witness_jobs s)) \<and> list_all job_ok (witness_jobs s))"

lemma list_all2_job_refl: "list_all2 job_step\<^sup>*\<^sup>* js js"
  by (simp add: list_all2_refl)

lemma list_all2_job_trans:
  "list_all2 job_step\<^sup>*\<^sup>* js ks \<Longrightarrow> list_all2 job_step\<^sup>*\<^sup>* ks ls \<Longrightarrow> list_all2 job_step\<^sup>*\<^sup>* js ls"
  by (rule list_all2_trans [where ?P1.0 = "job_step\<^sup>*\<^sup>*"]) auto

lemma jobs_evolve_refl: "jobs_evolve js js"
  unfolding jobs_evolve_def
  by (intro exI [of _ js] exI [of _ "[]"]) (simp add: list_all2_job_refl)

lemma jobs_evolve_map:
  "(\<And>j. job_step\<^sup>*\<^sup>* j (f j)) \<Longrightarrow> jobs_evolve js (map f js)"
  unfolding jobs_evolve_def
  by (intro exI [of _ "map f js"] exI [of _ "[]"]) (simp add: list_all2_conv_all_nth)

lemma jobs_evolve_append: "job_fresh j \<Longrightarrow> jobs_evolve js (js @ [j])"
  unfolding jobs_evolve_def
  by (intro exI [of _ js] exI [of _ "[j]"]) (auto simp: list_all2_job_refl)

lemma jobs_evolve_trans:
  assumes "jobs_evolve js ks" "jobs_evolve ks ls"
  shows "jobs_evolve js ls"
proof -
  obtain old new where 1: "ks = old @ new" "list_all2 job_step\<^sup>*\<^sup>* js old"
    "list_all (\<lambda>j. \<exists>j0. job_fresh j0 \<and> job_step\<^sup>*\<^sup>* j0 j) new"
    using assms(1) unfolding jobs_evolve_def by blast
  obtain ks' more where 2: "ls = ks' @ more" "list_all2 job_step\<^sup>*\<^sup>* ks ks'"
    "list_all (\<lambda>j. \<exists>j0. job_fresh j0 \<and> job_step\<^sup>*\<^sup>* j0 j) more"
    using assms(2) unfolding jobs_evolve_def by blast
  from 2(2) obtain old' new' where 3: "ks' = old' @ new'" "list_all2 job_step\<^sup>*\<^sup>* old old'"
    "list_all2 job_step\<^sup>*\<^sup>* new new'"
    unfolding 1(1) list_all2_append1 by blast
  have "list_all (\<lambda>j. \<exists>j0. job_fresh j0 \<and> job_step\<^sup>*\<^sup>* j0 j) new'"
    using 1(3) 3(3) by (auto simp: list_all_length list_all2_conv_all_nth) (meson rtranclp_trans)
  with 1 2 3 show ?thesis
    unfolding jobs_evolve_def
    by (intro exI [of _ old'] exI [of _ "new' @ more"]) (auto intro: list_all2_job_trans)
qed

lemma jobs_evolve_nth:
  assumes "jobs_evolve js js'" "i < length js"
  shows "i < length js' \<and> job_step\<^sup>*\<^sup>* (js ! i) (js' ! i)"
  using assms by (auto simp: jobs_evolve_def list_all2_conv_all_nth nth_append)

lemma jobs_evolve_ok:
  assumes "jobs_evolve js js'" "list_all job_ok js"
  shows "list_all job_ok js'"
proof -
  obtain old new where js': "js' = old @ new" "list_all2 job_step\<^sup>*\<^sup>* js old"
    "list_all (\<lambda>j. \<exists>j0. job_fresh j0 \<and> job_step\<^sup>*\<^sup>* j0 j) new"
    using assms(1) unfolding jobs_evolve_def by blast
  have "list_all job_ok old"
    using js'(2) assms(2) job_steps_ok by (auto simp: list_all_length list_all2_conv_all_nth)
  moreover have "list_all job_ok new"
    using js'(3) job_steps_ok job_fresh_ok unfolding list_all_iff by blast
  ultimately show ?thesis by (simp add: js'(1))
qed

section \<open>The operations\<close>

lemma map_digest_update [simp]:
  "(\<And>j. j_digest (f j) = j_digest j) \<Longrightarrow> map j_digest (map f js) = map j_digest js"
  by simp

lemma enqueue_job_jobs:
  assumes "enqueue_job job q s = Inr s'"
  shows "jobs_evolve (witness_jobs s) (witness_jobs s')" "jobs_ok s \<Longrightarrow> jobs_ok s'"
    "int (count_pending s') \<le> max q (int (count_pending s))"
  using assms
  by (auto simp: enqueue_job_def Let_def rbind_eq_Inr job_fresh_def job_ok_def jobs_ok_def
      count_pending_def split: if_splits intro: jobs_evolve_refl intro!: jobs_evolve_append)

lemma complete_job_jobs:
  assumes "complete_job e d s = Inr s'"
  shows "jobs_evolve (witness_jobs s) (witness_jobs s')"
    "distinct (map j_digest (witness_jobs s)) \<Longrightarrow> distinct (map j_digest (witness_jobs s'))"
    "count_pending s' \<le> count_pending s"
proof -
  let ?f = "\<lambda>j. if j_digest j = d \<and> j_state j = Pending
    then j\<lparr>j_state := Issued, j_receipt := Some (dumps style_default (VDict (to_dict e))),
           j_broadcast := False\<rparr> else j"
  have s': "s' = s\<lparr>witness_jobs := map ?f (witness_jobs s)\<rparr>"
    using assms by (auto simp: complete_job_def rbind_eq_Inr simp del: dumps.simps)
  have step: "job_step\<^sup>*\<^sup>* j (?f j)" for j
    using job_step.issue [of j] by auto
  show "jobs_evolve (witness_jobs s) (witness_jobs s')"
    using jobs_evolve_map [OF step] unfolding s' by simp
  have "map j_digest (witness_jobs s') = map j_digest (witness_jobs s)"
    unfolding s' by simp
  then show "distinct (map j_digest (witness_jobs s)) \<Longrightarrow> distinct (map j_digest (witness_jobs s'))"
    by simp
  have "length [j \<leftarrow> map ?f js. j_state j = Pending] \<le> length [j \<leftarrow> js. j_state j = Pending]" for js
    by (induction js) auto
  then show "count_pending s' \<le> count_pending s" unfolding s' count_pending_def by simp
qed

lemma witness_update_jobs:
  assumes "witness_update d u s = Inr s'"
  shows "jobs_evolve (witness_jobs s) (witness_jobs s')"
    "distinct (map j_digest (witness_jobs s)) \<Longrightarrow> distinct (map j_digest (witness_jobs s'))"
    "count_pending s' \<le> count_pending s" "represents es s' = represents es s"
    "deletions s' = deletions s"
proof -
  let ?f = "\<lambda>j. if u then
           (if j_digest j = d \<and> j_state j = Pending then j\<lparr>j_state := Unavailable\<rparr> else j)
         else
           (if j_digest j = d \<and> j_state j = Issued then j\<lparr>j_broadcast := True\<rparr> else j)"
  have s': "s' = s\<lparr>witness_jobs := map ?f (witness_jobs s)\<rparr>"
    using assms by (auto simp: witness_update_def rbind_eq_Inr)
  have step: "job_step\<^sup>*\<^sup>* j (?f j)" for j
    using job_step.give_up [of j] job_step.announce [of j] by auto
  show "jobs_evolve (witness_jobs s) (witness_jobs s')"
    using jobs_evolve_map [OF step] unfolding s' by simp
  have "map j_digest (witness_jobs s') = map j_digest (witness_jobs s)"
    unfolding s' by simp
  then show "distinct (map j_digest (witness_jobs s)) \<Longrightarrow> distinct (map j_digest (witness_jobs s'))"
    by simp
  have "length [j \<leftarrow> map ?f js. j_state j = Pending] \<le> length [j \<leftarrow> js. j_state j = Pending]" for js
    by (induction js) auto
  then show "count_pending s' \<le> count_pending s" unfolding s' count_pending_def by simp
  show "represents es s' = represents es s" "deletions s' = deletions s" unfolding s' by simp_all
qed

lemma insert_event_jobs: "insert_event e s = Inr (s', b) \<Longrightarrow> witness_jobs s' = witness_jobs s"
  by (auto simp: insert_event_def rbind_eq_Inr split: if_splits)

text \<open>The parts of a save that returns; the deletions touch no job.\<close>

lemma save_parts:
  assumes "save e wj q completed s = Inr (s', b)"
  obtains s1 s2 s3 where
    "(case wj of None \<Rightarrow> Inr s | Some job \<Rightarrow> enqueue_job job q s) = Inr s1"
    "insert_event e s1 = Inr (s2, b)" "witness_jobs s3 = witness_jobs s2"
    "(case completed of None \<Rightarrow> Inr s3 | Some digest \<Rightarrow> complete_job e digest s3) = Inr s'"
proof -
  from assms obtain s1 s2 s3 where
    "(case wj of None \<Rightarrow> Inr s | Some job \<Rightarrow> enqueue_job job q s) = Inr s1"
    "insert_event e s1 = Inr (s2, b)"
    "(if num_val (ev_kind e) = 5
      then rbind (record_deletions e (deletions s2)) (\<lambda>ds. Inr (s2\<lparr>deletions := ds\<rparr>))
      else Inr s2) = Inr s3"
    "(case completed of None \<Rightarrow> Inr s3 | Some digest \<Rightarrow> complete_job e digest s3) = Inr s'"
    by (simp only: save_def rbind_eq_Inr split_paired_Ex prod.case sum.inject prod.inject) blast
  moreover from this(3) have "witness_jobs s3 = witness_jobs s2"
    by (auto simp: rbind_eq_Inr split: if_splits)
  ultimately show thesis using that by blast
qed

lemma save_completes:
  assumes "save e None q (Some d) s = Inr (s', b)"
  shows "\<exists>s3. witness_jobs s3 = witness_jobs s \<and> complete_job e d s3 = Inr s'"
proof -
  obtain s2 s3 where "insert_event e s = Inr (s2, b)" "witness_jobs s3 = witness_jobs s2"
    "complete_job e d s3 = Inr s'"
    using assms by (rule save_parts) simp
  with insert_event_jobs show ?thesis by (intro exI [of _ s3]) simp
qed

lemma save_jobs:
  assumes "save e wj q completed s = Inr (s', b)"
  shows "jobs_evolve (witness_jobs s) (witness_jobs s')"
    "distinct (map j_digest (witness_jobs s)) \<Longrightarrow> distinct (map j_digest (witness_jobs s'))"
    "int (count_pending s') \<le> max q (int (count_pending s))"
proof -
  obtain s1 s2 s3 where
    1: "(case wj of None \<Rightarrow> Inr s | Some job \<Rightarrow> enqueue_job job q s) = Inr s1"
    and 2: "insert_event e s1 = Inr (s2, b)"
    and 3: "witness_jobs s3 = witness_jobs s2"
    and 4: "(case completed of None \<Rightarrow> Inr s3 | Some digest \<Rightarrow> complete_job e digest s3) = Inr s'"
    using assms by (rule save_parts)
  have j1: "jobs_evolve (witness_jobs s) (witness_jobs s1)"
    "distinct (map j_digest (witness_jobs s)) \<Longrightarrow> distinct (map j_digest (witness_jobs s1))"
    "int (count_pending s1) \<le> max q (int (count_pending s))"
    using 1 enqueue_job_jobs(1,3) [of _ q s s1]
    by (auto split: option.splits intro: jobs_evolve_refl
        simp: enqueue_job_def Let_def rbind_eq_Inr split: if_splits)
  have eq: "witness_jobs s3 = witness_jobs s1" using 3 insert_event_jobs [OF 2] by simp
  then have cp: "count_pending s3 = count_pending s1" by (simp add: count_pending_def)
  have j4: "jobs_evolve (witness_jobs s3) (witness_jobs s')"
    "distinct (map j_digest (witness_jobs s3)) \<Longrightarrow> distinct (map j_digest (witness_jobs s'))"
    "count_pending s' \<le> count_pending s3"
    using 4 complete_job_jobs [of e _ s3 s']
    by (auto split: option.splits intro: jobs_evolve_refl)
  show "jobs_evolve (witness_jobs s) (witness_jobs s')"
    using j1(1) j4(1) unfolding eq by (rule jobs_evolve_trans)
  show "distinct (map j_digest (witness_jobs s)) \<Longrightarrow> distinct (map j_digest (witness_jobs s'))"
    using j1(2) j4(2) eq by simp
  show "int (count_pending s') \<le> max q (int (count_pending s))"
    using j1(3) j4(3) cp by linarith
qed

section \<open>Histories of the store\<close>

text \<open>The writes a process makes, in the order their transactions commit.\<close>

datatype store_op =
    Save_Op stored_event "pydict option" int "pystr option"
  | Update_Op pystr bool

fun run_op :: "store_op \<Rightarrow> store \<Rightarrow> store res" where
  "run_op (Save_Op e wj q completed) s = rbind (save e wj q completed s) (\<lambda>(s', _). Inr s')"
| "run_op (Update_Op d u) s = witness_update d u s"

text \<open>A write that raises leaves the tables as they were.\<close>

inductive store_step :: "store \<Rightarrow> store \<Rightarrow> bool" where
  ok: "run_op opn s = Inr s' \<Longrightarrow> store_step s s'"
| failed: "run_op opn s = Inl x \<Longrightarrow> store_step s s"

inductive_cases store_stepE: "store_step s s'"

lemma run_op_jobs:
  assumes "run_op opn s = Inr s'"
  shows "jobs_evolve (witness_jobs s) (witness_jobs s')"
    "distinct (map j_digest (witness_jobs s)) \<Longrightarrow> distinct (map j_digest (witness_jobs s'))"
  using assms save_jobs(1,2) witness_update_jobs(1,2)
  by (cases opn; auto simp: rbind_eq_Inr; blast)+

lemma store_step_jobs:
  assumes "store_step s s'"
  shows "jobs_evolve (witness_jobs s) (witness_jobs s')" "jobs_ok s \<Longrightarrow> jobs_ok s'"
proof -
  show e: "jobs_evolve (witness_jobs s) (witness_jobs s')"
    using assms by (rule store_stepE) (auto dest: run_op_jobs intro: jobs_evolve_refl)
  show "jobs_ok s \<Longrightarrow> jobs_ok s'"
    using jobs_evolve_ok [OF e] assms
    by (auto simp: jobs_ok_def elim: store_stepE dest: run_op_jobs)
qed

lemma store_steps_jobs:
  "store_step\<^sup>*\<^sup>* s s' \<Longrightarrow>
    jobs_evolve (witness_jobs s) (witness_jobs s') \<and> (jobs_ok s \<longrightarrow> jobs_ok s')"
  by (induction rule: rtranclp_induct)
    (auto intro: jobs_evolve_refl jobs_evolve_trans dest: store_step_jobs)

end
