(* ===== verification/Storage.thy ===== *)
theory Storage
  imports Job_Queue
begin

text \<open>
  \<open>spurline/storage.py\<close>: the boundary between the relay and a storage backend. The contract
  of \<open>EventStorage\<close> is the locale \<open>event_storage\<close>; \<open>SQLiteStorage\<close> maps the errors of the
  event store, and the interpretation shows that it keeps the contract.
\<close>

section \<open>The SQLite backend\<close>

text \<open>
  Whether SQLite itself fails during a call (a full disk, a locked file, a statement beyond the
  limits it was compiled with, such as a filter of a thousand tag clauses and its expression
  depth) is not the program's choice: \<open>fault\<close> says so. The transaction is then rolled back.
\<close>

definition backend_error :: "exc \<Rightarrow> bool" where
  "backend_error x = (x = SqliteError \<or> x = OverflowError)"

definition storage_save :: "bool \<Rightarrow> stored_event \<Rightarrow> store \<Rightarrow> (store \<times> bool) res" where
  "storage_save fault e s =
     recast (if fault then Inl SqliteError else save e None 1000 None s)
       backend_error (StorageError (lit ''SQLite save failed''))"

definition storage_query :: "bool \<Rightarrow> relay_filter list \<Rightarrow> store \<Rightarrow> stored_event list res" where
  "storage_query fault filters s =
     recast (if fault then Inl SqliteError else query filters s)
       backend_error (StorageError (lit ''SQLite query failed''))"

section \<open>What a query of the abstract store returns\<close>

definition spec_ok :: "spec_store \<Rightarrow> bool" where
  "spec_ok a = distinct (map ev_id (sp_events a))"

lemma spec_ok_save: "spec_ok a \<Longrightarrow> spec_ok (spec_save e a)"
  by (auto simp: spec_ok_def spec_save_def)

lemma filter_limit_pos: "1 \<le> filter_limit fs"
  by (simp add: filter_limit_def Let_def)

lemma spec_query_in:
  assumes "e \<in> set (spec_query fs a)"
  shows "e \<in> set (sp_events a) \<and> spec_visible a e \<and> matches_any_filter e fs"
  using assms by (auto simp: spec_query_def dest!: in_set_takeD)

lemma spec_query_distinct: "spec_ok a \<Longrightarrow> distinct (map ev_id (spec_query fs a))"
proof -
  let ?ys = "newest_first event_key [e \<leftarrow> sp_events a. spec_visible a e \<and> matches_any_filter e fs]"
  assume "spec_ok a"
  then have "distinct (map ev_id ?ys)"
    by (auto simp: spec_ok_def distinct_map intro: inj_on_subset)
  then show ?thesis by (simp add: spec_query_def take_map [symmetric])
qed

lemma spec_query_sorted: "sorted (rev (map event_key (spec_query fs a)))"
proof -
  let ?xs = "[e \<leftarrow> sp_events a. spec_visible a e \<and> matches_any_filter e fs]"
  show ?thesis
    using newest_first_sorted [of event_key ?xs]
    by (simp add: spec_query_def take_map [symmetric] rev_take sorted_wrt_drop)
qed

lemma length_spec_query: "int (length (spec_query fs a)) \<le> filter_limit fs"
  using filter_limit_pos [of fs] by (simp add: spec_query_def)

text \<open>An event that is left out lost to a full page of newer ones.\<close>

lemma spec_query_complete:
  assumes a: "spec_ok a" and e: "e \<in> set (sp_events a)" "spec_visible a e" "matches_any_filter e fs"
    and out: "e \<notin> set (spec_query fs a)"
  shows "int (length (spec_query fs a)) = filter_limit fs \<and>
    (\<forall>e' \<in> set (spec_query fs a). event_key e < event_key e')"
proof -
  let ?xs = "[e \<leftarrow> sp_events a. spec_visible a e \<and> matches_any_filter e fs]"
  let ?n = "nat (filter_limit fs)"
  let ?ys = "newest_first event_key ?xs"
  have q: "spec_query fs a = take ?n ?ys" by (simp add: spec_query_def)
  have "e \<in> set ?ys" using e by simp
  then obtain i where i: "i < length ?ys" "?ys ! i = e" unfolding in_set_conv_nth by blast
  have ni: "?n \<le> i"
  proof (rule ccontr)
    assume "\<not> ?n \<le> i"
    then have "take ?n ?ys ! i = e" "i < length (take ?n ?ys)" using i by simp_all
    then have "e \<in> set (take ?n ?ys)" using nth_mem by blast
    with out q show False by simp
  qed
  have inj: "inj_on event_key (set ?ys)"
    using inj_event_key a by (auto simp: spec_ok_def intro: inj_on_subset)
  have "event_key e < event_key e'" if "e' \<in> set (take ?n ?ys)" for e'
  proof -
    obtain j where j: "j < ?n" "j < length ?ys" "e' = ?ys ! j"
      using \<open>e' \<in> set (take ?n ?ys)\<close> by (auto simp: in_set_conv_nth)
    have "sorted_wrt (\<ge>) (map event_key ?ys)"
      using newest_first_sorted [of event_key ?xs] by (simp add: sorted_wrt_rev)
    then have "event_key e \<le> event_key e'"
      using i j ni by (auto simp: sorted_wrt_iff_nth_less)
    moreover have "e' \<noteq> e" using that out q by metis
    moreover have "e' \<in> set ?ys" unfolding j(3) by (rule nth_mem [OF j(2)])
    ultimately show ?thesis
      using inj_onD [OF inj _ \<open>e \<in> set ?ys\<close>, of e'] by (auto simp: order_le_less)
  qed
  moreover have "length (take ?n ?ys) = ?n" using i ni by simp
  ultimately show ?thesis using q filter_limit_pos [of fs] by simp
qed

section \<open>The contract\<close>

definition publishable :: "stored_event \<Rightarrow> bool" where
  "publishable e = wf_event e"

definition askable :: "relay_filter list \<Rightarrow> bool" where
  "askable fs = (query_params fs = Inr ())"

text \<open>
  What a relay needs of the calls that it makes: saving an event changes the contents as
  specified or, when it raises, not at all, a query that returns gives the specified page, and
  the contents are events that validation accepts.
\<close>

locale event_source =
  fixes accepts :: "'f \<Rightarrow> stored_event \<Rightarrow> ('s, bool) act"
    and pages :: "'g \<Rightarrow> relay_filter list \<Rightarrow> 's \<Rightarrow> stored_event list res"
    and sound :: "'s \<Rightarrow> bool"
    and contents :: "'s \<Rightarrow> spec_store"
  assumes accepts_ok: "sound s \<Longrightarrow> publishable e \<Longrightarrow> accepts f e s = (x, s') \<Longrightarrow>
      sound s' \<and> contents s' = (case x of Inl _ \<Rightarrow> contents s | Inr _ \<Rightarrow> spec_save e (contents s))
      \<and> (\<forall>new. x = Inr new \<longrightarrow> (new \<longleftrightarrow> ev_id e \<notin> ev_id ` set (sp_events (contents s))))"
    and pages_ok: "sound s \<Longrightarrow> pages g fs s = Inr es \<Longrightarrow> es = spec_query fs (contents s)"
    and holds_ok: "sound s \<Longrightarrow> e \<in> set (sp_events (contents s)) \<Longrightarrow> publishable e"

text \<open>A storage backend: a save that raises is undone, and raises nothing but \<open>StorageError\<close>.\<close>

locale event_storage =
  fixes put :: "bool \<Rightarrow> stored_event \<Rightarrow> 's \<Rightarrow> ('s \<times> bool) res"
    and get :: "bool \<Rightarrow> relay_filter list \<Rightarrow> 's \<Rightarrow> stored_event list res"
    and sound :: "'s \<Rightarrow> bool"
    and contents :: "'s \<Rightarrow> spec_store"
  assumes put_ok: "sound s \<Longrightarrow> publishable e \<Longrightarrow> put fault e s = Inr (s', new) \<Longrightarrow>
      sound s' \<and> contents s' = spec_save e (contents s)
      \<and> (new \<longleftrightarrow> ev_id e \<notin> ev_id ` set (sp_events (contents s)))"
    and put_fails: "sound s \<Longrightarrow> publishable e \<Longrightarrow> put fault e s = Inl x \<Longrightarrow> \<exists>m. x = StorageError m"
    and get_ok: "sound s \<Longrightarrow> get fault fs s = Inr es \<Longrightarrow> es = spec_query fs (contents s)"
    and get_fails: "sound s \<Longrightarrow> askable fs \<Longrightarrow> get fault fs s = Inl x \<Longrightarrow> \<exists>m. x = StorageError m"
    and unique: "sound s \<Longrightarrow> spec_ok (contents s)"
    and genuine: "sound s \<Longrightarrow> e \<in> set (sp_events (contents s)) \<Longrightarrow> publishable e"
begin

lemma get_page:
  assumes "sound s" "get fault fs s = Inr es"
  shows "distinct (map ev_id es) \<and> sorted (rev (map event_key es))
    \<and> int (length es) \<le> filter_limit fs
    \<and> (\<forall>e \<in> set es. spec_visible (contents s) e \<and> matches_any_filter e fs)"
  unfolding get_ok [OF assms]
  using spec_query_distinct [OF unique [OF assms(1)]] spec_query_sorted length_spec_query
    spec_query_in by blast

text \<open>Publishing twice is publishing once.\<close>

lemma put_again:
  assumes s: "sound s" "publishable e" "put f e s = Inr (s1, new)" "put g e s1 = Inr (s2, again)"
  shows "\<not> again \<and> contents s2 = contents s1"
proof -
  note 1 = put_ok [OF s(1,2,3)]
  then have "sound s1" by blast
  from put_ok [OF this s(2,4)] 1 show ?thesis
    by (auto simp: spec_save_def split: if_splits)
qed

text \<open>What was published is found again, until its author deletes it.\<close>

lemma put_then_get:
  assumes s: "sound s" "publishable e" "put f e s = Inr (s1, True)" "get g fs s1 = Inr es"
    and m: "matches_any_filter e fs" "spec_visible (contents s1) e"
    and room: "int (length es) < filter_limit fs"
  shows "e \<in> set es"
proof (rule ccontr)
  assume out: "e \<notin> set es"
  from put_ok [OF s(1,2,3)] have 1: "sound s1" "e \<in> set (sp_events (contents s1))"
    by (auto simp: spec_save_def)
  then show False
    using spec_query_complete [OF unique [OF 1(1)] 1(2) m(2,1)] out room get_ok [OF 1(1) s(4)]
    by simp
qed

end

sublocale event_storage \<subseteq> source: event_source "\<lambda>fault e. transaction (put fault e)" get sound contents
proof
  fix s e fault x s'
  assume s: "sound s" "publishable e" and r: "transaction (put fault e) s = (x, s')"
  from r show "sound s' \<and> contents s' = (case x of Inl _ \<Rightarrow> contents s | Inr _ \<Rightarrow> spec_save e (contents s))
      \<and> (\<forall>new. x = Inr new \<longrightarrow> (new \<longleftrightarrow> ev_id e \<notin> ev_id ` set (sp_events (contents s))))"
    by (cases rule: transaction_cases) (use s put_ok in auto)
qed (blast intro: get_ok genuine)+

text \<open>A deletion reaches only the events of its own author.\<close>

lemma spec_save_hides:
  assumes "spec_visible a e'" "\<not> spec_visible (spec_save e a) e'"
  shows "ev_pubkey e' = ev_pubkey e \<and> num_val (ev_kind e) = 5 \<and> ev_id e' \<in> delete_targets e"
  using assms by (auto simp: spec_visible_def spec_save_def split: if_splits)

section \<open>SQLite keeps the contract\<close>

lemma save_plain_storable:
  "store_inv s \<Longrightarrow> wf_event e \<Longrightarrow> save e None q None s = Inr (s', b) \<Longrightarrow> storable e"
  using save_total(1) by blast

lemma save_plain_error:
  "store_inv s \<Longrightarrow> wf_event e \<Longrightarrow> save e None q None s = Inl x \<Longrightarrow> x = OverflowError"
  using save_total [of s e q] by (cases "storable e") auto

interpretation sqlite: event_storage storage_save storage_query store_inv abs_store
proof
  fix s e fault s' new
  assume s: "store_inv s" "publishable e" and r: "storage_save fault e s = Inr (s', new)"
  then have ok: "save e None 1000 None s = Inr (s', new)"
    by (auto simp: storage_save_def recast_eq_Inr split: if_splits)
  have "storable e" using save_plain_storable [OF s(1) _ ok] s(2) by (simp add: publishable_def)
  from save_simulates [OF s(1) this ok]
  show "store_inv s' \<and> abs_store s' = spec_save e (abs_store s)
      \<and> new = (ev_id e \<notin> ev_id ` set (sp_events (abs_store s)))"
    by (simp add: abs_store_def)
next
  fix s e fault x
  assume s: "store_inv s" "publishable e" and r: "storage_save fault e s = Inl x"
  show "\<exists>m. x = StorageError m"
    using r save_plain_error [OF s(1)] s(2)
    by (auto simp: storage_save_def recast_eq_Inl publishable_def backend_error_def split: if_splits)
next
  fix s fault fs es
  assume s: "store_inv s" "storage_query fault fs s = Inr es"
  then show "es = spec_query fs (abs_store s)"
    by (auto simp: storage_query_def recast_eq_Inr query_simulates rbind_eq_Inr split: if_splits)
next
  fix s fault fs x
  assume s: "store_inv s" "askable fs" "storage_query fault fs s = Inl x"
  then show "\<exists>m. x = StorageError m"
    by (auto simp: storage_query_def recast_eq_Inl query_simulates askable_def backend_error_def
        split: if_splits)
next
  fix s assume "store_inv s"
  then show "spec_ok (abs_store s)"
    by (auto simp: spec_ok_def abs_store_def store_inv_def represents_def)
next
  fix s e assume "store_inv s" "e \<in> set (sp_events (abs_store s))"
  then show "publishable e"
    by (auto simp: abs_store_def store_inv_def represents_def list_all_iff storable_def publishable_def)
qed

end
