(* ===== verification/Filter_Spec.thy ===== *)
theory Filter_Spec
  imports Storage
begin

text \<open>
  What the filter functions of \<open>spurline/filters.py\<close> guarantee: the bounds of every filter
  that passes, matching as the conjunction of the filter's entries, and the page limit.
\<close>

section \<open>Bounds\<close>

definition item_bounded :: "pyval \<Rightarrow> bool" where
  "item_bounded v =
     (case v of VNum n \<Rightarrow> fits64 (num_val n) | VStr s \<Rightarrow> length s \<le> 4096 | _ \<Rightarrow> True)"

definition values_count :: "relay_filter \<Rightarrow> nat" where
  "values_count f = sum_list (map (\<lambda>e. length (entry_values e)) f)"

definition filter_bounded :: "relay_filter \<Rightarrow> bool" where
  "filter_bounded f =
     (values_count f \<le> 2000
      \<and> (\<forall>e \<in> set f. (\<forall>v \<in> set (entry_values e). item_bounded v) \<and> partial_prefixes e \<le> 128))"

definition filters_bounded :: "relay_filter list \<Rightarrow> bool" where
  "filters_bounded fs = (length fs \<le> 16 \<and> (\<forall>f \<in> set fs. filter_bounded f))"

lemma check_item_iff: "check_item v u = Inr () \<longleftrightarrow> item_bounded v"
  by (cases v) (auto simp: item_bounded_def ensure_eq_Inr)

lemma check_item_error: "check_item v u = Inl x \<Longrightarrow> \<exists>m. x = FVE m"
  by (cases v) (auto simp: ensure_eq_Inl)

lemma check_items_iff: "rfold check_item vs u = Inr () \<longleftrightarrow> (\<forall>v \<in> set vs. item_bounded v)"
  by (induction vs arbitrary: u) (auto simp: rbind_eq_Inr check_item_iff)

lemma check_items_error: "rfold check_item vs u = Inl x \<Longrightarrow> \<exists>m. x = FVE m"
  by (induction vs arbitrary: u) (auto simp: rbind_eq_Inl dest: check_item_error)

lemma check_entry_iff:
  "check_entry e n = Inr m \<longleftrightarrow> m = n + length (entry_values e) \<and> m \<le> 2000
    \<and> (\<forall>v \<in> set (entry_values e). item_bounded v) \<and> partial_prefixes e \<le> 128"
  by (auto simp: check_entry_def Let_def rbind_eq_Inr check_items_iff)

lemma check_entry_error: "check_entry e n = Inl x \<Longrightarrow> \<exists>m. x = FVE m"
  by (auto simp: check_entry_def Let_def rbind_eq_Inl dest: check_items_error split: if_splits)

lemma check_entries_iff:
  "n \<le> 2000 \<Longrightarrow> rfold check_entry f n = Inr m \<longleftrightarrow> m = n + values_count f \<and> m \<le> 2000
    \<and> (\<forall>e \<in> set f. (\<forall>v \<in> set (entry_values e). item_bounded v) \<and> partial_prefixes e \<le> 128)"
  by (induction f arbitrary: n) (auto simp: rbind_eq_Inr check_entry_iff values_count_def)

lemma check_entries_error: "rfold check_entry f n = Inl x \<Longrightarrow> \<exists>m. x = FVE m"
  by (induction f arbitrary: n) (auto simp: rbind_eq_Inl dest: check_entry_error)

lemma validate_filter_bounds_iff: "validate_filter_bounds fs = Inr u \<longleftrightarrow> filters_bounded fs"
proof -
  have "rfold (\<lambda>f _. rbind (rfold check_entry f 0) (\<lambda>_. Inr ())) fs u = Inr w
      \<longleftrightarrow> (\<forall>f \<in> set fs. filter_bounded f)" for u w
    by (induction fs arbitrary: u) (auto simp: rbind_eq_Inr check_entries_iff filter_bounded_def)
  then show ?thesis by (auto simp: validate_filter_bounds_def filters_bounded_def)
qed

lemma validate_filter_bounds_error:
  "validate_filter_bounds fs = Inl x \<Longrightarrow> \<exists>m. x = FVE m"
proof -
  have "rfold (\<lambda>f _. rbind (rfold check_entry f 0) (\<lambda>_. Inr ())) fs u = Inl x
      \<Longrightarrow> \<exists>m. x = FVE m" for u
    by (induction fs arbitrary: u) (auto simp: rbind_eq_Inl dest: check_entries_error)
  then show "validate_filter_bounds fs = Inl x \<Longrightarrow> ?thesis"
    by (auto simp: validate_filter_bounds_def split: if_splits)
qed

section \<open>Keys\<close>

lemma fkey_eq_iff:
  "fkey a = fkey b \<longleftrightarrow>
    (case (a, b) of (Ids _, Ids _) \<Rightarrow> True | (Authors _, Authors _) \<Rightarrow> True
     | (Kinds _, Kinds _) \<Rightarrow> True | (Since _, Since _) \<Rightarrow> True | (Until _, Until _) \<Rightarrow> True
     | (Limit _, Limit _) \<Rightarrow> True | (TagF m _, TagF n _) \<Rightarrow> m = n | _ \<Rightarrow> False)"
proof -
  have "lit s \<noteq> 35 # t \<and> 35 # t \<noteq> lit s" if "s \<in> {''ids'', ''authors'', ''kinds'', ''since'', ''until'', ''limit''}" for s t
    using that by (auto simp: lit_def)
  then show ?thesis by (cases a; cases b) auto
qed

definition unique_keys :: "relay_filter \<Rightarrow> bool" where
  "unique_keys f = distinct (map fkey f)"

lemma clean_entry_key: "clean_entry k v = Some e \<Longrightarrow> fkey e = k"
  by (auto simp: clean_entry_def startswith_iff lit_def split: pyval.splits if_splits)

lemma clean_filter_keys: "set (map fkey (clean_filter d)) \<subseteq> fst ` set d"
  by (induction d) (auto simp: clean_filter_def List.map_filter_simps clean_entry_key split: option.splits)

lemma clean_filter_unique: "distinct (map fst d) \<Longrightarrow> unique_keys (clean_filter d)"
proof (induction d)
  case (Cons p d)
  obtain k v where p: "p = (k, v)" by (cases p)
  have "k \<notin> fkey ` set (clean_filter d)"
    using clean_filter_keys [of d] Cons.prems p by auto
  then show ?case
    using Cons p clean_entry_key [of k v]
    by (auto simp: clean_filter_def List.map_filter_simps unique_keys_def split: option.splits)
qed (simp add: clean_filter_def List.map_filter_simps unique_keys_def)

section \<open>Matching\<close>

fun entry_matches :: "stored_event \<Rightarrow> fentry \<Rightarrow> bool" where
  "entry_matches e (Ids ps) = (\<exists>p \<in> set ps. startswith (ev_id e) p)"
| "entry_matches e (Authors ps) = (\<exists>p \<in> set ps. startswith (ev_pubkey e) p)"
| "entry_matches e (Kinds ks) = (\<exists>k \<in> set ks. num_val k = num_val (ev_kind e))"
| "entry_matches e (Since n) = (num_val n \<le> num_val (ev_created_at e))"
| "entry_matches e (Until n) = (num_val (ev_created_at e) \<le> num_val n)"
| "entry_matches e (Limit n) = True"
| "entry_matches e (TagF name vs) =
     (\<exists>tag \<in> set (ev_tags e). 2 \<le> length tag \<and> tag ! 0 = name \<and> tag ! 1 \<in> set vs)"

lemma unique_entry:
  "unique_keys f \<Longrightarrow> a \<in> set f \<Longrightarrow> b \<in> set f \<Longrightarrow> fkey a = fkey b \<Longrightarrow> a = b"
  by (auto simp: unique_keys_def distinct_map inj_on_def)

lemma list_get_Some:
  assumes "\<And>x y. x \<in> set xs \<Longrightarrow> y \<in> set xs \<Longrightarrow> x = y"
  shows "(case xs of [] \<Rightarrow> None | x # _ \<Rightarrow> Some x) = Some y \<longleftrightarrow> y \<in> set xs"
    "(case xs of [] \<Rightarrow> None | x # _ \<Rightarrow> Some x) = None \<longleftrightarrow> xs = []"
  using assms by (auto split: list.splits)

lemma get_entry:
  assumes "unique_keys f"
  shows "get_ids f = Some ps \<longleftrightarrow> Ids ps \<in> set f"
    "get_authors f = Some ps \<longleftrightarrow> Authors ps \<in> set f"
    "get_kinds f = Some ks \<longleftrightarrow> Kinds ks \<in> set f"
    "get_since f = Some n \<longleftrightarrow> Since n \<in> set f"
    "get_until f = Some n \<longleftrightarrow> Until n \<in> set f"
    "get_limit f = Some n \<longleftrightarrow> Limit n \<in> set f"
  unfolding get_ids_def get_authors_def get_kinds_def get_since_def get_until_def get_limit_def
  by (subst list_get_Some(1); use unique_entry [OF assms] in \<open>force split: fentry.splits\<close>)+

lemma matches_filter_entries:
  assumes "unique_keys f"
  shows "matches_filter e f \<longleftrightarrow> (\<forall>entry \<in> set f. entry_matches e entry)"
proof -
  have opt: "(case g of Some x \<Rightarrow> P x | None \<Rightarrow> False) \<longleftrightarrow> (\<exists>x. g = Some x \<and> P x)"
    for g :: "'a option" and P by (cases g) auto
  have tags: "list_all (\<lambda>(name, vs). matches_tag e name vs) (tag_filters f)
      \<longleftrightarrow> (\<forall>name vs. TagF name vs \<in> set f \<longrightarrow> entry_matches e (TagF name vs))"
    by (force simp: tag_filters_def list_all_iff matches_tag_def list_ex_iff split: fentry.splits)
  have "matches_filter e f \<longleftrightarrow>
      (\<forall>ps. Ids ps \<in> set f \<longrightarrow> entry_matches e (Ids ps))
      \<and> (\<forall>ps. Authors ps \<in> set f \<longrightarrow> entry_matches e (Authors ps))
      \<and> (\<forall>ks. Kinds ks \<in> set f \<longrightarrow> entry_matches e (Kinds ks))
      \<and> (\<forall>n. Since n \<in> set f \<longrightarrow> entry_matches e (Since n))
      \<and> (\<forall>n. Until n \<in> set f \<longrightarrow> entry_matches e (Until n))
      \<and> (\<forall>name vs. TagF name vs \<in> set f \<longrightarrow> entry_matches e (TagF name vs))"
    unfolding tags [symmetric] matches_filter_def get_entry [OF assms, symmetric]
    by (simp add: matches_prefixes_def list_ex_iff num_in_def not_less split: option.splits)
  also have "\<dots> \<longleftrightarrow> (\<forall>entry \<in> set f. entry_matches e entry)"
    by (auto; case_tac entry) auto
  finally show ?thesis .
qed

end
