(* ===== verification/Relay.thy ===== *)
theory Relay
  imports Filter_Spec
begin

text \<open>
  \<open>RelayService\<close> of \<open>spurline/main.py\<close>: connections and their subscriptions, the handlers of
  the three commands and the broadcast. A handler is a function on the relay's state that may
  raise (\<open>act\<close>); what it sends is appended to \<open>sent\<close>. The backend is a parameter with the
  interface of \<open>EventStorage\<close>.
\<close>

section \<open>State\<close>

text \<open>
  A WebSocket is named by a number. \<open>connections\<close> maps each to its subscriptions, both
  dictionaries in insertion order. \<open>gone\<close> lists the sockets whose peer has left: sending on
  one raises, and so does sending a text with a lone surrogate, which has no UTF-8 encoding.
\<close>

type_synonym subscriptions = "(pystr \<times> relay_filter list) list"

record 's relay =
  connections :: "(nat \<times> subscriptions) list"
  backend :: 's
  sent :: "(nat \<times> pyval) list"
  gone :: "nat list"

text \<open>
  What a call of a handler depends on: the backend's operations, \<open>witness.accept\<close> when
  automatic witnessing is on, the settings, coincurve and the clock, and CPython's recursion
  limit: which texts \<open>json.loads\<close> finds nested too deeply for the stack it is called on.
\<close>

record 's relay_env =
  re_save :: "stored_event \<Rightarrow> 's \<Rightarrow> ('s \<times> bool) res"
  re_query :: "relay_filter list \<Rightarrow> 's \<Rightarrow> stored_event list res"
  re_witness :: "(stored_event \<Rightarrow> ('s, bool) act) option"
  re_verify :: bool
  re_crypto :: crypto
  re_now :: int
  re_too_deep :: "pystr \<Rightarrow> bool"

section \<open>Messages\<close>

definition notice :: "pystr \<Rightarrow> pyval" where
  "notice m = VList [vlit ''NOTICE'', VStr m]"

definition ok_msg :: "pyval \<Rightarrow> bool \<Rightarrow> pystr \<Rightarrow> pyval" where
  "ok_msg i b m = VList [vlit ''OK'', i, VNum (NBool b), VStr m]"

definition event_msg :: "pystr \<Rightarrow> stored_event \<Rightarrow> pyval" where
  "event_msg sid e = VList [vlit ''EVENT'', VStr sid, VDict (to_dict e)]"

definition eose_msg :: "pystr \<Rightarrow> pyval" where
  "eose_msg sid = VList [vlit ''EOSE'', VStr sid]"

definition closed_msg :: "pystr \<Rightarrow> pystr \<Rightarrow> pyval" where
  "closed_msg sid m = VList [vlit ''CLOSED'', VStr sid, VStr m]"

text \<open>\<open>websocket.send_json\<close>: the compact text of the message, not escaped, as UTF-8.\<close>

definition sendable :: "pyval \<Rightarrow> bool" where
  "sendable msg = encodable (dumps style_raw msg)"

definition send_json :: "nat \<Rightarrow> pyval \<Rightarrow> ('s relay, unit) act" where
  "send_json sock msg r =
     (if sock \<in> set (gone r) then (Inl WebSocketDisconnect, r)
      else if \<not> sendable msg then (Inl UnicodeEncodeError, r)
      else (Inr (), r\<lparr>sent := sent r @ [(sock, msg)]\<rparr>))"

lemma sendable_text [simp]: "sendable (VStr s) \<longleftrightarrow> encodable s"
  by (simp add: sendable_def)

lemma sendable_messages [simp]:
  "sendable (notice m) \<longleftrightarrow> encodable m"
  "sendable (ok_msg i b m) \<longleftrightarrow> sendable i \<and> encodable m"
  "sendable (eose_msg sid) \<longleftrightarrow> encodable sid"
  "sendable (closed_msg sid m) \<longleftrightarrow> encodable sid \<and> encodable m"
  by (auto simp: sendable_def notice_def ok_msg_def eose_msg_def closed_msg_def)

text \<open>An event that validation accepts can be sent under any name that can.\<close>

lemma sendable_event [simp]: "wf_event e \<Longrightarrow> sendable (event_msg sid e) \<longleftrightarrow> encodable sid"
proof -
  assume wf: "wf_event e"
  then have "encodable (ev_id e)" "encodable (ev_pubkey e)" "encodable (ev_sig e)" "event_encodable e"
    using hex_string_encodable by (auto simp: wf_event_def)
  then have "encodable (dumps style_raw (VDict (to_dict e)))"
    by (simp add: to_dict_def event_encodable_def)
  then show "sendable (event_msg sid e) \<longleftrightarrow> encodable sid"
    by (simp add: sendable_def event_msg_def del: dumps.simps(6))
qed

section \<open>Connections\<close>

definition connect :: "nat \<Rightarrow> ('s relay, unit) act" where
  "connect sock r = (Inr (), r\<lparr>connections := dict_set sock [] (connections r)\<rparr>)"

definition disconnect :: "nat \<Rightarrow> 's relay \<Rightarrow> 's relay" where
  "disconnect sock r = r\<lparr>connections := dict_pop sock (connections r)\<rparr>"

text \<open>\<open>self.connections[websocket]\<close>, then a change of the dictionary found there.\<close>

definition on_subscriptions ::
  "nat \<Rightarrow> (subscriptions \<Rightarrow> subscriptions) \<Rightarrow> ('s relay, unit) act" where
  "on_subscriptions sock f r =
     (case map_of (connections r) sock of
        None \<Rightarrow> (Inl KeyError, r)
      | Some subs \<Rightarrow> (Inr (), r\<lparr>connections := dict_set sock (f subs) (connections r)\<rparr>))"

section \<open>Publishing\<close>

text \<open>The sends a broadcast collects, in the order of the two dictionaries.\<close>

definition broadcast_sends ::
  "stored_event \<Rightarrow> (nat \<times> subscriptions) list \<Rightarrow> (nat \<times> pyval) list" where
  "broadcast_sends e conns =
     [(sock, event_msg sid e). (sock, subs) \<leftarrow> conns, (sid, filters) \<leftarrow> subs,
        matches_any_filter e filters]"

text \<open>\<open>asyncio.gather(..., return_exceptions=True)\<close>: a send that raises stops no other.\<close>

definition broadcast :: "stored_event \<Rightarrow> ('s relay, unit) act" where
  "broadcast e r =
     (Inr (), fold (\<lambda>(sock, msg) r. snd (send_json sock msg r)) (broadcast_sends e (connections r)) r)"

text \<open>
  \<open>_handle_event\<close> up to the storage call: \<open>None\<close> when the request is already answered.
\<close>

definition event_begin ::
  "'s relay_env \<Rightarrow> nat \<Rightarrow> pyval list \<Rightarrow> ('s relay, stored_event option) act" where
  "event_begin env sock payload =
     (if length payload \<noteq> 2
      then abind (send_json sock (notice (lit ''EVENT expects one event object''))) (\<lambda>_. areturn None)
      else
        let raw_event = payload ! 1;
            event_id = (case raw_event of VDict d \<Rightarrow> dget d ''id'' | _ \<Rightarrow> VStr [])
        in case validate_event (re_crypto env) (re_verify env) (re_now env) raw_event of
             Inl (EventValidationError m) \<Rightarrow>
               abind (send_json sock (ok_msg event_id False (lit ''invalid: '' @ m)))
                 (\<lambda>_. areturn None)
           | Inl x \<Rightarrow> araise x
           | Inr e \<Rightarrow> areturn (Some e))"

definition caught_storage_error :: "exc \<Rightarrow> bool" where
  "caught_storage_error x = ((\<exists>m. x = StorageError m) \<or> x = SqliteError \<or> x = OverflowError)"

lemma caught_storage_error_simps [simp, code]:
  "caught_storage_error x =
     (case x of StorageError _ \<Rightarrow> True | SqliteError \<Rightarrow> True | OverflowError \<Rightarrow> True | _ \<Rightarrow> False)"
  by (cases x) (simp_all add: caught_storage_error_def)

text \<open>
  The storage call of \<open>_handle_event\<close>, which runs in a worker thread, and what the handler does
  with its outcome: \<open>True\<close> when the event is new and must be broadcast.
\<close>

definition save_call :: "'s relay_env \<Rightarrow> stored_event \<Rightarrow> ('s relay, bool res) act" where
  "save_call env e r =
     (case (case re_witness env of Some accept \<Rightarrow> accept e (backend r)
            | None \<Rightarrow> transaction (re_save env e) (backend r)) of
        (outcome, s) \<Rightarrow> (Inr outcome, r\<lparr>backend := s\<rparr>))"

definition event_saved :: "nat \<Rightarrow> stored_event \<Rightarrow> bool res \<Rightarrow> ('s relay, bool) act" where
  "event_saved sock e outcome =
     (case outcome of
        Inl x \<Rightarrow>
          (if caught_storage_error x
           then abind (send_json sock (ok_msg (VStr (ev_id e)) False
                  (lit ''error: storage could not confirm publication''))) (\<lambda>_. areturn False)
           else araise x)
      | Inr inserted \<Rightarrow>
          (if inserted then areturn True
           else abind (send_json sock (ok_msg (VStr (ev_id e)) True
                  (lit ''duplicate: already have event''))) (\<lambda>_. areturn False)))"

definition event_ack :: "nat \<Rightarrow> stored_event \<Rightarrow> ('s relay, unit) act" where
  "event_ack sock e = send_json sock (ok_msg (VStr (ev_id e)) True [])"

definition handle_event :: "'s relay_env \<Rightarrow> nat \<Rightarrow> pyval list \<Rightarrow> ('s relay, unit) act" where
  "handle_event env sock payload =
     abind (event_begin env sock payload) (\<lambda>begun.
       case begun of
         None \<Rightarrow> areturn ()
       | Some e \<Rightarrow>
           abind (save_call env e) (\<lambda>outcome.
           abind (event_saved sock e outcome) (\<lambda>inserted.
             if inserted then abind (event_ack sock e) (\<lambda>_. broadcast e) else areturn ())))"

section \<open>Subscribing\<close>

text \<open>\<open>_handle_req\<close> up to the query: the subscription is registered first.\<close>

definition req_begin ::
  "nat \<Rightarrow> pyval list \<Rightarrow> ('s relay, (pystr \<times> relay_filter list) option) act" where
  "req_begin sock payload =
     (case payload of
        _ # VStr sid # f # fs \<Rightarrow>
          abind (on_subscriptions sock (dict_pop sid)) (\<lambda>_.
            case normalize_filters (f # fs) of
              Inl (FilterValidationError m) \<Rightarrow>
                abind (send_json sock (closed_msg sid (lit ''invalid: '' @ m))) (\<lambda>_. areturn None)
            | Inl x \<Rightarrow> araise x
            | Inr filters \<Rightarrow>
                abind (on_subscriptions sock (dict_set sid filters))
                  (\<lambda>_. areturn (Some (sid, filters))))
      | _ \<Rightarrow> abind (send_json sock (notice (lit ''REQ expects a subscription id and filters'')))
               (\<lambda>_. areturn None))"

text \<open>
  The query, in a worker thread, and the rest of the handler: the messages still to send, or
  the answer when the query failed.
\<close>

definition query_call ::
  "'s relay_env \<Rightarrow> relay_filter list \<Rightarrow> ('s relay, stored_event list res) act" where
  "query_call env filters r = (Inr (re_query env filters (backend r)), r)"

definition req_answer ::
  "nat \<Rightarrow> pystr \<Rightarrow> stored_event list res \<Rightarrow> ('s relay, pyval list) act" where
  "req_answer sock sid outcome =
     (case outcome of
        Inr es \<Rightarrow> areturn (map (event_msg sid) es @ [eose_msg sid])
      | Inl (StorageError m) \<Rightarrow>
          abind (on_subscriptions sock (dict_pop sid)) (\<lambda>_.
          abind (send_json sock (closed_msg sid (lit ''error: storage query failed'')))
            (\<lambda>_. areturn []))
      | Inl x \<Rightarrow> araise x)"

definition handle_req :: "'s relay_env \<Rightarrow> nat \<Rightarrow> pyval list \<Rightarrow> ('s relay, unit) act" where
  "handle_req env sock payload =
     abind (req_begin sock payload) (\<lambda>begun.
       case begun of
         None \<Rightarrow> areturn ()
       | Some (sid, filters) \<Rightarrow>
           abind (query_call env filters) (\<lambda>outcome.
           abind (req_answer sock sid outcome) (aloop (send_json sock))))"

definition handle_close :: "nat \<Rightarrow> pyval list \<Rightarrow> ('s relay, unit) act" where
  "handle_close sock payload =
     (case payload of
        [_, VStr sid] \<Rightarrow> on_subscriptions sock (dict_pop sid)
      | _ \<Rightarrow> send_json sock (notice (lit ''CLOSE expects a subscription id'')))"

section \<open>Dispatch\<close>

definition read_message :: "'s relay_env \<Rightarrow> pystr \<Rightarrow> pyval res" where
  "read_message env message = (if re_too_deep env message then Inl RecursionError else loads message)"

definition handle_message :: "'s relay_env \<Rightarrow> nat \<Rightarrow> pystr \<Rightarrow> ('s relay, unit) act" where
  "handle_message env sock message =
     (case read_message env message of
        Inl JSONDecodeError \<Rightarrow> send_json sock (notice (lit ''invalid JSON''))
      | Inl x \<Rightarrow> araise x
      | Inr payload \<Rightarrow>
          (case payload of
             VList (VStr cmd # rest) \<Rightarrow>
               (if cmd = lit ''EVENT'' then handle_event env sock (VStr cmd # rest)
                else if cmd = lit ''REQ'' then handle_req env sock (VStr cmd # rest)
                else if cmd = lit ''CLOSE'' then handle_close sock (VStr cmd # rest)
                else send_json sock (notice (lit ''unsupported command: '' @ cmd)))
           | _ \<Rightarrow> send_json sock (notice (lit ''message must be a Nostr array''))))"

text \<open>
  \<open>nostr_relay\<close>, the endpoint: the messages of one connection in turn. A handler that raises
  ends it; the connection is removed however it ends. Whether the exception was the peer's
  leaving or escapes to the server makes no difference to the relay's state.
\<close>

definition serve :: "'s relay_env \<Rightarrow> nat \<Rightarrow> pystr list \<Rightarrow> 's relay \<Rightarrow> unit res \<times> 's relay" where
  "serve env sock messages r =
     (case abind (connect sock) (\<lambda>_. aloop (handle_message env sock) messages) r of
        (Inl WebSocketDisconnect, r') \<Rightarrow> (Inr (), disconnect sock r')
      | (x, r') \<Rightarrow> (x, disconnect sock r'))"

end
