(* ===== verification/Relay_Steps.thy ===== *)
theory Relay_Steps
  imports Relay
begin

text \<open>
  The relay under its event loop. Every connection is a coroutine that gives way at each
  \<open>await\<close>; between two of them the others run. A connection's task says where it waits, a
  step runs one task to its next \<open>await\<close>. The storage calls run in a worker thread: the call
  and the moment the coroutine resumes with its outcome are two steps.
\<close>

section \<open>Tasks\<close>

datatype task =
    Reading
  | Storing stored_event
  | Stored stored_event "bool res"
  | Acking stored_event
  | Casting stored_event
  | Querying pystr "relay_filter list"
  | Queried pystr "stored_event list res"
  | Replying "pyval list"

text \<open>\<open>answered\<close> and \<open>orphaned\<close> are history: the queries made, with the state of the backend
  and the length of \<open>sent\<close> at that moment, and the new events whose task ended before it
  broadcast them.\<close>

record 's world =
  hub :: "'s relay"
  tasks :: "nat \<Rightarrow> task option"
  answered :: "(nat \<times> pystr \<times> relay_filter list \<times> nat \<times> 's) list"
  orphaned :: "stored_event list"

text \<open>From the arrival of a message to the first \<open>await\<close> that matters.\<close>

definition start :: "'s relay_env \<Rightarrow> nat \<Rightarrow> pystr \<Rightarrow> ('s relay, task) act" where
  "start env sock message =
     (let done = (\<lambda>_. areturn Reading)
      in case read_message env message of
        Inl JSONDecodeError \<Rightarrow> abind (send_json sock (notice (lit ''invalid JSON''))) done
      | Inl x \<Rightarrow> araise x
      | Inr payload \<Rightarrow>
          (case payload of
             VList (VStr cmd # rest) \<Rightarrow>
               (if cmd = lit ''EVENT'' then
                  abind (event_begin env sock (VStr cmd # rest)) (\<lambda>begun.
                    areturn (case begun of None \<Rightarrow> Reading | Some e \<Rightarrow> Storing e))
                else if cmd = lit ''REQ'' then
                  abind (req_begin sock (VStr cmd # rest)) (\<lambda>begun.
                    areturn (case begun of None \<Rightarrow> Reading | Some (sid, fs) \<Rightarrow> Querying sid fs))
                else if cmd = lit ''CLOSE'' then abind (handle_close sock (VStr cmd # rest)) done
                else abind (send_json sock (notice (lit ''unsupported command: '' @ cmd))) done)
           | _ \<Rightarrow> abind (send_json sock (notice (lit ''message must be a Nostr array''))) done))"

text \<open>From where a task waits to its next \<open>await\<close>; a reading task waits for a message.\<close>

fun resume :: "'s relay_env \<Rightarrow> nat \<Rightarrow> task \<Rightarrow> ('s relay, task) act" where
  "resume env sock Reading = areturn Reading"
| "resume env sock (Storing e) = abind (save_call env e) (\<lambda>outcome. areturn (Stored e outcome))"
| "resume env sock (Stored e outcome) =
     abind (event_saved sock e outcome) (\<lambda>new. areturn (if new then Acking e else Reading))"
| "resume env sock (Acking e) = abind (event_ack sock e) (\<lambda>_. areturn (Casting e))"
| "resume env sock (Casting e) = abind (broadcast e) (\<lambda>_. areturn Reading)"
| "resume env sock (Querying sid fs) =
     abind (query_call env fs) (\<lambda>outcome. areturn (Queried sid outcome))"
| "resume env sock (Queried sid outcome) =
     abind (req_answer sock sid outcome) (\<lambda>ms. areturn (Replying ms))"
| "resume env sock (Replying []) = areturn Reading"
| "resume env sock (Replying (m # ms)) = abind (send_json sock m) (\<lambda>_. areturn (Replying ms))"

text \<open>The handlers are these pieces run to completion.\<close>

fun finish :: "'s relay_env \<Rightarrow> nat \<Rightarrow> nat \<Rightarrow> task \<Rightarrow> ('s relay, unit) act" where
  "finish env sock n Reading = areturn ()"
| "finish env sock 0 t = araise RecursionError"
| "finish env sock (Suc n) t = abind (resume env sock t) (finish env sock n)"

text \<open>The events a task still has to broadcast.\<close>

fun to_cast :: "task \<Rightarrow> stored_event list" where
  "to_cast (Stored e (Inr True)) = [e]"
| "to_cast (Acking e) = [e]"
| "to_cast (Casting e) = [e]"
| "to_cast _ = []"

definition note_query :: "nat \<Rightarrow> task \<Rightarrow> 's world \<Rightarrow> 's world" where
  "note_query sock t w =
     (case t of
        Querying sid fs \<Rightarrow>
          w\<lparr>answered := (sock, sid, fs, length (sent (hub w)), backend (hub w)) # answered w\<rparr>
      | _ \<Rightarrow> w)"

definition end_task :: "nat \<Rightarrow> task \<Rightarrow> 's relay \<Rightarrow> 's world \<Rightarrow> 's world" where
  "end_task sock t r w =
     w\<lparr>hub := disconnect sock r, tasks := (tasks w)(sock := None),
       orphaned := to_cast t @ orphaned w\<rparr>"

section \<open>Steps\<close>

text \<open>
  \<open>E\<close> holds the environments a call may meet: the time, and whether the backend fails. A task
  may be ended at any \<open>await\<close> but the one for the thread that saves, which goes on.
\<close>

inductive wstep :: "'s relay_env set \<Rightarrow> 's world \<Rightarrow> 's world \<Rightarrow> bool" for E where
  open_socket: "tasks w sock = None \<Longrightarrow>
    wstep E w (w\<lparr>hub := snd (connect sock (hub w)), tasks := (tasks w)(sock \<mapsto> Reading)\<rparr>)"
| hang_up: "wstep E w (w\<lparr>hub := (hub w)\<lparr>gone := sock # gone (hub w)\<rparr>\<rparr>)"
| receive: "tasks w sock = Some Reading \<Longrightarrow> env \<in> E \<Longrightarrow> start env sock m (hub w) = (Inr t, r) \<Longrightarrow>
    wstep E w (w\<lparr>hub := r, tasks := (tasks w)(sock \<mapsto> t)\<rparr>)"
| receive_raises: "tasks w sock = Some Reading \<Longrightarrow> env \<in> E \<Longrightarrow> start env sock m (hub w) = (Inl x, r) \<Longrightarrow>
    wstep E w (end_task sock Reading r w)"
| run: "tasks w sock = Some t \<Longrightarrow> env \<in> E \<Longrightarrow> resume env sock t (hub w) = (Inr t', r) \<Longrightarrow>
    wstep E w ((note_query sock t w)\<lparr>hub := r, tasks := (tasks w)(sock \<mapsto> t')\<rparr>)"
| run_raises: "tasks w sock = Some t \<Longrightarrow> env \<in> E \<Longrightarrow> resume env sock t (hub w) = (Inl x, r) \<Longrightarrow>
    wstep E w (end_task sock t r w)"
| cancel: "tasks w sock = Some t \<Longrightarrow> \<forall>e. t \<noteq> Storing e \<Longrightarrow> wstep E w (end_task sock t (hub w) w)"

definition first_world :: "'s \<Rightarrow> 's world" where
  "first_world s =
     \<lparr>hub = \<lparr>connections = [], backend = s, sent = [], gone = []\<rparr>, tasks = (\<lambda>_. None),
      answered = [], orphaned = []\<rparr>"

section \<open>What a piece of a handler changes\<close>

text \<open>\<open>keeps sock r r'\<close>: only the subscriptions of \<open>sock\<close> may differ, and messages were added.\<close>

definition subs_of :: "nat \<Rightarrow> 's relay \<Rightarrow> subscriptions" where
  "subs_of sock r = (case map_of (connections r) sock of None \<Rightarrow> [] | Some subs \<Rightarrow> subs)"

definition live :: "'s relay \<Rightarrow> nat \<Rightarrow> pystr \<Rightarrow> relay_filter list \<Rightarrow> bool" where
  "live r sock sid fs = (map_of (subs_of sock r) sid = Some fs)"

definition extends :: "'s relay \<Rightarrow> 's relay \<Rightarrow> bool" where
  "extends r r' = (gone r' = gone r \<and> (\<exists>more. sent r' = sent r @ more))"

lemma extends_refl [simp]: "extends r r"
  by (simp add: extends_def)

lemma extends_trans: "extends r r' \<Longrightarrow> extends r' r'' \<Longrightarrow> extends r r''"
  by (auto simp: extends_def)

lemma extends_drop:
  "extends r r' \<Longrightarrow> n \<le> length (sent r) \<Longrightarrow> set (drop n (sent r)) \<subseteq> set (drop n (sent r'))"
  by (auto simp: extends_def)

lemma extends_length: "extends r r' \<Longrightarrow> length (sent r) \<le> length (sent r')"
  by (auto simp: extends_def)

lemma live_connect: "live (snd (connect sock r)) sock' sid fs \<Longrightarrow> sock' \<noteq> sock \<and> live r sock' sid fs"
  by (auto simp: live_def subs_of_def connect_def split: if_splits)

lemma live_disconnect: "live (disconnect sock r) sock' sid fs \<longleftrightarrow> sock' \<noteq> sock \<and> live r sock' sid fs"
  by (auto simp: live_def subs_of_def disconnect_def)

lemma live_frame [simp]:
  "live (r\<lparr>sent := x\<rparr>) = live r" "live (r\<lparr>gone := y\<rparr>) = live r" "live (r\<lparr>backend := z\<rparr>) = live r"
  by (simp_all add: live_def subs_of_def fun_eq_iff)

text \<open>The pieces that touch neither the backend nor another connection.\<close>

definition own :: "nat \<Rightarrow> 's relay \<Rightarrow> 's relay \<Rightarrow> bool" where
  "own sock r r' = (extends r r' \<and> backend r' = backend r
     \<and> (\<forall>sock'. sock' \<noteq> sock \<longrightarrow> map_of (connections r') sock' = map_of (connections r) sock'))"

interpretation own: step_contract "own sock" for sock
  by unfold_locales (auto simp: own_def reflp_def transp_def intro: extends_trans)

abbreviation local :: "nat \<Rightarrow> ('s relay, 'a) act \<Rightarrow> bool" where
  "local sock \<equiv> arelates (own sock)"

lemmas local_def = arelates_def [of "own _"] own_def
lemmas local_areturn [intro!] = own.pure(1) and local_araise [intro!] = own.pure(2)
lemmas local_abind [intro] = own.sequence

lemma local_send [intro!]: "local sock (send_json sock m)"
  by (simp add: local_def send_json_def extends_def)

lemma local_subs [intro!]: "local sock (on_subscriptions sock f)"
  by (auto simp: local_def on_subscriptions_def extends_def split: option.splits)

lemma local_event_begin: "local sock (event_begin env sock p)"
  unfolding event_begin_def Let_def
  by (auto split: sum.splits exc.splits)

lemma local_req_begin: "local sock (req_begin sock p)"
  unfolding req_begin_def
  by (auto split: list.splits pyval.splits sum.splits exc.splits)

lemma local_handle_close: "local sock (handle_close sock p)"
  unfolding handle_close_def by (auto split: list.splits pyval.splits)

lemma local_start: "local sock (start env sock m)"
  unfolding start_def Let_def
  by (auto intro: local_event_begin local_req_begin local_handle_close
      split: sum.splits exc.splits pyval.splits list.splits)

lemma local_event_saved: "local sock (event_saved sock e x)"
  unfolding event_saved_def by (auto split: sum.splits)

lemma local_req_answer: "local sock (req_answer sock sid x)"
  unfolding req_answer_def by (auto split: sum.splits exc.splits)

lemma local_extends: "local sock m \<Longrightarrow> m r = (x, r') \<Longrightarrow> extends r r'"
  and local_backend: "local sock m \<Longrightarrow> m r = (x, r') \<Longrightarrow> backend r' = backend r"
  and local_live: "local sock m \<Longrightarrow> m r = (x, r') \<Longrightarrow> sock' \<noteq> sock \<Longrightarrow>
    live r' sock' sid fs = live r sock' sid fs"
  by (auto simp: local_def live_def subs_of_def dest!: spec [of _ r])

text \<open>What a message may register or remove.\<close>

lemma send_json_live: "send_json sock m r = (x, r') \<Longrightarrow> live r' = live r"
  by (auto simp: send_json_def split: if_splits)

lemma send_json_subs: "send_json sock m r = (x, r') \<Longrightarrow> subs_of sock' r' = subs_of sock' r"
  by (auto simp: send_json_def subs_of_def split: if_splits)

lemma event_begin_live: "event_begin env sock p r = (x, r') \<Longrightarrow> live r' = live r"
  unfolding event_begin_def Let_def
  by (auto simp: abind_def split: if_splits sum.splits exc.splits prod.splits dest: send_json_live)

lemma on_subscriptions_live:
  assumes "on_subscriptions sock f r = (Inr (), r')"
  shows "live r' sock sid fs \<longleftrightarrow> map_of (f (subs_of sock r)) sid = Some fs"
    "subs_of sock r' = f (subs_of sock r)"
  using assms by (auto simp: on_subscriptions_def live_def subs_of_def split: option.splits)

lemma normalize_filters_error: "normalize_filters fs = Inl x \<Longrightarrow> \<exists>m. x = FilterValidationError m \<and> encodable m"
  by (auto simp: normalize_filters_def Let_def rbind_eq_Inl dest: validate_filter_bounds_error
      split: if_splits)

lemma normalize_filters_Inr:
  "normalize_filters vs = Inr fs \<longleftrightarrow> length vs \<le> 16 \<and> fs = clean_filters vs \<and> filters_bounded fs"
  by (auto simp: normalize_filters_def Let_def rbind_eq_Inr validate_filter_bounds_iff)

lemma req_begin_outcome:
  assumes "req_begin sock p r = (Inr begun, r')"
  shows "(case begun of None \<Rightarrow> live r' sock sid' fs' \<longrightarrow> live r sock sid' fs'
    | Some (sid, fs) \<Rightarrow> live r' sock sid' fs' \<longleftrightarrow> (if sid' = sid then fs' = fs else live r sock sid' fs'))"
  using assms unfolding req_begin_def
  by (auto simp: abind_def live_def
      split: list.splits pyval.splits prod.splits sum.splits exc.splits if_splits
      dest!: on_subscriptions_live(2) send_json_subs [where sock' = sock])

lemma handle_close_live:
  "handle_close sock p r = (Inr (), r') \<Longrightarrow> live r' sock sid fs \<Longrightarrow> live r sock sid fs"
  unfolding handle_close_def
  by (auto simp: live_def split: list.splits pyval.splits if_splits
      dest!: on_subscriptions_live(2) send_json_subs [where sock' = sock])

lemma validated_publishable: "validate_event c vs now v = Inr e \<Longrightarrow> publishable e"
  by (simp add: validate_event_iff publishable_def)

lemma event_begin_publishable:
  "event_begin env sock p r = (Inr (Some e), r') \<Longrightarrow> publishable e"
  unfolding event_begin_def Let_def
  by (auto simp: abind_def split: if_splits sum.splits exc.splits prod.splits
      dest: validated_publishable)

text \<open>The shapes of a message, the same for the handler and for its steps.\<close>

lemma message_cases:
  obtains (raise) x where "read_message env m = Inl x" "x \<noteq> JSONDecodeError"
      "start env sock m = araise x" "handle_message env sock m = araise x"
  | (send) t where "start env sock m = abind (send_json sock (notice t)) (\<lambda>_. areturn Reading)"
      "handle_message env sock m = send_json sock (notice t)"
      "(\<exists>cmd rest. read_message env m = Inr (VList (VStr cmd # rest))
          \<and> cmd \<notin> {lit ''EVENT'', lit ''REQ'', lit ''CLOSE''} \<and> t = lit ''unsupported command: '' @ cmd)
       \<or> encodable t \<and> (\<forall>cmd rest. read_message env m \<noteq> Inr (VList (VStr cmd # rest)))
          \<and> (\<forall>x. read_message env m = Inl x \<longrightarrow> x = JSONDecodeError)"
  | (event) p where "read_message env m = Inr (VList (vlit ''EVENT'' # p))"
      "start env sock m = abind (event_begin env sock (vlit ''EVENT'' # p)) (\<lambda>begun.
        areturn (case begun of None \<Rightarrow> Reading | Some e \<Rightarrow> Storing e))"
      "handle_message env sock m = handle_event env sock (vlit ''EVENT'' # p)"
  | (req) p where "read_message env m = Inr (VList (vlit ''REQ'' # p))"
      "start env sock m = abind (req_begin sock (vlit ''REQ'' # p)) (\<lambda>begun.
        areturn (case begun of None \<Rightarrow> Reading | Some (sid, fs) \<Rightarrow> Querying sid fs))"
      "handle_message env sock m = handle_req env sock (vlit ''REQ'' # p)"
  | (close) p where "read_message env m = Inr (VList (vlit ''CLOSE'' # p))"
      "start env sock m = abind (handle_close sock (vlit ''CLOSE'' # p)) (\<lambda>_. areturn Reading)"
      "handle_message env sock m = handle_close sock (vlit ''CLOSE'' # p)"
proof (cases "read_message env m")
  case (Inl x)
  show thesis
  proof (cases "x = JSONDecodeError")
    case True
    show thesis
      by (rule send [of "lit ''invalid JSON''"])
        (simp_all add: start_def handle_message_def Inl True Let_def)
  next
    case False
    then show thesis
      by (intro raise [of x] Inl; cases x) (simp_all add: start_def handle_message_def Inl Let_def)
  qed
next
  case (Inr v)
  show thesis
  proof (cases "\<exists>cmd rest. v = VList (VStr cmd # rest)")
    case True
    then obtain cmd rest where v: "v = VList (VStr cmd # rest)" by blast
    note defs = start_def handle_message_def Inr v Let_def
    consider "cmd = lit ''EVENT''" | "cmd = lit ''REQ''" | "cmd = lit ''CLOSE''"
      | "cmd \<noteq> lit ''EVENT''" "cmd \<noteq> lit ''REQ''" "cmd \<noteq> lit ''CLOSE''" by blast
    then show thesis
    proof cases
      case 1
      show thesis by (rule event [of rest]) (simp_all add: defs 1)
    next
      case 2
      show thesis by (rule req [of rest]) (simp_all add: defs 2)
    next
      case 3
      show thesis by (rule close [of rest]) (simp_all add: defs 3)
    next
      case 4
      show thesis
        by (rule send [of "lit ''unsupported command: '' @ cmd"]) (simp_all add: defs 4)
    qed
  next
    case False
    let ?a = "notice (lit ''message must be a Nostr array'')"
    have "start env sock m = abind (send_json sock ?a) (\<lambda>_. areturn Reading)
      \<and> handle_message env sock m = send_json sock ?a"
      using False
      by (cases v) (auto simp: start_def handle_message_def Inr Let_def split: pyval.splits list.splits)
    then show thesis using send [of "lit ''message must be a Nostr array''"] False Inr by simp
  qed
qed

lemma start_outcome:
  assumes "start env sock m r = (Inr t, r')"
  shows "(t = Reading \<or> (\<exists>e. t = Storing e \<and> publishable e)) \<and>
      (\<forall>sid fs. live r' sock sid fs \<longrightarrow> live r sock sid fs)
    \<or> (\<exists>sid fs. t = Querying sid fs \<and>
        (\<forall>sid' fs'. live r' sock sid' fs' \<longleftrightarrow> (if sid' = sid then fs' = fs else live r sock sid' fs')))"
  using message_cases [where env = env and sock = sock and m = m]
proof cases
  case (raise x)
  with assms show ?thesis by simp
next
  case (send a)
  with assms show ?thesis by (auto simp: abind_eq_Inr dest: send_json_live)
next
  case (event p)
  with assms obtain b where b: "event_begin env sock (vlit ''EVENT'' # p) r = (Inr b, r')"
    "t = (case b of None \<Rightarrow> Reading | Some e \<Rightarrow> Storing e)"
    by (auto simp: abind_eq_Inr)
  with event_begin_live [OF b(1)] event_begin_publishable show ?thesis
    by (cases b) auto
next
  case (req p)
  with assms obtain b where b: "req_begin sock (vlit ''REQ'' # p) r = (Inr b, r')"
    "t = (case b of None \<Rightarrow> Reading | Some (sid, fs) \<Rightarrow> Querying sid fs)"
    by (auto simp: abind_eq_Inr)
  with req_begin_outcome [OF b(1)] show ?thesis by (cases b) auto
next
  case (close p)
  with assms show ?thesis by (auto simp: abind_eq_Inr dest: handle_close_live)
qed

section \<open>Broadcasting\<close>

lemma broadcast_sends_live:
  assumes "live r sock sid fs" "matches_any_filter e fs"
  shows "(sock, event_msg sid e) \<in> set (broadcast_sends e (connections r))"
proof -
  obtain subs where "map_of (connections r) sock = Some subs" "map_of subs sid = Some fs"
    using assms(1) by (auto simp: live_def subs_of_def split: option.splits)
  then have "(sock, subs) \<in> set (connections r)" "(sid, fs) \<in> set subs"
    by (auto dest: map_of_SomeD)
  with assms(2) show ?thesis
    by (auto simp: broadcast_sends_def intro!: bexI [of _ "(sock, subs)"] bexI [of _ "(sid, fs)"])
qed

lemma sends_outcome:
  "fold (\<lambda>(sock, m) r. snd (send_json sock m r)) sends r =
     r\<lparr>sent := sent r @ [(sock, m) \<leftarrow> sends. sock \<notin> set (gone r) \<and> sendable m]\<rparr>"
proof (induction sends arbitrary: r)
  case (Cons x sends)
  then show ?case
    by (cases x; cases "fst x \<in> set (gone r)"; cases "sendable (snd x)") (simp_all add: send_json_def)
qed simp

lemma broadcast_outcome:
  "broadcast e r = (Inr (), r\<lparr>sent := sent r @
     [(sock, m) \<leftarrow> broadcast_sends e (connections r). sock \<notin> set (gone r) \<and> sendable m]\<rparr>)"
  by (simp add: broadcast_def sends_outcome)

end
