(* ===== verification/Relay_Delivery.thy ===== *)
theory Relay_Delivery
  imports Relay_Steps
begin

text \<open>
  No published event is lost to a subscription: an invariant of the steps of \<open>Relay_Steps\<close>,
  proved for every backend that keeps the contract of \<open>event_source\<close>.
\<close>

section \<open>What a subscription is owed\<close>

definition pending :: "'s world \<Rightarrow> stored_event \<Rightarrow> bool" where
  "pending w e = (\<exists>sock t. tasks w sock = Some t \<and> e \<in> set (to_cast t))"

text \<open>
  Registered under an id that can be sent, and its query was made and did not fail. (Under any
  other id no answer can be sent: the first attempt ends the connection.)
\<close>

definition settled :: "'s world \<Rightarrow> nat \<Rightarrow> pystr \<Rightarrow> relay_filter list \<Rightarrow> bool" where
  "settled w sock sid fs =
     (encodable sid \<and> live (hub w) sock sid fs
      \<and> (\<forall>fs'. tasks w sock \<noteq> Some (Querying sid fs'))
      \<and> (\<forall>x. tasks w sock \<noteq> Some (Queried sid (Inl x))))"

fun to_send :: "task \<Rightarrow> pyval set" where
  "to_send (Queried sid (Inr es)) = event_msg sid ` set es"
| "to_send (Replying ms) = set ms"
| "to_send _ = {}"

definition queued :: "'s world \<Rightarrow> nat \<Rightarrow> pyval set" where
  "queued w sock = (case tasks w sock of None \<Rightarrow> {} | Some t \<Rightarrow> to_send t)"

definition stored :: "('s \<Rightarrow> spec_store) \<Rightarrow> 's world \<Rightarrow> stored_event set" where
  "stored contents w = set (sp_events (contents (backend (hub w))))"

text \<open>
  The event was in the store when the subscription's query was made and the query left it
  out (deleted, or beyond the limit); or it has been sent since; or it is about to be, by the
  task that stored it or, for the events in \<open>owed\<close>, by another part of the program.
\<close>

definition reaches :: "('s \<Rightarrow> spec_store) \<Rightarrow> stored_event set \<Rightarrow> 's world \<Rightarrow> nat \<Rightarrow> pystr \<Rightarrow> relay_filter list \<Rightarrow>
    nat \<Rightarrow> 's \<Rightarrow> stored_event \<Rightarrow> bool" where
  "reaches contents owed w sock sid fs n s0 e =
     (e \<in> set (sp_events (contents s0)) \<and> e \<notin> set (spec_query fs (contents s0))
      \<or> (sock, event_msg sid e) \<in> set (drop n (sent (hub w)))
      \<or> event_msg sid e \<in> queued w sock
      \<or> sock \<in> set (gone (hub w)) \<or> pending w e \<or> e \<in> set (orphaned w) \<or> e \<in> owed)"

definition served :: "('s \<Rightarrow> spec_store) \<Rightarrow> stored_event set \<Rightarrow> 's world \<Rightarrow> nat \<Rightarrow> pystr \<Rightarrow> relay_filter list \<Rightarrow> bool" where
  "served contents owed w sock sid fs =
     (\<exists>n s0. (sock, sid, fs, n, s0) \<in> set (answered w) \<and> n \<le> length (sent (hub w))
        \<and> (\<forall>e \<in> stored contents w. matches_any_filter e fs \<longrightarrow> reaches contents owed w sock sid fs n s0 e))"

definition task_ok :: "'s world \<Rightarrow> nat \<Rightarrow> task \<Rightarrow> bool" where
  "task_ok w sock t =
     ((\<forall>e. t = Storing e \<longrightarrow> publishable e)
      \<and> (\<forall>sid fs. t = Querying sid fs \<longrightarrow> live (hub w) sock sid fs))"

definition delivery_inv :: "('s \<Rightarrow> spec_store) \<Rightarrow> stored_event set \<Rightarrow> ('s \<Rightarrow> bool) \<Rightarrow> 's world \<Rightarrow> bool" where
  "delivery_inv contents owed sound w =
     (sound (backend (hub w))
      \<and> (\<forall>sock t. tasks w sock = Some t \<longrightarrow> task_ok w sock t)
      \<and> (\<forall>sock sid fs. settled w sock sid fs \<longrightarrow> served contents owed w sock sid fs))"

text \<open>A step that takes nothing from a subscription leaves it served.\<close>

lemma served_owed_step:
  assumes served: "served contents owed w sock sid fs"
    and answered: "set (answered w) \<subseteq> set (answered w')"
    and orphaned: "set (orphaned w) \<subseteq> set (orphaned w')"
    and gone: "set (gone (hub w)) \<subseteq> set (gone (hub w'))"
    and fresh: "sent (hub w') = sent (hub w) @ new"
    and stored: "\<And>e. e \<in> stored contents w' \<Longrightarrow> e \<in> stored contents w \<or> pending w' e \<or> e \<in> owed'"
    and queued: "\<And>m. m \<in> queued w sock \<Longrightarrow> m \<in> queued w' sock \<or> (sock, m) \<in> set new"
    and pending: "\<And>e. e \<in> stored contents w' \<Longrightarrow> matches_any_filter e fs \<Longrightarrow> pending w e \<or> e \<in> owed \<Longrightarrow>
      pending w' e \<or> e \<in> set (orphaned w') \<or> e \<in> owed' \<or> (sock, event_msg sid e) \<in> set new
      \<or> sock \<in> set (gone (hub w'))"
  shows "served contents owed' w' sock sid fs"
proof -
  obtain n s0 where n: "(sock, sid, fs, n, s0) \<in> set (answered w)" "n \<le> length (sent (hub w))"
    "\<And>e. e \<in> stored contents w \<Longrightarrow> matches_any_filter e fs \<Longrightarrow> reaches contents owed w sock sid fs n s0 e"
    using served unfolding served_def by blast
  have drop: "set (drop n (sent (hub w'))) = set (drop n (sent (hub w))) \<union> set new"
    using n(2) fresh by simp
  have "reaches contents owed' w' sock sid fs n s0 e"
    if e: "e \<in> stored contents w'" "matches_any_filter e fs" for e
  proof (cases "pending w' e \<or> e \<in> owed'")
    case False
    with stored [OF e(1)] have "e \<in> stored contents w" by blast
    from n(3) [OF this e(2)] False show ?thesis
      unfolding reaches_def drop
      using queued pending [OF e] orphaned gone by blast
  qed (auto simp: reaches_def)
  then show ?thesis
    unfolding served_def using n(1,2) answered fresh
    by (intro exI [of _ n] exI [of _ s0]) auto
qed

lemma served_step:
  assumes served: "served contents owed w sock sid fs"
    and w': "set (answered w) \<subseteq> set (answered w')" "set (orphaned w) \<subseteq> set (orphaned w')"
      "set (gone (hub w)) \<subseteq> set (gone (hub w'))" "sent (hub w') = sent (hub w) @ new"
    and stored: "\<And>e. e \<in> stored contents w' \<Longrightarrow> e \<in> stored contents w \<or> pending w' e"
    and queued: "\<And>m. m \<in> queued w sock \<Longrightarrow> m \<in> queued w' sock \<or> (sock, m) \<in> set new"
    and pending: "\<And>e. e \<in> stored contents w' \<Longrightarrow> matches_any_filter e fs \<Longrightarrow> pending w e \<Longrightarrow>
      pending w' e \<or> e \<in> set (orphaned w') \<or> (sock, event_msg sid e) \<in> set new
      \<or> sock \<in> set (gone (hub w'))"
  shows "served contents owed w' sock sid fs"
proof (rule served_owed_step [OF served w'])
  show "e \<in> stored contents w \<or> pending w' e \<or> e \<in> owed" if "e \<in> stored contents w'" for e
    using stored [OF that] by blast
  show "m \<in> queued w' sock \<or> (sock, m) \<in> set new" if "m \<in> queued w sock" for m
    using queued [OF that] .
  show "pending w' e \<or> e \<in> set (orphaned w') \<or> e \<in> owed \<or> (sock, event_msg sid e) \<in> set new
      \<or> sock \<in> set (gone (hub w'))" if "e \<in> stored contents w'" "matches_any_filter e fs" "pending w e \<or> e \<in> owed" for e
    using pending [OF that(1,2)] that(3) by blast
qed

text \<open>
  A step outside the tasks of the connections: it may change the backend and send messages, and
  what it stores is owed until it has been sent.
\<close>

lemma outside_step_inv:
  assumes inv: "delivery_inv contents owed sound w"
    and w': "tasks w' = tasks w" "orphaned w' = orphaned w" "answered w' = answered w"
    and hub: "connections (hub w') = connections (hub w)" "gone (hub w') = gone (hub w)"
      "sent (hub w') = sent (hub w) @ new" "sound (backend (hub w'))"
    and stored: "\<And>e. e \<in> stored contents w' \<Longrightarrow> e \<in> stored contents w \<or> e \<in> owed'"
    and owed: "\<And>e sock sid fs. e \<in> owed \<Longrightarrow> e \<notin> owed' \<Longrightarrow> e \<in> stored contents w' \<Longrightarrow> encodable sid \<Longrightarrow>
      live (hub w) sock sid fs \<Longrightarrow> matches_any_filter e fs \<Longrightarrow> (sock, event_msg sid e) \<in> set new \<or> sock \<in> set (gone (hub w))"
  shows "delivery_inv contents owed' sound w'"
proof -
  have live: "live (hub w') = live (hub w)"
    using hub(1) by (simp add: live_def subs_of_def fun_eq_iff)
  have pending: "pending w' = pending w" using w'(1) by (simp add: pending_def fun_eq_iff)
  have "served contents owed' w' sock sid fs" if s: "settled w' sock sid fs" for sock sid fs
  proof (rule served_owed_step [of contents owed w sock sid fs, where new = new])
    have s': "settled w sock sid fs" using s live w'(1) by (simp add: settled_def)
    then show "served contents owed w sock sid fs" using inv by (simp add: delivery_inv_def)
    show "pending w' e \<or> e \<in> set (orphaned w') \<or> e \<in> owed' \<or> (sock, event_msg sid e) \<in> set new
        \<or> sock \<in> set (gone (hub w'))" if "e \<in> stored contents w'" "matches_any_filter e fs" "pending w e \<or> e \<in> owed" for e
      using that owed [of e sid sock fs] s' pending hub(2) by (auto simp: settled_def)
    show "m \<in> queued w sock \<Longrightarrow> m \<in> queued w' sock \<or> (sock, m) \<in> set new" for m
      using w'(1) by (simp add: queued_def)
  qed (use w' hub stored in auto)
  moreover have "task_ok w' sock t" if "tasks w' sock = Some t" for sock t
    using that inv w'(1) live by (simp add: delivery_inv_def task_ok_def)
  ultimately show ?thesis using hub(4) by (simp add: delivery_inv_def)
qed

text \<open>The operations of an environment are the backend's, which may fail at any call.\<close>

definition publish_op :: "'s relay_env \<Rightarrow> stored_event \<Rightarrow> ('s, bool) act" where
  "publish_op env = (case re_witness env of Some accept \<Rightarrow> accept | None \<Rightarrow> (\<lambda>e. transaction (re_save env e)))"

definition served_by ::
  "('f \<Rightarrow> stored_event \<Rightarrow> ('s, bool) act) \<Rightarrow>
   ('g \<Rightarrow> relay_filter list \<Rightarrow> 's \<Rightarrow> stored_event list res) \<Rightarrow> 's relay_env set \<Rightarrow> bool" where
  "served_by put get E =
     (\<forall>env \<in> E. (\<exists>f. publish_op env = put f) \<and> (\<exists>g. re_query env = get g))"

lemma save_call_outcome:
  "save_call env e r = (case publish_op env e (backend r) of (x, s) \<Rightarrow> (Inr x, r\<lparr>backend := s\<rparr>))"
  by (simp add: save_call_def publish_op_def split: option.split)

lemma pending_update:
  assumes "tasks w sock = Some t" "tasks w' = (tasks w)(sock := t')"
    and "pending w e"
  shows "pending w' e \<or> e \<in> set (to_cast t)"
  using assms unfolding pending_def by (metis fun_upd_other option.inject)

lemma pending_same:
  "tasks w' = (tasks w)(sock \<mapsto> t') \<Longrightarrow> tasks w sock = Some t \<Longrightarrow> set (to_cast t) \<subseteq> set (to_cast t')
    \<Longrightarrow> pending w e \<Longrightarrow> pending w' e"
  unfolding pending_def by (metis fun_upd_other fun_upd_same option.inject subset_iff)

lemma queued_other: "tasks w' = (tasks w)(sock := t') \<Longrightarrow> sock' \<noteq> sock \<Longrightarrow> queued w' sock' = queued w sock'"
  by (simp add: queued_def)

lemma end_task_sel [simp]:
  "hub (end_task sock t r w) = disconnect sock r" "answered (end_task sock t r w) = answered w"
  "tasks (end_task sock t r w) = (tasks w)(sock := None)"
  "orphaned (end_task sock t r w) = to_cast t @ orphaned w"
  by (simp_all add: end_task_def)

lemma disconnect_sel [simp]:
  "backend (disconnect sock r) = backend r" "sent (disconnect sock r) = sent r"
  "gone (disconnect sock r) = gone r"
  by (simp_all add: disconnect_def)

text \<open>A task that ends takes its own subscriptions with it and leaves the others served.\<close>

lemma end_task_inv:
  assumes inv: "delivery_inv contents owed sound w" and t: "tasks w sock = Some t"
    and r: "extends (hub w) r" "backend r = backend (hub w)"
      "\<And>sock' sid fs. sock' \<noteq> sock \<Longrightarrow> live r sock' sid fs = live (hub w) sock' sid fs"
  shows "delivery_inv contents owed sound (end_task sock t r w)"
proof -
  let ?w = "end_task sock t r w"
  have settled: "sock' \<noteq> sock \<and> settled w sock' sid fs" if "settled ?w sock' sid fs" for sock' sid fs
    using that r(3) by (auto simp: settled_def live_disconnect split: if_splits)
  obtain new where new: "sent r = sent (hub w) @ new" "gone r = gone (hub w)"
    using r(1) by (auto simp: extends_def)
  have "served contents owed ?w sock' sid fs" if "settled ?w sock' sid fs" for sock' sid fs
  proof (rule served_step [of contents owed w sock' sid fs])
    show "served contents owed w sock' sid fs"
      using settled [OF that] inv by (simp add: delivery_inv_def)
    show "m \<in> queued w sock' \<Longrightarrow> m \<in> queued ?w sock' \<or> (sock', m) \<in> set new" for m
      using settled [OF that] by (simp add: queued_def)
    show "pending w e \<Longrightarrow> pending ?w e \<or> e \<in> set (orphaned ?w) \<or> (sock', event_msg sid e) \<in> set new
        \<or> sock' \<in> set (gone (hub ?w))" for e
      using pending_update [OF t, of ?w None e] by auto
    show "e \<in> stored contents ?w \<Longrightarrow> e \<in> stored contents w \<or> pending ?w e" for e
      using r(2) by (simp add: stored_def)
  qed (use new in simp_all)
  moreover have "task_ok ?w sock' t'" if "tasks ?w sock' = Some t'" for sock' t'
    using that inv r(3) by (auto simp: delivery_inv_def task_ok_def live_disconnect split: if_splits)
  ultimately show ?thesis
    using inv r(2) by (simp add: delivery_inv_def)
qed

text \<open>A task that goes on.\<close>

lemma task_step_inv:
  assumes inv: "delivery_inv contents owed sound w" and t: "tasks w sock = Some t"
    and w': "tasks w' = (tasks w)(sock \<mapsto> t')" "orphaned w' = orphaned w"
      "set (answered w) \<subseteq> set (answered w')"
    and new: "sent (hub w') = sent (hub w) @ new" "gone (hub w') = gone (hub w)"
    and others: "\<And>sock' sid fs. sock' \<noteq> sock \<Longrightarrow> live (hub w') sock' sid fs = live (hub w) sock' sid fs"
    and sound: "sound (backend (hub w'))"
    and stored: "\<And>e. e \<in> stored contents w' \<Longrightarrow> e \<in> stored contents w \<or> e \<in> set (to_cast t')"
    and cast: "\<And>e sock' sid fs. e \<in> set (to_cast t) \<Longrightarrow> e \<notin> set (to_cast t') \<Longrightarrow>
      e \<in> stored contents w' \<Longrightarrow> encodable sid \<Longrightarrow> live (hub w) sock' sid fs \<Longrightarrow> matches_any_filter e fs \<Longrightarrow>
      (sock', event_msg sid e) \<in> set new \<or> sock' \<in> set (gone (hub w))"
    and ok: "task_ok w' sock t'"
    and own: "\<And>sid fs. settled w' sock sid fs \<Longrightarrow> served contents owed w' sock sid fs
      \<or> settled w sock sid fs \<and> to_send t \<subseteq> to_send t' \<union> {m. (sock, m) \<in> set new}"
  shows "delivery_inv contents owed sound w'"
proof -
  have old: "served contents owed w' sock' sid fs"
    if s: "settled w sock' sid fs"
      "sock' = sock \<Longrightarrow> to_send t \<subseteq> to_send t' \<union> {m. (sock, m) \<in> set new}" for sock' sid fs
  proof (rule served_step [of contents owed w sock' sid fs])
    show "served contents owed w sock' sid fs" using s(1) inv by (simp add: delivery_inv_def)
    show "m \<in> queued w sock' \<Longrightarrow> m \<in> queued w' sock' \<or> (sock', m) \<in> set new" for m
      using s(2) t w'(1) by (cases "sock' = sock") (auto simp: queued_def)
    show "e \<in> stored contents w' \<Longrightarrow> e \<in> stored contents w \<or> pending w' e" for e
      using stored w'(1) unfolding pending_def by (metis fun_upd_same)
    fix e assume e: "e \<in> stored contents w'" "matches_any_filter e fs" "pending w e"
    show "pending w' e \<or> e \<in> set (orphaned w') \<or> (sock', event_msg sid e) \<in> set new
        \<or> sock' \<in> set (gone (hub w'))"
    proof (cases "e \<in> set (to_cast t) \<and> e \<notin> set (to_cast t')")
      case True
      then show ?thesis using cast [OF _ _ e(1) _ _ e(2), of sid sock'] s(1) new(2)
        by (auto simp: settled_def)
    next
      case False
      then show ?thesis using pending_update [OF t w'(1) e(3)] w'(1)
        unfolding pending_def by (metis fun_upd_same)
    qed
  qed (use w' new in simp_all)
  have "served contents owed w' sock' sid fs" if s: "settled w' sock' sid fs" for sock' sid fs
  proof (cases "sock' = sock")
    case True
    with own s old show ?thesis by blast
  next
    case False
    then have "settled w sock' sid fs"
      using s others w'(1) by (simp add: settled_def)
    with False old show ?thesis by blast
  qed
  moreover have "task_ok w' sock' t''" if "tasks w' sock' = Some t''" for sock' t''
    using that inv ok others w'(1)
    by (cases "sock' = sock") (auto simp: delivery_inv_def task_ok_def)
  ultimately show ?thesis
    using sound by (simp add: delivery_inv_def)
qed

text \<open>A piece that is \<open>local\<close> to its connection.\<close>

lemma local_step_inv:
  assumes inv: "delivery_inv contents owed sound w" and t: "tasks w sock = Some t"
    and m: "local sock m" "m (hub w) = (Inr t', r)"
    and cast: "set (to_cast t) \<subseteq> set (to_cast t')" "set (to_cast t') \<subseteq> set (to_cast t)"
    and ok: "task_ok (w\<lparr>hub := r, tasks := (tasks w)(sock \<mapsto> t')\<rparr>) sock t'"
    and own: "\<And>sid fs. encodable sid \<Longrightarrow> live r sock sid fs \<Longrightarrow> \<forall>fs'. t' \<noteq> Querying sid fs' \<Longrightarrow>
      \<forall>x. t' \<noteq> Queried sid (Inl x) \<Longrightarrow> settled w sock sid fs"
    and send: "to_send t \<subseteq> to_send t' \<union> {m. (sock, m) \<in> set (drop (length (sent (hub w))) (sent r))}"
  shows "delivery_inv contents owed sound (w\<lparr>hub := r, tasks := (tasks w)(sock \<mapsto> t')\<rparr>)"
proof -
  have r: "extends (hub w) r" "backend r = backend (hub w)"
    "\<And>sock' sid fs. sock' \<noteq> sock \<Longrightarrow> live r sock' sid fs = live (hub w) sock' sid fs"
    using local_extends [OF m] local_backend [OF m] local_live [OF m] by auto
  then obtain new where new: "sent r = sent (hub w) @ new" "gone r = gone (hub w)"
    by (auto simp: extends_def)
  show ?thesis
  proof (rule task_step_inv [OF inv t, where new = new and t' = t'])
    show "settled (w\<lparr>hub := r, tasks := (tasks w)(sock \<mapsto> t')\<rparr>) sock sid fs \<Longrightarrow>
        served contents owed (w\<lparr>hub := r, tasks := (tasks w)(sock \<mapsto> t')\<rparr>) sock sid fs
        \<or> settled w sock sid fs \<and> to_send t \<subseteq> to_send t' \<union> {m. (sock, m) \<in> set new}" for sid fs
      using own [of sid fs] send new by (simp add: settled_def)
  qed (use r new cast ok inv in \<open>auto simp: stored_def delivery_inv_def\<close>)
qed

lemma receive_inv:
  assumes inv: "delivery_inv contents owed sound w" and t: "tasks w sock = Some Reading"
    and r: "start env sock m (hub w) = (Inr t', r)"
  shows "delivery_inv contents owed sound (w\<lparr>hub := r, tasks := (tasks w)(sock \<mapsto> t')\<rparr>)"
  using start_outcome [OF r]
  by (intro local_step_inv [OF inv t local_start r]) (auto simp: task_ok_def settled_def t split: if_splits)

definition local_task :: "task \<Rightarrow> bool" where
  "local_task t = (case t of Storing _ \<Rightarrow> False | Casting _ \<Rightarrow> False | Querying _ _ \<Rightarrow> False | _ \<Rightarrow> True)"

lemma local_resume: "local_task t \<Longrightarrow> local sock (resume env sock t)"
  by (cases "(env, sock, t)" rule: resume.cases)
    (auto simp: local_task_def event_ack_def intro!: local_abind local_event_saved local_req_answer)

lemma req_answer_outcome:
  assumes "req_answer sock sid x r = (Inr ms, r')"
  shows "(case x of Inr es \<Rightarrow> event_msg sid ` set es \<subseteq> set ms \<and> r' = r
    | Inl _ \<Rightarrow> (\<forall>sid' fs. live r' sock sid' fs \<longrightarrow> sid' \<noteq> sid \<and> live r sock sid' fs))"
  using assms unfolding req_answer_def
  by (auto simp: abind_eq_Inr live_def split: sum.splits exc.splits if_splits
      dest!: on_subscriptions_live(2) send_json_subs [where sock' = sock])

lemma event_saved_outcome:
  assumes "event_saved sock e x r = (Inr b, r')"
  shows "if x = Inr True then b \<and> r' = r else \<not> b \<and> live r' = live r"
  using assms unfolding event_saved_def
  by (auto simp: abind_eq_Inr split: sum.splits if_splits dest: send_json_live)

lemma send_json_sent: "send_json sock m r = (Inr u, r') \<Longrightarrow> sent r' = sent r @ [(sock, m)]"
  by (auto simp: send_json_def split: if_splits)

lemma local_resume_cases:
  assumes r: "resume env sock t r0 = (Inr t', r)" and t: "local_task t"
  obtains "t = Reading" "t' = Reading" "live r = live r0"
  | e where "t = Stored e (Inr True)" "t' = Acking e" "live r = live r0"
  | e x where "t = Stored e x" "x \<noteq> Inr True" "t' = Reading" "live r = live r0"
  | e where "t = Acking e" "t' = Casting e" "live r = live r0"
  | sid es ms where "t = Queried sid (Inr es)" "t' = Replying ms" "live r = live r0"
      "event_msg sid ` set es \<subseteq> set ms"
  | sid x where "t = Queried sid (Inl x)" "t' = Replying []"
      "\<forall>sid' fs. live r sock sid' fs \<longrightarrow> sid' \<noteq> sid \<and> live r0 sock sid' fs"
  | "t = Replying []" "t' = Reading" "live r = live r0"
  | m ms where "t = Replying (m # ms)" "t' = Replying ms" "live r = live r0"
      "sent r = sent r0 @ [(sock, m)]"
proof (cases t)
  case Reading
  then show thesis using r that(1) by simp
next
  case (Stored e x)
  then obtain b where "event_saved sock e x r0 = (Inr b, r)" "t' = (if b then Acking e else Reading)"
    using r by (auto simp: abind_eq_Inr)
  with event_saved_outcome [of sock e x r0 b r] Stored that(2,3) show thesis
    by (cases "x = Inr True") auto
next
  case (Acking e)
  then show thesis using r that(4) by (auto simp: abind_eq_Inr event_ack_def dest: send_json_live)
next
  case (Queried sid x)
  then obtain ms where ms: "req_answer sock sid x r0 = (Inr ms, r)" "t' = Replying ms"
    using r by (auto simp: abind_eq_Inr)
  show thesis
  proof (cases x)
    case (Inl y)
    with ms have "ms = []"
      by (auto simp: req_answer_def abind_eq_Inr split: exc.splits)
    with req_answer_outcome [OF ms(1)] ms Queried Inl that(6) show thesis by auto
  next
    case (Inr es)
    with req_answer_outcome [OF ms(1)] ms Queried that(5) show thesis by auto
  qed
next
  case (Replying ms)
  then show thesis
    using r that(7,8) by (cases ms) (auto simp: abind_eq_Inr dest: send_json_live send_json_sent)
qed (use t in \<open>simp_all add: local_task_def\<close>)

lemma to_cast_Stored: "to_cast (Stored e x) = (if x = Inr True then [e] else [])"
  by (cases "Stored e x" rule: to_cast.cases) auto

lemma local_resume_inv:
  assumes inv: "delivery_inv contents owed sound w" and t: "tasks w sock = Some t" "local_task t"
    and r: "resume env sock t (hub w) = (Inr t', r)"
  shows "delivery_inv contents owed sound (w\<lparr>hub := r, tasks := (tasks w)(sock \<mapsto> t')\<rparr>)"
proof -
  note rule = local_step_inv [OF inv t(1) local_resume [OF t(2)] r]
  from r t(2) show ?thesis
  proof (cases rule: local_resume_cases)
    case 1
    with t(1) show ?thesis by (intro rule) (simp_all add: task_ok_def settled_def)
  next
    case 2
    with t(1) show ?thesis by (intro rule) (simp_all add: task_ok_def settled_def)
  next
    case 3
    with t(1) show ?thesis by (intro rule) (simp_all add: task_ok_def settled_def to_cast_Stored)
  next
    case 4
    with t(1) show ?thesis by (intro rule) (simp_all add: task_ok_def settled_def)
  next
    case 5
    with t(1) show ?thesis by (intro rule) (auto simp: task_ok_def settled_def)
  next
    case 6
    with t(1) show ?thesis by (intro rule) (auto simp: task_ok_def settled_def)
  next
    case 7
    with t(1) show ?thesis by (intro rule) (simp_all add: task_ok_def settled_def)
  next
    case 8
    with t(1) show ?thesis by (intro rule) (simp_all add: task_ok_def settled_def)
  qed
qed

context event_source begin

lemma resume_inv:
  assumes E: "served_by accepts pages E" and env: "env \<in> E"
    and inv: "delivery_inv contents owed sound w" and t: "tasks w sock = Some t"
    and r: "resume env sock t (hub w) = (Inr t', r)"
  shows "delivery_inv contents owed sound ((note_query sock t w)\<lparr>hub := r, tasks := (tasks w)(sock \<mapsto> t')\<rparr>)"
    (is "delivery_inv contents owed sound ?w")
proof -
  have sb: "sound (backend (hub w))" using inv by (simp add: delivery_inv_def)
  have tok: "task_ok w sock t" using inv t by (simp add: delivery_inv_def)
  have nq: "\<forall>sid fs. t \<noteq> Querying sid fs \<Longrightarrow> note_query sock t w = w"
    by (cases t) (simp_all add: note_query_def)
  note step = task_step_inv [OF inv t, where w' = ?w and t' = t']
  show ?thesis
  proof (cases t)
    case Reading
    then show ?thesis using local_resume_inv [OF inv t _ r] nq by (simp add: local_task_def)
  next
    case (Acking e)
    then show ?thesis using local_resume_inv [OF inv t _ r] nq by (simp add: local_task_def)
  next
    case (Casting e)
    let ?new = "[(sock, m) \<leftarrow> broadcast_sends e (connections (hub w)). sock \<notin> set (gone (hub w)) \<and> sendable m]"
    have r': "t' = Reading" "r = (hub w)\<lparr>sent := sent (hub w) @ ?new\<rparr>" "note_query sock t w = w"
      using r Casting nq by (auto simp: abind_eq_Inr broadcast_outcome)
    show ?thesis
    proof (rule step [where new = ?new])
      show "(sock', event_msg sid e') \<in> set ?new \<or> sock' \<in> set (gone (hub w))"
        if e': "e' \<in> set (to_cast t)" "e' \<in> stored contents ?w" "encodable sid" "live (hub w) sock' sid fs"
          "matches_any_filter e' fs" for e' sock' sid fs
      proof -
        have "wf_event e'" using holds_ok [OF sb] e'(2) r' by (simp add: stored_def publishable_def)
        then show ?thesis using e' Casting broadcast_sends_live by auto
      qed
    qed (use r' sb t Casting in \<open>auto simp: stored_def task_ok_def settled_def\<close>)
  next
    case (Storing e)
    obtain f where put: "publish_op env = accepts f" using E env by (auto simp: served_by_def)
    have pub: "publishable e" using tok Storing by (simp add: task_ok_def)
    have n: "note_query sock t w = w" using Storing nq by simp
    obtain x b' where y: "accepts f e (backend (hub w)) = (x, b')" by fastforce
    then have r': "t' = Stored e x" "r = (hub w)\<lparr>backend := b'\<rparr>"
      using r Storing put by (auto simp: abind_eq_Inr save_call_outcome)
    note p = accepts_ok [OF sb pub y]
    have "set (sp_events (contents b')) \<subseteq>
        set (sp_events (contents (backend (hub w)))) \<union> set (to_cast t')"
      using p by (cases x) (auto simp: spec_save_def r'(1) to_cast_Stored)
    then show ?thesis
      by (intro step [where new = "[]"])
        (use r' n t Storing p in \<open>auto simp: stored_def task_ok_def settled_def\<close>)
  next
    case (Stored e x)
    then show ?thesis using local_resume_inv [OF inv t _ r] nq by (simp add: local_task_def)
  next
    case (Querying sid fs)
    obtain g where get: "re_query env = pages g" using E env by (auto simp: served_by_def)
    let ?x = "pages g fs (backend (hub w))"
    have r': "t' = Queried sid ?x" "r = hub w"
      "note_query sock t w = w\<lparr>answered := (sock, sid, fs, length (sent (hub w)), backend (hub w)) # answered w\<rparr>"
      using r Querying get by (auto simp: abind_eq_Inr query_call_def note_query_def)
    show ?thesis
    proof (rule step [where new = "[]"])
      fix sid' fs' assume s: "settled ?w sock sid' fs'"
      show "served contents owed ?w sock sid' fs' \<or>
          settled w sock sid' fs' \<and> to_send t \<subseteq> to_send t' \<union> {m. (sock, m) \<in> set []}"
      proof (cases "sid' = sid")
        case False
        then show ?thesis using s t Querying r' by (simp add: settled_def)
      next
        case True
        then have fs: "fs' = fs"
          using s tok Querying r' by (simp add: settled_def task_ok_def live_def)
        from s True obtain es where x: "?x = Inr es"
          using r' by (cases ?x) (auto simp: settled_def)
        then have "es = spec_query fs (contents (backend (hub w)))" by (rule pages_ok [OF sb])
        then have "reaches contents owed ?w sock sid fs (length (sent (hub w))) (backend (hub w)) e"
          if "e \<in> stored contents ?w" for e
          using that x r' by (auto simp: reaches_def stored_def queued_def)
        then have "served contents owed ?w sock sid fs"
          unfolding served_def using r'
          by (intro exI [of _ "length (sent (hub w))"] exI [of _ "backend (hub w)"]) simp
        then show ?thesis using True fs by simp
      qed
    qed (use r' t Querying sb in \<open>auto simp: stored_def task_ok_def\<close>)
  next
    case (Queried sid x)
    then show ?thesis using local_resume_inv [OF inv t _ r] nq by (simp add: local_task_def)
  next
    case (Replying ms)
    then show ?thesis using local_resume_inv [OF inv t _ r] nq by (simp add: local_task_def)
  qed
qed

lemma wstep_inv:
  assumes E: "served_by accepts pages E" and step: "wstep E w w'" and inv: "delivery_inv contents owed sound w"
  shows "delivery_inv contents owed sound w'"
  using step
proof cases
  case (open_socket sock)
  let ?w = "w\<lparr>hub := snd (connect sock (hub w)), tasks := (tasks w)(sock \<mapsto> Reading)\<rparr>"
  have w': "w' = ?w" "tasks w sock = None" by (fact open_socket)+
  have hub: "sent (hub ?w) = sent (hub w)" "gone (hub ?w) = gone (hub w)"
    "backend (hub ?w) = backend (hub w)"
    by (simp_all add: connect_def)
  have old: "sock' \<noteq> sock \<and> settled w sock' sid fs" if "settled ?w sock' sid fs" for sock' sid fs
    using that live_connect [of sock "hub w" sock' sid fs] by (auto simp: settled_def)
  have "served contents owed ?w sock' sid fs" if s: "settled ?w sock' sid fs" for sock' sid fs
  proof (rule served_step [of contents owed w sock' sid fs, where new = "[]"])
    show "served contents owed w sock' sid fs" using old [OF s] inv by (simp add: delivery_inv_def)
    show "m \<in> queued w sock' \<Longrightarrow> m \<in> queued ?w sock' \<or> (sock', m) \<in> set []" for m
      using old [OF s] by (simp add: queued_def)
    show "pending w e \<Longrightarrow> pending ?w e \<or> e \<in> set (orphaned ?w) \<or> (sock', event_msg sid e) \<in> set []
        \<or> sock' \<in> set (gone (hub ?w))" for e
      using w'(2) unfolding pending_def by (auto, metis option.distinct(1))
  qed (use hub in \<open>simp_all add: stored_def\<close>)
  moreover have "task_ok ?w sock' t" if "tasks ?w sock' = Some t" for sock' t
    using that inv
    by (cases "sock' = sock") (auto simp: delivery_inv_def task_ok_def live_def subs_of_def connect_def)
  ultimately show ?thesis using inv hub(3) unfolding w' by (simp add: delivery_inv_def)
next
  case (hang_up sock)
  have "served contents owed w' sock' sid fs" if "settled w' sock' sid fs" for sock' sid fs
  proof (rule served_step [of contents owed w sock' sid fs, where new = "[]"])
    show "served contents owed w sock' sid fs"
      using that inv hang_up by (simp add: delivery_inv_def settled_def)
  qed (use hang_up in \<open>auto simp: stored_def queued_def pending_def\<close>)
  then show ?thesis using inv hang_up by (simp add: delivery_inv_def task_ok_def)
next
  case (receive sock env m t r)
  then show ?thesis using receive_inv [OF inv] by simp
next
  case (receive_raises sock env m x r)
  note l = local_start [of sock env m]
  show ?thesis unfolding receive_raises(1)
    by (rule end_task_inv [OF inv receive_raises(2)])
      (use local_extends [OF l receive_raises(4)] local_backend [OF l receive_raises(4)]
        local_live [OF l receive_raises(4)] in auto)
next
  case (run sock t env t' r)
  show ?thesis unfolding run(1) by (rule resume_inv [OF E run(3) inv run(2,4)])
next
  case (run_raises sock t env x r)
  have "local_task t"
    using run_raises(4)
    by (cases t)
      (auto simp: local_task_def abind_def broadcast_outcome query_call_def save_call_outcome
        split: sum.splits prod.splits)
  note l = local_resume [OF this, of sock env]
  show ?thesis unfolding run_raises(1)
    by (rule end_task_inv [OF inv run_raises(2)])
      (use local_extends [OF l run_raises(4)] local_backend [OF l run_raises(4)]
        local_live [OF l run_raises(4)] in auto)
next
  case (cancel sock t)
  show ?thesis unfolding cancel(1) by (rule end_task_inv [OF inv cancel(2)]) simp_all
qed

lemma first_world_inv: "sound s \<Longrightarrow> delivery_inv contents owed sound (first_world s)"
  by (simp add: delivery_inv_def first_world_def settled_def live_def subs_of_def)

theorem reachable_delivery:
  assumes "served_by accepts pages E" "sound s" "(wstep E)\<^sup>*\<^sup>* (first_world s) w"
  shows "delivery_inv contents owed sound w"
  using assms(3)
  by (induction rule: rtranclp_induct) (auto intro: first_world_inv assms wstep_inv)

end

end
