(* ===== verification/Event_Spec.thy ===== *)
theory Event_Spec
  imports Events
begin

text \<open>
  What \<open>validate_event\<close> guarantees: which objects it accepts, that an accepted id commits to
  the event, that the dictionary form of an accepted event is accepted again, and the
  exceptions it can raise.
\<close>

section \<open>A sample event\<close>

definition sample_event :: stored_event where
  "sample_event = mk_event (replicate 64 97) 1000 1 [[lit ''t'', lit ''x'']] (lit ''hi'') (replicate 128 98)"

lemma sample_wf [simp]: "wf_event sample_event"
  unfolding sample_event_def by (rule wf_mk_event) (simp_all add: encodable_def lit_def scalar_def)

text \<open>The same event with another signature: the id is the same.\<close>

definition resigned_event :: stored_event where
  "resigned_event = mk_event (replicate 64 97) 1000 1 [[lit ''t'', lit ''x'']] (lit ''hi'') (replicate 128 99)"

lemma resigned_wf [simp]: "wf_event resigned_event"
  unfolding resigned_event_def by (rule wf_mk_event) (simp_all add: encodable_def lit_def scalar_def)

lemma resigned_id [simp]: "ev_id resigned_event = ev_id sample_event"
  by (simp add: resigned_event_def sample_event_def mk_event_def Let_def event_digest_def
      event_payload_def)

lemma sample_simps [simp]:
  "ev_created_at sample_event = NInt 1000" "ev_kind sample_event = NInt 1"
  "ev_tags sample_event = [[lit ''t'', lit ''x'']]" "ev_content sample_event = lit ''hi''"
  "ev_pubkey sample_event = replicate 64 97"
  by (simp_all add: sample_event_def)

lemma hex_bytes: "hex_string n s \<Longrightarrow> even n \<Longrightarrow> \<exists>bs. bytes_fromhex s = Inr bs"
  using fromhex_of_hex [of s] by (auto simp: hex_string_def)

lemma wf_event_hex_bytes:
  assumes "wf_event e"
  obtains i p s where "bytes_fromhex (ev_id e) = Inr i" "bytes_fromhex (ev_pubkey e) = Inr p"
    "bytes_fromhex (ev_sig e) = Inr s"
  using assms hex_bytes [of 64 "ev_id e"] hex_bytes [of 64 "ev_pubkey e"] hex_bytes [of 128 "ev_sig e"]
  unfolding wf_event_def by auto

text \<open>On a well-formed event in time only the signature is left to check.\<close>

lemma validate_to_dict:
  assumes "wf_event e" "num_val (ev_created_at e) \<le> now + 900"
  shows "validate_event c verify now (VDict (to_dict e)) =
    rbind (if verify then verify_event_signature c (to_dict e) else Inr ()) (\<lambda>_. Inr e)"
proof -
  have "event_id (to_dict e) = Inr (ev_id e)"
    using assms(1) by (simp add: event_id_to_dict wf_event_def)
  then show ?thesis
    using assms
    by (auto simp: validate_event.simps(1) holds_event_keys [OF holds_event_to_dict]
        holds_event_dget [OF holds_event_to_dict] is_hex_iff wf_event_def valid_tags_iff)
qed

text \<open>A crypto library that accepts every key and no signature, and one that accepts all.\<close>

definition lax_crypto :: crypto where
  "lax_crypto = \<lparr>coincurve = True, xonly_ok = (\<lambda>_. True), schnorr_ok = (\<lambda>_ _ _. True)\<rparr>"

definition no_point_crypto :: crypto where
  "no_point_crypto = \<lparr>coincurve = True, xonly_ok = (\<lambda>_. False), schnorr_ok = (\<lambda>_ _ _. False)\<rparr>"

section \<open>Acceptance\<close>

text \<open>C12: \<open>validate_event\<close> accepts exactly the objects that hold the seven fields of a
  well-formed event (64 and 128 lowercase hex digits, encodable text, the id is the digest of the
  canonical serialisation) whose time is at most 900 seconds ahead and, when signatures are
  checked, whose signature verifies; and it returns that event.\<close>

theorem accepted_events:
  "(validate_event c verify now v = Inr e) =
     ((\<exists>d. v = VDict d \<and> holds_event d e) \<and> wf_event e
      \<and> num_val (ev_created_at e) \<le> now + 900
      \<and> (if verify then verify_event_signature c (to_dict e) = Inr () else True))"
  by (simp add: validate_event_iff)

section \<open>Commitment\<close>

text \<open>C13: two accepted events with the same id agree on author, time, kind, tags and content,
  unless their canonical byte strings are a SHA-256 collision.\<close>

theorem id_commits_to_event:
  assumes "validate_event c1 b1 t1 v1 = Inr e1" "validate_event c2 b2 t2 v2 = Inr e2"
    and "event_printable e1" "event_printable e2" "ev_id e1 = ev_id e2"
  shows "ev_pubkey e1 = ev_pubkey e2 \<and> ev_created_at e1 = ev_created_at e2
      \<and> ev_kind e1 = ev_kind e2 \<and> ev_tags e1 = ev_tags e2 \<and> ev_content e1 = ev_content e2
    \<or> payload_bytes e1 \<noteq> payload_bytes e2 \<and> sha256 (payload_bytes e1) = sha256 (payload_bytes e2)"
proof (cases "payload_bytes e1 = payload_bytes e2")
  case True
  have enc: "event_encodable e1" "event_encodable e2"
    using assms(1,2) by (simp_all add: validate_event_iff wf_event_def)
  from event_payload_inject [OF enc assms(3,4) payload_bytes_inject [OF enc True]] show ?thesis
    by blast
next
  case False
  then show ?thesis
    using event_id_commits_helper [OF _ _ assms(5)] assms(1,2) by (simp add: validate_event_iff)
qed

theorem id_commits_witness:
  "validate_event lax_crypto False 2000 (VDict (to_dict sample_event)) = Inr sample_event
   \<and> validate_event lax_crypto False 2000 (VDict (to_dict resigned_event)) = Inr resigned_event
   \<and> ev_sig sample_event \<noteq> ev_sig resigned_event
   \<and> (ev_tags sample_event = ev_tags resigned_event
      \<or> sha256 (payload_bytes sample_event) = sha256 (payload_bytes resigned_event))"
proof -
  have v: "validate_event lax_crypto False 2000 (VDict (to_dict sample_event)) = Inr sample_event"
    "validate_event lax_crypto False 2000 (VDict (to_dict resigned_event)) = Inr resigned_event"
    by (simp_all add: validate_event_iff resigned_event_def [THEN arg_cong, of ev_created_at])
  have p: "event_printable sample_event" "event_printable resigned_event"
    using int_printable_64
    by (simp_all add: event_printable_def num_printable_def resigned_event_def)
  have "ev_sig sample_event \<noteq> ev_sig resigned_event"
    by (simp add: sample_event_def resigned_event_def)
  with id_commits_to_event [OF v p] v show ?thesis by auto
qed

section \<open>Checking again\<close>

text \<open>The dictionary form of an accepted event is accepted again, with the same result, at
  any later time and under the same signature setting: a stored event can be verified
  independently.\<close>

theorem accepted_again:
  assumes "validate_event c verify now v = Inr e" "now \<le> later"
  shows "validate_event c verify later (VDict (to_dict e)) = Inr e"
  using assms by (auto simp: validate_event_iff)

theorem accepted_again_witness:
  "validate_event lax_crypto True 3000 (VDict (to_dict sample_event)) = Inr sample_event"
proof -
  have "verify_event_signature lax_crypto (to_dict sample_event) = Inr ()"
    by (rule wf_event_hex_bytes [OF sample_wf])
      (simp add: verify_event_signature_def lax_crypto_def holds_event_dget [OF holds_event_to_dict])
  then have "validate_event lax_crypto True 2000 (VDict (to_dict sample_event)) = Inr sample_event"
    by (simp add: validate_event_iff)
  then show ?thesis by (rule accepted_again) simp
qed

section \<open>Exceptions\<close>

lemma payload_fields_total: "missing_fields d = [] \<Longrightarrow> \<exists>vs. payload_fields d = Inr vs"
  by (simp add: missing_fields_Nil required_fields_def payload_fields_def need_has_key)

lemma event_id_error:
  "missing_fields d = [] \<Longrightarrow> event_id d = Inl x \<Longrightarrow> x = UnicodeEncodeError"
  using payload_fields_total [of d]
  by (auto simp: event_id_def canonical_event_payload_def utf8_encode_def split: if_splits)

text \<open>Besides \<open>EventValidationError\<close>, which the relay answers, \<open>validate_event\<close> lets two
  exceptions escape: \<open>UnicodeEncodeError\<close> when a text of the event holds a lone surrogate, and
  coincurve's \<open>ValueError\<close> when signatures are checked and the public key is no point of the
  curve.\<close>

theorem validation_exceptions:
  assumes "validate_event c verify now v = Inl x"
  shows "(\<exists>m. x = EventValidationError m)
    \<or> (\<exists>d. v = VDict d \<and> event_id d = Inl UnicodeEncodeError \<and> x = UnicodeEncodeError)
    \<or> (\<exists>d key. v = VDict d \<and> verify \<and> bytes_fromhex (the_str (dget d ''pubkey'')) = Inr key
         \<and> \<not> xonly_ok c key \<and> x = ValueError (lit ''The public key could not be parsed or is invalid.''))"
proof (cases v)
  case (VDict d)
  show ?thesis
  proof (rule ccontr)
    assume none: "\<not> ?thesis"
    note bad = assms [unfolded VDict validate_event.simps(1)]
    have ok: "missing_fields d = []" "is_hex (dget d ''id'') 64" "is_hex (dget d ''pubkey'') 64"
      "is_hex (dget d ''sig'') 128" "is_num (dget d ''created_at'')" "is_num (dget d ''kind'')"
      "is_str (dget d ''content'')" "valid_tags (dget d ''tags'')"
      using bad none by (auto split: if_splits)
    have id: "\<exists>i. event_id d = Inr i"
      using bad none event_id_error [OF ok(1)] VDict
      by (cases "event_id d") (auto split: if_splits)
    obtain i p s where hex: "bytes_fromhex (the_str (dget d ''id'')) = Inr i"
      "bytes_fromhex (the_str (dget d ''pubkey'')) = Inr p"
      "bytes_fromhex (the_str (dget d ''sig'')) = Inr s"
      using ok(2,3,4) by (auto simp: is_hex_iff dest!: hex_bytes)
    have "\<exists>e. from_dict d = Inr e"
      using ok by (auto simp: from_dict_def need_has_key missing_fields_Nil required_fields_def
          is_hex_iff is_num_iff is_str_iff valid_tags_iff need_tags_def)
    with bad none ok id hex show False
      by (auto simp: rbind_eq_Inl verify_event_signature_def VDict split: if_splits)
  qed
qed (use assms in auto)

theorem validation_exceptions_witness:
  "validate_event no_point_crypto True 2000 (VDict (to_dict sample_event))
     = Inl (ValueError (lit ''The public key could not be parsed or is invalid.''))
   \<and> (\<exists>key. bytes_fromhex (ev_pubkey sample_event) = Inr key \<and> \<not> xonly_ok no_point_crypto key)"
proof -
  have "verify_event_signature no_point_crypto (to_dict sample_event)
      = Inl (ValueError (lit ''The public key could not be parsed or is invalid.''))"
    by (rule wf_event_hex_bytes [OF sample_wf])
      (simp add: verify_event_signature_def no_point_crypto_def holds_event_dget [OF holds_event_to_dict])
  then have v: "validate_event no_point_crypto True 2000 (VDict (to_dict sample_event))
      = Inl (ValueError (lit ''The public key could not be parsed or is invalid.''))"
    by (simp add: validate_to_dict)
  from validation_exceptions [OF this] v show ?thesis
    by (auto simp: holds_event_dget [OF holds_event_to_dict])
qed

end
