(* ===== verification/Relay_Spec.thy ===== *)
theory Relay_Spec
  imports Relay_Delivery Event_Spec
begin

text \<open>
  What the handlers of the relay do on each of their branches, what a connection leaves
  behind, and the agreement of the handlers with the steps of \<open>Relay_Steps\<close>.
\<close>

section \<open>The handlers as runs of their steps\<close>

lemma finish_Reading [simp]: "finish env sock n Reading = areturn ()"
  by (cases n) simp_all

lemma abind_return: "abind m areturn = m"
  by (auto simp: abind_def areturn_def fun_eq_iff split: prod.splits sum.splits)

lemma abind_return_unit: "abind m (\<lambda>_. areturn ()) = m"
  using abind_return [of m] by (simp add: unit_eq)

lemma abind_pair_unit [simp]: "abind m (\<lambda>_. Pair (Inr ())) = m"
  using abind_return_unit [of m] by (simp add: areturn_def)

lemma finish_replying: "length ms < n \<Longrightarrow> finish env sock n (Replying ms) = aloop (send_json sock) ms"
proof (induction ms arbitrary: n)
  case Nil
  then show ?case by (cases n) simp_all
next
  case (Cons m ms)
  then obtain k where n: "n = Suc k" "length ms < k" by (cases n) auto
  then show ?case using Cons.IH [of k] by (simp add: abind_assoc)
qed

lemma finish_storing:
  "4 \<le> n \<Longrightarrow> finish env sock n (Storing e) =
     abind (save_call env e) (\<lambda>outcome.
     abind (event_saved sock e outcome) (\<lambda>inserted.
       if inserted then abind (event_ack sock e) (\<lambda>_. broadcast e) else areturn ()))"
proof -
  assume "4 \<le> n"
  then obtain k where n: "n = Suc (Suc (Suc (Suc k)))" by (auto simp: le_iff_add numeral_eq_Suc)
  have "(\<lambda>new. finish env sock (Suc (Suc k)) (if new then Acking e else Reading))
      = (\<lambda>inserted. if inserted then abind (event_ack sock e) (\<lambda>_. broadcast e) else areturn ())"
    by (auto simp: fun_eq_iff abind_assoc abind_return_unit)
  then show ?thesis unfolding n by (simp add: abind_assoc)
qed

lemma finish_querying:
  assumes "re_query env fs (backend r) = Inr es" "length es + 4 \<le> n"
  shows "finish env sock n (Querying sid fs) r =
    abind (query_call env fs) (\<lambda>outcome. abind (req_answer sock sid outcome) (aloop (send_json sock))) r"
proof -
  obtain k where n: "n = Suc (Suc k)" "length es + 2 \<le> k"
    using assms(2) by (auto simp: le_iff_add numeral_eq_Suc)
  show ?thesis
    unfolding n(1) using n(2)
    by (simp add: abind_assoc query_call_def abind_def [of "query_call env fs"] assms(1)
        req_answer_def finish_replying)
qed

lemma finish_querying_failed:
  assumes "re_query env fs (backend r) = Inl x" "4 \<le> n"
  shows "finish env sock n (Querying sid fs) r =
    abind (query_call env fs) (\<lambda>outcome. abind (req_answer sock sid outcome) (aloop (send_json sock))) r"
proof -
  obtain k where n: "n = Suc (Suc (Suc k))"
    using assms(2) by (auto simp: le_iff_add numeral_eq_Suc)
  have "abind (req_answer sock sid (Inl x)) (\<lambda>ms. finish env sock (Suc k) (Replying ms))
      = abind (req_answer sock sid (Inl x)) (aloop (send_json sock))"
    by (cases x) (simp_all add: req_answer_def abind_assoc)
  then show ?thesis
    unfolding n
    by (simp add: abind_assoc query_call_def abind_def [of "query_call env fs"] assms(1))
qed

text \<open>
  Enough steps of the task started by a message are the handler. The bound counts the
  messages of the answer.
\<close>

lemma handle_message_finish:
  "\<exists>k. \<forall>n \<ge> k. abind (start env sock m) (finish env sock n) r = handle_message env sock m r"
  using message_cases [where env = env and sock = sock and m = m]
proof cases
  case (event p)
  have "abind (start env sock m) (finish env sock n) r = handle_message env sock m r" if "4 \<le> n" for n
    unfolding event handle_event_def abind_assoc
    by (rule arg_cong [where f = "\<lambda>k. abind _ k r"])
      (auto simp: fun_eq_iff finish_storing [OF that] split: option.splits)
  then show ?thesis by blast
next
  case (req p)
  obtain b r1 where b: "req_begin sock (vlit ''REQ'' # p) r = (b, r1)"
    by (cases "req_begin sock (vlit ''REQ'' # p) r")
  show ?thesis
  proof (cases "\<exists>sid fs. b = Inr (Some (sid, fs))")
    case True
    then obtain sid fs where b': "b = Inr (Some (sid, fs))" by blast
    let ?k = "case re_query env fs (backend r1) of Inl _ \<Rightarrow> 4 | Inr es \<Rightarrow> length es + 4"
    have "abind (start env sock m) (finish env sock n) r = handle_message env sock m r"
      if "?k \<le> n" for n
      using that finish_querying [of env fs r1 _ n sock sid] finish_querying_failed [of env fs r1 _ n sock sid]
      by (auto simp: req handle_req_def abind_assoc b b' split: sum.splits)
    then show ?thesis by blast
  next
    case False
    then show ?thesis
      by (cases b) (auto simp: req handle_req_def abind_assoc b split: option.splits)
  qed
qed (auto simp: abind_assoc abind_return_unit)

section \<open>The branches of a publication\<close>

definition delivered :: "stored_event \<Rightarrow> 's relay \<Rightarrow> (nat \<times> pyval) list" where
  "delivered e r = [(k, m) \<leftarrow> broadcast_sends e (connections r). k \<notin> set (gone r) \<and> sendable m]"

lemma delivered_frame [simp]:
  "delivered e (r\<lparr>sent := x\<rparr>) = delivered e r" "delivered e (r\<lparr>backend := s\<rparr>) = delivered e r"
  by (simp_all add: delivered_def)

lemma delivered_iff:
  assumes "wf_event e"
  shows "(k, m) \<in> set (delivered e r) \<longleftrightarrow> k \<notin> set (gone r) \<and>
    (\<exists>subs sid fs. (k, subs) \<in> set (connections r) \<and> (sid, fs) \<in> set subs
       \<and> matches_any_filter e fs \<and> encodable sid \<and> m = event_msg sid e)"
  using assms by (auto simp: delivered_def broadcast_sends_def split: if_splits; blast)

definition say :: "nat \<Rightarrow> pyval \<Rightarrow> 's relay \<Rightarrow> 's relay" where
  "say sock m r = r\<lparr>sent := sent r @ [(sock, m)]\<rparr>"

lemma send_alive:
  "sock \<notin> set (gone r) \<Longrightarrow>
    send_json sock m r = (if sendable m then (Inr (), say sock m r) else (Inl UnicodeEncodeError, r))"
  by (simp add: send_json_def say_def)

lemma send_gone: "sock \<in> set (gone r) \<Longrightarrow> send_json sock m r = (Inl WebSocketDisconnect, r)"
  by (simp add: send_json_def)

lemma say_sel [simp]:
  "gone (say sock m r) = gone r" "backend (say sock m r) = backend r"
  "connections (say sock m r) = connections r" "sent (say sock m r) = sent r @ [(sock, m)]"
  by (simp_all add: say_def)

lemma handle_event_shape:
  assumes "length p \<noteq> 2" "sock \<notin> set (gone r)"
  shows "handle_event env sock p r = (Inr (), say sock (notice (lit ''EVENT expects one event object'')) r)"
  using assms by (simp add: handle_event_def event_begin_def send_alive)

text \<open>The id that an answer names, and the reasons for refusing, which are fixed texts.\<close>

definition echoed_id :: "pyval \<Rightarrow> pyval" where
  "echoed_id v = (case v of VDict d \<Rightarrow> dget d ''id'' | _ \<Rightarrow> VStr [])"

lemma invalid_reason:
  assumes "validate_event c verify now v = Inl (EventValidationError m)"
  shows "encodable m"
proof (cases v)
  case (VDict d)
  show ?thesis
  proof (rule ccontr)
    assume none: "\<not> encodable m"
    note bad = assms [unfolded VDict validate_event.simps(1)]
    have texts: "list_all encodable (map lit ks)" for ks by (induction ks) simp_all
    have ok: "missing_fields d = []" "is_hex (dget d ''id'') 64" "is_hex (dget d ''pubkey'') 64"
      "is_hex (dget d ''sig'') 128" "is_num (dget d ''created_at'')" "is_num (dget d ''kind'')"
      "is_str (dget d ''content'')" "valid_tags (dget d ''tags'')"
      using bad none texts by (auto split: if_splits)
    have id: "\<exists>i. event_id d = Inr i"
      using bad none event_id_error [OF ok(1)] ok by (cases "event_id d") (auto split: if_splits)
    obtain i p s where hex: "bytes_fromhex (the_str (dget d ''id'')) = Inr i"
      "bytes_fromhex (the_str (dget d ''pubkey'')) = Inr p"
      "bytes_fromhex (the_str (dget d ''sig'')) = Inr s"
      using ok(2,3,4) by (auto simp: is_hex_iff dest!: hex_bytes)
    have "\<exists>e. from_dict d = Inr e"
      using ok by (auto simp: from_dict_def need_has_key missing_fields_Nil required_fields_def
          is_hex_iff is_num_iff is_str_iff valid_tags_iff need_tags_def)
    with bad none ok id hex show False
      by (auto simp: rbind_eq_Inl verify_event_signature_def VDict split: if_splits)
  qed
qed (use assms in auto)

lemma handle_event_invalid:
  assumes "validate_event (re_crypto env) (re_verify env) (re_now env) v = Inl (EventValidationError m)"
    and "sock \<notin> set (gone r)"
  shows "handle_event env sock [c, v] r =
    (if sendable (echoed_id v)
     then (Inr (), say sock (ok_msg (echoed_id v) False (lit ''invalid: '' @ m)) r)
     else (Inl UnicodeEncodeError, r))"
  using assms invalid_reason [OF assms(1)]
  by (simp add: handle_event_def event_begin_def send_alive Let_def echoed_id_def)

lemma validated_encodable: "validate_event c verify now v = Inr e \<Longrightarrow> encodable (ev_id e)"
  using hex_string_encodable by (auto simp: validate_event_iff wf_event_def)

lemma handle_event_valid:
  assumes "validate_event (re_crypto env) (re_verify env) (re_now env) v = Inr e"
    and "sock \<notin> set (gone r)"
  shows "handle_event env sock [c, v] r =
    (case publish_op env e (backend r) of
       (Inl x, s) \<Rightarrow>
         if caught_storage_error x
         then (Inr (), say sock (ok_msg (VStr (ev_id e)) False
                 (lit ''error: storage could not confirm publication'')) (r\<lparr>backend := s\<rparr>))
         else (Inl x, r\<lparr>backend := s\<rparr>)
     | (Inr False, s) \<Rightarrow>
         (Inr (), say sock (ok_msg (VStr (ev_id e)) True (lit ''duplicate: already have event''))
            (r\<lparr>backend := s\<rparr>))
     | (Inr True, s) \<Rightarrow>
         (Inr (), r\<lparr>backend := s,
            sent := sent r @ (sock, ok_msg (VStr (ev_id e)) True []) # delivered e r\<rparr>))"
  using assms validated_encodable [OF assms(1)]
  by (auto simp: handle_event_def event_begin_def Let_def abind_def save_call_outcome event_saved_def
      event_ack_def send_alive broadcast_outcome delivered_def say_def
      simp del: caught_storage_error_simps split: sum.splits prod.splits bool.splits)

text \<open>The publisher's socket closed after the event was stored: nobody is told.\<close>

lemma handle_event_lost:
  assumes "validate_event (re_crypto env) (re_verify env) (re_now env) v = Inr e"
    and "publish_op env e (backend r) = (Inr True, s)" "sock \<in> set (gone r)"
  shows "handle_event env sock [c, v] r = (Inl WebSocketDisconnect, r\<lparr>backend := s\<rparr>)"
  using assms
  by (auto simp: handle_event_def event_begin_def Let_def abind_def save_call_outcome event_saved_def
      event_ack_def send_gone)

section \<open>A subscription request\<close>

lemma dict_set_twice [simp]: "dict_set k v (dict_set k u d) = dict_set k v d"
  by (induction d) auto

lemma dict_pop_set [simp]: "dict_pop k (dict_set k v d) = dict_pop k d"
  by (induction d) (auto simp: dict_pop_def)

lemma dict_pop_twice [simp]: "dict_pop k (dict_pop k d) = dict_pop k d"
  by (simp add: dict_pop_def)

lemma aloop_send:
  "sock \<notin> set (gone r) \<Longrightarrow> list_all sendable ms \<Longrightarrow>
    aloop (send_json sock) ms r = (Inr (), r\<lparr>sent := sent r @ map (Pair sock) ms\<rparr>)"
proof (induction ms arbitrary: r)
  case (Cons m ms)
  then show ?case by (simp add: send_alive abind_def say_def)
qed simp

text \<open>The relay with other subscriptions for a connection.\<close>

definition with_subs :: "nat \<Rightarrow> subscriptions \<Rightarrow> 's relay \<Rightarrow> 's relay" where
  "with_subs sock subs r = r\<lparr>connections := dict_set sock subs (connections r)\<rparr>"

lemma with_subs_sel [simp]:
  "gone (with_subs sock subs r) = gone r" "backend (with_subs sock subs r) = backend r"
  "sent (with_subs sock subs r) = sent r"
  "connections (with_subs sock subs r) = dict_set sock subs (connections r)"
  "with_subs sock subs (with_subs sock subs' r) = with_subs sock subs r"
  by (simp_all add: with_subs_def)

lemma on_subscriptions_found:
  "map_of (connections r) sock = Some subs \<Longrightarrow>
    on_subscriptions sock f r = (Inr (), with_subs sock (f subs) r)"
  by (simp add: on_subscriptions_def with_subs_def)

text \<open>One message to a connected client, or the exception its text raises.\<close>

definition tell :: "nat \<Rightarrow> pyval \<Rightarrow> 's relay \<Rightarrow> unit res \<times> 's relay" where
  "tell sock m r = (if sendable m then (Inr (), say sock m r) else (Inl UnicodeEncodeError, r))"

lemma send_tell: "sock \<notin> set (gone r) \<Longrightarrow> send_json sock m r = tell sock m r"
  by (simp add: send_alive tell_def)

lemma handle_req_shape:
  assumes "sock \<notin> set (gone r)" "\<nexists>c sid f fs. p = c # VStr sid # f # fs"
  shows "handle_req env sock p r =
    (Inr (), say sock (notice (lit ''REQ expects a subscription id and filters'')) r)"
proof -
  have "req_begin sock p r = abind (send_json sock (notice
      (lit ''REQ expects a subscription id and filters''))) (\<lambda>_. areturn None) r"
    using assms(2) unfolding req_begin_def by (auto split: list.splits pyval.splits)
  then have "req_begin sock p r =
      (Inr None, say sock (notice (lit ''REQ expects a subscription id and filters'')) r)"
    using assms(1) by (simp add: send_alive)
  then show ?thesis by (simp add: handle_req_def)
qed

lemma handle_req_rejected:
  assumes "normalize_filters (f # fs) = Inl (FilterValidationError m)"
    and "sock \<notin> set (gone r)" "map_of (connections r) sock = Some subs"
  shows "handle_req env sock (c # VStr sid # f # fs) r =
    tell sock (closed_msg sid (lit ''invalid: '' @ m)) (with_subs sock (dict_pop sid subs) r)"
  using assms
  by (simp add: handle_req_def req_begin_def abind_def on_subscriptions_found send_tell
      split: prod.splits sum.splits)

lemma handle_req_query:
  assumes "normalize_filters (f # fs) = Inr filters" "map_of (connections r) sock = Some subs"
  shows "handle_req env sock (c # VStr sid # f # fs) r =
    abind (req_answer sock sid (re_query env filters (backend r))) (aloop (send_json sock))
      (with_subs sock (dict_set sid filters (dict_pop sid subs)) r)"
  using assms
  by (simp add: handle_req_def req_begin_def abind_def on_subscriptions_found query_call_def)

lemma handle_req_page:
  assumes "normalize_filters (f # fs) = Inr filters" "re_query env filters (backend r) = Inr es"
    and "sock \<notin> set (gone r)" "map_of (connections r) sock = Some subs" "list_all wf_event es"
  shows "handle_req env sock (c # VStr sid # f # fs) r =
    (let r' = with_subs sock (dict_set sid filters (dict_pop sid subs)) r
     in if encodable sid
        then (Inr (), r'\<lparr>sent := sent r @ map (\<lambda>e. (sock, event_msg sid e)) es @ [(sock, eose_msg sid)]\<rparr>)
        else (Inl UnicodeEncodeError, r'))"
proof (cases "encodable sid")
  case True
  with assms(5) have "list_all sendable (map (event_msg sid) es @ [eose_msg sid])"
    by (auto simp: list_all_iff)
  with True assms show ?thesis
    by (simp add: handle_req_query req_answer_def aloop_send comp_def Let_def)
next
  case False
  with assms show ?thesis
    by (cases es) (simp_all add: handle_req_query req_answer_def abind_def send_alive Let_def)
qed

lemma handle_req_failed:
  assumes "normalize_filters (f # fs) = Inr filters" "re_query env filters (backend r) = Inl (StorageError m)"
    and "sock \<notin> set (gone r)" "map_of (connections r) sock = Some subs"
  shows "handle_req env sock (c # VStr sid # f # fs) r =
    tell sock (closed_msg sid (lit ''error: storage query failed'')) (with_subs sock (dict_pop sid subs) r)"
  using assms
  by (simp add: handle_req_query req_answer_def abind_def on_subscriptions_found send_tell
      split: prod.splits sum.splits)

lemma handle_req_raises:
  assumes "normalize_filters (f # fs) = Inr filters" "re_query env filters (backend r) = Inl x"
    and "\<forall>m. x \<noteq> StorageError m" "map_of (connections r) sock = Some subs"
  shows "handle_req env sock (c # VStr sid # f # fs) r =
    (Inl x, with_subs sock (dict_set sid filters (dict_pop sid subs)) r)"
  using assms by (cases x) (simp_all add: handle_req_query req_answer_def)

section \<open>A connection leaves nothing behind\<close>

definition others_alike :: "nat \<Rightarrow> 's relay \<Rightarrow> 's relay \<Rightarrow> bool" where
  "others_alike sock r r' = (\<forall>k. k \<noteq> sock \<longrightarrow> map_of (connections r') k = map_of (connections r) k)"

interpretation others: step_contract "others_alike sock" for sock
  by unfold_locales (auto simp: others_alike_def reflp_def transp_def)

abbreviation keeps_others :: "nat \<Rightarrow> ('s relay, 'a) act \<Rightarrow> bool" where
  "keeps_others sock \<equiv> arelates (others_alike sock)"

lemmas keeps_others_def = arelates_def [of "others_alike _"] others_alike_def

lemma local_keeps: "local sock m \<Longrightarrow> keeps_others sock m"
  by (simp add: local_def keeps_others_def)

lemma keeps_save: "keeps_others sock (save_call env e)"
  by (auto simp: keeps_others_def save_call_outcome split: sum.splits prod.splits)

lemma keeps_broadcast: "keeps_others sock (broadcast e)"
  by (simp add: keeps_others_def broadcast_outcome)

lemma keeps_query: "keeps_others sock (query_call env fs)"
  by (simp add: keeps_others_def query_call_def)

lemma keeps_aloop: "(\<And>x. keeps_others sock (f x)) \<Longrightarrow> keeps_others sock (aloop f xs)"
  by (induction xs) (auto intro: others.closed)

lemmas keeps_intros = others.pure others.sequence keeps_save keeps_broadcast keeps_query keeps_aloop
  local_keeps [OF local_send]
  local_keeps [OF local_event_begin] local_keeps [OF local_event_saved]
  local_keeps [OF local_req_begin] local_keeps [OF local_req_answer]
  local_keeps [OF local_handle_close]

lemma keeps_handle_message: "keeps_others sock (handle_message env sock m)"
  using message_cases [where env = env and sock = sock and m = m]
proof cases
  case (event p)
  then show ?thesis
    by (auto simp: handle_event_def event_ack_def intro!: keeps_intros split: option.splits)
next
  case (req p)
  then show ?thesis
    by (auto simp: handle_req_def intro!: keeps_intros split: option.splits)
qed (auto intro: keeps_intros)

lemma serve_connections:
  "map_of (connections (snd (serve env sock ms r))) = (map_of (connections r))(sock := None)"
proof -
  let ?m = "abind (connect sock) (\<lambda>_. aloop (handle_message env sock) ms)"
  have conn: "keeps_others sock (connect sock)" by (simp add: keeps_others_def connect_def)
  have k: "keeps_others sock ?m" by (intro keeps_intros conn keeps_handle_message)
  obtain x r' where m: "?m r = (x, r')" by (cases "?m r")
  have "snd (serve env sock ms r) = disconnect sock r'"
    unfolding serve_def m by (cases x) (auto split: exc.splits)
  moreover have "map_of (connections r') j = map_of (connections r) j" if "j \<noteq> sock" for j
    using k m that unfolding keeps_others_def by (metis snd_conv)
  ultimately show ?thesis by (auto simp: disconnect_def fun_eq_iff)
qed

end
