(* ===== verification/Store_Properties.thy ===== *)
theory Store_Properties
  imports Filter_Spec Event_Spec
begin

text \<open>
  The properties of filters, event store, job table and storage boundary, each with an
  instance on concrete data.
\<close>

section \<open>Filters\<close>

text \<open>C36: \<open>normalize_filters\<close> keeps at most 16 filters; each holds at most 2000 values and 128
  partial prefixes per field, strings of at most 4096 characters and integers of 64 bits, and
  at most one entry per key; anything else is refused with \<open>FilterValidationError\<close>.\<close>

theorem normalized_filters_bounded:
  assumes "list_all keys_unique vs"
  shows "case normalize_filters vs of
      Inr fs \<Rightarrow> filters_bounded fs \<and> list_all unique_keys fs \<and> fs = clean_filters vs
    | Inl x \<Rightarrow> \<exists>m. x = FilterValidationError m"
proof -
  have "list_all unique_keys (clean_filters vs)"
    using assms by (induction vs rule: clean_filters.induct) (simp_all add: clean_filter_unique)
  then show ?thesis
    by (auto simp: normalize_filters_def Let_def rbind_def validate_filter_bounds_iff
        dest: validate_filter_bounds_error split: sum.splits)
qed

definition sample_filter_object :: pyval where
  "sample_filter_object =
     VDict [(lit ''kinds'', VList [VInt 1, VInt 7]), (lit ''#t'', VList [VStr (lit ''x'')]),
            (lit ''limit'', VInt 10), (lit ''search'', VStr (lit ''y''))]"

definition sample_filter :: relay_filter where
  "sample_filter = [Kinds [NInt 1, NInt 7], TagF (lit ''t'') [lit ''x''], Limit (NInt 10)]"

lemma sample_filter_clean: "clean_filters [sample_filter_object] = [sample_filter]"
  by (simp add: sample_filter_object_def sample_filter_def clean_filter_def List.map_filter_simps
      clean_entry_def startswith_iff lit_def)

lemma sample_filter_bounded: "filters_bounded [sample_filter]"
  by (simp add: filters_bounded_def filter_bounded_def sample_filter_def values_count_def
      item_bounded_def fits64_def)

theorem normalized_filters_witness:
  "normalize_filters [sample_filter_object] = Inr [sample_filter] \<and> unique_keys sample_filter"
proof -
  have u: "list_all keys_unique [sample_filter_object]" by (simp add: sample_filter_object_def)
  have n: "normalize_filters [sample_filter_object] = Inr [sample_filter]"
    using sample_filter_bounded
    by (simp add: normalize_filters_def Let_def sample_filter_clean rbind_eq_Inr
        validate_filter_bounds_iff)
  from normalized_filters_bounded [OF u] n show ?thesis by simp
qed

text \<open>An event matches a filter iff it matches every entry of it: one of the id and author
  prefixes, one of the kinds, both time bounds, and for each tag filter a tag of that name with
  one of the values.\<close>

theorem matching_is_conjunction:
  assumes "distinct (map fkey f)"
  shows "matches_filter e f = (\<forall>entry \<in> set f. entry_matches e entry)"
  using matches_filter_entries assms by (simp add: unique_keys_def)

theorem matching_witness: "matches_filter sample_event sample_filter"
proof -
  have "distinct (map fkey sample_filter)" by (simp add: sample_filter_def lit_def)
  then show ?thesis
    by (simp add: matching_is_conjunction) (simp add: sample_filter_def)
qed

text \<open>The page limit is 500 when no filter asks for one, and otherwise the largest requested
  limit brought into 1..5000.\<close>

theorem page_limit:
  "filter_limit fs =
     (if list_all (\<lambda>f. get_limit f = None) fs then 500
      else max 1 (min 5000 (Max (num_val ` {n. \<exists>f \<in> set fs. get_limit f = Some n}))))
   \<and> 1 \<le> filter_limit fs \<and> filter_limit fs \<le> 5000"
proof -
  have s: "set (List.map_filter get_limit fs) = {n. \<exists>f \<in> set fs. get_limit f = Some n}"
    by (force simp: List.map_filter_def)
  then have "List.map_filter get_limit fs = [] \<longleftrightarrow> list_all (\<lambda>f. get_limit f = None) fs"
    by (auto simp: list_all_iff set_empty [symmetric] simp del: set_empty)
  with s show ?thesis by (simp add: filter_limit_def Let_def min.commute)
qed

section \<open>The event store\<close>

lemma sample_storable [simp]: "storable sample_event"
  by (simp add: storable_def fits64_def)

lemma resigned_storable [simp]: "storable resigned_event"
  by (simp add: storable_def fits64_def resigned_event_def [THEN arg_cong, of ev_created_at]
      resigned_event_def [THEN arg_cong, of ev_kind])

text \<open>A row written by \<open>save\<close> reads back as the event it was written for, whatever its
  Unicode text, tags and numbers.\<close>

theorem row_roundtrip:
  assumes "storable e"
  shows "decode_row (row_of e) = Inr e"
  using assms by simp

theorem row_roundtrip_witness: "decode_row (row_of sample_event) = Inr sample_event"
  by (rule row_roundtrip) simp

text \<open>C4: \<open>save\<close> refines the abstract store: whatever witness job goes with it, a call that
  returns has appended the event (unless its id was there), added exactly the deletion claims
  of a kind 5 event under its own author, and answers whether the event was new; rows, ids and
  the tag index stay consistent.\<close>

theorem save_refines:
  assumes "store_inv s" "storable e" "save e job limit completed s = Inr (s', new)"
  shows "store_inv s' \<and> abs_store s' = spec_save e (abs_store s)
    \<and> new = (ev_id e \<notin> ev_id ` set (stored_events s))"
  using save_simulates [OF assms] by blast

lemma sample_saved: "\<exists>s. save sample_event None 1000 None empty_store = Inr (s, True)"
proof -
  obtain s b where s: "save sample_event None 1000 None empty_store = Inr (s, b)"
    using save_total(1) [OF store_inv_empty sample_wf, of 1000] by auto
  moreover have "stored_events empty_store = []" by (simp add: stored_events_def empty_store_def)
  ultimately show ?thesis
    using save_simulates(3) [OF store_inv_empty sample_storable s] by auto
qed

theorem save_refines_witness:
  "\<exists>s. save sample_event None 1000 None empty_store = Inr (s, True)
    \<and> sp_events (abs_store s) = [sample_event]"
proof -
  obtain s where s: "save sample_event None 1000 None empty_store = Inr (s, True)"
    using sample_saved by blast
  have "sp_events (abs_store empty_store) = []"
    by (simp add: abs_store_def stored_events_def empty_store_def)
  with save_refines [OF store_inv_empty sample_storable s] s show ?thesis
    by (auto simp: spec_save_def)
qed

text \<open>C3: \<open>query\<close> refines the abstract store: within the filter bounds and with encodable
  filter texts it returns the newest events, at most the page limit, among those that no
  deletion of their author hides and that some filter matches; the SQL clauses, the tag index
  and the per-filter limits lose nothing.\<close>

theorem query_refines:
  assumes "store_inv s"
  shows "query fs s = rbind (validate_filter_bounds fs) (\<lambda>_.
    if list_all (\<lambda>f. list_all encodable (text_params f)) fs
    then Inr (spec_query fs (abs_store s)) else Inl UnicodeEncodeError)"
  using query_simulates [OF assms, of fs]
  by (simp add: query_params_def rbind_assoc ensure_def if_distrib [where f = "\<lambda>m. rbind m _"]
      cong: if_cong)

lemma sample_visible: "spec_visible (abs_store s) e" if "deletions s = []"
  using that by (simp add: spec_visible_def abs_store_def)

definition sample_store :: store where
  "sample_store = empty_store\<lparr>events := [row_of sample_event],
     event_tags := [(ev_id sample_event, lit ''t'', lit ''x'')]\<rparr>"

lemma sample_store_represents: "represents [sample_event] sample_store"
  by (simp add: represents_def sample_store_def tag_rows_def)

lemma sample_store_inv [simp]: "store_inv sample_store"
  by (rule represents_inv [OF sample_store_represents])

lemma sample_store_events [simp]: "stored_events sample_store = [sample_event]"
  by (rule represents_stored [OF sample_store_represents])

lemma sample_store_abs: "abs_store sample_store = \<lparr>sp_events = [sample_event], sp_hidden = {}\<rparr>"
  unfolding abs_store_represents [OF sample_store_represents]
  by (simp add: hidden_by_def sample_store_def empty_store_def)

lemma sample_query: "spec_query [sample_filter] (abs_store sample_store) = [sample_event]"
proof -
  have "matches_any_filter sample_event [sample_filter]"
    by (simp add: matches_any_filter_def matches_filter_def sample_filter_def get_ids_def
        get_authors_def get_kinds_def get_since_def get_until_def tag_filters_def num_in_def
        matches_tag_def)
  moreover have "filter_limit [sample_filter] = 10"
    by (simp add: filter_limit_def List.map_filter_simps get_limit_def sample_filter_def)
  ultimately show ?thesis
    by (simp add: spec_query_def spec_visible_def sample_store_abs newest_first_def)
qed

lemma sample_filter_params:
  "validate_filter_bounds [sample_filter] = Inr ()"
  "list_all (\<lambda>f. list_all encodable (text_params f)) [sample_filter]"
  using sample_filter_bounded
  by (simp_all add: validate_filter_bounds_iff text_params_def sample_filter_def get_ids_def
      get_authors_def tag_filters_def encodable_def lit_def scalar_def)

theorem query_refines_witness: "query [sample_filter] sample_store = Inr [sample_event]"
  by (simp only: query_refines [OF sample_store_inv] sample_filter_params sample_query
      rbind_Inr if_True)

text \<open>C15: a deletion reaches only its author's events: an event that was visible before a save
  and is hidden after it has the author of the saved event, which is of kind 5 and names it in
  an \<open>e\<close> tag.\<close>

theorem deletion_authority:
  assumes "store_inv s" "storable e" "save e job limit completed s = Inr (s', new)"
    and "spec_visible (abs_store s) victim" "\<not> spec_visible (abs_store s') victim"
  shows "ev_pubkey victim = ev_pubkey e \<and> num_val (ev_kind e) = 5
    \<and> (\<exists>tag \<in> set (ev_tags e). 2 \<le> length tag \<and> tag ! 0 = lit ''e'' \<and> tag ! 1 = ev_id victim)"
  using spec_save_hides [OF assms(4), of e] assms(5) save_simulates(2) [OF assms(1-3)]
  by (auto simp: delete_targets_def)

text \<open>A deletion of two ids; as an event cannot name itself, one of them at least takes effect.\<close>

definition sample_deletion :: stored_event where
  "sample_deletion =
     mk_event (replicate 64 97) 1001 5
       [[lit ''e'', replicate 64 97], [lit ''e'', replicate 64 98]] [] (replicate 128 98)"

lemma sample_deletion_storable: "storable sample_deletion"
proof -
  have "wf_event sample_deletion"
    unfolding sample_deletion_def
    by (intro wf_mk_event) (simp_all add: encodable_def lit_def scalar_def list_all_iff)
  then show ?thesis by (simp add: storable_def fits64_def sample_deletion_def)
qed

lemma save_plain_total:
  "store_inv s \<Longrightarrow> storable e \<Longrightarrow> \<exists>s' b. save e None q None s = Inr (s', b)"
  using save_total(1) [of s e q] by (simp add: storable_def)

theorem deletion_authority_witness:
  "\<exists>s new victim. save sample_deletion None 1000 None empty_store = Inr (s, new)
    \<and> spec_visible (abs_store empty_store) victim \<and> \<not> spec_visible (abs_store s) victim
    \<and> ev_pubkey victim = replicate 64 97"
proof -
  obtain s new where s: "save sample_deletion None 1000 None empty_store = Inr (s, new)"
    using save_plain_total [OF store_inv_empty sample_deletion_storable] by blast
  define a b where "a = sample_deletion\<lparr>ev_id := replicate 64 97\<rparr>"
    and "b = sample_deletion\<lparr>ev_id := replicate 64 98\<rparr>"
  have ab: "ev_pubkey a = replicate 64 97" "ev_pubkey b = replicate 64 97"
    "ev_id a = replicate 64 97" "ev_id b = replicate 64 98"
    by (simp_all add: a_def b_def sample_deletion_def)
  have vis: "spec_visible (abs_store empty_store) v" for v
    by (simp add: sample_visible empty_store_def)
  define victim where "victim = (if ev_id sample_deletion = replicate 64 97 then b else a)"
  have "ev_id victim \<in> delete_targets sample_deletion"
    unfolding victim_def delete_targets_def mem_Collect_eq using ab(3,4)
    by (cases "ev_id sample_deletion = replicate 64 97")
      (auto simp: sample_deletion_def [THEN arg_cong, of ev_tags]
        intro: exI [of _ "[lit ''e'', replicate 64 97]"] exI [of _ "[lit ''e'', replicate 64 98]"])
  then have hid: "\<not> spec_visible (abs_store s) victim"
    using save_simulates(2) [OF store_inv_empty sample_deletion_storable s] ab
    by (simp add: spec_visible_def spec_save_def victim_def sample_deletion_def [THEN arg_cong, of ev_kind]
        sample_deletion_def [THEN arg_cong, of ev_pubkey])
  from deletion_authority [OF store_inv_empty sample_deletion_storable s vis hid]
  have "ev_pubkey victim = replicate 64 97" by (simp add: sample_deletion_def)
  with s vis hid show ?thesis by blast
qed

text \<open>C33: opening a database of a version without tag index loses nothing: the migration
  succeeds on the rows of stored events, keeps events, deletions and jobs, and builds the index
  that \<open>query\<close> needs; opening a current database changes nothing.\<close>

theorem migration_complete:
  assumes "list_all storable es" "distinct (map ev_id es)"
    and "d_events d = Some (map row_of es)" "d_tags d = None"
  shows "\<exists>s. migrate d = Inr s \<and> store_inv s \<and> stored_events s = es
    \<and> deletions s = or_empty (d_deletions d) \<and> witness_jobs s = or_empty (d_jobs d)
    \<and> migrate (disk_of s) = Inr s"
  using migrate_backfills [OF assms] represents_inv represents_stored migrate_current by blast

theorem migration_witness:
  "\<exists>s. migrate \<lparr>d_events = Some [row_of sample_event], d_jobs = None, d_deletions = None, d_tags = None\<rparr>
      = Inr s \<and> stored_events s = [sample_event]"
  using migration_complete [of "[sample_event]"
      "\<lparr>d_events = Some [row_of sample_event], d_jobs = None, d_deletions = None, d_tags = None\<rparr>"]
  by auto

section \<open>The witness jobs\<close>

text \<open>C26: over any history of saves and job updates, failing ones included: a job's digest and
  inputs never change, an issued or unavailable job stays so with the receipt it has, digests stay
  unique, and a job has a receipt exactly when it is issued.\<close>

theorem job_histories:
  assumes "jobs_ok s" "store_step\<^sup>*\<^sup>* s s'" "i < length (witness_jobs s)"
  shows "jobs_ok s' \<and> i < length (witness_jobs s')
    \<and> j_digest (witness_jobs s' ! i) = j_digest (witness_jobs s ! i)
    \<and> j_inputs (witness_jobs s' ! i) = j_inputs (witness_jobs s ! i)
    \<and> (if j_state (witness_jobs s ! i) = Pending then True
       else j_state (witness_jobs s' ! i) = j_state (witness_jobs s ! i)
         \<and> j_receipt (witness_jobs s' ! i) = j_receipt (witness_jobs s ! i))"
  using store_steps_jobs [OF assms(2)] assms(1) jobs_evolve_nth [OF _ assms(3)]
    job_steps_same job_steps_final by metis

definition sample_job :: job_row where
  "sample_job = \<lparr>j_digest = lit ''d'', j_inputs = lit ''{}'', j_state = Issued,
     j_receipt = Some (lit ''r''), j_broadcast = False\<rparr>"

theorem job_histories_witness:
  "\<exists>s. witness_update (lit ''d'') False (empty_store\<lparr>witness_jobs := [sample_job]\<rparr>) = Inr s
    \<and> j_receipt (witness_jobs s ! 0) = Some (lit ''r'')"
proof -
  let ?s0 = "empty_store\<lparr>witness_jobs := [sample_job]\<rparr>"
  have ok: "jobs_ok ?s0" by (simp add: jobs_ok_def sample_job_def job_ok_def)
  have "encodable (lit ''d'')" by (simp add: encodable_def lit_def scalar_def)
  then obtain s where s: "witness_update (lit ''d'') False ?s0 = Inr s"
    by (simp add: witness_update_def)
  then have "store_step\<^sup>*\<^sup>* ?s0 s"
    by (intro r_into_rtranclp store_step.ok [of "Update_Op (lit ''d'') False"]) simp
  from job_histories [OF ok this, of 0] s show ?thesis by (simp add: sample_job_def)
qed

text \<open>The queue is bounded: a save with queue limit \<open>q\<close> leaves at most \<open>q\<close> pending jobs,
  or as many as there were.\<close>

theorem queue_bounded:
  assumes "save e job q completed s = Inr (s', new)"
  shows "int (count_pending s') \<le> max q (int (count_pending s))"
  using save_jobs(3) [OF assms] .

definition job_object :: pydict where
  "job_object = [(lit ''signed_event_digest'', VStr (lit ''d''))]"

theorem queue_bounded_witness:
  "\<exists>s new. save sample_event (Some job_object) 0 None empty_store = Inr (s, new) \<and> count_pending s = 0"
proof -
  have d: "encodable (lit ''d'')" by (simp add: encodable_def lit_def scalar_def)
  obtain s1 where s1: "enqueue_job job_object 0 empty_store = Inr s1"
    using d by (simp add: enqueue_job_def job_object_def Let_def)
  then have rep: "represents [] s1"
    using enqueue_job_represents [OF s1, of "[]"] by (simp add: represents_def empty_store_def)
  obtain s2 new where "insert_event sample_event s1 = Inr (s2, new)"
    using insert_event_represents [OF rep sample_storable] by blast
  then have s: "save sample_event (Some job_object) 0 None empty_store = Inr (s2, new)"
    using s1 by (simp add: save_def)
  from queue_bounded [OF s] s show ?thesis by (auto simp: count_pending_def empty_store_def)
qed

text \<open>Completing a job is atomic: a save that names the digest of a pending job and returns
  has stored the receipt event, or had it, and issued the job with the JSON of that event, from
  which the event reads back.\<close>

theorem completion_atomic:
  assumes "store_inv s" "storable e" "save e None limit (Some d) s = Inr (s', new)"
    and "i < length (witness_jobs s)" "j_digest (witness_jobs s ! i) = d"
    and "j_state (witness_jobs s ! i) = Pending"
  shows "ev_id e \<in> ev_id ` set (stored_events s')
    \<and> j_state (witness_jobs s' ! i) = Issued
    \<and> (\<exists>r. j_receipt (witness_jobs s' ! i) = Some r \<and> loads r = Inr (VDict (to_dict e)))"
proof -
  have ev: "ev_id e \<in> ev_id ` set (stored_events s')"
    using save_simulates(2) [OF assms(1-3)] by (auto simp: abs_store_def spec_save_def split: if_splits)
  obtain s3 where s3: "witness_jobs s3 = witness_jobs s" "complete_job e d s3 = Inr s'"
    using save_completes [OF assms(3)] by blast
  then have "witness_jobs s' ! i = (witness_jobs s ! i)\<lparr>j_state := Issued,
      j_receipt := Some (dumps style_default (VDict (to_dict e))), j_broadcast := False\<rparr>"
    using assms(4-6) by (auto simp: complete_job_def rbind_eq_Inr simp del: dumps.simps)
  then show ?thesis
    using ev loads_dumps [OF storable_json_ok [OF assms(2)], of style_default]
    by (simp del: dumps.simps)
qed

definition pending_store :: store where
  "pending_store = empty_store\<lparr>witness_jobs := [sample_job\<lparr>j_state := Pending, j_receipt := None\<rparr>]\<rparr>"

lemma pending_store_inv [simp]: "store_inv pending_store"
  by (rule represents_inv [of "[]"]) (simp add: pending_store_def represents_def empty_store_def)

lemma complete_job_total: "encodable d \<Longrightarrow> \<exists>s'. complete_job e d s = Inr s'"
  by (simp add: complete_job_def)

lemma save_completed_total:
  assumes "store_inv s" "storable e" "encodable d"
  shows "\<exists>s' new. save e None q (Some d) s = Inr (s', new)"
proof -
  have rep: "represents (stored_events s) s" using assms(1) by (simp add: store_inv_def)
  obtain s2 where s2: "insert_event e s = Inr (s2, ev_id e \<notin> ev_id ` set (stored_events s))"
    using insert_event_represents [OF rep assms(2)] by blast
  obtain ds where ds: "record_deletions e (deletions s2) = Inr ds"
    using record_deletions_wf [OF assms(2)] by blast
  obtain s' where "complete_job e d (if num_val (ev_kind e) = 5 then s2\<lparr>deletions := ds\<rparr> else s2) = Inr s'"
    using complete_job_total [OF assms(3)] by blast
  with s2 ds have "save e None q (Some d) s = Inr (s', ev_id e \<notin> ev_id ` set (stored_events s))"
    by (cases "num_val (ev_kind e) = 5") (simp_all add: save_def)
  then show ?thesis by blast
qed

theorem completion_witness:
  "\<exists>s new r. save sample_event None 1000 (Some (lit ''d'')) pending_store = Inr (s, new)
    \<and> j_state (witness_jobs s ! 0) = Issued \<and> j_receipt (witness_jobs s ! 0) = Some r
    \<and> loads r = Inr (VDict (to_dict sample_event))"
proof -
  have d: "encodable (lit ''d'')" by (simp add: encodable_def lit_def scalar_def)
  obtain s new where s: "save sample_event None 1000 (Some (lit ''d'')) pending_store = Inr (s, new)"
    using save_completed_total [OF pending_store_inv sample_storable d] by blast
  from completion_atomic [OF pending_store_inv sample_storable s, of 0] s show ?thesis
    by (auto simp: pending_store_def sample_job_def)
qed

section \<open>The storage boundary\<close>

text \<open>C38: what was accepted and stored is found: after a first save of an event, a query with a
  filter it matches returns it, unless a deletion by its author hides it or the page is full.\<close>

theorem published_is_found:
  assumes "store_inv s" "wf_event e" "storage_save fault e s = Inr (s', True)"
    and "storage_query fault' fs s' = Inr es" "matches_any_filter e fs" "spec_visible (abs_store s') e"
    and "int (length es) < filter_limit fs"
  shows "e \<in> set es"
  using sqlite.put_then_get [OF assms(1) _ assms(3-7)] assms(2) by (simp add: publishable_def)

theorem published_is_found_witness:
  "\<exists>s es. storage_save False sample_event empty_store = Inr (s, True)
    \<and> storage_query False [sample_filter] s = Inr es \<and> sample_event \<in> set es"
proof -
  obtain s where s: "save sample_event None 1000 None empty_store = Inr (s, True)"
    using sample_saved by blast
  then have put: "storage_save False sample_event empty_store = Inr (s, True)"
    by (simp add: storage_save_def)
  have abs: "store_inv s" "abs_store s = abs_store sample_store"
    using save_simulates [OF store_inv_empty sample_storable s]
    by (simp_all add: sample_store_abs spec_save_def) (simp add: abs_store_def stored_events_def empty_store_def)
  then have get: "storage_query False [sample_filter] s = Inr [sample_event]"
    using query_simulates [OF abs(1), of "[sample_filter]"] sample_query sample_filter_params
    by (simp add: storage_query_def query_params_def)
  have m: "matches_any_filter sample_event [sample_filter]" "spec_visible (abs_store s) sample_event"
    "int (length [sample_event]) < filter_limit [sample_filter]"
    using spec_query_in [of sample_event "[sample_filter]" "abs_store s"] sample_query abs(2)
    by (auto simp: filter_limit_def List.map_filter_simps get_limit_def sample_filter_def)
  from published_is_found [OF store_inv_empty sample_wf put get m] put get show ?thesis by blast
qed

lemma storage_errors_save:
  assumes "store_inv s" "wf_event e"
  shows "case storage_save fault e s of
        Inl x \<Rightarrow> x = StorageError (lit ''SQLite save failed'') \<and> (fault \<or> \<not> storable e)
      | Inr _ \<Rightarrow> \<not> fault \<and> storable e"
  using save_total [OF assms, of 1000]
  by (cases "save e None 1000 None s")
    (auto simp: storage_save_def recast_def backend_error_def split: sum.splits)

lemma storage_errors_query:
  assumes "store_inv s" "filters_bounded fs"
  shows "case storage_query fault fs s of
        Inl x \<Rightarrow> x = (if fault then StorageError (lit ''SQLite query failed'') else UnicodeEncodeError)
          \<and> (fault \<or> \<not> list_all (\<lambda>f. list_all encodable (text_params f)) fs)
      | Inr es \<Rightarrow> \<not> fault \<and> list_all (\<lambda>f. list_all encodable (text_params f)) fs
          \<and> es = spec_query fs (abs_store s)"
proof -
  have "validate_filter_bounds fs = Inr ()"
    using assms(2) by (simp add: validate_filter_bounds_iff)
  then show ?thesis
    using query_simulates [OF assms(1), of fs]
    by (auto simp: storage_query_def recast_def backend_error_def query_params_def ensure_def)
qed

text \<open>On accepted events a failing save is always a \<open>StorageError\<close>; on bounded filters a
  failing query is a \<open>StorageError\<close> or, exactly when SQLite does not fail and a filter text holds
  a lone surrogate, a \<open>UnicodeEncodeError\<close> that nothing above catches.\<close>

theorem storage_errors:
  assumes "store_inv s" "wf_event e" "filters_bounded fs"
  shows "(case storage_save fault e s of
        Inl x \<Rightarrow> x = StorageError (lit ''SQLite save failed'') \<and> (fault \<or> \<not> storable e)
      | Inr _ \<Rightarrow> \<not> fault \<and> storable e)
    \<and> (case storage_query fault fs s of
        Inl x \<Rightarrow> x = (if fault then StorageError (lit ''SQLite query failed'') else UnicodeEncodeError)
          \<and> (fault \<or> \<not> list_all (\<lambda>f. list_all encodable (text_params f)) fs)
      | Inr es \<Rightarrow> \<not> fault \<and> list_all (\<lambda>f. list_all encodable (text_params f)) fs
          \<and> es = spec_query fs (abs_store s))"
  using storage_errors_save [OF assms(1,2)] storage_errors_query [OF assms(1,3)] by blast

definition surrogate_filter :: relay_filter where
  "surrogate_filter = [TagF (lit ''t'') [[55296]]]"

theorem storage_errors_witness:
  "storage_query False [surrogate_filter] empty_store = Inl UnicodeEncodeError
   \<and> storage_query True [sample_filter] empty_store = Inl (StorageError (lit ''SQLite query failed''))"
proof -
  have b: "filters_bounded [surrogate_filter]"
    by (simp add: filters_bounded_def filter_bounded_def surrogate_filter_def values_count_def
        item_bounded_def)
  have e: "\<not> list_all (\<lambda>f. list_all encodable (text_params f)) [surrogate_filter]"
    by (simp add: text_params_def surrogate_filter_def get_ids_def get_authors_def tag_filters_def
        encodable_def scalar_def)
  from storage_errors [OF store_inv_empty sample_wf b, of False] e
    storage_errors [OF store_inv_empty sample_wf sample_filter_bounded, of True]
  show ?thesis by (simp split: sum.splits)
qed

end
