(* ===== verification/Relay_Properties.thy ===== *)
theory Relay_Properties
  imports Relay_Spec Store_Properties
begin

text \<open>
  The properties of the relay over the SQLite backend: the answer to every publication and
  subscription, clean-up, delivery under the event loop, and the messages that go unanswered.
\<close>

section \<open>The environment\<close>

definition sqlite_env :: "crypto \<Rightarrow> bool \<Rightarrow> (pystr \<Rightarrow> bool) \<Rightarrow> bool \<Rightarrow> int \<Rightarrow> store relay_env" where
  "sqlite_env c verify deep fault now =
     \<lparr>re_save = storage_save fault, re_query = storage_query fault, re_witness = None,
      re_verify = verify, re_crypto = c, re_now = now, re_too_deep = deep\<rparr>"

definition sqlite_envs :: "crypto \<Rightarrow> bool \<Rightarrow> store relay_env set" where
  "sqlite_envs c verify = {sqlite_env c verify deep fault now | deep fault now. True}"

lemma sqlite_env_sel [simp]:
  "re_save (sqlite_env c verify deep fault now) = storage_save fault"
  "re_query (sqlite_env c verify deep fault now) = storage_query fault"
  "re_witness (sqlite_env c verify deep fault now) = None"
  "re_verify (sqlite_env c verify deep fault now) = verify"
  "re_crypto (sqlite_env c verify deep fault now) = c"
  "re_now (sqlite_env c verify deep fault now) = now"
  "re_too_deep (sqlite_env c verify deep fault now) = deep"
  "publish_op (sqlite_env c verify deep fault now) = (\<lambda>e. transaction (storage_save fault e))"
  by (simp_all add: sqlite_env_def publish_op_def)

text \<open>A recursion limit that no message meets, for the examples.\<close>

abbreviation never :: "pystr \<Rightarrow> bool" where
  "never \<equiv> \<lambda>_. False"

lemma sqlite_served: "served_by (\<lambda>fault e. transaction (storage_save fault e)) storage_query (sqlite_envs c verify)"
  by (auto simp: served_by_def sqlite_envs_def)

section \<open>Publishing\<close>

definition published :: "stored_event \<Rightarrow> store relay \<Rightarrow> store relay \<Rightarrow> bool" where
  "published e r r' =
     (connections r' = connections r \<and> gone r' = gone r \<and> store_inv (backend r')
      \<and> abs_store (backend r') = spec_save e (abs_store (backend r)))"

text \<open>C11: what a connected client is told of an \<open>EVENT\<close> message, whatever follows the command.
  Not exactly one value: a \<open>NOTICE\<close>. A value that validation refuses: one \<open>OK\<close> false with the
  reason, naming the id found in the value; if that id cannot be sent, \<open>UnicodeEncodeError\<close>. An
  exception that validation lets through is raised. In these cases nothing is stored and nothing
  else sent. A valid event: exactly one \<open>OK\<close> that tells the truth, false when the backend failed,
  true and marked as a duplicate, or true after the store took the event, which is then sent once
  to each matching subscription of every connected client whose name can be sent.\<close>

theorem publication_answer:
  assumes "sock \<notin> set (gone r)" "store_inv (backend r)"
  shows "if length payload \<noteq> 2
    then handle_event (sqlite_env c verify deep fault now) sock payload r =
           (Inr (), say sock (notice (lit ''EVENT expects one event object'')) r)
    else case validate_event c verify now (payload ! 1) of
      Inl (EventValidationError m) \<Rightarrow>
        handle_event (sqlite_env c verify deep fault now) sock payload r =
          (if sendable (echoed_id (payload ! 1))
           then (Inr (), say sock (ok_msg (echoed_id (payload ! 1)) False (lit ''invalid: '' @ m)) r)
           else (Inl UnicodeEncodeError, r))
    | Inl x \<Rightarrow> handle_event (sqlite_env c verify deep fault now) sock payload r = (Inl x, r)
    | Inr e \<Rightarrow>
        (\<exists>r'. handle_event (sqlite_env c verify deep fault now) sock payload r = (Inr (), r')
          \<and> (if fault \<or> \<not> storable e
             then r' = say sock (ok_msg (VStr (ev_id e)) False
                      (lit ''error: storage could not confirm publication'')) r
             else published e r r' \<and>
               sent r' = sent r @
                 (if ev_id e \<in> ev_id ` set (stored_events (backend r))
                  then [(sock, ok_msg (VStr (ev_id e)) True (lit ''duplicate: already have event''))]
                  else (sock, ok_msg (VStr (ev_id e)) True []) # delivered e r)))"
proof (cases "length payload = 2")
  case False
  with handle_event_shape [OF this assms(1)] show ?thesis by simp
next
  case True
  then obtain cmd v where p: "payload = [cmd, v]" by (auto simp: length_Suc_conv numeral_2_eq_2)
  show ?thesis
  proof (cases "validate_event c verify now v")
    case (Inl x)
    then show ?thesis
      using handle_event_invalid [of "sqlite_env c verify deep fault now" v _ sock r cmd] assms(1)
      by (cases x) (simp_all add: p handle_event_def event_begin_def Let_def abind_def)
  next
    case (Inr e)
    then have wf: "wf_event e" by (simp add: validate_event_iff)
    note shape = handle_event_valid [of "sqlite_env c verify deep fault now" v e sock r cmd, simplified,
        OF Inr assms(1)]
    note err = storage_errors_save [OF assms(2) wf, of fault]
    show ?thesis
    proof (cases "storage_save fault e (backend r)")
      case (Inl y)
      with err shape Inr show ?thesis
        by (simp add: p caught_storage_error_def)
    next
      case (Inr y)
      obtain s' new where y: "storage_save fault e (backend r) = Inr (s', new)"
        using Inr by (cases y) auto
      note put = sqlite.put_ok [OF assms(2) _ y, unfolded publishable_def, OF wf]
      show ?thesis
        using y err shape put \<open>validate_event c verify now v = Inr e\<close>
        by (cases new) (auto simp: p published_def abs_store_def)
    qed
  qed
qed

definition sample_relay :: "store relay" where
  "sample_relay = \<lparr>connections = [(0, []), (1, [(lit ''s'', [sample_filter])])],
     backend = empty_store, sent = [], gone = []\<rparr>"

lemma sample_relay_sel [simp]:
  "gone sample_relay = []" "backend sample_relay = empty_store" "sent sample_relay = []"
  "connections sample_relay = [(0, []), (1, [(lit ''s'', [sample_filter])])]"
  by (simp_all add: sample_relay_def)

lemma sample_matches: "matches_any_filter sample_event [sample_filter]"
  using spec_query_in [of sample_event "[sample_filter]" "abs_store sample_store"] sample_query by simp

lemma sample_delivered: "delivered sample_event sample_relay = [(1, event_msg (lit ''s'') sample_event)]"
  by (simp add: delivered_def broadcast_sends_def sample_matches)

lemma sample_valid:
  "validate_event lax_crypto False 2000 (VDict (to_dict sample_event)) = Inr sample_event"
  by (simp add: validate_event_iff)

theorem publication_witness:
  "\<exists>r'. handle_event (sqlite_env lax_crypto False never False 2000) 0
      [vlit ''EVENT'', VDict (to_dict sample_event)] sample_relay = (Inr (), r')
    \<and> sent r' = [(0, ok_msg (VStr (ev_id sample_event)) True []),
                 (1, event_msg (lit ''s'') sample_event)]"
proof -
  have "0 \<notin> set (gone sample_relay)" "store_inv (backend sample_relay)"
    by (simp_all add: store_inv_empty)
  from publication_answer [OF this, where c = lax_crypto and verify = False and now = 2000
      and payload = "[vlit ''EVENT'', VDict (to_dict sample_event)]" and fault = False and deep = never]
  show ?thesis
    by (auto simp: sample_valid sample_delivered stored_events_def empty_store_def)
qed

section \<open>Subscribing\<close>

text \<open>No filter text has a lone surrogate.\<close>

definition clean_text :: "relay_filter list \<Rightarrow> bool" where
  "clean_text fs = list_all (\<lambda>f. list_all encodable (text_params f)) fs"

text \<open>C25: what a \<open>REQ\<close> of a connected client does, on every branch: what it is told, the exact
  subscriptions afterwards, and that the store and the other connections are as before. Not a
  string and at least one filter: a \<open>NOTICE\<close>. Filters out of bounds: the subscription of that name
  is dropped, \<open>CLOSED\<close> with the reason. The backend fails: the same. A lone surrogate in a filter's
  text: \<open>UnicodeEncodeError\<close>, nothing sent, and the new subscription stays registered. Otherwise
  exactly the page of the abstract store, newest first, then \<open>EOSE\<close>, and the normalised filters are
  registered under the name. If the name itself cannot be sent the first answer raises
  \<open>UnicodeEncodeError\<close> instead, with the same subscriptions.\<close>

theorem subscription_answer:
  assumes "sock \<notin> set (gone r)" "store_inv (backend r)" "map_of (connections r) sock = Some subs"
  shows "case payload of
      cmd # VStr sid # f # fs \<Rightarrow>
        (let dropped = with_subs sock (dict_pop sid subs) r in
         case normalize_filters (f # fs) of
           Inl x \<Rightarrow> (\<exists>m. x = FilterValidationError m
             \<and> handle_req (sqlite_env c verify deep fault now) sock payload r =
                 tell sock (closed_msg sid (lit ''invalid: '' @ m)) dropped)
         | Inr filters \<Rightarrow>
             let added = with_subs sock (dict_set sid filters (dict_pop sid subs)) r in
             handle_req (sqlite_env c verify deep fault now) sock payload r =
               (if fault then tell sock (closed_msg sid (lit ''error: storage query failed'')) dropped
                else if \<not> clean_text filters \<or> \<not> encodable sid
                then (Inl UnicodeEncodeError, added)
                else (Inr (), added\<lparr>sent := sent r
                   @ map (\<lambda>e. (sock, event_msg sid e)) (spec_query filters (abs_store (backend r)))
                   @ [(sock, eose_msg sid)]\<rparr>)))
    | _ \<Rightarrow> handle_req (sqlite_env c verify deep fault now) sock payload r =
           (Inr (), say sock (notice (lit ''REQ expects a subscription id and filters'')) r)"
proof (cases "\<exists>cmd sid f fs. payload = cmd # VStr sid # f # fs")
  case False
  then have "handle_req (sqlite_env c verify deep fault now) sock payload r =
      (Inr (), say sock (notice (lit ''REQ expects a subscription id and filters'')) r)"
    by (intro handle_req_shape [OF assms(1)]) simp
  with False show ?thesis by (auto split: list.splits pyval.splits)
next
  case True
  then obtain cmd sid f fs where p: "payload = cmd # VStr sid # f # fs" by blast
  show ?thesis
  proof (cases "normalize_filters (f # fs)")
    case (Inl x)
    moreover from normalize_filters_error [OF Inl] obtain m where "x = FilterValidationError m" by blast
    ultimately show ?thesis
      using handle_req_rejected [of f fs m sock r subs] assms(1,3) by (simp add: p Let_def)
  next
    case (Inr filters)
    then have b: "filters_bounded filters" unfolding normalize_filters_Inr by blast
    note q = storage_errors_query [OF assms(2) b, of fault]
    show ?thesis
    proof (cases "storage_query fault filters (backend r)")
      case (Inl y)
      then show ?thesis
        using q Inr assms handle_req_failed [OF Inr, of "sqlite_env c verify deep fault now" r
            "lit ''SQLite query failed''" sock subs cmd sid]
          handle_req_raises [OF Inr, of "sqlite_env c verify deep fault now" r UnicodeEncodeError sock subs cmd sid]
        by (auto simp: p Let_def clean_text_def split: if_splits)
    next
      case Inr': (Inr es)
      have "list_all wf_event es"
        using q Inr' sqlite.genuine [OF assms(2)]
        by (auto simp: list_all_iff publishable_def dest!: spec_query_in)
      then show ?thesis
        using q Inr' Inr assms
          handle_req_page [OF Inr, of "sqlite_env c verify deep fault now" r es sock subs cmd sid]
        by (simp add: p Let_def clean_text_def)
    qed
  qed
qed

theorem subscription_witness:
  "\<exists>r'. handle_req (sqlite_env lax_crypto False never False 2000) 0
      [vlit ''REQ'', VStr (lit ''q''), sample_filter_object] (sample_relay\<lparr>backend := sample_store\<rparr>)
      = (Inr (), r')
    \<and> sent r' = [(0, event_msg (lit ''q'') sample_event), (0, eose_msg (lit ''q''))]"
proof -
  let ?r = "sample_relay\<lparr>backend := sample_store\<rparr>"
  have h: "0 \<notin> set (gone ?r)" "store_inv (backend ?r)" "map_of (connections ?r) 0 = Some []"
    by simp_all
  have n: "normalize_filters [sample_filter_object] = Inr [sample_filter]"
    using sample_filter_bounded sample_filter_clean by (simp add: normalize_filters_Inr)
  from subscription_answer [OF h, where c = lax_crypto and verify = False and deep = never
      and fault = False and now = 2000 and payload = "[vlit ''REQ'', VStr (lit ''q''), sample_filter_object]"]
  show ?thesis
    using sample_filter_params(2) sample_query by (simp add: n Let_def clean_text_def)
qed

section \<open>Connections\<close>

text \<open>However its messages end, a served connection leaves nothing registered, and the
  other connections keep their subscriptions.\<close>

theorem serve_cleans_up:
  "map_of (connections (snd (serve env sock messages r))) = (map_of (connections r))(sock := None)"
  by (rule serve_connections)

text \<open>The handler of a message is the run of its task: from the arrival on, enough steps of
  the event loop without interleaving give the handler's result and state.\<close>

theorem handler_is_its_steps:
  "\<exists>k. \<forall>n. abind (start env sock m) (finish env sock (k + n)) r = handle_message env sock m r"
  using handle_message_finish [of env sock m r] le_add1 by blast

section \<open>Delivery\<close>

text \<open>C1: no published event is lost to a subscription, under any interleaving of connections,
  with backend failures and disconnections at any point: for every registered subscription whose
  query was made, every stored event that matches either was in the store at that query and left
  out of its page, or has been sent since, or is in the answer being sent, or the client has gone,
  or the event's broadcast is still due, or its publisher's task ended before the broadcast. The
  subscriptions are those whose name can be sent at all, which a lone surrogate prevents.\<close>

theorem no_event_lost:
  assumes "store_inv s" "(wstep (sqlite_envs c verify))\<^sup>*\<^sup>* (first_world s) w"
    and "settled w sock sid fs"
  shows "\<exists>n s0. (sock, sid, fs, n, s0) \<in> set (answered w) \<and> n \<le> length (sent (hub w))
    \<and> (\<forall>e \<in> set (stored_events (backend (hub w))). matches_any_filter e fs \<longrightarrow>
         (e \<in> set (stored_events s0) \<and> e \<notin> set (spec_query fs (abs_store s0))
          \<or> (sock, event_msg sid e) \<in> set (drop n (sent (hub w)))
          \<or> event_msg sid e \<in> queued w sock
          \<or> sock \<in> set (gone (hub w)) \<or> pending w e \<or> e \<in> set (orphaned w)))"
proof -
  have "delivery_inv abs_store {} store_inv w"
    by (rule sqlite.source.reachable_delivery [OF sqlite_served assms(1,2)])
  then have "served abs_store {} w sock sid fs" using assms(3) by (simp add: delivery_inv_def)
  then show ?thesis
    unfolding served_def reaches_def stored_def by (simp add: abs_store_def)
qed

definition sample_request :: pystr where
  "sample_request = dumps style_raw (VList [vlit ''REQ'', VStr (lit ''q''), sample_filter_object])"

lemma sample_request_loads:
  "loads sample_request = Inr (VList [vlit ''REQ'', VStr (lit ''q''), sample_filter_object])"
  unfolding sample_request_def
  by (rule loads_dumps)
    (simp add: sample_filter_object_def int_printable_small num_printable_def encodable_def lit_def scalar_def
      int_printable_64)

theorem no_event_lost_witness:
  "\<exists>w. (wstep (sqlite_envs lax_crypto True))\<^sup>*\<^sup>* (first_world sample_store) w
    \<and> settled w 0 (lit ''q'') [sample_filter] \<and> answered w \<noteq> []
    \<and> event_msg (lit ''q'') sample_event \<in> queued w 0"
proof -
  let ?E = "sqlite_envs lax_crypto True" and ?env = "sqlite_env lax_crypto True never False 2000"
  let ?w0 = "first_world sample_store"
  define w1 where "w1 = ?w0\<lparr>hub := snd (connect 0 (hub ?w0)), tasks := (tasks ?w0)(0 \<mapsto> Reading)\<rparr>"
  have s1: "wstep ?E ?w0 w1" unfolding w1_def by (rule wstep.open_socket) (simp add: first_world_def)
  have hub1: "hub w1 = \<lparr>connections = [(0, [])], backend = sample_store, sent = [], gone = []\<rparr>"
    by (simp add: w1_def first_world_def connect_def)
  have env: "?env \<in> ?E" by (auto simp: sqlite_envs_def)
  have n: "normalize_filters [sample_filter_object] = Inr [sample_filter]"
    using sample_filter_bounded sample_filter_clean by (simp add: normalize_filters_Inr)
  obtain r2 where r2: "start ?env 0 sample_request (hub w1) = (Inr (Querying (lit ''q'') [sample_filter]), r2)"
    "live r2 0 (lit ''q'') [sample_filter]" "backend r2 = sample_store"
    by (simp add: start_def read_message_def sample_request_loads req_begin_def abind_def on_subscriptions_def n hub1
        live_def subs_of_def)
  define w2 where "w2 = w1\<lparr>hub := r2, tasks := (tasks w1)(0 \<mapsto> Querying (lit ''q'') [sample_filter])\<rparr>"
  have s2: "wstep ?E w1 w2"
    unfolding w2_def by (rule wstep.receive [OF _ env r2(1)]) (simp add: w1_def)
  have q: "storage_query False [sample_filter] sample_store = Inr [sample_event]"
    using query_simulates [OF sample_store_inv, of "[sample_filter]"] sample_query sample_filter_params
    by (simp add: storage_query_def query_params_def)
  let ?t = "Queried (lit ''q'') (Inr [sample_event])"
  define w3 where "w3 = (note_query 0 (Querying (lit ''q'') [sample_filter]) w2)
    \<lparr>hub := r2, tasks := (tasks w2)(0 \<mapsto> ?t)\<rparr>"
  have s3: "wstep ?E w2 w3"
    unfolding w3_def
    by (rule wstep.run [OF _ env]) (simp_all add: w2_def query_call_def abind_def r2(3) q)
  have reach: "(wstep ?E)\<^sup>*\<^sup>* ?w0 w3"
    using s1 s2 s3 by (meson converse_rtranclp_into_rtranclp rtranclp.rtrancl_refl)
  have set3: "settled w3 0 (lit ''q'') [sample_filter]"
    using r2(2) by (simp add: settled_def w3_def)
  from no_event_lost [OF sample_store_inv reach set3] have "answered w3 \<noteq> []" by auto
  moreover have "event_msg (lit ''q'') sample_event \<in> queued w3 0"
    by (simp add: queued_def w3_def)
  ultimately show ?thesis using reach set3 by blast
qed

section \<open>What goes unanswered\<close>

text \<open>C35: when the publisher's socket closes after its event was stored and before the \<open>OK\<close> is
  sent, the handler ends there: the event is in the store and no subscription is told.\<close>

theorem stored_but_not_broadcast:
  assumes "validate_event c verify now v = Inr e" "sock \<in> set (gone r)" "store_inv (backend r)"
    and "storable e" "ev_id e \<notin> ev_id ` set (stored_events (backend r))"
  shows "\<exists>r'. handle_event (sqlite_env c verify deep False now) sock [cmd, v] r = (Inl WebSocketDisconnect, r')
    \<and> sent r' = sent r \<and> abs_store (backend r') = spec_save e (abs_store (backend r))
    \<and> e \<in> set (stored_events (backend r'))"
proof -
  obtain s' new where s': "save e None 1000 None (backend r) = Inr (s', new)"
    using save_plain_total [OF assms(3,4)] by blast
  note sim = save_simulates [OF assms(3,4) s']
  have put: "storage_save False e (backend r) = Inr (s', True)"
    using s' sim(3) assms(5) by (simp add: storage_save_def)
  have "e \<in> set (sp_events (abs_store s'))"
    using sim(2) assms(5) by (simp add: spec_save_def abs_store_def)
  then have "e \<in> set (stored_events s')" by (simp add: abs_store_def)
  with handle_event_lost [of "sqlite_env c verify deep False now" v e r s' sock cmd] assms(1,2) put sim(2)
  show ?thesis by simp
qed

lemma stored_events_empty: "stored_events empty_store = []"
  by (simp add: stored_events_def empty_store_def)

theorem stored_but_not_broadcast_witness:
  "\<exists>r'. handle_event (sqlite_env lax_crypto False never False 2000) 0
      [vlit ''EVENT'', VDict (to_dict sample_event)] (sample_relay\<lparr>gone := [0]\<rparr>)
      = (Inl WebSocketDisconnect, r')
    \<and> sent r' = [] \<and> sample_event \<in> set (stored_events (backend r'))"
  using stored_but_not_broadcast [OF sample_valid, of 0 "sample_relay\<lparr>gone := [0]\<rparr>" never "vlit ''EVENT''"]
  by (auto simp: store_inv_empty stored_events_empty)








end
