(* ===== verification/Signed_Documents.thy ===== *)
theory Signed_Documents
  imports Event_Spec Json_Facts
begin

text \<open>
  What the administrative modules share: the third-party library stroma (keys and signed
  events), Python's equality on JSON values, and the helpers of \<open>commissioning.py\<close> that read
  a signed event and its canonical JSON content.
\<close>

section \<open>The world outside\<close>

text \<open>
  stroma: \<open>Keys(pub_k=...)\<close> and \<open>Keys(priv_k=...)\<close> give the public key in hex and as npub or
  raise \<open>stroma.KeyError\<close>; \<open>Event.load(data, validate=True)\<close> raises, or returns no event, or an
  event; \<open>Event(...).sign(keys)\<close> makes the event whose \<open>data()\<close> is its dictionary.
  \<open>str_of\<close> is Python's \<open>str\<close> of a list, a dictionary or a float.
\<close>

record stroma =
  pub_key :: "pystr \<Rightarrow> (pystr \<times> pystr) option"
  priv_key :: "pystr \<Rightarrow> (pystr \<times> pystr) option"
  load_event :: "pyval \<Rightarrow> stored_event option res"
  sign_event :: "pystr \<Rightarrow> int \<Rightarrow> int \<Rightarrow> pystr \<Rightarrow> pystr list list \<Rightarrow> stored_event"
  fips_address :: "pystr \<Rightarrow> pystr option"
  str_of :: "pyval \<Rightarrow> pystr"

text \<open>
  What an operation finds outside: coincurve, stroma, one reading of the clock in seconds, the
  random nonce of \<open>secrets.token_hex(32)\<close>, whether files can be written, and the exception that
  opening the administrative database raises, if it does.
\<close>

record outside =
  o_crypto :: crypto
  o_stroma :: stroma
  o_now :: int
  o_nonce :: pystr
  o_unwritable :: bool
  o_db_fault :: "exc option"

section \<open>Equality of values\<close>

text \<open>
  Python's \<open>==\<close>: numbers by value whatever their type, dictionaries whatever their order. The
  canonical form makes it equality; a NaN is equal to nothing.
\<close>

fun canon_float :: "pyfloat \<Rightarrow> pyval" where
  "canon_float (FFin m e) = (if 0 \<le> e then VInt (m * 2 ^ nat e) else VFloat (FFin m e))"
| "canon_float (FZero _) = VInt 0"
| "canon_float f = VFloat f"

fun canon :: "pyval \<Rightarrow> pyval" where
  "canon (VNum n) = VInt (num_val n)"
| "canon (VFloat f) = canon_float f"
| "canon (VList vs) = VList (map canon vs)"
| "canon (VDict d) = VDict (sort_key fst (map (\<lambda>(k, v). (k, canon v)) d))"
| "canon v = v"

fun has_nan :: "pyval \<Rightarrow> bool" where
  "has_nan (VFloat FNan) = True"
| "has_nan (VList vs) = list_ex has_nan vs"
| "has_nan (VDict d) = list_ex (\<lambda>(k, v). has_nan v) d"
| "has_nan _ = False"

definition py_eq :: "pyval \<Rightarrow> pyval \<Rightarrow> bool" where
  "py_eq a b = (canon a = canon b \<and> \<not> has_nan a)"

text \<open>Truth of a value: \<open>value or ""\<close>.\<close>

fun truthy :: "pyval \<Rightarrow> bool" where
  "truthy VNone = False"
| "truthy (VNum n) = (num_val n \<noteq> 0)"
| "truthy (VFloat (FZero _)) = False"
| "truthy (VFloat _) = True"
| "truthy (VStr s) = (s \<noteq> [])"
| "truthy (VList vs) = (vs \<noteq> [])"
| "truthy (VDict d) = (d \<noteq> [])"

text \<open>\<open>str(value)\<close>\<close>

fun py_str :: "stroma \<Rightarrow> pyval \<Rightarrow> pystr" where
  "py_str st VNone = lit ''None''"
| "py_str st (VNum n) = num_str n"
| "py_str st (VStr s) = s"
| "py_str st v = str_of st v"

lemma canon_float_cases: "(\<exists>i. canon_float f = VInt i) \<or> canon_float f = VFloat f"
  by (cases f) auto

lemma canon_eq_str [simp]: "canon v = VStr s \<longleftrightarrow> v = VStr s"
  using canon_float_cases by (cases v) (auto, metis pyval.distinct)

lemma canon_eq_None [simp]: "canon v = VNone \<longleftrightarrow> v = VNone"
  using canon_float_cases by (cases v) (auto, metis pyval.distinct)

lemma py_eq_str [simp]: "py_eq v (VStr s) \<longleftrightarrow> v = VStr s"
  by (auto simp: py_eq_def)

lemma py_eq_None [simp]: "py_eq v VNone \<longleftrightarrow> v = VNone"
  by (auto simp: py_eq_def)

section \<open>Canonical JSON and signed events\<close>

abbreviation CE :: "string \<Rightarrow> exc" where
  "CE s \<equiv> CommissioningError (lit s)"

definition canonical_json :: "pydict \<Rightarrow> pystr" where
  "canonical_json d = dumps style_ascii (sort_keys (VDict d))"

definition invalid_event :: "exc \<Rightarrow> bool" where
  "invalid_event x = (is_value_error x \<or> x = StromaEventError \<or> x = TypeError \<or> x = KeyError)"

definition valid_event :: "outside \<Rightarrow> string \<Rightarrow> pyval \<Rightarrow> stored_event res" where
  "valid_event w label event_data =
     rbind (recast
        (rbind (validate_event (o_crypto w) True (o_now w) event_data) (\<lambda>_.
           load_event (o_stroma w) event_data))
        invalid_event (CommissioningError (lit label @ lit '' is not a valid Nostr event'')))
     (\<lambda>event. case event of
        None \<Rightarrow> Inl (CommissioningError (lit label @ lit '' signature is invalid''))
      | Some e \<Rightarrow> Inr e)"

text \<open>\<open>_content\<close>: only \<open>JSONDecodeError\<close> is caught.\<close>

definition content_of :: "stored_event \<Rightarrow> pystr \<Rightarrow> pydict res" where
  "content_of e schema =
     rbind (recast (loads (ev_content e)) (\<lambda>x. x = JSONDecodeError)
              (CommissioningError (schema @ lit '' content is not valid JSON''))) (\<lambda>content.
       case content of
         VDict d \<Rightarrow>
           (if dget d ''schema'' \<noteq> VStr schema \<or> \<not> py_eq (dget d ''schema_version'') (VInt 1)
            then Inl (CommissioningError (lit ''unsupported '' @ schema @ lit '' schema''))
            else if canonical_json d \<noteq> ev_content e
            then Inl (CommissioningError (schema @ lit '' content is not canonically encoded''))
            else Inr d)
       | _ \<Rightarrow> Inl (CommissioningError (schema @ lit '' content must be a JSON object'')))"

definition require_tag :: "stored_event \<Rightarrow> pystr list \<Rightarrow> unit res" where
  "require_tag e expected =
     ensure (expected \<in> set (ev_tags e))
       (CommissioningError (lit ''event is missing required '' @ hd expected @ lit '' tag''))"

text \<open>\<open>for tag in (...): _require_tag(event, tag)\<close>\<close>

definition require_tags :: "stored_event \<Rightarrow> pystr list list \<Rightarrow> unit res" where
  "require_tags e tags = rfold (\<lambda>t _. require_tag e t) tags ()"

text \<open>\<open>str.strip()\<close> removes the characters of Unicode white space at both ends.\<close>

definition py_space :: "nat \<Rightarrow> bool" where
  "py_space c =
     (9 \<le> c \<and> c \<le> 13 \<or> 28 \<le> c \<and> c \<le> 32 \<or> 8192 \<le> c \<and> c \<le> 8202
      \<or> c \<in> {133, 160, 5760, 8232, 8233, 8239, 8287, 12288})"

definition strip :: "pystr \<Rightarrow> pystr" where
  "strip s = rev (dropWhile py_space (rev (dropWhile py_space s)))"

definition normalize_public_key :: "stroma \<Rightarrow> pystr \<Rightarrow> string \<Rightarrow> (pystr \<times> pystr) res" where
  "normalize_public_key st value label =
     (case pub_key st (strip value) of
        None \<Rightarrow> Inl (CommissioningError (lit label @ lit '' must be an npub or 32-byte public key''))
      | Some keys \<Rightarrow> Inr keys)"

section \<open>Canonical text reads back\<close>

theorem loads_canonical: "json_ok (VDict d) \<Longrightarrow> loads (canonical_json d) = Inr (sort_keys (VDict d))"
  unfolding canonical_json_def by (intro loads_dumps json_ok_sort_keys)

lemma dget_sort_keys:
  assumes "distinct (map fst d)" "sort_keys (VDict d) = VDict e"
  shows "dget e k = sort_keys (dget d k)"
proof -
  have "e = sort_key fst (map (\<lambda>(k, v). (k, sort_keys v)) d)" using assms(2) by simp
  then have "map_of e (lit k) = map_option sort_keys (map_of d (lit k))"
    using assms(1) by (simp only: map_of_sort_key map_map map_fst_pairs map_of_pairs)
  then show ?thesis by (cases "map_of d (lit k)") (simp_all add: dget_def)
qed

lemma canonical_idem: "sort_keys (VDict d) = VDict e \<Longrightarrow> canonical_json e = canonical_json d"
  using sort_keys_idem [of "VDict d"] by (simp add: canonical_json_def)

lemma content_of_iff:
  "content_of e schema = Inr d \<longleftrightarrow>
     loads (ev_content e) = Inr (VDict d) \<and> dget d ''schema'' = VStr schema
     \<and> py_eq (dget d ''schema_version'') (VInt 1) \<and> canonical_json d = ev_content e"
proof (cases "loads (ev_content e)")
  case (Inr v)
  then show ?thesis by (cases v) (auto simp: content_of_def)
qed (auto simp: content_of_def recast_def)

lemma require_tags_iff: "require_tags e tags = Inr u \<longleftrightarrow> set tags \<subseteq> set (ev_tags e)"
proof -
  have "rfold (\<lambda>t _. require_tag e t) tags u' = Inr u \<longleftrightarrow> set tags \<subseteq> set (ev_tags e)" for u'
    by (induction tags arbitrary: u') (auto simp: require_tag_def rbind_eq_Inr ensure_eq_Inr)
  then show ?thesis by (simp add: require_tags_def)
qed

end
