(* ===== verification/Stroma_Spec.thy ===== *)
theory Stroma_Spec
  imports Signed_Documents
begin

text \<open>
  What the program relies on of stroma, as a hypothesis of the theorems that need it
  (\<open>stroma_ok\<close>), and a concrete stroma with two keys that has these properties, for the
  witnesses.
\<close>

section \<open>The laws\<close>

text \<open>A public key in hex and as npub: stroma reads both back.\<close>

definition key_pair :: "stroma \<Rightarrow> pystr \<Rightarrow> pystr \<Rightarrow> bool" where
  "key_pair st hex npub =
     (hex_string 64 hex \<and> encodable npub \<and> npub \<noteq> [] \<and> strip npub = npub
      \<and> pub_key st hex = Some (hex, npub) \<and> pub_key st npub = Some (hex, npub))"

definition signed_by ::
  "crypto \<Rightarrow> pystr \<Rightarrow> int \<Rightarrow> int \<Rightarrow> pystr \<Rightarrow> pystr list list \<Rightarrow> stored_event \<Rightarrow> bool" where
  "signed_by c hex kind created_at content tags e =
     (wf_event e \<and> verify_event_signature c (to_dict e) = Inr () \<and> ev_pubkey e = hex
      \<and> ev_kind e = NInt kind \<and> ev_created_at e = NInt created_at
      \<and> ev_content e = content \<and> ev_tags e = tags)"

text \<open>
  \<open>Event.load(..., validate=True)\<close> returns a validly signed event; \<open>Keys\<close> gives key pairs;
  \<open>Event(...).sign(keys)\<close> makes a validly signed event with the fields given.
\<close>

definition stroma_ok :: "crypto \<Rightarrow> stroma \<Rightarrow> bool" where
  "stroma_ok c st =
     ((\<forall>d e. holds_event d e \<and> wf_event e \<and> verify_event_signature c (to_dict e) = Inr ()
          \<longrightarrow> load_event st (VDict d) = Inr (Some e))
      \<and> (\<forall>k hex npub. priv_key st k = Some (hex, npub) \<longrightarrow> key_pair st hex npub)
      \<and> (\<forall>k hex npub. pub_key st k = Some (hex, npub) \<longrightarrow> key_pair st hex npub)
      \<and> (\<forall>k hex npub kind t x tags. priv_key st k = Some (hex, npub) \<and> encodable x
          \<and> list_all (list_all encodable) tags
          \<longrightarrow> signed_by c hex kind t x tags (sign_event st k kind t x tags)))"

lemma stroma_load:
  "stroma_ok c st \<Longrightarrow> holds_event d e \<Longrightarrow> wf_event e
    \<Longrightarrow> verify_event_signature c (to_dict e) = Inr () \<Longrightarrow> load_event st (VDict d) = Inr (Some e)"
  by (simp add: stroma_ok_def)

lemma stroma_priv: "stroma_ok c st \<Longrightarrow> priv_key st k = Some (hex, npub) \<Longrightarrow> key_pair st hex npub"
  unfolding stroma_ok_def by blast

lemma stroma_pub: "stroma_ok c st \<Longrightarrow> pub_key st k = Some (hex, npub) \<Longrightarrow> key_pair st hex npub"
  unfolding stroma_ok_def by blast

lemma stroma_sign:
  "stroma_ok c st \<Longrightarrow> priv_key st k = Some (hex, npub) \<Longrightarrow> encodable x
    \<Longrightarrow> list_all (list_all encodable) tags
    \<Longrightarrow> signed_by c hex kind t x tags (sign_event st k kind t x tags)"
  unfolding stroma_ok_def by blast

section \<open>Consequences\<close>

lemma strip_no_space: "list_all (\<lambda>c. \<not> py_space c) s \<Longrightarrow> strip s = s"
proof -
  assume s: "list_all (\<lambda>c. \<not> py_space c) s"
  have id: "dropWhile py_space t = t" if "set t = set s" for t
    using s that by (simp add: dropWhile_eq_self_iff list_all_iff) (metis hd_in_set list.set_sel(1))
  have "dropWhile py_space s = s" "dropWhile py_space (rev s) = rev s"
    by (rule id; simp)+
  then show ?thesis by (simp add: strip_def)
qed

lemma strip_hex: "hex_string n s \<Longrightarrow> strip s = s"
  by (rule strip_no_space) (auto simp: hex_string_def hex_digit_def py_space_def list_all_iff)

lemma normalize_hex:
  "key_pair st hex npub \<Longrightarrow> normalize_public_key st hex label = Inr (hex, npub)"
  using strip_hex [of 64 hex] by (auto simp: key_pair_def normalize_public_key_def)

lemma normalize_npub:
  "key_pair st hex npub \<Longrightarrow> normalize_public_key st npub label = Inr (hex, npub)"
  by (simp add: key_pair_def normalize_public_key_def)

lemma normalize_iff:
  "normalize_public_key st v label = Inr (hex, npub) \<longleftrightarrow> pub_key st (strip v) = Some (hex, npub)"
  by (auto simp: normalize_public_key_def split: option.splits)

text \<open>With a stroma that keeps its promise \<open>_valid_event\<close> accepts what \<open>validate_event\<close> accepts.\<close>

lemma valid_event_iff:
  assumes "stroma_ok (o_crypto w) (o_stroma w)"
  shows "valid_event w label v = Inr e \<longleftrightarrow> validate_event (o_crypto w) True (o_now w) v = Inr e"
proof -
  have "load_event (o_stroma w) v = Inr (Some e')"
    if "validate_event (o_crypto w) True (o_now w) v = Inr e'" for e'
    using that stroma_load [OF assms] by (auto simp: validate_event_iff)
  then show ?thesis
    by (cases "validate_event (o_crypto w) True (o_now w) v")
      (auto simp: valid_event_def rbind_eq_Inr recast_eq_Inr recast_def)
qed

lemma valid_signed:
  assumes "stroma_ok (o_crypto w) (o_stroma w)" "signed_by (o_crypto w) hex kind t x tags e"
    and "t \<le> o_now w + 900"
  shows "valid_event w label (VDict (to_dict e)) = Inr e"
  using assms(2,3) by (auto simp: valid_event_iff [OF assms(1)] validate_event_iff signed_by_def)

text \<open>Validity is not lost as time passes.\<close>

lemma valid_later:
  assumes "valid_event w label v = Inr e" "stroma_ok (o_crypto w) (o_stroma w)"
    and "o_crypto w' = o_crypto w" "o_stroma w' = o_stroma w" "o_now w \<le> o_now w'"
  shows "valid_event w' label' v = Inr e"
  using assms by (auto simp: valid_event_iff validate_event_iff)

lemma encodable_json_char_ascii [simp]: "encodable (json_char True c)"
  by (auto simp: json_char_def u_escape_def scalar_def)

lemma encodable_json_string_ascii [simp]: "encodable (json_string True s)"
  by (induction s) (auto simp: json_string_def)

lemma case_VDict_Inr:
  "(case v of VDict b \<Rightarrow> f b | _ \<Rightarrow> Inl x) = Inr y \<longleftrightarrow> (\<exists>b. v = VDict b \<and> f b = Inr y)"
  by (cases v) auto

lemma encodable_dumps: "json_ok v \<Longrightarrow> ensure_ascii o' \<Longrightarrow> encodable (dumps o' v)"
proof (induction v)
  case (VNum n)
  then show ?case by (cases n) auto
next
  case (VList vs)
  then show ?case by (auto simp: list_all_iff pad_def intro!: encodable_join [THEN iffD2])
next
  case (VDict d)
  have "encodable (dumps o' v)" if "(k, v) \<in> set d" for k v
    using VDict.IH [of "(k, v)" v] VDict.prems that
    by (auto simp: list_all_iff Basic_BNFs.snds.simps)
  then show ?case using VDict.prems
    by (auto simp: list_all_iff dumps_VDict pad_def intro!: encodable_join [THEN iffD2])
qed auto

lemma encodable_canonical: "json_ok (VDict d) \<Longrightarrow> encodable (canonical_json d)"
  unfolding canonical_json_def by (intro encodable_dumps json_ok_sort_keys) simp_all

section \<open>A stroma with two keys\<close>

definition hex_a :: pystr where "hex_a = replicate 64 97"
definition hex_b :: pystr where "hex_b = replicate 64 98"

definition toy_pub :: "pystr \<Rightarrow> (pystr \<times> pystr) option" where
  "toy_pub k =
     (if k = hex_a \<or> k = lit ''npub1a'' then Some (hex_a, lit ''npub1a'')
      else if k = hex_b \<or> k = lit ''npub1b'' then Some (hex_b, lit ''npub1b'') else None)"

definition toy_priv :: "pystr \<Rightarrow> (pystr \<times> pystr) option" where
  "toy_priv k =
     (if k = lit ''nsec1a'' then Some (hex_a, lit ''npub1a'')
      else if k = lit ''nsec1b'' then Some (hex_b, lit ''npub1b'') else None)"

definition toy_stroma :: stroma where
  "toy_stroma =
     \<lparr>pub_key = toy_pub, priv_key = toy_priv,
      load_event = (\<lambda>v. case v of
         VDict d \<Rightarrow> rbind (from_dict d) (\<lambda>e. Inr (Some e)) | _ \<Rightarrow> Inl StromaEventError),
      sign_event = (\<lambda>k kind t x tags.
         mk_event (case toy_priv k of Some (hex, _) \<Rightarrow> hex | None \<Rightarrow> []) t kind tags x (replicate 128 99)),
      fips_address = (\<lambda>_. Some (lit ''fd00::1'')),
      str_of = (\<lambda>_. [])\<rparr>"

lemma strip_npub1 [simp]: "strip (lit ''npub1a'') = lit ''npub1a''" "strip (lit ''npub1b'') = lit ''npub1b''"
  by (simp_all add: strip_def py_space_def lit_def)

lemma lax_verifies:
  assumes "wf_event e" shows "verify_event_signature lax_crypto (to_dict e) = Inr ()"
  by (rule wf_event_hex_bytes [OF assms])
    (simp add: verify_event_signature_def lax_crypto_def holds_event_dget [OF holds_event_to_dict])

lemma toy_key_pair: "key_pair toy_stroma hex_a (lit ''npub1a'')" "key_pair toy_stroma hex_b (lit ''npub1b'')"
proof -
  have l: "length hex_a = 64" "length hex_b = 64" by (simp_all add: hex_a_def hex_b_def)
  have "hex_b \<noteq> hex_a" by (simp add: hex_a_def hex_b_def)
  moreover have "hex_b \<noteq> lit ''npub1a''" "lit ''npub1b'' \<noteq> hex_a"
    by (rule notI, drule arg_cong [of _ _ length], simp add: l)+
  ultimately have "hex_b \<noteq> hex_a" "hex_b \<noteq> lit ''npub1a''" "lit ''npub1b'' \<noteq> hex_a" by simp_all
  then show "key_pair toy_stroma hex_a (lit ''npub1a'')" "key_pair toy_stroma hex_b (lit ''npub1b'')"
    by (simp_all add: key_pair_def toy_stroma_def toy_pub_def) (simp_all add: hex_a_def hex_b_def)
qed

lemma toy_stroma_ok: "stroma_ok lax_crypto toy_stroma"
  unfolding stroma_ok_def
proof (intro conjI allI impI)
  fix d e assume "holds_event d e \<and> wf_event e \<and> verify_event_signature lax_crypto (to_dict e) = Inr ()"
  then show "load_event toy_stroma (VDict d) = Inr (Some e)"
    by (auto simp: toy_stroma_def from_dict_holds [THEN iffD2])
next
  fix k hex npub assume "priv_key toy_stroma k = Some (hex, npub)"
  then show "key_pair toy_stroma hex npub"
    using toy_key_pair by (auto simp: toy_stroma_def toy_priv_def split: if_splits)
next
  fix k hex npub assume "pub_key toy_stroma k = Some (hex, npub)"
  then show "key_pair toy_stroma hex npub"
    using toy_key_pair by (auto simp: toy_stroma_def toy_pub_def split: if_splits)
next
  fix k hex npub kind t x tags
  assume "priv_key toy_stroma k = Some (hex, npub) \<and> encodable x \<and> list_all (list_all encodable) tags"
  then have "toy_priv k = Some (hex, npub)" "hex_string 64 hex" "encodable x"
    "list_all (list_all encodable) tags"
    using toy_key_pair
    by (auto simp: toy_stroma_def toy_priv_def key_pair_def split: if_splits)
  then show "signed_by lax_crypto hex kind t x tags (sign_event toy_stroma k kind t x tags)"
    by (auto simp: signed_by_def toy_stroma_def intro!: lax_verifies wf_mk_event)
qed

end
