(* ===== verification/Commissioning.thy ===== *)
theory Commissioning
  imports Signed_Documents
begin

text \<open>
  \<open>spurline/commissioning.py\<close>: the three signed documents that tie a service to its operator,
  the request signed by the service, the attestation signed by the operator and the descriptor
  signed by the service again, how each is made and how each is verified.
\<close>

section \<open>Constants\<close>

definition request_schema :: pystr where
  "request_schema = lit ''org.mainstay.service-commissioning-request''"

definition attestation_schema :: pystr where
  "attestation_schema = lit ''org.mainstay.service-operator-attestation''"

definition descriptor_schema :: pystr where
  "descriptor_schema = lit ''org.mainstay.service-descriptor''"

definition request_ttl :: int where
  "request_ttl = 24 * 60 * 60"

definition max_clock_skew :: int where
  "max_clock_skew = 5 * 60"

definition service_object :: "pystr \<Rightarrow> pyval" where
  "service_object hex = VDict [(lit ''pubkey'', VStr hex), (lit ''type'', vlit ''nostr-relay'')]"

record verified_commissioning =
  vc_request :: stored_event
  vc_attestation :: stored_event
  vc_operator_npub :: pystr

definition time_of :: "stored_event \<Rightarrow> int" where
  "time_of e = num_val (ev_created_at e)"

definition kind_of :: "stored_event \<Rightarrow> int" where
  "kind_of e = num_val (ev_kind e)"

section \<open>The request\<close>

text \<open>\<open>bytes.fromhex\<close> of the nonce: 32 bytes, white space and upper case allowed.\<close>

definition check_nonce :: "pystr \<Rightarrow> string \<Rightarrow> unit res" where
  "check_nonce nonce message =
     (if length nonce \<noteq> 64 then Inl (CE message)
      else recast
        (rbind (bytes_fromhex nonce) (\<lambda>bs.
           ensure (length bs = 32) (ValueError (lit ''invalid nonce length''))))
        is_value_error (CE message))"

definition create_commissioning_request ::
  "outside \<Rightarrow> pystr \<Rightarrow> pystr \<Rightarrow> pystr \<Rightarrow> pystr \<Rightarrow> pydict res" where
  "create_commissioning_request w service_nsec operator_npub management request_nonce =
     (case priv_key (o_stroma w) service_nsec of
        None \<Rightarrow> Inl StromaKeyError
      | Some (service_hex, _) \<Rightarrow>
          rbind (normalize_public_key (o_stroma w) operator_npub ''operator'') (\<lambda>(operator_hex, _).
          let issued_at = o_now w; expires_at = issued_at + request_ttl
          in rbind (check_nonce request_nonce ''commissioning nonce must contain 32 bytes of hex'') (\<lambda>_.
             let content =
               [(lit ''expires_at'', VInt expires_at),
                (lit ''issued_at'', VInt issued_at),
                (lit ''management'', VStr management),
                (lit ''nonce'', VStr request_nonce),
                (lit ''requested_operator'', VStr operator_hex),
                (lit ''schema'', VStr request_schema),
                (lit ''schema_version'', VInt 1),
                (lit ''service'', service_object service_hex)]
             in Inr (to_dict (sign_event (o_stroma w) service_nsec 78 issued_at (canonical_json content)
                  [[lit ''d'', request_schema @ lit '':'' @ request_nonce],
                   [lit ''p'', operator_hex, [], lit ''operator''],
                   [lit ''t'', lit ''mainstay-service-commissioning''],
                   [lit ''service-type'', lit ''nostr-relay''],
                   [lit ''expiration'', int_text expires_at]])))))"

definition verify_commissioning_request ::
  "outside \<Rightarrow> pyval \<Rightarrow> pystr \<Rightarrow> pystr \<Rightarrow> bool \<Rightarrow> (stored_event \<times> pydict) res" where
  "verify_commissioning_request w event_data service_npub management require_current =
     rbind (valid_event w ''commissioning request'' event_data) (\<lambda>e.
     rbind (content_of e request_schema) (\<lambda>content.
     rbind (normalize_public_key (o_stroma w) service_npub ''service'') (\<lambda>(service_hex, _).
     if kind_of e \<noteq> 78 then Inl (CE ''commissioning request has an unsupported event kind'')
     else if ev_pubkey e \<noteq> service_hex
       then Inl (CE ''commissioning request was not signed by this service'')
     else if time_of e > o_now w + max_clock_skew
       then Inl (CE ''commissioning request is dated too far in the future'')
     else if \<not> py_eq (dget content ''issued_at'') (VNum (ev_created_at e))
       then Inl (CE ''commissioning request issue time does not match its event'')
     else (case as_int (dget content ''expires_at'') of
       None \<Rightarrow> Inl (CE ''commissioning request expiry is invalid'')
     | Some expires_at \<Rightarrow>
         if require_current \<and> expires_at \<le> o_now w
           then Inl (CE ''commissioning request has expired'')
         else if expires_at - time_of e \<noteq> request_ttl
           then Inl (CE ''commissioning request has an invalid validity period'')
         else if dget content ''management'' \<noteq> VStr management
           then Inl (CE ''commissioning request management mode does not match'')
         else if \<not> py_eq (dget content ''service'') (service_object service_hex)
           then Inl (CE ''commissioning request service identity does not match'')
         else
           let requested = dget content ''requested_operator'' in
           rbind (normalize_public_key (o_stroma w)
                    (if truthy requested then py_str (o_stroma w) requested else [])
                    ''requested operator'') (\<lambda>(operator_hex, _).
           rbind (case dget content ''nonce'' of
                    VStr nonce \<Rightarrow> check_nonce nonce ''commissioning request nonce is invalid''
                  | _ \<Rightarrow> Inl (CE ''commissioning request nonce is invalid'')) (\<lambda>_.
           rbind (require_tags e
                    [[lit ''p'', operator_hex, [], lit ''operator''],
                     [lit ''expiration'', int_text expires_at],
                     [lit ''service-type'', lit ''nostr-relay'']]) (\<lambda>_.
             Inr (e, content))))))))"

section \<open>The attestation\<close>

definition expected_attestation ::
  "stored_event \<Rightarrow> pystr \<Rightarrow> stored_event \<Rightarrow> pystr \<Rightarrow> pystr \<Rightarrow> pydict" where
  "expected_attestation request operator_hex attestation management service_hex =
     [(lit ''action'', vlit ''authorize''),
      (lit ''commissioning_request'', VStr (ev_id request)),
      (lit ''installation'', VStr operator_hex),
      (lit ''issued_at'', VNum (ev_created_at attestation)),
      (lit ''management'', VStr management),
      (lit ''previous'', VNone),
      (lit ''relationship'', vlit ''operates''),
      (lit ''schema'', VStr attestation_schema),
      (lit ''schema_version'', VInt 1),
      (lit ''sequence'', VInt 1),
      (lit ''service'', service_object service_hex)]"

definition verify_operator_attestation ::
  "outside \<Rightarrow> pyval \<Rightarrow> pyval \<Rightarrow> pystr \<Rightarrow> pystr \<Rightarrow> bool \<Rightarrow> verified_commissioning res" where
  "verify_operator_attestation w request_data attestation_data service_npub management
     require_current_request =
     rbind (verify_commissioning_request w request_data service_npub management
              require_current_request) (\<lambda>(request, request_content).
     rbind (valid_event w ''operator attestation'' attestation_data) (\<lambda>attestation.
     rbind (content_of attestation attestation_schema) (\<lambda>content.
     if kind_of attestation \<noteq> 30078
       then Inl (CE ''operator attestation has an unsupported event kind'')
     else
       let operator_hex = py_str (o_stroma w) (dget request_content ''requested_operator'');
           expires_at = num_val (the_num (dget request_content ''expires_at''))
       in if ev_pubkey attestation \<noteq> operator_hex
         then Inl (CE ''operator attestation was not signed by the requested operator'')
       else if time_of attestation < time_of request
         then Inl (CE ''operator attestation predates the commissioning request'')
       else if time_of attestation > expires_at
         then Inl (CE ''operator attestation was signed after the request expired'')
       else if time_of attestation > o_now w + max_clock_skew
         then Inl (CE ''operator attestation is dated too far in the future'')
       else rbind (normalize_public_key (o_stroma w) service_npub ''service'') (\<lambda>(service_hex, _).
         if canonical_json content
            \<noteq> canonical_json (expected_attestation request operator_hex attestation management service_hex)
         then Inl (CE ''operator attestation content does not match the request'')
         else rbind (require_tags attestation
             [[lit ''d'', attestation_schema @ lit '':'' @ service_hex],
              [lit ''p'', service_hex, [], lit ''service''],
              [lit ''e'', ev_id request, [], lit ''commissioning-request''],
              [lit ''service-type'', lit ''nostr-relay'']]) (\<lambda>_.
           (case pub_key (o_stroma w) operator_hex of
              None \<Rightarrow> Inl StromaKeyError
            | Some (_, npub) \<Rightarrow>
                Inr \<lparr>vc_request = request, vc_attestation = attestation, vc_operator_npub = npub\<rparr>))))))"

section \<open>The descriptor\<close>

definition create_service_descriptor ::
  "outside \<Rightarrow> pystr \<Rightarrow> pyval \<Rightarrow> pystr \<Rightarrow> int \<Rightarrow> pydict res" where
  "create_service_descriptor w service_nsec attestation_data management issued_at =
     (case priv_key (o_stroma w) service_nsec of
        None \<Rightarrow> Inl StromaKeyError
      | Some (service_hex, _) \<Rightarrow>
          rbind (valid_event w ''operator attestation'' attestation_data) (\<lambda>attestation.
          let content =
            [(lit ''capabilities'', VList [vlit ''nostr.relay'']),
             (lit ''issued_at'', VInt issued_at),
             (lit ''management'', VStr management),
             (lit ''operator'', VDict
               [(lit ''attestation_event_id'', VStr (ev_id attestation)),
                (lit ''pubkey'', VStr (ev_pubkey attestation))]),
             (lit ''schema'', VStr descriptor_schema),
             (lit ''schema_version'', VInt 1),
             (lit ''service'', service_object service_hex),
             (lit ''state'', vlit ''commissioned'')]
          in Inr (to_dict (sign_event (o_stroma w) service_nsec 30078 issued_at (canonical_json content)
               [[lit ''d'', descriptor_schema],
                [lit ''p'', ev_pubkey attestation, [], lit ''operator''],
                [lit ''e'', ev_id attestation, [], lit ''operator-attestation''],
                [lit ''t'', lit ''mainstay-service-descriptor''],
                [lit ''service-type'', lit ''nostr-relay'']]))))"

definition verify_service_descriptor ::
  "outside \<Rightarrow> pyval \<Rightarrow> pyval \<Rightarrow> pystr \<Rightarrow> pystr \<Rightarrow> stored_event res" where
  "verify_service_descriptor w descriptor_data attestation_data service_npub management =
     rbind (valid_event w ''service descriptor'' descriptor_data) (\<lambda>descriptor.
     rbind (valid_event w ''operator attestation'' attestation_data) (\<lambda>attestation.
     rbind (content_of descriptor descriptor_schema) (\<lambda>content.
     rbind (normalize_public_key (o_stroma w) service_npub ''service'') (\<lambda>(service_hex, _).
     if kind_of descriptor \<noteq> 30078
       then Inl (CE ''service descriptor has an unsupported event kind'')
     else if ev_pubkey descriptor \<noteq> service_hex
       then Inl (CE ''service descriptor was not signed by this service'')
     else if \<not> py_eq (dget content ''issued_at'') (VNum (ev_created_at descriptor))
       then Inl (CE ''service descriptor issue time does not match its event'')
     else if dget content ''management'' \<noteq> VStr management
       then Inl (CE ''service descriptor management mode does not match'')
     else if \<not> py_eq (dget content ''service'') (service_object service_hex)
       then Inl (CE ''service descriptor identity does not match'')
     else if \<not> py_eq (dget content ''operator'')
           (VDict [(lit ''attestation_event_id'', VStr (ev_id attestation)),
                   (lit ''pubkey'', VStr (ev_pubkey attestation))])
       then Inl (CE ''service descriptor operator evidence does not match'')
     else if dget content ''state'' \<noteq> vlit ''commissioned''
       then Inl (CE ''service descriptor is not commissioned'')
     else rbind (require_tags descriptor
            [[lit ''d'', descriptor_schema],
             [lit ''e'', ev_id attestation, [], lit ''operator-attestation'']]) (\<lambda>_.
          Inr descriptor)))))"

end
