(* ===== verification/Commissioning_Spec.thy ===== *)
theory Commissioning_Spec
  imports Stroma_Spec Commissioning
begin

text \<open>
  What the commissioning documents establish: the chain of authority behind a verified
  attestation, that an attestation commits to one request, one service and one management mode,
  and that documents made by the program and signed as it asks are accepted.
\<close>

section \<open>Values\<close>

lemma num_printable_NInt [simp]: "num_printable (NInt i) = int_printable i"
  by (simp add: num_printable_def)

lemma int_printable_1 [simp]: "int_printable 1"
  by (simp add: int_printable_small)

lemma as_int_Some: "as_int v = Some i \<longleftrightarrow> v = VInt i"
  by (cases v rule: as_int.cases) auto

lemma py_eq_refl: "\<not> has_nan v \<Longrightarrow> py_eq v v"
  by (simp add: py_eq_def)

lemma canonical_inject:
  assumes "canonical_json d = canonical_json e" "json_ok (VDict d)" "json_ok (VDict e)"
  shows "sort_keys (dget d k) = sort_keys (dget e k)"
proof -
  have "sort_keys (VDict d) = sort_keys (VDict e)"
    using assms loads_canonical [of d] loads_canonical [of e] by simp
  moreover have "distinct (map fst d)" "distinct (map fst e)" using assms by simp_all
  moreover obtain f where "sort_keys (VDict d) = VDict f" by simp
  ultimately show ?thesis by (metis dget_sort_keys)
qed

lemma content_of_canonical:
  assumes "json_ok (VDict d)" "sort_keys (VDict d) = VDict d" "ev_content e = canonical_json d"
    and "dget d ''schema'' = VStr schema" "dget d ''schema_version'' = VInt 1"
  shows "content_of e schema = Inr d"
  using assms loads_canonical [OF assms(1)] by (simp add: content_of_iff py_eq_refl)

lemma service_object_simps [simp]:
  "sort_keys (service_object h) = service_object h" "\<not> has_nan (service_object h)"
  "json_ok (service_object h) \<longleftrightarrow> encodable h" "service_object h = service_object h' \<longleftrightarrow> h = h'"
proof -
  have "lit ''pubkey'' \<le> lit ''type''" by code_simp
  then show "sort_keys (service_object h) = service_object h" by (simp add: service_object_def)
qed (simp_all add: service_object_def)

text \<open>A dictionary whose keys are written in order is its own sorted form.\<close>

lemma sort_keys_sorted:
  "sorted (map fst d) \<Longrightarrow> list_all (\<lambda>(k, v). sort_keys v = v) d \<Longrightarrow> sort_keys (VDict d) = VDict d"
proof -
  assume "sorted (map fst d)" "list_all (\<lambda>(k, v). sort_keys v = v) d"
  moreover from this(2) have "map (\<lambda>(k, v). (k, sort_keys v)) d = d"
    by (intro map_idI) (auto simp: list_all_iff)
  ultimately show ?thesis by (simp add: sort_key_sorted)
qed

section \<open>A verified request\<close>

definition requested :: "stroma \<Rightarrow> pydict \<Rightarrow> pystr" where
  "requested st content =
     (let v = dget content ''requested_operator'' in strip (if truthy v then py_str st v else []))"

definition request_nonce_ok :: "pydict \<Rightarrow> unit res" where
  "request_nonce_ok content =
     (case dget content ''nonce'' of
        VStr nonce \<Rightarrow> check_nonce nonce ''commissioning request nonce is invalid''
      | _ \<Rightarrow> Inl (CE ''commissioning request nonce is invalid''))"

definition request_ok :: "stroma \<Rightarrow> pystr \<Rightarrow> pystr \<Rightarrow> stored_event \<Rightarrow> pydict \<Rightarrow> bool" where
  "request_ok st npub m e content =
     ((\<exists>np. pub_key st (strip npub) = Some (ev_pubkey e, np)) \<and> kind_of e = 78
      \<and> py_eq (dget content ''issued_at'') (VNum (ev_created_at e))
      \<and> dget content ''expires_at'' = VInt (time_of e + request_ttl)
      \<and> dget content ''management'' = VStr m
      \<and> py_eq (dget content ''service'') (service_object (ev_pubkey e))
      \<and> request_nonce_ok content = Inr ()
      \<and> (\<exists>op opn. pub_key st (requested st content) = Some (op, opn)
           \<and> set [[lit ''p'', op, [], lit ''operator''],
                  [lit ''expiration'', int_text (time_of e + request_ttl)],
                  [lit ''service-type'', lit ''nostr-relay'']] \<subseteq> set (ev_tags e)))"

lemma verify_request_iff:
  "verify_commissioning_request w data npub m cur = Inr (e, content) \<longleftrightarrow>
     valid_event w ''commissioning request'' data = Inr e
     \<and> content_of e request_schema = Inr content
     \<and> request_ok (o_stroma w) npub m e content
     \<and> time_of e \<le> o_now w + max_clock_skew \<and> (cur \<longrightarrow> o_now w < time_of e + request_ttl)"
  (is "?L = ?R")
proof
  assume ?L
  then show ?R
    by (auto simp: verify_commissioning_request_def rbind_eq_Inr normalize_iff as_int_Some Let_def
        require_tags_iff requested_def request_nonce_ok_def request_ok_def diff_eq_eq add.commute
        split: if_splits option.splits)
next
  assume R: ?R
  let ?r = "dget content ''requested_operator''"
  from R obtain np op opn where
    "pub_key (o_stroma w) (strip npub) = Some (ev_pubkey e, np)"
    "pub_key (o_stroma w) (requested (o_stroma w) content) = Some (op, opn)"
    and t: "set [[lit ''p'', op, [], lit ''operator''],
                  [lit ''expiration'', int_text (time_of e + request_ttl)],
                  [lit ''service-type'', lit ''nostr-relay'']] \<subseteq> set (ev_tags e)"
    unfolding request_ok_def by blast
  then have "normalize_public_key (o_stroma w) npub ''service'' = Inr (ev_pubkey e, np)"
    "normalize_public_key (o_stroma w) (if truthy ?r then py_str (o_stroma w) ?r else [])
       ''requested operator'' = Inr (op, opn)"
    by (auto simp: normalize_iff requested_def Let_def)
  with R t [folded require_tags_iff [where u = "()"]] show ?L
    by (auto simp: request_ok_def request_nonce_ok_def verify_commissioning_request_def Let_def)
qed

section \<open>A verified attestation\<close>

definition attestation_ok ::
  "stroma \<Rightarrow> pystr \<Rightarrow> pystr \<Rightarrow> stored_event \<Rightarrow> pydict \<Rightarrow> stored_event \<Rightarrow> pystr \<Rightarrow> bool" where
  "attestation_ok st npub m r content a opn =
     (kind_of a = 30078 \<and> ev_pubkey a = py_str st (dget content ''requested_operator'')
      \<and> time_of r \<le> time_of a \<and> time_of a \<le> num_val (the_num (dget content ''expires_at''))
      \<and> (\<exists>acontent hex np x. content_of a attestation_schema = Inr acontent
           \<and> pub_key st (strip npub) = Some (hex, np)
           \<and> canonical_json acontent = canonical_json (expected_attestation r (ev_pubkey a) a m hex)
           \<and> set [[lit ''d'', attestation_schema @ lit '':'' @ hex],
                  [lit ''p'', hex, [], lit ''service''],
                  [lit ''e'', ev_id r, [], lit ''commissioning-request''],
                  [lit ''service-type'', lit ''nostr-relay'']] \<subseteq> set (ev_tags a)
           \<and> pub_key st (ev_pubkey a) = Some (x, opn)))"

lemma verify_attestation_iff:
  "verify_operator_attestation w rd ad npub m cur = Inr v \<longleftrightarrow>
     (\<exists>content. verify_commissioning_request w rd npub m cur = Inr (vc_request v, content)
        \<and> valid_event w ''operator attestation'' ad = Inr (vc_attestation v)
        \<and> attestation_ok (o_stroma w) npub m (vc_request v) content (vc_attestation v) (vc_operator_npub v)
        \<and> time_of (vc_attestation v) \<le> o_now w + max_clock_skew)"
  (is "?L = ?R")
proof
  assume ?L
  then show ?R
    by (auto simp: verify_operator_attestation_def rbind_eq_Inr normalize_iff Let_def
        require_tags_iff attestation_ok_def split: if_splits option.splits)
next
  assume ?R
  then obtain content acontent hex np x where r:
    "verify_commissioning_request w rd npub m cur = Inr (vc_request v, content)"
    "valid_event w ''operator attestation'' ad = Inr (vc_attestation v)"
    "content_of (vc_attestation v) attestation_schema = Inr acontent"
    "pub_key (o_stroma w) (strip npub) = Some (hex, np)"
    "pub_key (o_stroma w) (ev_pubkey (vc_attestation v)) = Some (x, vc_operator_npub v)"
    and t: "set [[lit ''d'', attestation_schema @ lit '':'' @ hex],
                  [lit ''p'', hex, [], lit ''service''],
                  [lit ''e'', ev_id (vc_request v), [], lit ''commissioning-request''],
                  [lit ''service-type'', lit ''nostr-relay'']] \<subseteq> set (ev_tags (vc_attestation v))"
    and c: "canonical_json acontent = canonical_json (expected_attestation (vc_request v)
       (ev_pubkey (vc_attestation v)) (vc_attestation v) m hex)"
    and p: "kind_of (vc_attestation v) = 30078"
      "ev_pubkey (vc_attestation v) = py_str (o_stroma w) (dget content ''requested_operator'')"
      "time_of (vc_request v) \<le> time_of (vc_attestation v)"
      "time_of (vc_attestation v) \<le> num_val (the_num (dget content ''expires_at''))"
      "time_of (vc_attestation v) \<le> o_now w + max_clock_skew"
    unfolding attestation_ok_def by blast
  have n: "normalize_public_key (o_stroma w) npub ''service'' = Inr (hex, np)"
    using r(4) by (simp add: normalize_iff)
  show ?L
    using r(5) p(1,3-5) c t [folded require_tags_iff [where u = "()"]]
    by (simp add: verify_operator_attestation_def r(1-3) n Let_def p(2) [symmetric])
qed

text \<open>What was verified stays verified; only the freshness of the request is not asked for again.\<close>

lemma attestation_later:
  assumes "verify_operator_attestation w rd ad npub m cur = Inr v"
    and "stroma_ok (o_crypto w) (o_stroma w)"
    and "o_crypto w' = o_crypto w" "o_stroma w' = o_stroma w" "o_now w \<le> o_now w'"
  shows "verify_operator_attestation w' rd ad npub m False = Inr v"
  using assms(1,5) valid_later [OF _ assms(2-5)]
  by (auto simp: verify_attestation_iff verify_request_iff assms(4))

section \<open>A verified descriptor\<close>

definition descriptor_ok ::
  "stroma \<Rightarrow> pystr \<Rightarrow> pystr \<Rightarrow> stored_event \<Rightarrow> stored_event \<Rightarrow> bool" where
  "descriptor_ok st npub m a d =
     (kind_of d = 30078 \<and> (\<exists>np. pub_key st (strip npub) = Some (ev_pubkey d, np))
      \<and> (\<exists>content. content_of d descriptor_schema = Inr content
           \<and> py_eq (dget content ''issued_at'') (VNum (ev_created_at d))
           \<and> dget content ''management'' = VStr m
           \<and> py_eq (dget content ''service'') (service_object (ev_pubkey d))
           \<and> py_eq (dget content ''operator'')
               (VDict [(lit ''attestation_event_id'', VStr (ev_id a)),
                       (lit ''pubkey'', VStr (ev_pubkey a))])
           \<and> dget content ''state'' = vlit ''commissioned'')
      \<and> set [[lit ''d'', descriptor_schema],
             [lit ''e'', ev_id a, [], lit ''operator-attestation'']] \<subseteq> set (ev_tags d))"

lemma verify_descriptor_iff:
  "verify_service_descriptor w dd ad npub m = Inr d \<longleftrightarrow>
     valid_event w ''service descriptor'' dd = Inr d
     \<and> (\<exists>a. valid_event w ''operator attestation'' ad = Inr a
          \<and> descriptor_ok (o_stroma w) npub m a d)"
  (is "?L = ?R")
proof
  assume ?L
  then show ?R
    by (auto simp: verify_service_descriptor_def rbind_eq_Inr normalize_iff require_tags_iff
        descriptor_ok_def split: if_splits)
next
  assume ?R
  then obtain a content np where r: "valid_event w ''service descriptor'' dd = Inr d"
    "valid_event w ''operator attestation'' ad = Inr a" "content_of d descriptor_schema = Inr content"
    and n: "pub_key (o_stroma w) (strip npub) = Some (ev_pubkey d, np)"
    and c: "kind_of d = 30078" "py_eq (dget content ''issued_at'') (VNum (ev_created_at d))"
      "dget content ''management'' = VStr m"
      "py_eq (dget content ''service'') (service_object (ev_pubkey d))"
      "py_eq (dget content ''operator'')
         (VDict [(lit ''attestation_event_id'', VStr (ev_id a)), (lit ''pubkey'', VStr (ev_pubkey a))])"
      "dget content ''state'' = vlit ''commissioned''"
    and t: "set [[lit ''d'', descriptor_schema],
             [lit ''e'', ev_id a, [], lit ''operator-attestation'']] \<subseteq> set (ev_tags d)"
    unfolding descriptor_ok_def by blast
  have "normalize_public_key (o_stroma w) npub ''service'' = Inr (ev_pubkey d, np)"
    using n by (simp add: normalize_iff)
  then show ?L
    using c t [folded require_tags_iff [where u = "()"]]
    by (simp add: verify_service_descriptor_def r)
qed

lemma descriptor_later:
  assumes "verify_service_descriptor w dd ad npub m = Inr d"
    and "stroma_ok (o_crypto w) (o_stroma w)"
    and "o_crypto w' = o_crypto w" "o_stroma w' = o_stroma w" "o_now w \<le> o_now w'"
  shows "verify_service_descriptor w' dd ad npub m = Inr d"
  using assms(1) valid_later [OF _ assms(2-5)]
  by (auto simp: verify_descriptor_iff assms(4))

section \<open>The chain of authority\<close>

lemma authority_chain_helper:
  assumes "verify_operator_attestation w rd ad npub m cur = Inr v"
    and "stroma_ok (o_crypto w) (o_stroma w)"
  shows "\<exists>service np content.
    pub_key (o_stroma w) (strip npub) = Some (service, np)
    \<and> validate_event (o_crypto w) True (o_now w) rd = Inr (vc_request v)
    \<and> ev_pubkey (vc_request v) = service
    \<and> loads (ev_content (vc_request v)) = Inr (VDict content)
    \<and> validate_event (o_crypto w) True (o_now w) ad = Inr (vc_attestation v)
    \<and> ev_pubkey (vc_attestation v) = py_str (o_stroma w) (dget content ''requested_operator'')
    \<and> time_of (vc_request v) \<le> time_of (vc_attestation v)
    \<and> time_of (vc_attestation v) \<le> time_of (vc_request v) + 86400
    \<and> time_of (vc_attestation v) \<le> o_now w + 300
    \<and> ev_content (vc_attestation v) = canonical_json (expected_attestation (vc_request v)
         (ev_pubkey (vc_attestation v)) (vc_attestation v) m service)"
  using assms
  by (auto simp: verify_attestation_iff verify_request_iff valid_event_iff attestation_ok_def
      request_ok_def content_of_iff max_clock_skew_def request_ttl_def)

lemma holds_event_inject: "holds_event d e \<Longrightarrow> holds_event d f \<Longrightarrow> e = f"
  using from_dict_holds by (metis sum.inject(2))

text \<open>C24: a verified attestation rests on two valid signatures: the request carries the service's
  own, and the attestation that of the operator the request names, made between the request and its
  expiry a day later and not more than five minutes ahead of the clock; and what the operator signed
  is, byte for byte, the authorisation of this service under this request and management mode.\<close>

theorem authority_chain:
  assumes "verify_operator_attestation w rd ad npub m cur = Inr v"
    and "stroma_ok (o_crypto w) (o_stroma w)"
  shows "\<exists>service np content.
    pub_key (o_stroma w) (strip npub) = Some (service, np)
    \<and> validate_event (o_crypto w) True (o_now w) rd = Inr (vc_request v)
    \<and> ev_pubkey (vc_request v) = service
    \<and> loads (ev_content (vc_request v)) = Inr (VDict content)
    \<and> validate_event (o_crypto w) True (o_now w) ad = Inr (vc_attestation v)
    \<and> ev_pubkey (vc_attestation v) = py_str (o_stroma w) (dget content ''requested_operator'')
    \<and> time_of (vc_request v) \<le> time_of (vc_attestation v)
    \<and> time_of (vc_attestation v) \<le> time_of (vc_request v) + 86400
    \<and> time_of (vc_attestation v) \<le> o_now w + 300
    \<and> ev_content (vc_attestation v) = canonical_json (expected_attestation (vc_request v)
         (ev_pubkey (vc_attestation v)) (vc_attestation v) m service)"
  using assms by (rule authority_chain_helper)

lemma json_ok_expected:
  assumes "wf_event r" "wf_event a" "encodable m" "hex_string n s" "num_printable (ev_created_at a)"
  shows "json_ok (VDict (expected_attestation r (ev_pubkey a) a m s))"
  using assms hex_string_encodable
  by (auto simp: expected_attestation_def wf_event_def attestation_schema_def
      num_printable_def)

text \<open>C30: an attestation commits to one request, one service key and one management mode: it
  cannot serve for another.\<close>

theorem attestation_binds:
  assumes "verify_operator_attestation w1 rd1 ad npub1 m1 b1 = Inr v1"
    and "verify_operator_attestation w2 rd2 ad npub2 m2 b2 = Inr v2"
    and "stroma_ok (o_crypto w1) (o_stroma w1)" "stroma_ok (o_crypto w2) (o_stroma w2)"
    and "encodable m1" "encodable m2" "num_printable (ev_created_at (vc_attestation v1))"
  shows "ev_id (vc_request v1) = ev_id (vc_request v2) \<and> m1 = m2
    \<and> ev_pubkey (vc_request v1) = ev_pubkey (vc_request v2)
    \<and> vc_attestation v1 = vc_attestation v2"
proof -
  obtain s1 np1 where 1: "pub_key (o_stroma w1) (strip npub1) = Some (s1, np1)"
    "validate_event (o_crypto w1) True (o_now w1) rd1 = Inr (vc_request v1)"
    "ev_pubkey (vc_request v1) = s1"
    "validate_event (o_crypto w1) True (o_now w1) ad = Inr (vc_attestation v1)"
    "ev_content (vc_attestation v1) = canonical_json (expected_attestation (vc_request v1)
         (ev_pubkey (vc_attestation v1)) (vc_attestation v1) m1 s1)"
    using authority_chain_helper [OF assms(1,3)] by blast
  obtain s2 np2 where 2: "pub_key (o_stroma w2) (strip npub2) = Some (s2, np2)"
    "validate_event (o_crypto w2) True (o_now w2) rd2 = Inr (vc_request v2)"
    "ev_pubkey (vc_request v2) = s2"
    "validate_event (o_crypto w2) True (o_now w2) ad = Inr (vc_attestation v2)"
    "ev_content (vc_attestation v2) = canonical_json (expected_attestation (vc_request v2)
         (ev_pubkey (vc_attestation v2)) (vc_attestation v2) m2 s2)"
    using authority_chain_helper [OF assms(2,4)] by blast
  have wf: "wf_event (vc_request v1)" "wf_event (vc_request v2)"
    "wf_event (vc_attestation v1)" "wf_event (vc_attestation v2)"
    using 1(2,4) 2(2,4) by (simp_all add: validate_event_iff)
  have same: "vc_attestation v1 = vc_attestation v2"
    using 1(4) 2(4) holds_event_inject by (auto simp: validate_event_iff)
  let ?x1 = "expected_attestation (vc_request v1) (ev_pubkey (vc_attestation v1)) (vc_attestation v1) m1 s1"
  let ?x2 = "expected_attestation (vc_request v2) (ev_pubkey (vc_attestation v2)) (vc_attestation v2) m2 s2"
  have "hex_string 64 s1" "hex_string 64 s2" using wf 1(3) 2(3) by (simp_all add: wf_event_def)
  then have "json_ok (VDict ?x1)" "json_ok (VDict ?x2)"
    using json_ok_expected [OF wf(1,3) assms(5) _ assms(7)]
      json_ok_expected [OF wf(2,4) assms(6), of _ s2] assms(7) same by simp_all
  then have "sort_keys (dget ?x1 k) = sort_keys (dget ?x2 k)" for k
    using canonical_inject [of ?x1 ?x2] 1(5) 2(5) same by simp
  from this [of "''commissioning_request''"] this [of "''management''"] this [of "''service''"]
  show ?thesis
    using same 1(3) 2(3) by (simp add: expected_attestation_def)
qed

section \<open>What the program makes is accepted\<close>

definition request_content :: "pystr \<Rightarrow> int \<Rightarrow> pystr \<Rightarrow> pystr \<Rightarrow> pystr \<Rightarrow> pydict" where
  "request_content service t0 management nonce operator =
     [(lit ''expires_at'', VInt (t0 + request_ttl)), (lit ''issued_at'', VInt t0),
      (lit ''management'', VStr management), (lit ''nonce'', VStr nonce),
      (lit ''requested_operator'', VStr operator), (lit ''schema'', VStr request_schema),
      (lit ''schema_version'', VInt 1), (lit ''service'', service_object service)]"

definition request_tags :: "int \<Rightarrow> pystr \<Rightarrow> pystr \<Rightarrow> pystr list list" where
  "request_tags t0 nonce operator =
     [[lit ''d'', request_schema @ lit '':'' @ nonce],
      [lit ''p'', operator, [], lit ''operator''],
      [lit ''t'', lit ''mainstay-service-commissioning''],
      [lit ''service-type'', lit ''nostr-relay''],
      [lit ''expiration'', int_text (t0 + request_ttl)]]"

lemma check_nonce_hex: "hex_string 64 nonce \<Longrightarrow> check_nonce nonce m = Inr ()"
  using fromhex_of_hex [of nonce]
  by (auto simp: check_nonce_def hex_string_def)

lemma create_request_eq:
  assumes "priv_key (o_stroma w) nsec = Some (service, np)"
    and "pub_key (o_stroma w) (strip operator_npub) = Some (operator, opn)" "hex_string 64 nonce"
  shows "create_commissioning_request w nsec operator_npub m nonce =
    Inr (to_dict (sign_event (o_stroma w) nsec 78 (o_now w)
      (canonical_json (request_content service (o_now w) m nonce operator))
      (request_tags (o_now w) nonce operator)))"
  using assms check_nonce_hex [OF assms(3)]
  by (simp add: create_commissioning_request_def normalize_public_key_def request_content_def
      request_tags_def Let_def)

lemma request_content_ok:
  assumes "encodable service" "encodable m" "encodable nonce" "encodable operator"
    and "int_printable t0" "int_printable (t0 + request_ttl)"
  shows "json_ok (VDict (request_content service t0 m nonce operator))"
    "sort_keys (VDict (request_content service t0 m nonce operator))
      = VDict (request_content service t0 m nonce operator)"
proof -
  show "json_ok (VDict (request_content service t0 m nonce operator))"
    using assms by (simp add: request_content_def request_schema_def)
  have "sorted (map lit [''expires_at'', ''issued_at'', ''management'', ''nonce'',
      ''requested_operator'', ''schema'', ''schema_version'', ''service''])" by code_simp
  then show "sort_keys (VDict (request_content service t0 m nonce operator))
      = VDict (request_content service t0 m nonce operator)"
    by (intro sort_keys_sorted) (simp_all add: request_content_def)
qed

lemma expected_sorted:
  "sort_keys (VDict (expected_attestation r operator a m service))
    = VDict (expected_attestation r operator a m service)"
proof -
  have "sorted (map lit [''action'', ''commissioning_request'', ''installation'', ''issued_at'',
      ''management'', ''previous'', ''relationship'', ''schema'', ''schema_version'', ''sequence'',
      ''service''])" by code_simp
  then show ?thesis by (intro sort_keys_sorted) (simp_all add: expected_attestation_def)
qed

definition descriptor_content :: "pystr \<Rightarrow> pystr \<Rightarrow> stored_event \<Rightarrow> int \<Rightarrow> pydict" where
  "descriptor_content service m a t =
     [(lit ''capabilities'', VList [vlit ''nostr.relay'']),
      (lit ''issued_at'', VInt t), (lit ''management'', VStr m),
      (lit ''operator'', VDict [(lit ''attestation_event_id'', VStr (ev_id a)),
         (lit ''pubkey'', VStr (ev_pubkey a))]),
      (lit ''schema'', VStr descriptor_schema), (lit ''schema_version'', VInt 1),
      (lit ''service'', service_object service), (lit ''state'', vlit ''commissioned'')]"

definition descriptor_tags :: "stored_event \<Rightarrow> pystr list list" where
  "descriptor_tags a =
     [[lit ''d'', descriptor_schema], [lit ''p'', ev_pubkey a, [], lit ''operator''],
      [lit ''e'', ev_id a, [], lit ''operator-attestation''],
      [lit ''t'', lit ''mainstay-service-descriptor''], [lit ''service-type'', lit ''nostr-relay'']]"

lemma descriptor_content_ok:
  assumes "encodable service" "encodable m" "wf_event a" "int_printable t"
  shows "json_ok (VDict (descriptor_content service m a t))"
    "sort_keys (VDict (descriptor_content service m a t)) = VDict (descriptor_content service m a t)"
proof -
  have "encodable (ev_id a)" "encodable (ev_pubkey a)"
    using assms(3) hex_string_encodable by (auto simp: wf_event_def)
  then show "json_ok (VDict (descriptor_content service m a t))"
    using assms by (simp add: descriptor_content_def descriptor_schema_def)
  have "sorted (map lit [''capabilities'', ''issued_at'', ''management'', ''operator'', ''schema'',
      ''schema_version'', ''service'', ''state''])" "lit ''attestation_event_id'' \<le> lit ''pubkey''"
    by code_simp+
  then show "sort_keys (VDict (descriptor_content service m a t))
      = VDict (descriptor_content service m a t)"
    by (intro sort_keys_sorted) (simp_all add: descriptor_content_def)
qed

lemma signed_request_verifies:
  assumes st: "stroma_ok (o_crypto w) (o_stroma w)"
    and key: "key_pair (o_stroma w) service npub" "key_pair (o_stroma w) operator opn"
    and sg: "signed_by (o_crypto w) service 78 t0
      (canonical_json (request_content service t0 m nonce operator)) (request_tags t0 nonce operator) r"
    and ok: "encodable m" "hex_string 64 nonce" "int_printable t0" "int_printable (t0 + request_ttl)"
    and t: "t0 \<le> o_now w + max_clock_skew" "\<not> (cur \<and> t0 + request_ttl \<le> o_now w)"
  shows "verify_commissioning_request w (VDict (to_dict r)) npub m cur
    = Inr (r, request_content service t0 m nonce operator)"
proof -
  let ?c = "request_content service t0 m nonce operator"
  have hex: "hex_string 64 service" "hex_string 64 operator" "operator \<noteq> []"
    using key by (auto simp: key_pair_def hex_string_def)
  note json = request_content_ok [OF hex_string_encodable [OF hex(1)] ok(1)
    hex_string_encodable [OF ok(2)] hex_string_encodable [OF hex(2)] ok(3,4)]
  have r: "ev_content r = canonical_json ?c" "ev_pubkey r = service" "kind_of r = 78" "time_of r = t0"
    "ev_created_at r = NInt t0" "ev_tags r = request_tags t0 nonce operator"
    using sg by (simp_all add: signed_by_def kind_of_def time_of_def)
  have "content_of r request_schema = Inr ?c"
    by (rule content_of_canonical [OF json r(1)]) (simp_all add: request_content_def)
  moreover have "request_ok (o_stroma w) npub m r ?c"
  proof -
    have c: "dget ?c ''issued_at'' = VInt t0" "dget ?c ''expires_at'' = VInt (t0 + request_ttl)"
      "dget ?c ''management'' = VStr m" "dget ?c ''service'' = service_object service"
      "dget ?c ''nonce'' = VStr nonce" "dget ?c ''requested_operator'' = VStr operator"
      by (simp_all add: request_content_def)
    have "request_nonce_ok ?c = Inr ()" using check_nonce_hex [OF ok(2)] by (simp add: request_nonce_ok_def c)
    moreover have "pub_key (o_stroma w) (requested (o_stroma w) ?c) = Some (operator, opn)"
      using key(2) hex(3) strip_hex [OF hex(2)] by (simp add: requested_def c key_pair_def)
    moreover have "pub_key (o_stroma w) (strip npub) = Some (service, npub)"
      using key(1) by (simp add: key_pair_def)
    moreover have "set [[lit ''p'', operator, [], lit ''operator''],
        [lit ''expiration'', int_text (t0 + request_ttl)],
        [lit ''service-type'', lit ''nostr-relay'']] \<subseteq> set (request_tags t0 nonce operator)"
      by (simp add: request_tags_def)
    ultimately show ?thesis
      unfolding request_ok_def r c by (intro conjI exI) (assumption | simp add: py_eq_refl)+
  qed
  moreover have "valid_event w ''commissioning request'' (VDict (to_dict r)) = Inr r"
    using t by (intro valid_signed [OF st sg]) (simp add: max_clock_skew_def)
  ultimately show ?thesis using t by (auto simp: verify_request_iff r)
qed

lemma signed_attestation_verifies:
  assumes st: "stroma_ok (o_crypto w) (o_stroma w)"
    and r: "verify_commissioning_request w rd npub m cur
      = Inr (r, request_content service t0 m nonce operator)" "wf_event r" "time_of r = t0"
    and key: "key_pair (o_stroma w) service npub" "key_pair (o_stroma w) operator opn"
    and sg: "signed_by (o_crypto w) operator 30078 t1
      (canonical_json (expected_attestation r operator a m service)) tags a"
    and tags: "set [[lit ''d'', attestation_schema @ lit '':'' @ service],
      [lit ''p'', service, [], lit ''service''], [lit ''e'', ev_id r, [], lit ''commissioning-request''],
      [lit ''service-type'', lit ''nostr-relay'']] \<subseteq> set tags"
    and ok: "encodable m" "int_printable t1"
    and t: "t0 \<le> t1" "t1 \<le> t0 + request_ttl" "t1 \<le> o_now w + max_clock_skew"
  shows "verify_operator_attestation w rd (VDict (to_dict a)) npub m cur
    = Inr \<lparr>vc_request = r, vc_attestation = a, vc_operator_npub = opn\<rparr>"
proof -
  let ?x = "expected_attestation r operator a m service"
  have hex: "hex_string 64 service" using key by (simp add: key_pair_def)
  have a: "wf_event a" "ev_content a = canonical_json ?x" "ev_pubkey a = operator" "kind_of a = 30078"
    "time_of a = t1" "ev_created_at a = NInt t1" "ev_tags a = tags"
    using sg by (simp_all add: signed_by_def kind_of_def time_of_def)
  have "json_ok (VDict ?x)"
    using json_ok_expected [OF r(2) a(1) ok(1) hex] ok(2) by (simp add: a)
  then have "content_of a attestation_schema = Inr ?x"
    by (rule content_of_canonical [OF _ expected_sorted a(2)]) (simp_all add: expected_attestation_def)
  moreover have "pub_key (o_stroma w) (strip npub) = Some (service, npub)"
    "pub_key (o_stroma w) operator = Some (operator, opn)"
    using key by (simp_all add: key_pair_def)
  ultimately have "attestation_ok (o_stroma w) npub m r
      (request_content service t0 m nonce operator) a opn"
    using t tags unfolding attestation_ok_def a r(3)
    by (intro conjI exI) (assumption | simp add: request_content_def)+
  moreover have "valid_event w ''operator attestation'' (VDict (to_dict a)) = Inr a"
    using t(3) by (intro valid_signed [OF st sg]) (simp add: max_clock_skew_def)
  ultimately show ?thesis using t(3) by (auto simp: verify_attestation_iff r(1) a)
qed

lemma created_descriptor_verifies:
  assumes st: "stroma_ok (o_crypto w) (o_stroma w)"
    and key: "priv_key (o_stroma w) nsec = Some (service, npub)"
    and a: "valid_event w ''operator attestation'' ad = Inr a" "wf_event a"
    and ok: "encodable m" "int_printable t1" "t1 \<le> o_now w + max_clock_skew"
  shows "\<exists>d. create_service_descriptor w nsec ad m t1 = Inr (to_dict d)
    \<and> signed_by (o_crypto w) service 30078 t1 (canonical_json (descriptor_content service m a t1))
        (descriptor_tags a) d
    \<and> verify_service_descriptor w (VDict (to_dict d)) ad npub m = Inr d"
proof (intro exI conjI)
  let ?c = "descriptor_content service m a t1"
  let ?d = "sign_event (o_stroma w) nsec 30078 t1 (canonical_json ?c) (descriptor_tags a)"
  have kp: "key_pair (o_stroma w) service npub" using stroma_priv [OF st key] .
  then have hex: "hex_string 64 service" by (simp add: key_pair_def)
  note json = descriptor_content_ok [OF hex_string_encodable [OF hex] ok(1) a(2) ok(2)]
  show "create_service_descriptor w nsec ad m t1 = Inr (to_dict ?d)"
    by (simp add: create_service_descriptor_def key a descriptor_content_def descriptor_tags_def Let_def)
  have "encodable (ev_id a)" "encodable (ev_pubkey a)"
    using a(2) hex_string_encodable by (auto simp: wf_event_def)
  then have "list_all (list_all encodable) (descriptor_tags a)"
    by (simp add: descriptor_tags_def descriptor_schema_def)
  then show sg: "signed_by (o_crypto w) service 30078 t1 (canonical_json ?c) (descriptor_tags a) ?d"
    by (rule stroma_sign [OF st key encodable_canonical [OF json(1)]])
  then have d: "ev_content ?d = canonical_json ?c" "ev_pubkey ?d = service" "kind_of ?d = 30078"
    "ev_created_at ?d = NInt t1" "ev_tags ?d = descriptor_tags a"
    by (simp_all add: signed_by_def kind_of_def)
  have "content_of ?d descriptor_schema = Inr ?c"
    by (rule content_of_canonical [OF json d(1)]) (simp_all add: descriptor_content_def)
  moreover have "pub_key (o_stroma w) (strip npub) = Some (service, npub)"
    using kp by (simp add: key_pair_def)
  moreover have "set [[lit ''d'', descriptor_schema],
      [lit ''e'', ev_id a, [], lit ''operator-attestation'']] \<subseteq> set (descriptor_tags a)"
    by (simp add: descriptor_tags_def)
  ultimately have "descriptor_ok (o_stroma w) npub m a ?d"
    unfolding descriptor_ok_def d
    by (intro conjI exI) (assumption | simp add: descriptor_content_def py_eq_refl)+
  moreover have "valid_event w ''service descriptor'' (VDict (to_dict ?d)) = Inr ?d"
    using ok(3) by (intro valid_signed [OF st sg]) (simp add: max_clock_skew_def)
  ultimately show "verify_service_descriptor w (VDict (to_dict ?d)) ad npub m = Inr ?d"
    using a(1) by (auto simp: verify_descriptor_iff)
qed

definition attestation_tags :: "pystr \<Rightarrow> stored_event \<Rightarrow> pystr list list" where
  "attestation_tags service r =
     [[lit ''d'', attestation_schema @ lit '':'' @ service],
      [lit ''p'', service, [], lit ''service''],
      [lit ''e'', ev_id r, [], lit ''commissioning-request''],
      [lit ''t'', lit ''mainstay-service-operator''],
      [lit ''service-type'', lit ''nostr-relay'']]"

lemma attestation_tags_required:
  "set [[lit ''d'', attestation_schema @ lit '':'' @ service],
      [lit ''p'', service, [], lit ''service''], [lit ''e'', ev_id r, [], lit ''commissioning-request''],
      [lit ''service-type'', lit ''nostr-relay'']] \<subseteq> set (attestation_tags service r)"
  by (simp add: attestation_tags_def)

text \<open>C29: commissioning works: the request the service makes is accepted; the attestation the
  operator signs within the day as the program asks is accepted with it, by any clock that lags the
  operator's by at most five minutes; and the descriptor made from it verifies.\<close>

theorem commission_roundtrip:
  assumes "stroma_ok (o_crypto w) (o_stroma w)"
    and "priv_key (o_stroma w) nsec = Some (service, npub)"
    and "pub_key (o_stroma w) (strip operator_npub) = Some (operator, opn)"
    and "encodable m" "hex_string 64 nonce" "0 \<le> o_now w" "o_now w + request_ttl < 2 ^ 63"
    and "o_now w \<le> t1" "t1 \<le> o_now w + request_ttl"
    and "o_crypto w' = o_crypto w" "o_stroma w' = o_stroma w"
    and "t1 \<le> o_now w' + max_clock_skew" "o_now w' < o_now w + request_ttl"
  shows "\<exists>r. create_commissioning_request w nsec operator_npub m nonce = Inr (to_dict r)
    \<and> (\<forall>a. signed_by (o_crypto w) operator 30078 t1
            (canonical_json (expected_attestation r operator a m service)) (attestation_tags service r) a
        \<longrightarrow> verify_operator_attestation w' (VDict (to_dict r)) (VDict (to_dict a)) npub m True
              = Inr \<lparr>vc_request = r, vc_attestation = a, vc_operator_npub = opn\<rparr>
          \<and> (\<exists>d. create_service_descriptor w' nsec (VDict (to_dict a)) m t1 = Inr (to_dict d)
              \<and> verify_service_descriptor w' (VDict (to_dict d)) (VDict (to_dict a)) npub m = Inr d))"
proof (rule exI, intro conjI allI impI)
  let ?c = "request_content service (o_now w) m nonce operator"
  let ?r = "sign_event (o_stroma w) nsec 78 (o_now w) (canonical_json ?c)
    (request_tags (o_now w) nonce operator)"
  have key: "key_pair (o_stroma w) service npub" "key_pair (o_stroma w) operator opn"
    using stroma_priv [OF assms(1,2)] stroma_pub [OF assms(1,3)] by blast+
  then have enc: "encodable service" "encodable operator" "encodable nonce"
    using hex_string_encodable assms(5) by (auto simp: key_pair_def)
  have pr: "int_printable (o_now w)" "int_printable (o_now w + request_ttl)" "int_printable t1"
    using assms(6-9) by (auto intro!: int_printable_64 simp: request_ttl_def)
  show "create_commissioning_request w nsec operator_npub m nonce = Inr (to_dict ?r)"
    by (rule create_request_eq [OF assms(2,3,5)])
  have "list_all (list_all encodable) (request_tags (o_now w) nonce operator)"
    using enc by (simp add: request_tags_def request_schema_def)
  then have sg: "signed_by (o_crypto w) service 78 (o_now w) (canonical_json ?c)
      (request_tags (o_now w) nonce operator) ?r"
    using encodable_canonical request_content_ok(1) enc pr assms(4)
    by (intro stroma_sign [OF assms(1,2)]) blast+
  have r: "verify_commissioning_request w' (VDict (to_dict ?r)) npub m True = Inr (?r, ?c)"
    using assms sg key pr
    by (intro signed_request_verifies [where opn = opn]) (auto simp: max_clock_skew_def)
  fix a assume a: "signed_by (o_crypto w) operator 30078 t1
    (canonical_json (expected_attestation ?r operator a m service)) (attestation_tags service ?r) a"
  then have a': "signed_by (o_crypto w') operator 30078 t1
    (canonical_json (expected_attestation ?r operator a m service)) (attestation_tags service ?r) a"
    using assms(10) by simp
  have st': "stroma_ok (o_crypto w') (o_stroma w')" using assms(1,10,11) by simp
  have wf: "wf_event ?r" "time_of ?r = o_now w" "wf_event a"
    using sg a by (simp_all add: signed_by_def time_of_def)
  show "verify_operator_attestation w' (VDict (to_dict ?r)) (VDict (to_dict a)) npub m True
      = Inr \<lparr>vc_request = ?r, vc_attestation = a, vc_operator_npub = opn\<rparr>"
    using assms(4,8,9,11,12) key pr
    by (intro signed_attestation_verifies [OF st' r wf(1,2) _ _ a' attestation_tags_required]) auto
  have va: "valid_event w' ''operator attestation'' (VDict (to_dict a)) = Inr a"
    using assms(9,12,13) by (intro valid_signed [OF st' a']) (simp add: max_clock_skew_def)
  have k: "priv_key (o_stroma w') nsec = Some (service, npub)" using assms(2,11) by simp
  show "\<exists>d. create_service_descriptor w' nsec (VDict (to_dict a)) m t1 = Inr (to_dict d)
      \<and> verify_service_descriptor w' (VDict (to_dict d)) (VDict (to_dict a)) npub m = Inr d"
    using created_descriptor_verifies [OF st' k va wf(3) assms(4) pr(3) assms(12)] by blast
qed

section \<open>A commissioning with the two keys\<close>

definition toy_world :: "int \<Rightarrow> outside" where
  "toy_world t = \<lparr>o_crypto = lax_crypto, o_stroma = toy_stroma, o_now = t,
     o_nonce = replicate 64 102, o_unwritable = False, o_db_fault = None\<rparr>"

lemma toy_world_simps [simp]:
  "o_crypto (toy_world t) = lax_crypto" "o_stroma (toy_world t) = toy_stroma"
  "o_now (toy_world t) = t" "o_nonce (toy_world t) = replicate 64 102"
  "o_unwritable (toy_world t) = False" "o_db_fault (toy_world t) = None"
  by (simp_all add: toy_world_def)

definition toy_request :: stored_event where
  "toy_request = sign_event toy_stroma (lit ''nsec1a'') 78 1000
     (canonical_json (request_content hex_a 1000 (lit ''independent'') (replicate 64 102) hex_b))
     (request_tags 1000 (replicate 64 102) hex_b)"

definition toy_attestation :: stored_event where
  "toy_attestation = sign_event toy_stroma (lit ''nsec1b'') 30078 2000
     (canonical_json (expected_attestation toy_request hex_b (sample_event\<lparr>ev_created_at := NInt 2000\<rparr>)
        (lit ''independent'') hex_a))
     (attestation_tags hex_a toy_request)"

lemma toy_keys [simp]:
  "priv_key toy_stroma (lit ''nsec1a'') = Some (hex_a, lit ''npub1a'')"
  "priv_key toy_stroma (lit ''nsec1b'') = Some (hex_b, lit ''npub1b'')"
  by (simp_all add: toy_stroma_def toy_priv_def)

lemma toy_pub_npub [simp]:
  "pub_key toy_stroma (lit ''npub1a'') = Some (hex_a, lit ''npub1a'')"
  "pub_key toy_stroma (lit ''npub1b'') = Some (hex_b, lit ''npub1b'')"
  using toy_key_pair by (simp_all add: key_pair_def)

lemma toy_request_signed:
  "signed_by lax_crypto hex_a 78 1000
     (canonical_json (request_content hex_a 1000 (lit ''independent'') (replicate 64 102) hex_b))
     (request_tags 1000 (replicate 64 102) hex_b) toy_request"
  unfolding toy_request_def
proof (rule stroma_sign [OF toy_stroma_ok toy_keys(1)])
  have "encodable hex_a" "encodable hex_b" "encodable (replicate 64 102)"
    by (simp_all add: hex_a_def hex_b_def hex_string_encodable [OF hex_string_replicate])
  then show "list_all (list_all encodable) (request_tags 1000 (replicate 64 102) hex_b)"
    "encodable (canonical_json
       (request_content hex_a 1000 (lit ''independent'') (replicate 64 102) hex_b))"
    by (auto simp: request_tags_def request_schema_def request_ttl_def
        intro!: encodable_canonical request_content_ok int_printable_64)
qed

lemma expected_attestation_time:
  "ev_created_at a = ev_created_at b \<Longrightarrow>
    expected_attestation r p a m s = expected_attestation r p b m s"
  by (simp add: expected_attestation_def)

lemma toy_attestation_signed:
  "signed_by lax_crypto hex_b 30078 2000
     (canonical_json (expected_attestation toy_request hex_b toy_attestation (lit ''independent'') hex_a))
     (attestation_tags hex_a toy_request) toy_attestation"
proof -
  let ?b = "resigned_event\<lparr>ev_created_at := NInt 2000\<rparr>"
  have r: "wf_event toy_request" using toy_request_signed by (simp add: signed_by_def)
  then have enc: "encodable (ev_id toy_request)" "encodable hex_a" "encodable hex_b"
    using toy_key_pair hex_string_encodable by (auto simp: key_pair_def wf_event_def)
  let ?x = "expected_attestation toy_request hex_b (sample_event\<lparr>ev_created_at := NInt 2000\<rparr>)
        (lit ''independent'') hex_a"
  have "json_ok (VDict ?x)"
    using enc by (auto simp: expected_attestation_def attestation_schema_def intro: int_printable_64)
  then have "signed_by lax_crypto hex_b 30078 2000 (canonical_json ?x)
      (attestation_tags hex_a toy_request) toy_attestation"
    unfolding toy_attestation_def
    using enc by (intro stroma_sign [OF toy_stroma_ok toy_keys(2)] encodable_canonical)
      (simp_all add: attestation_tags_def attestation_schema_def)
  moreover from this have "ev_created_at toy_attestation = NInt 2000" by (simp add: signed_by_def)
  then have "?x = expected_attestation toy_request hex_b toy_attestation (lit ''independent'') hex_a"
    by (intro expected_attestation_time) simp
  ultimately show ?thesis by simp
qed

lemma toy_verified:
  assumes "2000 \<le> t + max_clock_skew" "t < 1000 + request_ttl"
  shows "verify_operator_attestation (toy_world t) (VDict (to_dict toy_request))
      (VDict (to_dict toy_attestation)) (lit ''npub1a'') (lit ''independent'') True
    = Inr \<lparr>vc_request = toy_request, vc_attestation = toy_attestation,
        vc_operator_npub = lit ''npub1b''\<rparr>"
proof -
  have pr: "int_printable 1000" "int_printable 2000" "int_printable (1000 + request_ttl)"
    by (auto intro!: int_printable_64 simp: request_ttl_def)
  have st: "stroma_ok (o_crypto (toy_world t)) (o_stroma (toy_world t))" by (simp add: toy_stroma_ok)
  have "verify_commissioning_request (toy_world t) (VDict (to_dict toy_request)) (lit ''npub1a'')
      (lit ''independent'') True
    = Inr (toy_request, request_content hex_a 1000 (lit ''independent'') (replicate 64 102) hex_b)"
    using toy_request_signed toy_key_pair pr assms
    by (intro signed_request_verifies [OF st, where opn = "lit ''npub1b''"]) simp_all
  note r = this
  have a: "wf_event toy_request" "time_of toy_request = 1000"
    using toy_request_signed by (simp_all add: signed_by_def time_of_def)
  show ?thesis
    using toy_attestation_signed toy_key_pair pr assms
    by (intro signed_attestation_verifies [OF st r a _ _ _ attestation_tags_required])
      (simp_all add: request_ttl_def)
qed

theorem authority_chain_witness:
  "\<exists>v. ev_pubkey (vc_request v) = hex_a
    \<and> validate_event lax_crypto True 3000 (VDict (to_dict toy_attestation)) = Inr (vc_attestation v)
    \<and> time_of (vc_attestation v) \<le> time_of (vc_request v) + 86400"
proof -
  have "verify_operator_attestation (toy_world 3000) (VDict (to_dict toy_request))
      (VDict (to_dict toy_attestation)) (lit ''npub1a'') (lit ''independent'') True
    = Inr \<lparr>vc_request = toy_request, vc_attestation = toy_attestation,
        vc_operator_npub = lit ''npub1b''\<rparr>"
    by (rule toy_verified) (simp_all add: max_clock_skew_def request_ttl_def)
  from authority_chain [OF this] show ?thesis
    by (simp add: toy_stroma_ok) (metis verified_commissioning.select_convs(1,2))
qed

theorem attestation_binds_witness:
  "\<exists>v1 v2. verify_operator_attestation (toy_world 3000) (VDict (to_dict toy_request))
      (VDict (to_dict toy_attestation)) (lit ''npub1a'') (lit ''independent'') True = Inr v1
    \<and> verify_operator_attestation (toy_world 4000) (VDict (to_dict toy_request))
      (VDict (to_dict toy_attestation)) (lit ''npub1a'') (lit ''independent'') True = Inr v2
    \<and> ev_id (vc_request v1) = ev_id (vc_request v2)"
proof -
  have v: "verify_operator_attestation (toy_world t) (VDict (to_dict toy_request))
      (VDict (to_dict toy_attestation)) (lit ''npub1a'') (lit ''independent'') True
    = Inr \<lparr>vc_request = toy_request, vc_attestation = toy_attestation,
        vc_operator_npub = lit ''npub1b''\<rparr>" if "t = 3000 \<or> t = 4000" for t
    using that by (intro toy_verified) (auto simp: max_clock_skew_def request_ttl_def)
  have "int_printable 2000" by (rule int_printable_64) simp_all
  then have "num_printable (ev_created_at toy_attestation)"
    using toy_attestation_signed by (simp add: signed_by_def)
  with attestation_binds [OF v v, of 3000 4000] show ?thesis
    using v by (auto simp: toy_stroma_ok)
qed

theorem commission_roundtrip_witness:
  "\<exists>r. create_commissioning_request (toy_world 1000) (lit ''nsec1a'') (lit ''npub1b'')
      (lit ''independent'') (replicate 64 102) = Inr (to_dict r)
    \<and> verify_operator_attestation (toy_world 3000) (VDict (to_dict r))
        (VDict (to_dict toy_attestation)) (lit ''npub1a'') (lit ''independent'') True
      = Inr \<lparr>vc_request = r, vc_attestation = toy_attestation, vc_operator_npub = lit ''npub1b''\<rparr>"
proof -
  have r: "create_commissioning_request (toy_world 1000) (lit ''nsec1a'') (lit ''npub1b'')
      (lit ''independent'') (replicate 64 102) = Inr (to_dict toy_request)"
    by (subst create_request_eq [where service = hex_a and operator = hex_b])
      (simp_all add: toy_request_def)
  have inj: "to_dict a = to_dict b \<Longrightarrow> a = b" for a b
    by (simp add: to_dict_inject)
  from commission_roundtrip [of "toy_world 1000" "lit ''nsec1a''" hex_a "lit ''npub1a''"
      "lit ''npub1b''" hex_b "lit ''npub1b''" "lit ''independent''" "replicate 64 102" 2000
      "toy_world 3000"] r inj toy_attestation_signed
  show ?thesis
    by (fastforce simp: toy_stroma_ok request_ttl_def max_clock_skew_def)
qed

end
