(* ===== verification/Identity.thy ===== *)
theory Identity
  imports Commissioning
begin

text \<open>
  \<open>spurline/identity.py\<close>: the service's public key and address, and the sentinel file
  \<open>service-identity.json\<close> beside the database, which ties the data directory to one identity.
\<close>

section \<open>Keys\<close>

definition service_npub :: "stroma \<Rightarrow> pystr \<Rightarrow> pystr res" where
  "service_npub st secret =
     (case priv_key st secret of
        None \<Rightarrow> Inl (ValueError (lit ''SPURLINE_SERVICE_NSEC is invalid''))
      | Some (_, npub) \<Rightarrow> Inr npub)"

definition fips_ipv6_address :: "stroma \<Rightarrow> pystr \<Rightarrow> pystr res" where
  "fips_ipv6_address st npub =
     (case fips_address st npub of
        None \<Rightarrow> Inl (ValueError (lit ''Spurline service npub is invalid''))
      | Some address \<Rightarrow> Inr address)"

section \<open>The sentinel\<close>

text \<open>
  What is found at the sentinel's path: no file, a file that cannot be read, one that is not
  UTF-8, or a text. The new text is written to a temporary file that replaces the sentinel, so
  a write that fails (\<open>unwritable\<close>) leaves it as it was.
\<close>

datatype sentinel = Missing | Unreadable | Undecodable | Text pystr

fun read_text :: "sentinel \<Rightarrow> pystr res" where
  "read_text (Text s) = Inr s"
| "read_text Undecodable = Inl UnicodeDecodeError"
| "read_text _ = Inl OSError"

abbreviation invalid_sentinel :: exc where
  "invalid_sentinel \<equiv> RuntimeError (lit ''Spurline service identity sentinel is invalid'')"

definition sentinel_text :: "pystr \<Rightarrow> pystr" where
  "sentinel_text npub =
     dumps style_default (VDict [(lit ''schema'', vlit ''org.mainstay.service-identity''),
       (lit ''npub'', VStr npub)]) @ [10]"

definition recorded_npub :: "pyval \<Rightarrow> pyval" where
  "recorded_npub v = (case v of VDict d \<Rightarrow> dget d ''npub'' | _ \<Rightarrow> VNone)"

definition check_recorded :: "pystr option \<Rightarrow> pyval \<Rightarrow> unit res" where
  "check_recorded npub recorded =
     (case recorded_npub recorded of
        VStr r \<Rightarrow>
          (if r = [] then Inl invalid_sentinel
           else case npub of
             None \<Rightarrow> Inl (RuntimeError
               (lit ''SPURLINE_SERVICE_NSEC is required for the recorded Spurline identity''))
           | Some n \<Rightarrow> ensure (r = n) (RuntimeError
               (lit ''SPURLINE_SERVICE_NSEC does not match the recorded Spurline identity'')))
      | _ \<Rightarrow> Inl invalid_sentinel)"

definition bind_service_identity :: "bool \<Rightarrow> pystr option \<Rightarrow> (sentinel, unit) act" where
  "bind_service_identity unwritable npub f =
     (if f \<noteq> Missing then
        (rbind (recast (rbind (read_text f) loads)
                  (\<lambda>x. x = OSError \<or> x = JSONDecodeError) invalid_sentinel)
           (check_recorded npub), f)
      else case npub of
        None \<Rightarrow> (Inr (), f)
      | Some n \<Rightarrow> if unwritable then (Inl OSError, f) else (Inr (), Text (sentinel_text n)))"

section \<open>Binding\<close>

lemma bind_keeps_file: "f \<noteq> Missing \<Longrightarrow> snd (bind_service_identity u npub f) = f"
  by (simp add: bind_service_identity_def)

lemma bind_creates:
  "bind_service_identity False (Some n) Missing = (Inr (), Text (sentinel_text n))"
  by (simp add: bind_service_identity_def)

text \<open>The text that was written reads back: the npub may hold any code points but surrogates.\<close>

lemma sentinel_text_reads:
  assumes "encodable npub"
  shows "loads (sentinel_text npub)
    = Inr (VDict [(lit ''schema'', vlit ''org.mainstay.service-identity''), (lit ''npub'', VStr npub)])"
  unfolding sentinel_text_def using assms by (intro loads_line) (simp add: encodable_lit)

lemma check_recorded_ok:
  "check_recorded npub v = Inr () \<longleftrightarrow> (\<exists>n. npub = Some n \<and> n \<noteq> [] \<and> recorded_npub v = VStr n)"
  by (cases "recorded_npub v"; cases npub) (auto simp: check_recorded_def ensure_def)

definition bound_to :: "sentinel \<Rightarrow> pystr \<Rightarrow> bool" where
  "bound_to f n = (f \<noteq> Missing \<and> (\<exists>v. rbind (read_text f) loads = Inr v \<and> recorded_npub v = VStr n))"

lemma bind_binds:
  assumes "bind_service_identity u (Some n) f = (Inr (), f')" "encodable n"
  shows "bound_to f' n"
proof (cases "f = Missing")
  case True
  then show ?thesis
    using assms sentinel_text_reads [OF assms(2)]
    by (auto simp: bound_to_def bind_service_identity_def recorded_npub_def dget_def split: if_splits)
next
  case False
  then show ?thesis
    using assms
    by (auto simp: bound_to_def bind_service_identity_def rbind_eq_Inr recast_eq_Inr
        check_recorded_ok split: if_splits)
qed

lemma bind_bound:
  "bound_to f n \<Longrightarrow> n \<noteq> [] \<Longrightarrow> fst (bind_service_identity u k f) = Inr () \<longleftrightarrow> k = Some n"
  by (cases k) (auto simp: bound_to_def bind_service_identity_def check_recorded_ok)

lemma bind_bound_keeps: "bound_to f n \<Longrightarrow> snd (bind_service_identity u k f) = f"
  by (simp add: bound_to_def bind_keeps_file)

lemma bind_again:
  "bound_to f n \<Longrightarrow> n \<noteq> [] \<Longrightarrow> bind_service_identity u (Some n) f = (Inr (), f)"
  using bind_bound [of f n u "Some n"] bind_bound_keeps [of f n u "Some n"]
  by (metis prod.collapse)

text \<open>C31: once a start has bound the data directory to a public key, no later start changes the
  sentinel, whatever its key and whether files can be written, and only a start with the same key
  succeeds.\<close>

theorem identity_binding:
  assumes "bind_service_identity unwritable (Some n) f = (Inr (), f')" "encodable n" "n \<noteq> []"
  shows "fold (\<lambda>(u, k) g. snd (bind_service_identity u k g)) starts f' = f'
    \<and> (fst (bind_service_identity u k f') = Inr () \<longleftrightarrow> k = Some n)"
proof -
  note b = bind_binds [OF assms(1,2)]
  have "fold (\<lambda>(u, k) g. snd (bind_service_identity u k g)) starts f' = f'"
    using bind_bound_keeps [OF b] by (induction starts) auto
  with bind_bound [OF b assms(3)] show ?thesis by blast
qed

theorem identity_binding_witness:
  "fst (bind_service_identity False (Some (lit ''npub1a'')) (Text (sentinel_text (lit ''npub1a'')))) = Inr ()
   \<and> fst (bind_service_identity False (Some (lit ''npub1b'')) (Text (sentinel_text (lit ''npub1a'')))) \<noteq> Inr ()"
proof -
  have e: "encodable (lit ''npub1a'')" by (simp add: encodable_lit)
  show ?thesis
    using identity_binding [OF bind_creates e, where u = False and k = "Some (lit ''npub1a'')"]
      identity_binding [OF bind_creates e, where u = False and k = "Some (lit ''npub1b'')"]
    by simp
qed

end
