(* ===== verification/Config.thy ===== *)
theory Config
  imports Identity
begin

text \<open>
  \<open>spurline/config.py\<close>: the settings, the checks of \<open>__post_init__\<close> and how they are read from
  the environment. A path is its text.
\<close>

section \<open>Settings\<close>

record settings =
  host :: pystr
  port :: int
  database_path :: pystr
  verify_signatures :: bool
  public_url :: "pystr option"
  service_nsec :: "pystr option"
  service_management :: pystr
  witness_enabled :: bool
  witness_clock_file :: "pystr option"
  witness_clock_mode :: pystr
  witness_queue_limit :: int
  witness_max_delay_seconds :: int

definition clock_modes :: "pystr list" where
  "clock_modes = [lit ''bounded'', lit ''operational'', lit ''system'']"

definition management_modes :: "pystr list" where
  "management_modes = [lit ''independent'', lit ''mainstay-managed'']"

text \<open>\<open>if self.service_nsec\<close>: neither \<open>None\<close> nor empty.\<close>

definition the_key :: "settings \<Rightarrow> pystr option" where
  "the_key s = (case service_nsec s of Some k \<Rightarrow> (if k = [] then None else Some k) | None \<Rightarrow> None)"

definition post_init :: "stroma \<Rightarrow> settings \<Rightarrow> settings res" where
  "post_init st s =
     (if witness_clock_mode s \<notin> set clock_modes
        then Inl (ValueError (lit ''SPURLINE_WITNESS_CLOCK_MODE must be bounded, operational or system''))
      else if witness_enabled s \<and> the_key s = None
        then Inl (ValueError (lit ''witnessing requires a service key''))
      else if witness_enabled s \<and> witness_clock_mode s \<noteq> lit ''system'' \<and> witness_clock_file s = None
        then Inl (ValueError (lit ''monitored witnessing requires SPURLINE_WITNESS_CLOCK_FILE''))
      else if witness_queue_limit s < 1 \<or> witness_max_delay_seconds s < 1
        then Inl (ValueError (lit ''witness queue and delay limits must be positive''))
      else if service_management s \<notin> set management_modes
        then Inl (ValueError (lit ''unsupported Spurline service management mode''))
      else if service_management s = lit ''mainstay-managed'' \<and> the_key s = None
        then Inl (ValueError (lit ''mainstay-managed Spurline requires SPURLINE_SERVICE_NSEC''))
      else case the_key s of
        None \<Rightarrow> Inr s
      | Some k \<Rightarrow> rbind (service_npub st k) (\<lambda>_. Inr s))"

definition witness_receipt_version :: "settings \<Rightarrow> int res" where
  "witness_receipt_version s =
     (if witness_clock_mode s = lit ''bounded'' then Inr 1
      else if witness_clock_mode s = lit ''operational'' then Inr 2
      else if witness_clock_mode s = lit ''system'' then Inr 3
      else Inl KeyError)"

definition settings_npub :: "stroma \<Rightarrow> settings \<Rightarrow> pystr option res" where
  "settings_npub st s =
     (case the_key s of
        None \<Rightarrow> Inr None
      | Some k \<Rightarrow> rbind (service_npub st k) (\<lambda>npub. Inr (Some npub)))"

definition service_fips_ipv6_address :: "stroma \<Rightarrow> settings \<Rightarrow> pystr option res" where
  "service_fips_ipv6_address st s =
     rbind (settings_npub st s) (\<lambda>npub.
       case npub of
         Some n \<Rightarrow> if n = [] then Inr None
                   else rbind (fips_ipv6_address st n) (\<lambda>a. Inr (Some a))
       | None \<Rightarrow> Inr None)"

section \<open>The environment\<close>

text \<open>
  \<open>int(text)\<close> of a decimal integer: white space around it, a sign, single underscores between
  digits. Decimal digits outside ASCII are not modelled.
\<close>

fun plain_digits :: "bool \<Rightarrow> pystr \<Rightarrow> pystr option" where
  "plain_digits after_digit [] = (if after_digit then Some [] else None)"
| "plain_digits after_digit (c # s) =
     (if digit c then map_option (Cons c) (plain_digits True s)
      else if c = 95 \<and> after_digit then plain_digits False s
      else None)"

definition py_int :: "pystr \<Rightarrow> int res" where
  "py_int text =
     (let (neg, body) = (case strip text of
            c # s \<Rightarrow> if c = 45 then (True, s) else if c = 43 then (False, s) else (False, c # s)
          | [] \<Rightarrow> (False, []))
      in case plain_digits False body of
           None \<Rightarrow> Inl (ValueError (lit ''invalid literal for int() with base 10''))
         | Some ds \<Rightarrow>
             if 4300 < length ds then Inl (ValueError (lit ''Exceeds the limit (4300 digits)''))
             else Inr (if neg then - int (digits_val ds) else int (digits_val ds)))"

definition ascii_lower :: "pystr \<Rightarrow> pystr" where
  "ascii_lower s = map (\<lambda>c. if 65 \<le> c \<and> c \<le> 90 then c + 32 else c) s"

text \<open>
  \<open>_env_bool\<close>: no character outside ASCII has a letter of the four words as its lower case, so
  \<open>ascii_lower\<close> decides the test as \<open>str.lower\<close> does.
\<close>

definition env_bool :: "pystr option \<Rightarrow> bool \<Rightarrow> bool" where
  "env_bool raw fallback =
     (case raw of
        None \<Rightarrow> fallback
      | Some r \<Rightarrow> ascii_lower r \<notin> set [lit ''0'', lit ''false'', lit ''no'', lit ''off''])"

text \<open>\<open>os.getenv(name, fallback)\<close> and \<open>os.getenv(name) or None\<close>\<close>

definition env_or :: "(pystr \<Rightarrow> pystr option) \<Rightarrow> string \<Rightarrow> string \<Rightarrow> pystr" where
  "env_or env name fallback = (case env (lit name) of None \<Rightarrow> lit fallback | Some v \<Rightarrow> v)"

definition env_nonempty :: "(pystr \<Rightarrow> pystr option) \<Rightarrow> string \<Rightarrow> pystr option" where
  "env_nonempty env name =
     (case env (lit name) of Some v \<Rightarrow> (if v = [] then None else Some v) | None \<Rightarrow> None)"

definition from_env :: "stroma \<Rightarrow> (pystr \<Rightarrow> pystr option) \<Rightarrow> settings res" where
  "from_env st env =
     rbind (py_int (env_or env ''SPURLINE_WITNESS_QUEUE_LIMIT'' ''1000'')) (\<lambda>queue_limit.
     rbind (py_int (env_or env ''SPURLINE_WITNESS_MAX_DELAY_SECONDS'' ''60'')) (\<lambda>max_delay.
     rbind (py_int (env_or env ''SPURLINE_PORT'' ''8080'')) (\<lambda>port'.
       post_init st
         \<lparr>host = env_or env ''SPURLINE_HOST'' ''127.0.0.1'',
          port = port',
          database_path = env_or env ''SPURLINE_DATABASE'' ''spurline.sqlite3'',
          verify_signatures = env_bool (env (lit ''SPURLINE_VERIFY_SIGNATURES'')) True,
          public_url = env_nonempty env ''SPURLINE_PUBLIC_URL'',
          service_nsec = env_nonempty env ''SPURLINE_SERVICE_NSEC'',
          service_management = env_or env ''SPURLINE_SERVICE_MANAGEMENT'' ''independent'',
          witness_enabled = env_bool (env (lit ''SPURLINE_WITNESS_ENABLED'')) False,
          witness_clock_file = env_nonempty env ''SPURLINE_WITNESS_CLOCK_FILE'',
          witness_clock_mode = env_or env ''SPURLINE_WITNESS_CLOCK_MODE'' ''bounded'',
          witness_queue_limit = queue_limit,
          witness_max_delay_seconds = max_delay\<rparr>)))"

section \<open>What the settings promise\<close>

definition settings_ok :: "stroma \<Rightarrow> settings \<Rightarrow> bool" where
  "settings_ok st s =
     (witness_clock_mode s \<in> set clock_modes
      \<and> service_management s \<in> set management_modes
      \<and> 1 \<le> witness_queue_limit s \<and> 1 \<le> witness_max_delay_seconds s
      \<and> (case the_key s of
           None \<Rightarrow> \<not> witness_enabled s \<and> service_management s = lit ''independent''
         | Some k \<Rightarrow> priv_key st k \<noteq> None)
      \<and> \<not> (witness_enabled s \<and> witness_clock_mode s \<noteq> lit ''system'' \<and> witness_clock_file s = None))"

lemma post_init_iff: "post_init st s = Inr s' \<longleftrightarrow> s' = s \<and> settings_ok st s"
  by (auto simp: post_init_def settings_ok_def management_modes_def service_npub_def
      split: option.splits if_splits)

lemma post_init_error: "post_init st s = Inl x \<Longrightarrow> \<exists>m. x = ValueError m"
  by (auto simp: post_init_def service_npub_def split: option.splits if_splits)

lemma py_int_error: "py_int s = Inl x \<Longrightarrow> \<exists>m. x = ValueError m"
  by (auto simp: py_int_def Let_def split: option.splits if_splits list.splits prod.splits)

lemma settings_ok_npub: "settings_ok st s \<Longrightarrow> \<exists>npub. settings_npub st s = Inr npub"
  by (auto simp: settings_ok_def settings_npub_def service_npub_def split: option.splits)

lemma settings_ok_version: "settings_ok st s \<Longrightarrow> \<exists>v \<in> {1, 2, 3}. witness_receipt_version s = Inr v"
  by (auto simp: settings_ok_def witness_receipt_version_def clock_modes_def)

lemma from_env_cases:
  "(\<exists>s. from_env st env = Inr s \<and> settings_ok st s) \<or> (\<exists>m. from_env st env = Inl (ValueError m))"
proof (cases "from_env st env")
  case (Inl x)
  then have "\<exists>m. x = ValueError m"
    unfolding from_env_def rbind_eq_Inl using py_int_error post_init_error by blast
  with Inl show ?thesis by simp
next
  case (Inr s)
  then show ?thesis by (auto simp: from_env_def rbind_eq_Inr post_init_iff)
qed

text \<open>Whatever the environment, reading the settings either raises \<open>ValueError\<close> or gives
  settings of the right type: a known clock mode and management mode, positive limits, a key that
  stroma can read whenever one is set, a key and a clock source whenever witnessing is on; so the
  public key and the receipt version derived from them later never raise.\<close>

theorem settings_type:
  "case from_env st env of
     Inl x \<Rightarrow> \<exists>m. x = ValueError m
   | Inr s \<Rightarrow> settings_ok st s \<and> (\<exists>npub. settings_npub st s = Inr npub)
       \<and> (\<exists>v \<in> {1, 2, 3}. witness_receipt_version s = Inr v)"
  using from_env_cases [of st env]
proof
  assume "\<exists>s. from_env st env = Inr s \<and> settings_ok st s"
  then obtain s where "from_env st env = Inr s" "settings_ok st s" by blast
  with settings_ok_npub settings_ok_version show ?thesis by simp
qed auto

end
