(* ===== verification/Service.thy ===== *)
theory Service
  imports Commissioning_Spec Config
begin

text \<open>
  \<open>spurline/service.py\<close>: the administrative database beside the event store and the operations
  of \<open>ServiceCommissioning\<close> on it. The tables of \<open>witness.py\<close>, in the same file, are fields of the
  same record.
\<close>

section \<open>The administrative files\<close>

text \<open>
  The sentinel file and the database: whether its file exists, the row of \<open>commissioning\<close> (the
  outer option: the table), the row of \<open>witness_authorization\<close> (\<open>None\<close> also when the table does not
  exist), and the rows of \<open>witness_history\<close> by sequence and of \<open>witness_controls\<close> by id, if the
  tables exist.
\<close>

record admin =
  sentinel_file :: sentinel
  db_file :: bool
  commissioning_table :: "pystr option option"
  authorization_row :: "pystr option"
  history_table :: "(int \<times> pystr) list option"
  controls_table :: "(pystr \<times> pystr \<times> int) list option"

definition no_admin :: admin where
  "no_admin = \<lparr>sentinel_file = Missing, db_file = False, commissioning_table = None,
     authorization_row = None, history_table = None, controls_table = None\<rparr>"

text \<open>
  \<open>connection\<close>: a writing one creates the file and the commissioning table and commits that,
  then runs the body in a transaction, which an exception rolls back; the sentinel is no part of
  the database.
\<close>

definition open_for_writing :: "admin \<Rightarrow> admin" where
  "open_for_writing a =
     a\<lparr>db_file := True,
       commissioning_table := (case commissioning_table a of None \<Rightarrow> Some None | t \<Rightarrow> t)\<rparr>"

definition connection :: "outside \<Rightarrow> bool \<Rightarrow> (admin, 'a) act \<Rightarrow> (admin, 'a) act" where
  "connection w write body a =
     (case o_db_fault w of
        Some x \<Rightarrow> (Inl x, a)
      | None \<Rightarrow>
          let start = (if write then open_for_writing a else a) in
          (case body start of
             (Inl x, a') \<Rightarrow> (Inl x, start\<lparr>sentinel_file := sentinel_file a'\<rparr>)
           | (Inr r, a') \<Rightarrow> (Inr r, a')))"

definition bind_identity :: "outside \<Rightarrow> pystr option \<Rightarrow> (admin, unit) act" where
  "bind_identity w npub a =
     (case bind_service_identity (o_unwritable w) npub (sentinel_file a) of
        (x, f) \<Rightarrow> (x, a\<lparr>sentinel_file := f\<rparr>))"

section \<open>Commissioning state\<close>

definition load_commissioning :: "admin \<Rightarrow> pydict res" where
  "load_commissioning a =
     (case commissioning_table a of
        None \<Rightarrow> Inl SqliteError
      | Some None \<Rightarrow> Inr []
      | Some (Some text) \<Rightarrow>
          rbind (recast (loads text) is_value_error (CE ''stored commissioning evidence is invalid''))
            (\<lambda>data. case data of
               VDict d \<Rightarrow> Inr d
             | _ \<Rightarrow> Inl (CE ''stored commissioning evidence is invalid'')))"

definition write_commissioning :: "pydict \<Rightarrow> (admin, unit) act" where
  "write_commissioning evidence =
     amodify (\<lambda>a. a\<lparr>commissioning_table := Some (Some (canonical_json evidence))\<rparr>)"

text \<open>\<open>_identity\<close>: the npub; the management mode is that of the settings.\<close>

definition service_identity :: "outside \<Rightarrow> settings \<Rightarrow> (admin, pystr) act" where
  "service_identity w s =
     abind (alift (settings_npub (o_stroma w) s)) (\<lambda>npub.
       if npub = None \<or> npub = Some [] then araise (CE ''SPURLINE_SERVICE_NSEC is required'')
       else abind (bind_identity w npub) (\<lambda>_. areturn (the npub)))"

text \<open>The key the service signs with; \<open>_identity\<close> has required it before.\<close>

definition own_key :: "settings \<Rightarrow> pystr" where
  "own_key s = (case service_nsec s of Some k \<Rightarrow> k | None \<Rightarrow> [])"

record commissioned =
  cm_operator_npub :: pystr
  cm_request_id :: pystr
  cm_attestation_id :: pystr
  cm_descriptor_id :: pystr

definition commissioned_dict :: "commissioned \<Rightarrow> pydict" where
  "commissioned_dict c =
     [(lit ''state'', vlit ''commissioned''),
      (lit ''service_key_control'', vlit ''verified''),
      (lit ''operator_authorship'', vlit ''verified''),
      (lit ''reciprocal_relationship'', vlit ''verified''),
      (lit ''operator_npub'', VStr (cm_operator_npub c)),
      (lit ''commissioning_request_event_id'', VStr (cm_request_id c)),
      (lit ''operator_attestation_event_id'', VStr (cm_attestation_id c)),
      (lit ''service_descriptor_event_id'', VStr (cm_descriptor_id c))]"

definition check_evidence ::
  "outside \<Rightarrow> pydict \<Rightarrow> pystr \<Rightarrow> pystr \<Rightarrow> commissioned res" where
  "check_evidence w evidence npub management =
     (if set (map fst evidence)
         \<noteq> {lit ''commissioning_request'', lit ''operator_attestation'', lit ''service_descriptor''}
      then Inl (CE ''service is not commissioned or evidence is incomplete'')
      else
        rbind (verify_operator_attestation w (dget evidence ''commissioning_request'')
                 (dget evidence ''operator_attestation'') npub management False) (\<lambda>verified.
        rbind (verify_service_descriptor w (dget evidence ''service_descriptor'')
                 (dget evidence ''operator_attestation'') npub management) (\<lambda>descriptor.
        Inr \<lparr>cm_operator_npub = vc_operator_npub verified,
             cm_request_id = ev_id (vc_request verified),
             cm_attestation_id = ev_id (vc_attestation verified),
             cm_descriptor_id = ev_id descriptor\<rparr>)))"

definition verify_evidence :: "outside \<Rightarrow> settings \<Rightarrow> pydict \<Rightarrow> (admin, commissioned) act" where
  "verify_evidence w s evidence =
     abind (service_identity w s) (\<lambda>npub.
       alift (check_evidence w evidence npub (service_management s)))"

section \<open>Operations\<close>

datatype service_state = Unconfigured | Uncommissioned | Commissioning_Pending | Commissioned commissioned

fun state_dict :: "service_state \<Rightarrow> pydict" where
  "state_dict Unconfigured = [(lit ''state'', vlit ''unconfigured'')]"
| "state_dict Uncommissioned = [(lit ''state'', vlit ''uncommissioned'')]"
| "state_dict Commissioning_Pending = [(lit ''state'', vlit ''commissioning-pending'')]"
| "state_dict (Commissioned c) = commissioned_dict c"

definition service_show :: "outside \<Rightarrow> settings \<Rightarrow> (admin, service_state \<times> pydict) act" where
  "service_show w s =
     abind (\<lambda>a. if db_file a then connection w False (areads load_commissioning) a else (Inr [], a))
       (\<lambda>evidence.
         if has_key (lit ''operator_attestation'') evidence \<or> has_key (lit ''service_descriptor'') evidence
         then abind (verify_evidence w s evidence) (\<lambda>c. areturn (Commissioned c, evidence))
         else if evidence \<noteq> []
         then abind (service_identity w s) (\<lambda>npub.
              abind (alift (verify_commissioning_request w (dget evidence ''commissioning_request'')
                        npub (service_management s) False))
                (\<lambda>_. areturn (Commissioning_Pending, evidence)))
         else abind (alift (settings_npub (o_stroma w) s)) (\<lambda>npub.
              areturn (if npub = None \<or> npub = Some [] then Unconfigured else Uncommissioned, evidence)))"

text \<open>The transactions of \<open>request\<close> and \<open>commission\<close>.\<close>

definition request_body :: "outside \<Rightarrow> settings \<Rightarrow> pystr \<Rightarrow> (admin, pydict) act" where
  "request_body w s operator_npub =
     abind (areads load_commissioning) (\<lambda>existing.
       if has_key (lit ''operator_attestation'') existing
       then araise (CE ''service is already commissioned'')
       else abind (alift (create_commissioning_request w (own_key s) operator_npub
                      (service_management s) (o_nonce w))) (\<lambda>event.
            abind (write_commissioning [(lit ''commissioning_request'', VDict event)])
              (\<lambda>_. areturn event)))"

definition service_request :: "outside \<Rightarrow> settings \<Rightarrow> pystr \<Rightarrow> (admin, pydict) act" where
  "service_request w s operator_npub =
     abind (service_identity w s) (\<lambda>_. connection w True (request_body w s operator_npub))"

definition accept_attestation ::
  "outside \<Rightarrow> settings \<Rightarrow> pystr \<Rightarrow> pyval \<Rightarrow> pydict \<Rightarrow> (admin, commissioned \<times> pydict) act" where
  "accept_attestation w s npub attestation evidence =
     abind (alift (verify_operator_attestation w (dget evidence ''commissioning_request'')
              attestation npub (service_management s) True)) (\<lambda>verified.
     abind (alift (create_service_descriptor w (own_key s) attestation
              (service_management s) (time_of (vc_attestation verified)))) (\<lambda>descriptor.
     let evidence' = dict_set (lit ''service_descriptor'') (VDict descriptor)
           (dict_set (lit ''operator_attestation'') attestation evidence)
     in abind (verify_evidence w s evidence') (\<lambda>c.
        abind (write_commissioning evidence') (\<lambda>_. areturn (c, evidence')))))"

definition commission_body ::
  "outside \<Rightarrow> settings \<Rightarrow> pystr \<Rightarrow> pyval \<Rightarrow> (admin, commissioned \<times> pydict) act" where
  "commission_body w s npub attestation =
     abind (areads load_commissioning) (\<lambda>evidence.
       if has_key (lit ''operator_attestation'') evidence then
         (if \<not> py_eq (dget evidence ''operator_attestation'') attestation
          then araise (CE ''service is already commissioned'')
          else abind (verify_evidence w s evidence) (\<lambda>c. areturn (c, evidence)))
       else if \<not> has_key (lit ''commissioning_request'') evidence
       then araise (CE ''no service commissioning request is pending'')
       else accept_attestation w s npub attestation evidence)"

definition service_commission ::
  "outside \<Rightarrow> settings \<Rightarrow> pyval \<Rightarrow> (admin, commissioned \<times> pydict) act" where
  "service_commission w s attestation =
     abind (service_identity w s) (\<lambda>npub. connection w True (commission_body w s npub attestation))"

definition service_verify :: "outside \<Rightarrow> settings \<Rightarrow> (admin, commissioned) act" where
  "service_verify w s a =
     (if \<not> db_file a then (Inl (CE ''service is not commissioned''), a)
      else connection w False
        (abind (areads load_commissioning) (verify_evidence w s)) a)"

end
