(* ===== verification/Py_Utf8.thy ===== *)
theory Py_Utf8
  imports Py_Bytes
begin

text \<open>
  Decoding bytes as UTF-8, and that it undoes the encoding.
\<close>

section \<open>The decoder\<close>

text \<open>\<open>raw.decode("utf-8")\<close>: no overlong forms, no surrogates, nothing above U+10FFFF.\<close>

definition continuation :: "nat \<Rightarrow> bool" where
  "continuation b = (128 \<le> b \<and> b < 192)"

fun decode_utf8 :: "nat list \<Rightarrow> pystr res" where
  "decode_utf8 [] = Inr []"
| "decode_utf8 (a # s) =
     (if a < 128 then rbind (decode_utf8 s) (\<lambda>t. Inr (a # t))
      else if 192 \<le> a \<and> a < 224 then
        (case s of
           b # s' \<Rightarrow>
             (let c = (a - 192) * 64 + (b - 128) in
              if continuation b \<and> 128 \<le> c then rbind (decode_utf8 s') (\<lambda>t. Inr (c # t))
              else Inl UnicodeDecodeError)
         | _ \<Rightarrow> Inl UnicodeDecodeError)
      else if 224 \<le> a \<and> a < 240 then
        (case s of
           b # b' # s' \<Rightarrow>
             (let c = (a - 224) * 4096 + (b - 128) * 64 + (b' - 128) in
              if continuation b \<and> continuation b' \<and> 2048 \<le> c \<and> scalar c
              then rbind (decode_utf8 s') (\<lambda>t. Inr (c # t)) else Inl UnicodeDecodeError)
         | _ \<Rightarrow> Inl UnicodeDecodeError)
      else if 240 \<le> a \<and> a < 248 then
        (case s of
           b # b' # b'' # s' \<Rightarrow>
             (let c = (a - 240) * 262144 + (b - 128) * 4096 + (b' - 128) * 64 + (b'' - 128) in
              if continuation b \<and> continuation b' \<and> continuation b'' \<and> 65536 \<le> c \<and> scalar c
              then rbind (decode_utf8 s') (\<lambda>t. Inr (c # t)) else Inl UnicodeDecodeError)
         | _ \<Rightarrow> Inl UnicodeDecodeError)
      else Inl UnicodeDecodeError)"

declare decode_utf8.simps(2) [simp del]

definition utf8_decode :: "byte list \<Rightarrow> pystr res" where
  "utf8_decode raw = decode_utf8 (map unat raw)"

section \<open>It undoes the encoding\<close>

lemma decode_two:
  assumes "q < 32" "x < 64" "128 \<le> q * 64 + x"
  shows "decode_utf8 ((192 + q) # (128 + x) # s) = rbind (decode_utf8 s) (\<lambda>t. Inr ((q * 64 + x) # t))"
  using assms by (simp add: decode_utf8.simps(2) continuation_def)

lemma decode_three:
  assumes "r < 16" "y < 64" "x < 64" "2048 \<le> r * 4096 + y * 64 + x" "scalar (r * 4096 + y * 64 + x)"
  shows "decode_utf8 ((224 + r) # (128 + y) # (128 + x) # s)
    = rbind (decode_utf8 s) (\<lambda>t. Inr ((r * 4096 + y * 64 + x) # t))"
  using assms by (simp add: decode_utf8.simps(2) continuation_def)

lemma decode_four:
  assumes "p < 8" "z < 64" "y < 64" "x < 64" "65536 \<le> p * 262144 + z * 4096 + y * 64 + x"
    "scalar (p * 262144 + z * 4096 + y * 64 + x)"
  shows "decode_utf8 ((240 + p) # (128 + z) # (128 + y) # (128 + x) # s)
    = rbind (decode_utf8 s) (\<lambda>t. Inr ((p * 262144 + z * 4096 + y * 64 + x) # t))"
  using assms by (simp add: decode_utf8.simps(2) continuation_def)

lemma div_chain: "(c::nat) div 4096 = c div 64 div 64" "c div 262144 = c div 64 div 64 div 64"
  by (simp_all add: div_mult2_eq [symmetric])

lemma decode_char:
  assumes "scalar c"
  shows "decode_utf8 (utf8_char c @ s) = rbind (decode_utf8 s) (\<lambda>t. Inr (c # t))"
proof -
  define q r p where q: "q = c div 64" and r: "r = q div 64" and p: "p = r div 64"
  define x y z where x: "x = c mod 64" and y: "y = q mod 64" and z: "z = r mod 64"
  have c: "q * 64 + x = c" "r * 64 + y = q" "p * 64 + z = r"
    by (simp_all only: q r p x y z div_mult_mod_eq)
  have m: "x < 64" "y < 64" "z < 64" by (simp_all add: x y z)
  have sums: "r * 4096 + y * 64 + x = c" "p * 262144 + z * 4096 + y * 64 + x = c"
    using c by linarith+
  have char: "utf8_char c =
     (if c < 128 then [c] else if c < 2048 then [192 + q, 128 + x]
      else if c < 65536 then [224 + r, 128 + y, 128 + x]
      else [240 + p, 128 + z, 128 + y, 128 + x])"
    by (simp only: utf8_char_def div_chain q r p x y z)
  consider "c < 128" | "128 \<le> c" "c < 2048" | "2048 \<le> c" "c < 65536" | "65536 \<le> c" "c < 1114112"
    using assms unfolding scalar_def by linarith
  then show ?thesis
  proof cases
    case 1
    then show ?thesis by (simp add: char decode_utf8.simps(2))
  next
    case 2
    then have "q < 32" using c m by linarith
    with 2 show ?thesis using decode_two [of q x s] m c(1) by (simp add: char)
  next
    case 3
    then have "r < 16" using sums m by linarith
    with 3 show ?thesis using decode_three [of r y x s] m sums(1) assms by (simp add: char)
  next
    case 4
    then have "p < 8" using sums m by linarith
    with 4 show ?thesis using decode_four [of p z y x s] m sums(2) assms by (simp add: char)
  qed
qed

theorem utf8_decode_encode: "utf8_encode s = Inr raw \<Longrightarrow> utf8_decode raw = Inr s"
proof -
  assume "utf8_encode s = Inr raw"
  then have e: "encodable s" and raw: "raw = map word_of_nat (concat (map utf8_char s))"
    by (auto simp: utf8_encode_def split: if_splits)
  have "map (unat \<circ> (word_of_nat :: nat \<Rightarrow> byte)) (concat (map utf8_char s)) = concat (map utf8_char s)"
    using e by (intro map_idI) (auto simp: encodable_def list_all_iff dest!: utf8_char_bytes
        simp: unsigned_of_nat take_bit_nat_eq_self)
  moreover have "decode_utf8 (concat (map utf8_char s)) = Inr s"
    using e by (induction s) (simp_all add: decode_char)
  ultimately show ?thesis by (simp add: utf8_decode_def raw)
qed

end
