(* ===== verification/Witness_Documents.thy ===== *)
theory Witness_Documents
  imports Service Py_Utf8
begin

text \<open>
  The signed documents of \<open>spurline/witness.py\<close>: the witness request of the service, the
  operator's authorization and revocation, and how each is verified.
\<close>

section \<open>Constants\<close>

definition witness_request_schema :: pystr where
  "witness_request_schema = lit ''org.spurline.witness-authorization-request''"

definition authorization_schema :: pystr where
  "authorization_schema = lit ''org.spurline.witness-authorization''"

definition witness_role :: pystr where
  "witness_role = lit ''observation-witness''"

definition max_policy_bytes :: nat where
  "max_policy_bytes = 256 * 1024"

definition max_validity_seconds :: int where
  "max_validity_seconds = 365 * 24 * 60 * 60"

text \<open>
  Whom the documents are about: the commissioned operator and its attestation, the service's
  npub and its management mode.
\<close>

record grantor =
  gr_operator_npub :: pystr
  gr_attestation_id :: pystr
  gr_npub :: pystr
  gr_management :: pystr

definition public_hex :: "stroma \<Rightarrow> pystr \<Rightarrow> pystr res" where
  "public_hex st k = (case pub_key st k of None \<Rightarrow> Inl StromaKeyError | Some (hex, _) \<Rightarrow> Inr hex)"

section \<open>Reading a document\<close>

abbreviation bad_content :: exc where
  "bad_content \<equiv> CE ''invalid witness schema or canonical content''"

definition witness_content :: "stored_event \<Rightarrow> pystr \<Rightarrow> pydict res" where
  "witness_content e schema =
     rbind (recast (loads (ev_content e)) (\<lambda>x. is_value_error x \<or> x = TypeError) bad_content) (\<lambda>v.
       case v of
         VDict body \<Rightarrow>
           (if dget body ''schema'' \<noteq> VStr schema
               \<or> as_int (dget body ''schema_version'') \<notin> {Some 1, Some 2}
               \<or> canonical_json body \<noteq> ev_content e
            then Inl bad_content else Inr body)
       | _ \<Rightarrow> Inl bad_content)"

definition need_integer :: "pyval \<Rightarrow> string \<Rightarrow> int res" where
  "need_integer v label =
     (case as_int v of
        None \<Rightarrow> Inl (CommissioningError (lit label @ lit '' must be an integer''))
      | Some i \<Rightarrow> Inr i)"

section \<open>The request\<close>

text \<open>A nonempty list of distinct kinds among 1415 and 1416 in ascending order.\<close>

definition valid_kinds :: "pyval \<Rightarrow> bool" where
  "valid_kinds v = (v \<in> set [VList [VInt 1415], VList [VInt 1416], VList [VInt 1415, VInt 1416]])"

definition expected_request ::
  "grantor \<Rightarrow> pydict \<Rightarrow> pystr \<Rightarrow> pystr \<Rightarrow> int \<Rightarrow> int \<Rightarrow> int \<Rightarrow> int \<Rightarrow> pystr \<Rightarrow> pydict" where
  "expected_request g content service_hex operator_hex issued expires start end' policy_digest =
     [(lit ''schema'', VStr witness_request_schema),
      (lit ''schema_version'', dget content ''schema_version''),
      (lit ''role'', VStr witness_role), (lit ''service'', service_object service_hex),
      (lit ''requested_operator'', VStr operator_hex), (lit ''management'', VStr (gr_management g)),
      (lit ''commissioning_attestation'', VStr (gr_attestation_id g)),
      (lit ''issued_at'', VInt issued), (lit ''expires_at'', VInt expires),
      (lit ''nonce'', dget content ''nonce''),
      (lit ''not_before'', VInt start), (lit ''not_after'', VInt end'),
      (lit ''subject_kinds'', dget content ''subject_kinds''),
      (lit ''policy_sha256'', VStr policy_digest)]"

text \<open>The renewal fields of a version 2 request.\<close>

definition renewal_fields :: "pydict \<Rightarrow> pydict res" where
  "renewal_fields content =
     (if as_int (dget content ''schema_version'') = Some 2 then
        rbind (need_integer (dget content ''sequence'') ''sequence'') (\<lambda>sequence.
          if sequence < 2 \<or> \<not> is_hex (dget content ''previous'') 64
          then Inl (CE ''invalid renewal predecessor'')
          else Inr [(lit ''action'', vlit ''renew''), (lit ''sequence'', VInt sequence),
                    (lit ''previous'', dget content ''previous'')])
      else Inr [])"

definition policy_bytes :: "pyval \<Rightarrow> byte list res" where
  "policy_bytes policy =
     (case policy of
        VStr p \<Rightarrow>
          rbind (utf8_encode p) (\<lambda>raw.
            if raw = [] \<or> length raw > max_policy_bytes
            then Inl (CE ''invalid retained witness policy'') else Inr raw)
      | _ \<Rightarrow> Inl (CE ''invalid retained witness policy''))"

definition verify_witness_request ::
  "outside \<Rightarrow> pyval \<Rightarrow> grantor \<Rightarrow> pyval \<Rightarrow> bool \<Rightarrow> (stored_event \<times> pydict) res" where
  "verify_witness_request w data g policy current =
     rbind (valid_event w ''witness request'' data) (\<lambda>request.
     rbind (witness_content request witness_request_schema) (\<lambda>content.
     rbind (public_hex (o_stroma w) (gr_npub g)) (\<lambda>service_hex.
     rbind (public_hex (o_stroma w) (gr_operator_npub g)) (\<lambda>operator_hex.
     if kind_of request \<noteq> 78 \<or> ev_pubkey request \<noteq> service_hex
       then Inl (CE ''witness request must be signed by this service'')
     else
     rbind (need_integer (dget content ''issued_at'') ''issued_at'') (\<lambda>issued.
     rbind (need_integer (dget content ''expires_at'') ''expires_at'') (\<lambda>expires.
     rbind (need_integer (dget content ''not_before'') ''not_before'') (\<lambda>start.
     rbind (need_integer (dget content ''not_after'') ''not_after'') (\<lambda>end'.
     if issued \<noteq> time_of request \<or> issued > o_now w + max_clock_skew
       then Inl (CE ''invalid witness request issue time'')
     else if start \<noteq> issued \<or> \<not> (0 < end' - start \<and> end' - start \<le> max_validity_seconds)
       then Inl (CE ''invalid witness authorization validity interval'')
     else if expires \<noteq> min (issued + request_ttl) end'
       then Inl (CE ''invalid witness request deadline'')
     else if current \<and> o_now w \<ge> expires
       then Inl (CE ''witness request has expired'')
     else if \<not> valid_kinds (dget content ''subject_kinds'')
       then Inl (CE ''witness kinds must be a sorted subset of 1415 and 1416'')
     else if \<not> is_hex (dget content ''nonce'') 64
       then Inl (CE ''invalid witness request nonce'')
     else
     rbind (policy_bytes policy) (\<lambda>raw.
     rbind (renewal_fields content) (\<lambda>renewal.
     if canonical_json content
          \<noteq> canonical_json (expected_request g content service_hex operator_hex issued expires start end'
               (sha256_hex raw) @ renewal)
       then Inl (CE ''witness request does not match commissioning or policy'')
     else
     rbind (require_tags request
        [[lit ''p'', operator_hex, [], lit ''operator''],
         [lit ''e'', gr_attestation_id g, [], lit ''commissioning-attestation''],
         [lit ''expiration'', int_text expires], [lit ''role'', witness_role]]) (\<lambda>_.
       Inr (request, content))))))))))))"

section \<open>The authorization\<close>

text \<open>What an operator is asked to sign.\<close>

record template =
  tp_kind :: int
  tp_pubkey :: pystr
  tp_created_at :: int
  tp_content :: pystr
  tp_tags :: "pystr list list"

definition dget_or :: "pydict \<Rightarrow> string \<Rightarrow> pyval \<Rightarrow> pyval" where
  "dget_or d k fallback = (case map_of d (lit k) of None \<Rightarrow> fallback | Some v \<Rightarrow> v)"

text \<open>\<open>{out: content[name], ...}\<close>\<close>

definition copy_fields :: "(string \<times> string) list \<Rightarrow> pydict \<Rightarrow> pydict res" where
  "copy_fields names content =
     rmap (\<lambda>(out, name). rbind (need content name) (\<lambda>v. Inr (lit out, v))) names"

definition need_text :: "pydict \<Rightarrow> string \<Rightarrow> pystr res" where
  "need_text d k = rbind (need d k) need_str"

definition authorization_template :: "outside \<Rightarrow> stored_event \<Rightarrow> template res" where
  "authorization_template w request =
     rbind (loads (ev_content request)) (\<lambda>v.
     case v of
       VDict content \<Rightarrow>
         rbind (copy_fields
            [(''schema_version'', ''schema_version''), (''service'', ''service''),
             (''operator'', ''requested_operator''), (''management'', ''management''),
             (''commissioning_attestation'', ''commissioning_attestation''),
             (''not_before'', ''not_before''), (''not_after'', ''not_after''),
             (''subject_kinds'', ''subject_kinds''), (''policy_sha256'', ''policy_sha256'')] content) (\<lambda>copied.
         let body = copied @
            [(lit ''schema'', VStr authorization_schema),
             (lit ''action'', dget_or content ''action'' (vlit ''authorize'')),
             (lit ''role'', VStr witness_role),
             (lit ''request_event_id'', VStr (ev_id request)),
             (lit ''issued_at'', VInt (o_now w)),
             (lit ''sequence'', dget_or content ''sequence'' (VInt 1)),
             (lit ''previous'', dget content ''previous'')]
         in
         rbind (need_text content ''requested_operator'') (\<lambda>operator.
         rbind (need_text content ''commissioning_attestation'') (\<lambda>attestation.
         rbind (case dget content ''service'' of VDict s \<Rightarrow> need_text s ''pubkey'' | _ \<Rightarrow> Inl TypeError) (\<lambda>service.
           Inr \<lparr>tp_kind = 30078, tp_pubkey = operator, tp_created_at = o_now w,
                tp_content = canonical_json body,
                tp_tags =
                  [[lit ''d'', authorization_schema @ lit '':'' @ service @
                      (if py_eq (dget content ''schema_version'') (VInt 2)
                       then lit '':'' @ ev_id request else [])],
                   [lit ''p'', service, [], lit ''service''],
                   [lit ''e'', ev_id request, [], lit ''authorization-request''],
                   [lit ''e'', attestation, [], lit ''commissioning-attestation''],
                   [lit ''role'', witness_role]]\<rparr>))))
     | _ \<Rightarrow> Inl TypeError)"

definition verify_authorization ::
  "outside \<Rightarrow> pyval \<Rightarrow> stored_event \<Rightarrow> pydict \<Rightarrow> stored_event res" where
  "verify_authorization w data request content =
     rbind (valid_event w ''witness authorization'' data) (\<lambda>event.
     rbind (witness_content event authorization_schema) (\<lambda>body.
     if kind_of event \<noteq> 30078 \<or> VStr (ev_pubkey event) \<noteq> dget content ''requested_operator''
       then Inl (CE ''witness authorization must be signed by the commissioned operator'')
     else if \<not> (time_of request \<le> time_of event
                \<and> time_of event < num_val (the_num (dget content ''expires_at'')))
       then Inl (CE ''witness authorization was signed outside the request window'')
     else if time_of event > o_now w + max_clock_skew
       then Inl (CE ''witness authorization is dated too far in the future'')
     else
     rbind (authorization_template w request) (\<lambda>template.
     rbind (loads (tp_content template)) (\<lambda>v.
     case v of
       VDict d \<Rightarrow>
         (if canonical_json body
             \<noteq> canonical_json (dict_set (lit ''issued_at'') (VNum (ev_created_at event)) d)
          then Inl (CE ''witness authorization does not match the request'')
          else rbind (require_tags event (tp_tags template)) (\<lambda>_. Inr event))
     | _ \<Rightarrow> Inl TypeError))))"

section \<open>The revocation\<close>

definition valid_reason :: "pyval \<Rightarrow> bool" where
  "valid_reason v =
     (case v of VStr r \<Rightarrow> 1 \<le> length (strip r) \<and> length (strip r) \<le> 512 | _ \<Rightarrow> False)"

definition revocation_template ::
  "outside \<Rightarrow> grantor \<Rightarrow> pyval \<Rightarrow> pyval \<Rightarrow> pynum \<Rightarrow> template res" where
  "revocation_template w g previous reason issued =
     (if \<not> valid_reason reason then Inl (CE ''revocation reason must contain 1..512 characters'')
      else case previous of
        VDict p \<Rightarrow>
          rbind (rbind (need_text p ''content'') loads) (\<lambda>v.
          case v of
            VDict previous_body \<Rightarrow>
              rbind (public_hex (o_stroma w) (gr_npub g)) (\<lambda>pubkey.
              rbind (public_hex (o_stroma w) (gr_operator_npub g)) (\<lambda>operator.
              rbind (rbind (need previous_body ''sequence'') need_num) (\<lambda>sequence.
              rbind (need_text p ''id'') (\<lambda>previous_id.
              let body =
                [(lit ''schema'', VStr authorization_schema), (lit ''schema_version'', VInt 2),
                 (lit ''action'', vlit ''revoke''), (lit ''role'', VStr witness_role),
                 (lit ''service'', service_object pubkey), (lit ''operator'', VStr operator),
                 (lit ''management'', VStr (gr_management g)),
                 (lit ''commissioning_attestation'', VStr (gr_attestation_id g)),
                 (lit ''issued_at'', VNum issued), (lit ''effective_at'', VNum issued),
                 (lit ''reason'', reason), (lit ''sequence'', VInt (num_val sequence + 1)),
                 (lit ''previous'', VStr previous_id)]
              in Inr \<lparr>tp_kind = 30078, tp_pubkey = operator, tp_created_at = num_val issued,
                   tp_content = canonical_json body,
                   tp_tags =
                     [[lit ''d'', authorization_schema @ lit '':'' @ pubkey @ lit '':revoke:'' @ previous_id],
                      [lit ''p'', pubkey, [], lit ''service''],
                      [lit ''e'', previous_id, [], lit ''previous-authorization''],
                      [lit ''e'', gr_attestation_id g, [], lit ''commissioning-attestation''],
                      [lit ''role'', witness_role]]\<rparr>))))
          | _ \<Rightarrow> Inl TypeError)
      | _ \<Rightarrow> Inl TypeError)"

end
