(* ===== verification/Witness_Auth.thy ===== *)
theory Witness_Auth
  imports Witness_Documents
begin

text \<open>
  \<open>WitnessAuthorization\<close> of \<open>spurline/witness.py\<close>: the retained evidence, the chain of
  authorizations and revocations, the local controls, and the operations of the operator's
  command line on them.
\<close>

section \<open>The retained rows\<close>

definition load_authorization :: "admin \<Rightarrow> pydict res" where
  "load_authorization a =
     (case authorization_row a of
        None \<Rightarrow> Inr []
      | Some text \<Rightarrow>
          rbind (recast (loads text) (\<lambda>x. is_value_error x \<or> x = TypeError)
                   (CE ''invalid stored witness authorization'')) (\<lambda>v.
          case v of VDict d \<Rightarrow> Inr d | _ \<Rightarrow> Inl (CE ''invalid stored witness authorization'')))"

definition write_authorization :: "pydict \<Rightarrow> (admin, unit) act" where
  "write_authorization evidence =
     amodify (\<lambda>a. a\<lparr>authorization_row := Some (canonical_json evidence)\<rparr>)"

definition load_entry :: "pystr \<Rightarrow> pydict res" where
  "load_entry text =
     rbind (recast (loads text) (\<lambda>x. is_value_error x \<or> x = TypeError) (CE ''invalid witness history''))
       (\<lambda>v. case v of VDict d \<Rightarrow> Inr d | _ \<Rightarrow> Inl (CE ''invalid witness history''))"

definition load_history :: "admin \<Rightarrow> pydict list res" where
  "load_history a =
     (case history_table a of
        None \<Rightarrow>
          rbind (load_authorization a) (\<lambda>old.
            Inr (if has_key (lit ''authorization'') old then [old] else []))
      | Some rows \<Rightarrow> rmap (\<lambda>(_, text). load_entry text) (sort_key fst rows))"

text \<open>\<open>INSERT OR IGNORE\<close> and \<open>INSERT\<close> under the primary key \<open>sequence\<close>.\<close>

definition insert_or_ignore :: "int \<times> pystr \<Rightarrow> (int \<times> pystr) list \<Rightarrow> (int \<times> pystr) list" where
  "insert_or_ignore row rows = (if fst row \<in> fst ` set rows then rows else rows @ [row])"

definition insert_history :: "int \<times> pystr \<Rightarrow> (int \<times> pystr) list \<Rightarrow> (int \<times> pystr) list res" where
  "insert_history row rows =
     (if fst row \<in> fst ` set rows then Inl SqliteError else Inr (rows @ [row]))"

fun import_rows :: "int \<Rightarrow> pydict list \<Rightarrow> (int \<times> pystr) list \<Rightarrow> (int \<times> pystr) list" where
  "import_rows index [] rows = rows"
| "import_rows index (old # history) rows =
     import_rows (index + 1) history (insert_or_ignore (index, canonical_json old) rows)"

definition append_history :: "pydict list \<Rightarrow> pydict \<Rightarrow> (admin, unit) act" where
  "append_history history entry a =
     (let rows = (case history_table a of None \<Rightarrow> [] | Some rows \<Rightarrow> rows);
          imported = import_rows 1 history rows
      in case insert_history (int (length history) + 1, canonical_json entry) imported of
           Inl x \<Rightarrow> (Inl x, a\<lparr>history_table := Some imported\<rparr>)
         | Inr rows' \<Rightarrow> (Inr (), a\<lparr>history_table := Some rows'\<rparr>))"

definition entry_event :: "pydict \<Rightarrow> pyval" where
  "entry_event entry = dget_or entry ''authorization'' (dget entry ''revocation'')"

abbreviation is_grant :: "pydict \<Rightarrow> bool" where
  "is_grant entry \<equiv> has_key (lit ''authorization'') entry"

abbreviation is_revocation :: "pydict \<Rightarrow> bool" where
  "is_revocation entry \<equiv> has_key (lit ''revocation'') entry"

text \<open>\<open>next(entry for entry in reversed(history) if "authorization" in entry)\<close>\<close>

definition latest_grant :: "pydict list \<Rightarrow> pydict option" where
  "latest_grant history = find is_grant (rev history)"

section \<open>Checking one piece of evidence\<close>

datatype witness_state =
    Not_Authorized
  | Request_Pending
  | Request_Expired
  | Not_Yet_Valid
  | Grant_Expired
  | Authorized
  | Revoked
  | Suspended

record evidence_status =
  es_state :: witness_state
  es_operator_npub :: pystr
  es_authorization_id :: "pystr option"
  es_request_id :: pystr
  es_policy_sha256 :: pyval
  es_subject_kinds :: pyval
  es_not_before :: int
  es_not_after :: int

definition grant_state :: "int \<Rightarrow> int \<Rightarrow> int \<Rightarrow> int \<Rightarrow> witness_state" where
  "grant_state now signed_at not_before not_after =
     (if now < max not_before signed_at then Not_Yet_Valid
      else if now \<ge> not_after then Grant_Expired
      else Authorized)"

definition int_field :: "pydict \<Rightarrow> string \<Rightarrow> int" where
  "int_field d k = num_val (the_num (dget d k))"

definition check_witness_evidence ::
  "outside \<Rightarrow> grantor \<Rightarrow> pydict \<Rightarrow> bool \<Rightarrow> evidence_status res" where
  "check_witness_evidence w g evidence current =
     (let required = {lit ''request'', lit ''policy''} in
      if set (map fst evidence) \<noteq> required
          \<and> set (map fst evidence) \<noteq> required \<union> {lit ''authorization''}
      then Inl (CE ''incomplete witness evidence'')
      else
        rbind (verify_witness_request w (dget evidence ''request'') g (dget evidence ''policy'') current)
          (\<lambda>(request, content).
        let status = \<lparr>es_state = (if o_now w < int_field content ''expires_at''
                                  then Request_Pending else Request_Expired),
              es_operator_npub = gr_operator_npub g, es_authorization_id = None,
              es_request_id = ev_id request,
              es_policy_sha256 = dget content ''policy_sha256'',
              es_subject_kinds = dget content ''subject_kinds'',
              es_not_before = int_field content ''not_before'',
              es_not_after = int_field content ''not_after''\<rparr>
        in if \<not> is_grant evidence then Inr status
           else
             rbind (verify_authorization w (dget evidence ''authorization'') request content) (\<lambda>authorization.
               Inr (status\<lparr>es_authorization_id := Some (ev_id authorization),
                 es_state := grant_state (o_now w) (time_of authorization)
                   (es_not_before status) (es_not_after status)\<rparr>))))"

section \<open>Checking the chain\<close>

definition the_id :: "pyval \<Rightarrow> pyval" where
  "the_id event = dget (case event of VDict d \<Rightarrow> d | _ \<Rightarrow> []) ''id''"

definition the_time :: "pyval \<Rightarrow> int" where
  "the_time event = int_field (case event of VDict d \<Rightarrow> d | _ \<Rightarrow> []) ''created_at''"

definition check_revocation ::
  "outside \<Rightarrow> grantor \<Rightarrow> pydict option \<Rightarrow> pydict \<Rightarrow> stored_event \<Rightarrow> pydict \<Rightarrow> unit res" where
  "check_revocation w g previous entry event body =
     (case previous of
        None \<Rightarrow> Inl (CE ''invalid revocation history'')
      | Some p \<Rightarrow>
          if set (map fst entry) \<noteq> {lit ''revocation''} then Inl (CE ''invalid revocation history'')
          else if is_revocation p then Inl (CE ''cannot revoke an already revoked chain'')
          else
            rbind (revocation_template w g (entry_event p) (dget body ''reason'') (ev_created_at event))
              (\<lambda>template.
              ensure (kind_of event = tp_kind template \<and> ev_pubkey event = tp_pubkey template
                      \<and> ev_content event = tp_content template \<and> ev_tags event = tp_tags template)
                (CE ''revocation does not match commissioned operator or chain'')))"

definition check_entry ::
  "outside \<Rightarrow> grantor \<Rightarrow> int \<Rightarrow> pydict option \<Rightarrow> pydict \<Rightarrow> unit res" where
  "check_entry w g index previous entry =
     rbind (valid_event w ''witness lifecycle event'' (entry_event entry)) (\<lambda>event.
     rbind (witness_content event authorization_schema) (\<lambda>body.
     if as_int (dget body ''sequence'') \<noteq> Some index
        \<or> \<not> py_eq (dget body ''previous'')
             (case previous of None \<Rightarrow> VNone | Some p \<Rightarrow> the_id (entry_event p))
       then Inl (CE ''witness history has a gap or conflicting predecessor'')
     else if (case previous of None \<Rightarrow> False | Some p \<Rightarrow> time_of event < the_time (entry_event p))
       then Inl (CE ''witness lifecycle time moved backwards'')
     else if is_grant entry then
       rbind (check_witness_evidence w g entry False) (\<lambda>_.
       rbind (need body ''action'') (\<lambda>action.
         ensure (action = (if index = 1 then vlit ''authorize'' else vlit ''renew''))
           (CE ''invalid witness lifecycle action'')))
     else check_revocation w g previous entry event body))"

fun check_entries ::
  "outside \<Rightarrow> grantor \<Rightarrow> int \<Rightarrow> pydict option \<Rightarrow> pydict list \<Rightarrow> unit res" where
  "check_entries w g index previous [] = Inr ()"
| "check_entries w g index previous (entry # rest) =
     rbind (check_entry w g index previous entry) (\<lambda>_.
       check_entries w g (index + 1) (Some entry) rest)"

definition validate_history :: "outside \<Rightarrow> grantor \<Rightarrow> admin \<Rightarrow> pydict list res" where
  "validate_history w g a =
     rbind (load_history a) (\<lambda>history.
     rbind (check_entries w g 1 None history) (\<lambda>_.
     rbind (load_authorization a) (\<lambda>current.
     if is_grant current \<and> history \<noteq> [] then
       (case latest_grant history of
          None \<Rightarrow> Inl StopIteration
        | Some grant \<Rightarrow>
            if \<not> py_eq (VDict current) (VDict grant)
            then Inl (CE ''current witness policy or evidence differs from retained history'')
            else Inr history)
     else Inr history)))"

section \<open>The view\<close>

record control_row =
  ct_action :: pystr
  ct_reason :: pystr
  ct_recorded_at :: int

definition load_controls :: "admin \<Rightarrow> control_row list" where
  "load_controls a =
     (case controls_table a of
        None \<Rightarrow> []
      | Some rows \<Rightarrow>
          map (\<lambda>(act, reason, t). \<lparr>ct_action = act, ct_reason = reason, ct_recorded_at = t\<rparr>) rows)"

record witness_view =
  vw_state :: witness_state
  vw_status :: "evidence_status option"
  vw_authorization_state :: witness_state
  vw_receipts_enabled :: bool
  vw_suspended :: bool
  vw_permitted :: bool
  vw_head :: "pyval option"
  vw_sequence :: nat
  vw_evidence :: pydict
  vw_history :: "pydict list"
  vw_pending :: "pydict option"
  vw_pending_status :: "evidence_status option"
  vw_controls :: "control_row list"

text \<open>\<open>None if x is absent else check(x)\<close>\<close>

definition check_optional ::
  "outside \<Rightarrow> grantor \<Rightarrow> pydict option \<Rightarrow> evidence_status option res" where
  "check_optional w g evidence =
     (case evidence of
        None \<Rightarrow> Inr None
      | Some d \<Rightarrow> rbind (check_witness_evidence w g d False) (\<lambda>s. Inr (Some s)))"

definition revoked_now :: "pydict list \<Rightarrow> bool" where
  "revoked_now history = (history \<noteq> [] \<and> is_revocation (last history))"

definition suspended_now :: "control_row list \<Rightarrow> bool" where
  "suspended_now controls = (controls \<noteq> [] \<and> ct_action (last controls) = lit ''suspend'')"

text \<open>
  With no grant the status is that of the pending request, the same dictionary, whose state the
  later assignments change too.
\<close>

definition witness_view_of :: "outside \<Rightarrow> settings \<Rightarrow> grantor \<Rightarrow> admin \<Rightarrow> witness_view res" where
  "witness_view_of w s g a =
     rbind (validate_history w g a) (\<lambda>history.
     rbind (load_authorization a) (\<lambda>current.
     let pending = (if current \<noteq> [] \<and> \<not> is_grant current then Some current else None) in
     rbind (check_optional w g pending) (\<lambda>pending_status.
     let grant = latest_grant history in
     rbind (check_optional w g grant) (\<lambda>granted.
     let status = (if grant = None then pending_status else granted);
         state = (if revoked_now history then Revoked
                  else case status of None \<Rightarrow> Not_Authorized | Some e \<Rightarrow> es_state e);
         controls = load_controls a;
         suspended = suspended_now controls;
         shown = (if suspended then Suspended else state)
     in Inr \<lparr>vw_state = shown, vw_status = status, vw_authorization_state = state,
             vw_receipts_enabled = witness_enabled s, vw_suspended = suspended,
             vw_permitted = (state = Authorized \<and> \<not> suspended),
             vw_head = (if history = [] then None else Some (the_id (entry_event (last history)))),
             vw_sequence = length history,
             vw_evidence = (case grant of Some d \<Rightarrow> d
               | None \<Rightarrow> (case pending of Some d \<Rightarrow> d | None \<Rightarrow> [])),
             vw_history = history, vw_pending = pending,
             vw_pending_status = (if grant = None
               then map_option (\<lambda>e. e\<lparr>es_state := shown\<rparr>) pending_status else pending_status),
             vw_controls = controls\<rparr>))))"

section \<open>Operations\<close>

text \<open>\<open>commissioning = self.service._verify(self.service._load(db))\<close>\<close>

definition verified_grantor :: "outside \<Rightarrow> settings \<Rightarrow> (admin, grantor) act" where
  "verified_grantor w s =
     abind (areads load_commissioning) (\<lambda>evidence.
     abind (verify_evidence w s evidence) (\<lambda>c.
     abind (alift (settings_npub (o_stroma w) s)) (\<lambda>npub.
       areturn \<lparr>gr_operator_npub = cm_operator_npub c, gr_attestation_id = cm_attestation_id c,
                gr_npub = the npub, gr_management = service_management s\<rparr>)))"

text \<open>\<open>sorted(set(kinds))\<close>\<close>

definition sorted_kinds :: "int list \<Rightarrow> pyval" where
  "sorted_kinds kinds = VList (map VInt (sort (remdups kinds)))"

definition request_body_fields ::
  "outside \<Rightarrow> grantor \<Rightarrow> pystr \<Rightarrow> pystr \<Rightarrow> int \<Rightarrow> int list \<Rightarrow> byte list \<Rightarrow> pydict" where
  "request_body_fields w g service operator valid_for kinds raw =
     (let now = o_now w in
      [(lit ''schema'', VStr witness_request_schema), (lit ''schema_version'', VInt 1),
       (lit ''role'', VStr witness_role), (lit ''service'', service_object service),
       (lit ''requested_operator'', VStr operator), (lit ''management'', VStr (gr_management g)),
       (lit ''commissioning_attestation'', VStr (gr_attestation_id g)),
       (lit ''issued_at'', VInt now),
       (lit ''expires_at'', VInt (min (now + request_ttl) (now + valid_for))),
       (lit ''nonce'', VStr (o_nonce w)), (lit ''not_before'', VInt now),
       (lit ''not_after'', VInt (now + valid_for)), (lit ''subject_kinds'', sorted_kinds kinds),
       (lit ''policy_sha256'', VStr (sha256_hex raw))])"

definition renew_fields :: "pydict list \<Rightarrow> pydict \<Rightarrow> pydict" where
  "renew_fields history body =
     dict_set (lit ''schema_version'') (VInt 2) body
       @ [(lit ''action'', vlit ''renew''), (lit ''sequence'', VInt (int (length history) + 1)),
          (lit ''previous'', the_id (entry_event (last history)))]"

definition witness_request_body ::
  "outside \<Rightarrow> settings \<Rightarrow> byte list \<Rightarrow> pystr \<Rightarrow> int \<Rightarrow> int list \<Rightarrow> bool
     \<Rightarrow> (admin, evidence_status \<times> pydict \<times> stored_event) act" where
  "witness_request_body w s raw policy valid_for kinds renew =
     abind (verified_grantor w s) (\<lambda>g.
     abind (areads (validate_history w g)) (\<lambda>history.
     if history \<noteq> [] \<and> \<not> renew
       then araise (CE ''witness authorization already exists; use renewal'')
     else if renew \<and> history = []
       then araise (CE ''renewal requires a prior authorization'')
     else
     abind (alift (public_hex (o_stroma w) (gr_operator_npub g))) (\<lambda>operator.
     case priv_key (o_stroma w) (own_key s) of
       None \<Rightarrow> araise StromaKeyError
     | Some (service, _) \<Rightarrow>
         if renew \<and> o_now w < the_time (entry_event (last history))
           then araise (CE ''clock precedes witness lifecycle head'')
         else
         let body = request_body_fields w g service operator valid_for kinds raw;
             content = (if renew then renew_fields history body else body);
             event = sign_event (o_stroma w) (own_key s) 78 (o_now w) (canonical_json content)
               [[lit ''p'', operator, [], lit ''operator''],
                [lit ''e'', gr_attestation_id g, [], lit ''commissioning-attestation''],
                [lit ''expiration'', int_text (int_field content ''expires_at'')],
                [lit ''role'', witness_role]];
             evidence = [(lit ''request'', VDict (to_dict event)), (lit ''policy'', VStr policy)]
         in
         abind (alift (check_witness_evidence w g evidence True)) (\<lambda>status.
         abind (\<lambda>a. if history \<noteq> [] \<and> history_table a = None
                    then append_history [] (hd history) a else (Inr (), a)) (\<lambda>_.
         abind (write_authorization evidence) (\<lambda>_.
           areturn (status, evidence, event)))))))"

definition witness_request ::
  "outside \<Rightarrow> settings \<Rightarrow> byte list res \<Rightarrow> int \<Rightarrow> int list \<Rightarrow> bool
     \<Rightarrow> (admin, evidence_status \<times> pydict \<times> template) act" where
  "witness_request w s policy_file valid_for kinds renew =
     (if \<not> (0 < valid_for \<and> valid_for \<le> max_validity_seconds)
        then araise (CE ''valid-for must be 1..31536000 seconds'')
      else
      abind (alift policy_file) (\<lambda>raw.
      if raw = [] \<or> length raw > max_policy_bytes
        then araise (CE ''policy must be nonempty and at most 256 KiB'')
      else
      abind (alift (utf8_decode raw)) (\<lambda>policy.
      abind (connection w True (witness_request_body w s raw policy valid_for kinds renew))
        (\<lambda>(status, evidence, event).
      abind (alift (authorization_template w event)) (\<lambda>template.
        areturn (status, evidence, template))))))"

text \<open>\<open>any(entry.get(name) == event for entry in history)\<close>\<close>

definition in_history :: "string \<Rightarrow> pyval \<Rightarrow> pydict list \<Rightarrow> bool" where
  "in_history name event history = list_ex (\<lambda>entry. py_eq (dget entry name) event) history"

definition read_view :: "outside \<Rightarrow> settings \<Rightarrow> grantor \<Rightarrow> (admin, witness_view) act" where
  "read_view w s g = areads (witness_view_of w s g)"

definition check_predecessor :: "pydict list \<Rightarrow> pyval \<Rightarrow> unit res" where
  "check_predecessor history event =
     rbind (rbind (need_text (case event of VDict d \<Rightarrow> d | _ \<Rightarrow> []) ''content'') loads) (\<lambda>v.
     case v of
       VDict body \<Rightarrow>
         rbind (need body ''sequence'') (\<lambda>sequence.
         rbind (need body ''previous'') (\<lambda>previous.
         if \<not> py_eq sequence (VInt (int (length history) + 1))
            \<or> \<not> py_eq previous
                 (if history = [] then VNone else the_id (entry_event (last history)))
           then Inl (CE ''stale or conflicting authorization predecessor'')
         else ensure (\<not> (history \<noteq> [] \<and> the_time event < the_time (entry_event (last history))))
           (CE ''authorization predates lifecycle head'')))
     | _ \<Rightarrow> Inl TypeError)"

definition new_authorization ::
  "outside \<Rightarrow> grantor \<Rightarrow> pydict list \<Rightarrow> pydict \<Rightarrow> pyval \<Rightarrow> (admin, unit) act" where
  "new_authorization w g history evidence event =
     (let evidence' = dict_set (lit ''authorization'') event evidence in
      abind (alift (check_witness_evidence w g evidence' True)) (\<lambda>_.
      abind (alift (check_predecessor history event)) (\<lambda>_.
      abind (append_history history evidence') (\<lambda>_.
        write_authorization evidence'))))"

definition authorize_body :: "outside \<Rightarrow> settings \<Rightarrow> pyval \<Rightarrow> (admin, witness_view) act" where
  "authorize_body w s event =
     abind (verified_grantor w s) (\<lambda>g.
     abind (areads (validate_history w g)) (\<lambda>history.
     if in_history ''authorization'' event history then read_view w s g
     else
     abind (areads load_authorization) (\<lambda>evidence.
     if evidence = [] then araise (CE ''no witness request is pending'')
     else
     abind (if is_grant evidence then
              (if \<not> py_eq (dget evidence ''authorization'') event
               then araise (CE ''witness authorization already exists'')
               else abind (alift (check_witness_evidence w g evidence False)) (\<lambda>_. areturn ()))
            else new_authorization w g history evidence event) (\<lambda>_.
     read_view w s g))))"

definition witness_authorize :: "outside \<Rightarrow> settings \<Rightarrow> pyval \<Rightarrow> (admin, witness_view) act" where
  "witness_authorize w s event = connection w True (authorize_body w s event)"

definition witness_revocation_request ::
  "outside \<Rightarrow> settings \<Rightarrow> pyval \<Rightarrow> (admin, template) act" where
  "witness_revocation_request w s reason =
     connection w True
       (abind (verified_grantor w s) (\<lambda>g.
        abind (areads (validate_history w g)) (\<lambda>history.
        if history = [] \<or> is_revocation (last history)
        then araise (CE ''no unrevoked authorization to revoke'')
        else alift (revocation_template w g (entry_event (last history)) reason (NInt (o_now w))))))"

definition revoke_body :: "outside \<Rightarrow> settings \<Rightarrow> pyval \<Rightarrow> (admin, witness_view) act" where
  "revoke_body w s event =
     abind (verified_grantor w s) (\<lambda>g.
     abind (areads (validate_history w g)) (\<lambda>history.
     if in_history ''revocation'' event history then read_view w s g
     else
     abind (alift (valid_event w ''revocation'' event)) (\<lambda>verified.
     if time_of verified > o_now w then araise (CE ''revocation cannot be future-dated'')
     else
     abind (append_history history [(lit ''revocation'', event)]) (\<lambda>_.
     abind (areads (validate_history w g)) (\<lambda>_.
     case latest_grant history of
       None \<Rightarrow> araise StopIteration
     | Some latest \<Rightarrow>
         abind (write_authorization latest) (\<lambda>_. read_view w s g))))))"

definition witness_revoke :: "outside \<Rightarrow> settings \<Rightarrow> pyval \<Rightarrow> (admin, witness_view) act" where
  "witness_revoke w s event = connection w True (revoke_body w s event)"

definition add_control :: "pystr \<Rightarrow> pystr \<Rightarrow> int \<Rightarrow> (admin, unit) act" where
  "add_control action reason recorded_at =
     amodify (\<lambda>a. a\<lparr>controls_table := Some
       ((case controls_table a of None \<Rightarrow> [] | Some rows \<Rightarrow> rows) @ [(action, reason, recorded_at)])\<rparr>)"

definition control_body :: "outside \<Rightarrow> settings \<Rightarrow> pystr \<Rightarrow> pystr \<Rightarrow> (admin, witness_view) act" where
  "control_body w s action reason =
     abind (verified_grantor w s) (\<lambda>g.
     abind (read_view w s g) (\<lambda>view.
     if action = lit ''resume'' \<and> vw_authorization_state view \<noteq> Authorized
       then araise (CE ''resume requires currently valid authorization'')
     else abind (add_control action reason (o_now w)) (\<lambda>_. read_view w s g)))"

definition witness_control :: "outside \<Rightarrow> settings \<Rightarrow> pystr \<Rightarrow> pystr \<Rightarrow> (admin, witness_view) act" where
  "witness_control w s action reason =
     (if action \<notin> {lit ''suspend'', lit ''resume''} \<or> \<not> valid_reason (VStr reason)
      then araise (CE ''a suspend/resume action and 1..512 character reason are required'')
      else connection w True (control_body w s action reason))"

definition no_view :: "settings \<Rightarrow> witness_view" where
  "no_view s =
     \<lparr>vw_state = Not_Authorized, vw_status = None, vw_authorization_state = Not_Authorized,
      vw_receipts_enabled = witness_enabled s, vw_suspended = False, vw_permitted = False,
      vw_head = None, vw_sequence = 0, vw_evidence = [], vw_history = [], vw_pending = None,
      vw_pending_status = None, vw_controls = []\<rparr>"

definition witness_show :: "outside \<Rightarrow> settings \<Rightarrow> (admin, witness_view) act" where
  "witness_show w s a =
     (if \<not> db_file a then (Inr (no_view s), a)
      else connection w False
        (abind (areads load_authorization) (\<lambda>evidence.
         abind (areads (\<lambda>a. Inr (load_controls a))) (\<lambda>controls.
         if evidence \<noteq> [] \<or> controls \<noteq> []
         then abind (verified_grantor w s) (read_view w s)
         else areturn (no_view s)))) a)"

definition witness_verify :: "outside \<Rightarrow> settings \<Rightarrow> (admin, witness_view) act" where
  "witness_verify w s =
     abind (witness_show w s) (\<lambda>result.
       if \<not> is_grant (vw_evidence result)
       then araise (CE ''no witness authorization is retained'') else areturn result)"

end
