(* ===== verification/Json_Ints.thy ===== *)
theory Json_Ints
  imports Signed_Documents
begin

text \<open>
  The integers in a value that was read from JSON are short enough to be printed, so a text that
  is canonical for such values reads back.
\<close>

fun ints_ok :: "pyval \<Rightarrow> bool" where
  "ints_ok (VNum (NInt i)) = int_printable i"
| "ints_ok (VList vs) = list_all ints_ok vs"
| "ints_ok (VDict d) = list_all (\<lambda>(k, v). ints_ok v) d"
| "ints_ok _ = True"

lemma digits_val_less: "list_all digit ds \<Longrightarrow> digits_val ds < 10 ^ length ds"
proof (induction ds rule: rev_induct)
  case (snoc d ds)
  then have "digits_val ds + 1 \<le> 10 ^ length ds" "d - 48 \<le> 9"
    by (auto simp: digit_def)
  then have "10 * digits_val ds + 10 \<le> 10 * 10 ^ length ds" "d - 48 \<le> 9" by simp_all
  then show ?case by (simp add: digits_val_def)
qed (simp add: digits_val_def)

lemma digits_printable: "list_all digit ds \<Longrightarrow> length ds \<le> 4300 \<Longrightarrow> length (nat_text (digits_val ds)) \<le> 4300"
proof (cases ds)
  case Nil
  then show ?thesis by (simp add: digits_val_def nat_text.simps)
next
  case (Cons d t)
  assume "list_all digit ds" "length ds \<le> 4300"
  with length_nat_text [OF digits_val_less, of ds] Cons show ?thesis by simp
qed

lemma scan_int_digits: "scan_int s = Some (ds, r) \<Longrightarrow> list_all digit ds"
  by (auto simp: scan_int_def take_digits_def list_all_iff digit_def [of 48] dest: set_takeWhileD
      split: list.splits if_splits)

lemma scan_number_ints: "scan_number neg s = Inr (v, r) \<Longrightarrow> ints_ok v"
  using digits_printable scan_int_digits
  by (auto simp: scan_number_def Let_def int_printable_def nat_minus_as_int
      split: option.splits if_splits prod.splits)

lemma ints_ok_of_pairs:
  assumes "list_all (\<lambda>(k, v). ints_ok v) ps"
  shows "ints_ok (VDict (dict_of_pairs ps))"
  using assms dict_of_pairs_keys [of ps] by (fastforce simp: list_all_iff)

lemma ints_ok_empty [simp]: "ints_ok (VDict [])"
  by simp

lemma parse_ints:
  "parse_value n s = Inr (v, r) \<Longrightarrow> ints_ok v"
  "parse_elems n s = Inr (vs, r) \<Longrightarrow> list_all ints_ok vs"
  "parse_members n s = Inr (ps, r) \<Longrightarrow> list_all (\<lambda>(k, v). ints_ok v) ps"
proof (induction n arbitrary: s v r vs ps)
  case (Suc n)
  {
    case 1
    then show ?case
      using Suc(2,3)
      by (auto simp: rbind_eq_Inr simp del: ints_ok.simps(3) split: list.splits if_splits
          dest: scan_number_ints intro!: ints_ok_of_pairs)
  next
    case 2
    then show ?case using Suc(1) [of s] Suc(2)
      by (cases "parse_value n s") (auto simp: rbind_eq_Inr split: list.splits if_splits)
  next
    case 3
    then obtain t where t: "s = 34 # t" by (auto split: list.splits if_splits)
    with 3 obtain k r1 where s: "s = 34 # t" "scan_string t = Inr (k, r1)"
      by (cases "scan_string t") auto
    with 3 obtain r2 where r2: "skip_ws r1 = 58 # r2"
      by (auto split: list.splits if_splits)
    show ?case using 3 s r2 Suc(1) [of "skip_ws r2"] Suc(3)
      by (cases "parse_value n (skip_ws r2)") (auto simp: rbind_eq_Inr split: list.splits if_splits)
  }
qed simp_all

lemma loads_ints: "loads s = Inr v \<Longrightarrow> ints_ok v"
  by (auto simp: loads_def rbind_eq_Inr simp del: parse_value.simps split: if_splits dest: parse_ints)

lemma ints_ok_dget: "ints_ok (VDict d) \<Longrightarrow> ints_ok (dget d k)"
  by (auto simp: dget_def list_all_iff split: option.splits dest!: map_of_SomeD)

lemma loads_int_field: "loads s = Inr (VDict d) \<Longrightarrow> dget d k = VInt i \<Longrightarrow> int_printable i"
  using ints_ok_dget [OF loads_ints, of s d k] by simp

end
