(* ===== verification/Service_Spec.thy ===== *)
theory Service_Spec
  imports Service
begin

text \<open>
  The life of a service's commissioning: evidence that has been accepted is never replaced, by
  any sequence of operations of any process on the data directory, and verifies for ever after.
\<close>

section \<open>Histories of the administrative files\<close>

datatype service_op =
    Show_Service
  | Request_Operator pystr
  | Commission_With pyval
  | Verify_Service

fun run_service :: "outside \<Rightarrow> settings \<Rightarrow> service_op \<Rightarrow> (admin, unit) act" where
  "run_service w s Show_Service = abind (service_show w s) (\<lambda>_. areturn ())"
| "run_service w s (Request_Operator p) = abind (service_request w s p) (\<lambda>_. areturn ())"
| "run_service w s (Commission_With v) = abind (service_commission w s v) (\<lambda>_. areturn ())"
| "run_service w s Verify_Service = abind (service_verify w s) (\<lambda>_. areturn ())"

section \<open>What an operation may change\<close>

text \<open>
  The commissioning table keeps accepted evidence; a sentinel that exists stays; the file and the
  table, once there, stay; the witness tables are not touched.
\<close>

definition accepted :: "admin \<Rightarrow> bool" where
  "accepted a = (\<exists>d. load_commissioning a = Inr d \<and> has_key (lit ''operator_attestation'') d)"

definition keeps_commissioning :: "admin \<Rightarrow> admin \<Rightarrow> bool" where
  "keeps_commissioning a a' =
     ((accepted a \<longrightarrow> commissioning_table a' = commissioning_table a)
      \<and> (sentinel_file a \<noteq> Missing \<longrightarrow> sentinel_file a' = sentinel_file a)
      \<and> (db_file a \<longrightarrow> db_file a')
      \<and> authorization_row a' = authorization_row a \<and> history_table a' = history_table a
      \<and> controls_table a' = controls_table a)"

lemma load_commissioning_cong:
  "commissioning_table a' = commissioning_table a \<Longrightarrow> load_commissioning a' = load_commissioning a"
  by (simp add: load_commissioning_def)

lemma accepted_cong: "commissioning_table a' = commissioning_table a \<Longrightarrow> accepted a' = accepted a"
  using load_commissioning_cong [of a' a] by (simp add: accepted_def)

lemma open_for_writing_simps [simp]:
  "sentinel_file (open_for_writing a) = sentinel_file a"
  "authorization_row (open_for_writing a) = authorization_row a"
  "history_table (open_for_writing a) = history_table a"
  "controls_table (open_for_writing a) = controls_table a"
  "db_file (open_for_writing a)"
  "commissioning_table (open_for_writing a)
    = (case commissioning_table a of None \<Rightarrow> Some None | t \<Rightarrow> t)"
  by (simp_all add: open_for_writing_def)

lemma open_keeps: "keeps_commissioning a (open_for_writing a)"
  by (auto simp: keeps_commissioning_def accepted_def load_commissioning_def split: option.splits)

section \<open>Contracts of the administrative operations\<close>

text \<open>
  A contract that binding the identity keeps, and opening the database and rolling back, which
  leaves nothing of a failed transaction but the sentinel. Then every connection keeps it whose
  body does, and so does whatever verifies the commissioning and reads it.
\<close>

locale admin_contract = step_contract R for R :: "admin \<Rightarrow> admin \<Rightarrow> bool" +
  assumes binding: "arelates R (bind_identity w npub)"
    and opened: "R a (open_for_writing a)"
    and rollback: "R a b \<Longrightarrow> R a (a\<lparr>sentinel_file := sentinel_file b\<rparr>)"
begin

lemma connected:
  assumes "arelates R body" shows "arelates R (connection w write body)"
  unfolding arelates_def
proof
  fix a
  let ?s = "if write then open_for_writing a else a"
  obtain x b where b: "body ?s = (x, b)" by (cases "body ?s")
  have s: "R a ?s" using opened same by simp
  show "R a (snd (connection w write body a))"
    using further [OF s rollback [OF arelatesD [OF assms b]]] further [OF s arelatesD [OF assms b]] b same
    by (auto simp: connection_def Let_def split: option.splits sum.splits)
qed

lemma identity: "arelates R (service_identity w s)"
  unfolding service_identity_def by (intro closed binding)

lemma evidence: "arelates R (verify_evidence w s d)"
  unfolding verify_evidence_def by (intro closed identity)

lemma service_shown: "arelates R (service_show w s)"
  unfolding service_show_def by (intro closed connected identity evidence)

lemma service_verified: "arelates R (service_verify w s)"
  using guarded(2) [OF connected [of "abind (areads load_commissioning) (verify_evidence w s)"]]
  unfolding service_verify_def by (simp add: closed evidence)

end

lemma bind_identity_keeps: "arelates keeps_commissioning (bind_identity w npub)"
  using bind_keeps_file
  by (auto simp: arelates_def bind_identity_def keeps_commissioning_def accepted_def split: prod.splits)
    (metis snd_conv)

interpretation kept: admin_contract keeps_commissioning
proof
  show "reflp keeps_commissioning" by (simp add: reflp_def keeps_commissioning_def)
  show "transp keeps_commissioning"
  proof (rule transpI)
    fix a b c assume "keeps_commissioning a b" "keeps_commissioning b c"
    then show "keeps_commissioning a c"
      unfolding keeps_commissioning_def using accepted_cong [of b a] by simp
  qed
  show "arelates keeps_commissioning (bind_identity w npub)" for w npub by (rule bind_identity_keeps)
  show "keeps_commissioning a (open_for_writing a)" for a by (rule open_keeps)
  show "keeps_commissioning a b \<Longrightarrow> keeps_commissioning a (a\<lparr>sentinel_file := sentinel_file b\<rparr>)" for a b
    by (simp add: keeps_commissioning_def)
qed

lemma write_keeps:
  "\<not> accepted a \<Longrightarrow> keeps_commissioning a (snd (write_commissioning d a))"
  by (simp add: write_commissioning_def keeps_commissioning_def)

lemma request_keeps: "arelates keeps_commissioning (service_request w s p)"
proof -
  have "arelates keeps_commissioning (request_body w s p)"
    unfolding request_body_def
  proof (rule kept.reading)
    fix a d assume "load_commissioning a = Inr d"
    then show "keeps_commissioning a (snd ((if has_key (lit ''operator_attestation'') d
        then araise (CE ''service is already commissioned'')
        else abind (alift (create_commissioning_request w (own_key s) p
                       (service_management s) (o_nonce w))) (\<lambda>event.
             abind (write_commissioning [(lit ''commissioning_request'', VDict event)])
               (\<lambda>_. areturn event))) a))"
      using write_keeps [of a] kept.same [of a]
      by (auto simp: abind_lift_apply write_commissioning_def accepted_def split: sum.split)
  qed
  then show ?thesis
    unfolding service_request_def by (intro kept.closed kept.identity kept.connected)
qed

lemma bind_identity_table: "commissioning_table (snd (bind_identity w n a)) = commissioning_table a"
  by (simp add: bind_identity_def split: prod.split)

lemma verify_evidence_table:
  "verify_evidence w s d a = (x, b) \<Longrightarrow> commissioning_table b = commissioning_table a"
  using bind_identity_table [of w]
  by (auto simp: verify_evidence_def service_identity_def abind_apply split: sum.splits prod.splits if_splits)
    (metis snd_conv)+

lemma accept_keeps:
  assumes "\<not> accepted a" shows "keeps_commissioning a (snd (accept_attestation w s npub v d a))"
proof -
  have v: "keeps_commissioning a b" "\<not> accepted b" if "verify_evidence w s e a = (x, b)" for e x b
    using arelatesD [OF kept.evidence that] verify_evidence_table [OF that] accepted_cong [of b a]
      assms by simp_all
  show ?thesis
    using kept.further [OF v(1) write_keeps [OF v(2)]] v(1) kept.same [of a]
    by (auto simp: accept_attestation_def abind_alift_apply abind_apply [of "verify_evidence w s _"]
        abind_apply [of "write_commissioning _"] write_commissioning_def Let_def
        split: sum.split prod.split)
qed

lemma commission_keeps: "arelates keeps_commissioning (service_commission w s v)"
proof -
  have "arelates keeps_commissioning (commission_body w s npub v)" for npub
    unfolding commission_body_def
  proof (rule kept.reading)
    fix a d assume l: "load_commissioning a = Inr d"
    show "keeps_commissioning a (snd ((if has_key (lit ''operator_attestation'') d then
         (if \<not> py_eq (dget d ''operator_attestation'') v
          then araise (CE ''service is already commissioned'')
          else abind (verify_evidence w s d) (\<lambda>c. areturn (c, d)))
       else if \<not> has_key (lit ''commissioning_request'') d
       then araise (CE ''no service commissioning request is pending'')
       else accept_attestation w s npub v d) a))"
    proof (cases "has_key (lit ''operator_attestation'') d")
      case True
      have "arelates keeps_commissioning (abind (verify_evidence w s d) (\<lambda>c. areturn (c, d)))"
        by (intro kept.closed kept.evidence)
      with True show ?thesis using kept.same [of a] by (simp add: arelates_def)
    next
      case False
      with l have "\<not> accepted a" by (simp add: accepted_def)
      with False show ?thesis using accept_keeps kept.same [of a] by simp
    qed
  qed
  then show ?thesis
    unfolding service_commission_def by (intro kept.closed kept.identity kept.connected)
qed

lemma run_service_keeps: "arelates keeps_commissioning (run_service w s opn)"
  by (cases opn)
    (simp_all add: kept.closed kept.service_shown request_keeps commission_keeps kept.service_verified)

section \<open>Evidence that was written reads back\<close>

lemma holds_event_sorted:
  assumes "holds_event d e" "distinct (map fst d)" "sort_keys (VDict d) = VDict d'"
  shows "holds_event d' e"
proof -
  have "d' = sort_key fst (map (\<lambda>(k, v). (k, sort_keys v)) d)" using assms(3) by simp
  then have m: "map_of d' k = map_option sort_keys (map_of d k)" for k
    using assms(2) by (simp only: map_of_sort_key map_map map_fst_pairs map_of_pairs)
  have "sort_keys x = x" if "(k, x) \<in> set (to_dict e)" for k x
    using that by (auto simp: to_dict_def tags_val_def)
  then show ?thesis using assms(1) by (fastforce simp: holds_event_def m)
qed

lemma valid_event_sorted:
  assumes "valid_event w label v = Inr e" "json_ok v" "stroma_ok (o_crypto w) (o_stroma w)"
  shows "valid_event w label (sort_keys v) = Inr e"
proof -
  obtain d where d: "v = VDict d" "holds_event d e"
    using assms(1) by (auto simp: valid_event_iff [OF assms(3)] validate_event_iff)
  obtain d' where d': "sort_keys (VDict d) = VDict d'" by simp
  have "holds_event d' e" using holds_event_sorted [OF d(2) _ d'] assms(2) d(1) by simp
  then show ?thesis
    using assms(1) d' unfolding d(1) by (simp only: valid_event_iff [OF assms(3)] validate_event_iff) blast
qed

lemma dget_json_ok: "json_ok (VDict d) \<Longrightarrow> json_ok (dget d k)"
  by (auto simp: dget_def list_all_iff split: option.splits dest!: map_of_SomeD)

lemma check_evidence_sorted:
  assumes "check_evidence w ev npub m = Inr c" "json_ok (VDict ev)" "sort_keys (VDict ev) = VDict ev'"
    and "stroma_ok (o_crypto w) (o_stroma w)"
  shows "check_evidence w ev' npub m = Inr c"
proof -
  have keys: "set (map fst ev') = set (map fst ev)"
    using assms(3) by force
  have get: "dget ev' k = sort_keys (dget ev k)" for k
    using assms(2,3) by (intro dget_sort_keys) simp_all
  have sorted: "valid_event w l (sort_keys (dget ev k)) = Inr e" if "valid_event w l (dget ev k) = Inr e"
    for l k e using valid_event_sorted [OF that dget_json_ok [OF assms(2)] assms(4)] .
  show ?thesis
    using assms(1) sorted unfolding check_evidence_def keys get
    by (auto simp: rbind_eq_Inr verify_attestation_iff verify_request_iff verify_descriptor_iff
        split: if_splits)
qed

lemma check_evidence_later:
  assumes "check_evidence w ev npub m = Inr c" "stroma_ok (o_crypto w) (o_stroma w)"
    and "o_crypto w' = o_crypto w" "o_stroma w' = o_stroma w" "o_now w \<le> o_now w'"
  shows "check_evidence w' ev npub m = Inr c"
  using assms(1) attestation_later [OF _ assms(2-5)] descriptor_later [OF _ assms(2-5)]
  by (auto simp: check_evidence_def rbind_eq_Inr split: if_splits)

section \<open>What a commission leaves\<close>

lemma service_identity_ok:
  assumes "service_identity w s a = (Inr n, b)" "stroma_ok (o_crypto w) (o_stroma w)"
  shows "settings_npub (o_stroma w) s = Inr (Some n)" "n \<noteq> []" "bound_to (sentinel_file b) n"
    "commissioning_table b = commissioning_table a" "db_file b = db_file a"
proof -
  have n: "settings_npub (o_stroma w) s = Inr (Some n)" "n \<noteq> []"
    "bind_service_identity (o_unwritable w) (Some n) (sentinel_file a) = (Inr (), sentinel_file b)"
    "commissioning_table b = commissioning_table a" "db_file b = db_file a"
    using assms(1)
    by (auto simp: service_identity_def abind_apply bind_identity_def split: sum.splits prod.splits if_splits)
  obtain k hex where "priv_key (o_stroma w) k = Some (hex, n)"
    using n(1) by (auto simp: settings_npub_def service_npub_def rbind_eq_Inr split: option.splits)
  then have "encodable n" using stroma_priv [OF assms(2)] by (simp add: key_pair_def)
  from bind_binds [OF n(3) this] n show "settings_npub (o_stroma w) s = Inr (Some n)" "n \<noteq> []"
    "bound_to (sentinel_file b) n" "commissioning_table b = commissioning_table a" "db_file b = db_file a"
    by simp_all
qed

lemma service_identity_again:
  assumes "settings_npub (o_stroma w) s = Inr (Some n)" "n \<noteq> []" "bound_to (sentinel_file a) n"
  shows "service_identity w s a = (Inr n, a)"
  using assms bind_again [OF assms(3,2)]
  by (simp add: service_identity_def abind_apply bind_identity_def)

lemma verify_evidence_ok:
  assumes "verify_evidence w s ev a = (Inr c, b)" "stroma_ok (o_crypto w) (o_stroma w)"
  shows "\<exists>n. settings_npub (o_stroma w) s = Inr (Some n) \<and> n \<noteq> [] \<and> bound_to (sentinel_file b) n
    \<and> check_evidence w ev n (service_management s) = Inr c
    \<and> commissioning_table b = commissioning_table a \<and> db_file b = db_file a"
proof -
  obtain n where n: "service_identity w s a = (Inr n, b)" "check_evidence w ev n (service_management s) = Inr c"
    using assms(1) by (auto simp: verify_evidence_def abind_apply split: sum.splits prod.splits)
  with service_identity_ok [OF n(1) assms(2)] show ?thesis by blast
qed

lemma commission_ok:
  assumes "service_commission w s v a = (Inr (c, ev), b)" "stroma_ok (o_crypto w) (o_stroma w)"
  shows "db_file b
    \<and> (load_commissioning b = Inr ev \<or> commissioning_table b = Some (Some (canonical_json ev)))
    \<and> (\<exists>n. settings_npub (o_stroma w) s = Inr (Some n) \<and> n \<noteq> [] \<and> bound_to (sentinel_file b) n
         \<and> check_evidence w ev n (service_management s) = Inr c)"
proof -
  obtain n a1 where "service_identity w s a = (Inr n, a1)"
    "connection w True (commission_body w s n v) a1 = (Inr (c, ev), b)"
    using assms(1) by (auto simp: service_commission_def abind_apply split: sum.splits prod.splits)
  then have body: "commission_body w s n v (open_for_writing a1) = (Inr (c, ev), b)"
    by (auto simp: connection_def Let_def split: option.splits sum.splits prod.splits)
  then obtain d where d: "load_commissioning (open_for_writing a1) = Inr d"
    by (auto simp: commission_body_def abind_lift_apply split: sum.splits)
  show ?thesis
  proof (cases "has_key (lit ''operator_attestation'') d")
    case True
    then have "verify_evidence w s ev (open_for_writing a1) = (Inr c, b)" "d = ev"
      using body d
      by (auto simp: commission_body_def abind_lift_apply abind_apply split: if_splits sum.splits prod.splits)
    with verify_evidence_ok [OF this(1) assms(2)] d load_commissioning_cong [of b "open_for_writing a1"]
    show ?thesis by auto
  next
    case False
    then obtain b1 where "verify_evidence w s ev (open_for_writing a1) = (Inr c, b1)"
      "b = b1\<lparr>commissioning_table := Some (Some (canonical_json ev))\<rparr>"
      using body d
      by (auto simp: commission_body_def abind_lift_apply abind_apply accept_attestation_def Let_def
          write_commissioning_def split: if_splits sum.splits prod.splits)
    with verify_evidence_ok [OF this(1) assms(2)] show ?thesis by auto
  qed
qed

text \<open>The evidence a commission leaves in the database verifies when it is read again.\<close>

lemma commission_retained:
  assumes "service_commission w s v a = (Inr (c, ev), b)"
    and "stroma_ok (o_crypto w) (o_stroma w)" "json_ok (VDict ev)"
  shows "\<exists>n d. settings_npub (o_stroma w) s = Inr (Some n) \<and> n \<noteq> [] \<and> bound_to (sentinel_file b) n
    \<and> db_file b \<and> load_commissioning b = Inr d \<and> check_evidence w d n (service_management s) = Inr c"
proof -
  obtain n where n: "settings_npub (o_stroma w) s = Inr (Some n)" "n \<noteq> []" "bound_to (sentinel_file b) n"
    "check_evidence w ev n (service_management s) = Inr c" "db_file b"
    and l: "load_commissioning b = Inr ev \<or> commissioning_table b = Some (Some (canonical_json ev))"
    using commission_ok [OF assms(1,2)] by blast
  obtain ev' where sv: "sort_keys (VDict ev) = VDict ev'" by simp
  show ?thesis
  proof (cases "load_commissioning b = Inr ev")
    case False
    then have "load_commissioning b = Inr ev'"
      using l loads_canonical [OF assms(3)] sv by (simp add: load_commissioning_def)
    with n check_evidence_sorted [OF n(4) assms(3) sv assms(2)] show ?thesis by blast
  qed (use n in blast)
qed

lemma checked_accepted:
  "load_commissioning b = Inr d \<Longrightarrow> check_evidence w d n m = Inr c \<Longrightarrow> accepted b"
proof -
  assume l: "load_commissioning b = Inr d" "check_evidence w d n m = Inr c"
  then have "lit ''operator_attestation'' \<in> set (map fst d)"
    by (auto simp: check_evidence_def split: if_splits)
  with l(1) show "accepted b" by (auto simp: accepted_def has_key_def map_of_eq_None_iff)
qed

section \<open>A commissioned service\<close>

definition toy_settings :: settings where
  "toy_settings = \<lparr>host = lit ''127.0.0.1'', port = 8080, database_path = lit ''spurline.sqlite3'',
     verify_signatures = True, public_url = None, service_nsec = Some (lit ''nsec1a''),
     service_management = lit ''independent'', witness_enabled = False, witness_clock_file = None,
     witness_clock_mode = lit ''bounded'', witness_queue_limit = 1000, witness_max_delay_seconds = 60\<rparr>"

lemma toy_settings_simps [simp]:
  "service_nsec toy_settings = Some (lit ''nsec1a'')" "own_key toy_settings = lit ''nsec1a''"
  "service_management toy_settings = lit ''independent''"
  "settings_npub toy_stroma toy_settings = Inr (Some (lit ''npub1a''))"
  by (simp_all add: toy_settings_def own_key_def settings_npub_def the_key_def service_npub_def)

text \<open>The directory after the request of the commissioning with the two keys.\<close>

definition toy_pending :: admin where
  "toy_pending = \<lparr>sentinel_file = Text (sentinel_text (lit ''npub1a'')), db_file = True,
     commissioning_table = Some (Some (canonical_json
       [(lit ''commissioning_request'', VDict (to_dict toy_request))])),
     authorization_row = None, history_table = None, controls_table = None\<rparr>"

lemma json_ok_event:
  assumes "wf_event e" "event_printable e" shows "json_ok (VDict (to_dict e))"
proof -
  have "encodable (ev_id e)" "encodable (ev_pubkey e)" "encodable (ev_sig e)"
    using assms(1) hex_string_encodable by (auto simp: wf_event_def)
  then show ?thesis
    using assms by (simp add: to_dict_def wf_event_def event_encodable_def event_printable_def)
qed

lemma attestation_sorted:
  assumes "verify_operator_attestation w rd ad npub m cur = Inr v" "json_ok rd"
    and "stroma_ok (o_crypto w) (o_stroma w)"
  shows "verify_operator_attestation w (sort_keys rd) ad npub m cur = Inr v"
  using assms(1) valid_event_sorted [OF _ assms(2,3)]
  by (auto simp: verify_attestation_iff verify_request_iff)

lemma toy_wf: "wf_event toy_request" "wf_event toy_attestation"
  "event_printable toy_request" "event_printable toy_attestation"
proof -
  have "int_printable 1000" "int_printable 2000" "int_printable 78" "int_printable 30078"
    by (rule int_printable_64; simp)+
  then show "wf_event toy_request" "wf_event toy_attestation"
    "event_printable toy_request" "event_printable toy_attestation"
    using toy_request_signed toy_attestation_signed by (simp_all add: signed_by_def event_printable_def)
qed

lemma toy_commission:
  "\<exists>c d. service_commission (toy_world 3000) toy_settings (VDict (to_dict toy_attestation)) toy_pending
      = (Inr (c, [(lit ''commissioning_request'', sort_keys (VDict (to_dict toy_request))),
          (lit ''operator_attestation'', VDict (to_dict toy_attestation)),
          (lit ''service_descriptor'', VDict (to_dict d))]),
        toy_pending\<lparr>commissioning_table := Some (Some (canonical_json
          [(lit ''commissioning_request'', sort_keys (VDict (to_dict toy_request))),
          (lit ''operator_attestation'', VDict (to_dict toy_attestation)),
          (lit ''service_descriptor'', VDict (to_dict d))]))\<rparr>)
    \<and> signed_by lax_crypto hex_a 30078 2000
        (canonical_json (descriptor_content hex_a (lit ''independent'') toy_attestation 2000))
        (descriptor_tags toy_attestation) d
    \<and> wf_event d \<and> event_printable d"
proof -
  let ?w = "toy_world 3000" and ?a = "VDict (to_dict toy_attestation)"
  let ?r = "VDict (to_dict toy_request)"
  have st: "stroma_ok (o_crypto ?w) (o_stroma ?w)" by (simp add: toy_stroma_ok)
  have pr: "int_printable 2000" by (rule int_printable_64) simp_all
  have jr: "json_ok ?r" using json_ok_event toy_wf by blast
  have v: "verify_operator_attestation ?w (sort_keys ?r) ?a (lit ''npub1a'') (lit ''independent'') True
      = Inr \<lparr>vc_request = toy_request, vc_attestation = toy_attestation,
        vc_operator_npub = lit ''npub1b''\<rparr>"
    by (rule attestation_sorted [OF toy_verified jr st]) (simp_all add: max_clock_skew_def request_ttl_def)
  then have va: "valid_event ?w ''operator attestation'' ?a = Inr toy_attestation"
    by (auto simp: verify_attestation_iff)
  obtain d where d: "create_service_descriptor ?w (lit ''nsec1a'') ?a (lit ''independent'') 2000 = Inr (to_dict d)"
    "signed_by lax_crypto hex_a 30078 2000
      (canonical_json (descriptor_content hex_a (lit ''independent'') toy_attestation 2000))
      (descriptor_tags toy_attestation) d"
    "verify_service_descriptor ?w (VDict (to_dict d)) ?a (lit ''npub1a'') (lit ''independent'') = Inr d"
    using created_descriptor_verifies [OF st _ va toy_wf(2) _ pr, of "lit ''nsec1a''" hex_a "lit ''npub1a''"
        "lit ''independent''"] by (auto simp: max_clock_skew_def)
  have wf: "wf_event d" "event_printable d"
    using d(2) pr int_printable_64 [of 30078] by (simp_all add: signed_by_def event_printable_def)
  have t: "time_of toy_attestation = 2000" using toy_attestation_signed by (simp add: signed_by_def time_of_def)
  have id: "service_identity ?w toy_settings a = (Inr (lit ''npub1a''), a)"
    if "sentinel_file a = Text (sentinel_text (lit ''npub1a''))" for a
    using service_identity_again [of ?w toy_settings "lit ''npub1a''" a] that bind_binds [OF bind_creates]
    by simp
  have v': "verify_operator_attestation ?w (sort_keys ?r) ?a (lit ''npub1a'') (lit ''independent'') False
      = Inr \<lparr>vc_request = toy_request, vc_attestation = toy_attestation,
        vc_operator_npub = lit ''npub1b''\<rparr>"
    by (rule attestation_later [OF v st]) simp_all
  have load: "load_commissioning (open_for_writing toy_pending)
      = Inr [(lit ''commissioning_request'', sort_keys ?r)]"
  proof -
    have s: "sort_keys (VDict [(k, x)]) = VDict [(k, sort_keys x)]" for k x by simp
    show ?thesis
      using jr loads_canonical [of "[(lit ''commissioning_request'', ?r)]"]
      by (simp add: load_commissioning_def toy_pending_def open_for_writing_def s
          del: sort_keys.simps json_ok.simps(7) to_dict_def) (simp add: s del: sort_keys.simps)
  qed
  let ?ev = "[(lit ''commissioning_request'', sort_keys ?r), (lit ''operator_attestation'', ?a),
    (lit ''service_descriptor'', VDict (to_dict d))]"
  have keys: "set (map fst ?ev)
      = {lit ''commissioning_request'', lit ''operator_attestation'', lit ''service_descriptor''}" by auto
  obtain c where ck: "check_evidence ?w ?ev (lit ''npub1a'') (lit ''independent'') = Inr c"
    using v' d(3) by (simp only: check_evidence_def keys) (simp del: sort_keys.simps)
  then have ve: "verify_evidence ?w toy_settings ?ev (open_for_writing toy_pending)
      = (Inr c, open_for_writing toy_pending)"
    using id [of "open_for_writing toy_pending"]
    by (simp add: verify_evidence_def abind_apply toy_pending_def)
  have sen: "sentinel_file toy_pending = Text (sentinel_text (lit ''npub1a''))"
    by (simp add: toy_pending_def)
  have op: "open_for_writing toy_pending = toy_pending"
    by (simp add: open_for_writing_def toy_pending_def)
  have "commission_body ?w toy_settings (lit ''npub1a'') ?a toy_pending
      = (Inr (c, ?ev), toy_pending\<lparr>commissioning_table := Some (Some (canonical_json ?ev))\<rparr>)"
    using load ve v d(1) t
    by (simp add: op commission_body_def abind_lift_apply accept_attestation_def abind_apply
        write_commissioning_def Let_def del: sort_keys.simps)
  then have "service_commission ?w toy_settings ?a toy_pending
      = (Inr (c, ?ev), toy_pending\<lparr>commissioning_table := Some (Some (canonical_json ?ev))\<rparr>)"
    using id [of toy_pending] sen
    by (simp add: service_commission_def abind_apply connection_def op del: sort_keys.simps)
  with wf d(2) show ?thesis by blast
qed

end
