(* ===== verification/Witness_Spec.thy ===== *)
theory Witness_Spec
  imports Witness_Auth Json_Ints Service_Spec
begin

text \<open>
  What the witness authorization establishes: the authority behind a permitted witness, the
  append-only history, and that an operation that raises leaves the evidence as it was.
\<close>

section \<open>A verified request\<close>

definition grantor_ok :: "grantor \<Rightarrow> bool" where
  "grantor_ok g = (encodable (gr_management g) \<and> encodable (gr_attestation_id g))"

lemma need_integer_iff: "need_integer v l = Inr i \<longleftrightarrow> v = VInt i"
  by (cases v rule: as_int.cases) (auto simp: need_integer_def)

lemma public_hex_iff: "public_hex st k = Inr hex \<longleftrightarrow> (\<exists>npub. pub_key st k = Some (hex, npub))"
  by (auto simp: public_hex_def split: option.splits)

lemma witness_content_iff:
  "witness_content e schema = Inr d \<longleftrightarrow>
     loads (ev_content e) = Inr (VDict d) \<and> dget d ''schema'' = VStr schema
     \<and> dget d ''schema_version'' \<in> {VInt 1, VInt 2} \<and> canonical_json d = ev_content e"
proof (cases "loads (ev_content e)")
  case (Inr v)
  then show ?thesis by (cases v) (auto simp: witness_content_def as_int_Some)
qed (auto simp: witness_content_def recast_def)

lemma policy_bytes_iff:
  "policy_bytes v = Inr raw \<longleftrightarrow> (\<exists>p. v = VStr p \<and> utf8_encode p = Inr raw
     \<and> raw \<noteq> [] \<and> length raw \<le> max_policy_bytes)"
  by (cases v) (auto simp: policy_bytes_def rbind_eq_Inr)

text \<open>What the request says: its content is, up to the order of the keys, the expected one.\<close>

definition request_says ::
  "outside \<Rightarrow> grantor \<Rightarrow> pyval \<Rightarrow> stored_event \<Rightarrow> pydict \<Rightarrow> pystr \<Rightarrow> pystr \<Rightarrow> byte list \<Rightarrow> pydict \<Rightarrow> bool" where
  "request_says w g policy request content service operator raw renewal =
     (loads (ev_content request) = Inr (VDict content) \<and> kind_of request = 78
      \<and> ev_content request = canonical_json content
      \<and> ev_pubkey request = service \<and> public_hex (o_stroma w) (gr_npub g) = Inr service
      \<and> public_hex (o_stroma w) (gr_operator_npub g) = Inr operator
      \<and> policy_bytes policy = Inr raw \<and> renewal_fields content = Inr renewal
      \<and> dget content ''schema_version'' \<in> {VInt 1, VInt 2}
      \<and> dget content ''issued_at'' = VInt (time_of request)
      \<and> dget content ''not_before'' = VInt (time_of request)
      \<and> (\<exists>end'. dget content ''not_after'' = VInt end' \<and> time_of request < end'
           \<and> end' \<le> time_of request + max_validity_seconds
           \<and> dget content ''expires_at'' = VInt (min (time_of request + request_ttl) end')
           \<and> canonical_json content = canonical_json (expected_request g content service operator
                (time_of request) (min (time_of request + request_ttl) end') (time_of request) end'
                (sha256_hex raw) @ renewal))
      \<and> valid_kinds (dget content ''subject_kinds'') \<and> is_hex (dget content ''nonce'') 64)"

lemma verify_witness_requestD:
  assumes "verify_witness_request w data g policy current = Inr (request, content)"
  obtains service operator raw renewal where
    "valid_event w ''witness request'' data = Inr request"
    "request_says w g policy request content service operator raw renewal"
    "time_of request \<le> o_now w + max_clock_skew"
  using assms
  unfolding verify_witness_request_def rbind_eq_Inr split_paired_Ex
  by (auto simp: need_integer_iff rbind_eq_Inr witness_content_iff request_says_def
      algebra_simps split: if_splits)

lemma is_hex_json: "is_hex v n \<Longrightarrow> json_ok v"
  using hex_string_encodable by (auto simp: is_hex_iff)

lemma kinds_json: "valid_kinds v \<Longrightarrow> json_ok v \<and> sort_keys v = v"
proof -
  have "int_printable 1415" "int_printable 1416" by (rule int_printable_64; simp)+
  then show "valid_kinds v \<Longrightarrow> json_ok v \<and> sort_keys v = v" by (auto simp: valid_kinds_def)
qed

lemma public_hex_string:
  "stroma_ok c st \<Longrightarrow> public_hex st k = Inr hex \<Longrightarrow> hex_string 64 hex"
  using stroma_pub [of c st k hex] by (auto simp: public_hex_iff key_pair_def)

lemma expected_request_json:
  assumes "request_says w g policy request content service operator raw renewal"
    and "stroma_ok (o_crypto w) (o_stroma w)" "grantor_ok g"
    and "dget content ''not_after'' = VInt e"
  shows "json_ok (VDict (expected_request g content service operator
    (time_of request) (min (time_of request + request_ttl) e) (time_of request) e
    (sha256_hex raw) @ renewal))"
proof -
  note a = assms(1) [unfolded request_says_def]
  have "hex_string 64 service" "hex_string 64 operator"
    using a public_hex_string [OF assms(2)] by blast+
  then have enc: "encodable service" "encodable operator" "encodable (sha256_hex raw)"
    using hex_string_encodable hex_string_encodable [of 64 "sha256_hex raw"]
    by (auto simp: hex_string_def sha256_hex_digits)
  have ld: "loads (ev_content request) = Inr (VDict content)" using a by blast
  have pr: "int_printable (time_of request)" "int_printable e"
    using a assms(4) loads_int_field [OF ld] by blast+
  have ex: "int_printable (min (time_of request + request_ttl) e)"
    using a assms(4) loads_int_field [OF ld, of "''expires_at''"] by auto
  have rn: "renewal = [] \<or> (\<exists>n. renewal = [(lit ''action'', vlit ''renew''), (lit ''sequence'', VInt n),
      (lit ''previous'', dget content ''previous'')] \<and> int_printable n \<and> is_hex (dget content ''previous'') 64)"
  proof -
    have "renewal_fields content = Inr renewal" using a by blast
    then show ?thesis using loads_int_field [OF ld]
      by (auto simp: renewal_fields_def rbind_eq_Inr need_integer_iff split: if_splits)
  qed
  have v: "json_ok (dget content ''schema_version'')" "json_ok (dget content ''nonce'')"
    "json_ok (dget content ''subject_kinds'')"
    using a is_hex_json [of "dget content ''nonce''" 64] kinds_json [of "dget content ''subject_kinds''"]
      int_printable_small by auto
  have gr: "encodable (gr_management g)" "encodable (gr_attestation_id g)"
    using assms(3) by (auto simp: grantor_ok_def)
  show ?thesis
    using rn
  proof (elim disjE exE conjE)
    assume r: "renewal = []"
    show ?thesis unfolding r expected_request_def
      using enc pr ex v gr by (simp add: witness_request_schema_def witness_role_def)
  next
    fix n assume r: "renewal = [(lit ''action'', vlit ''renew''), (lit ''sequence'', VInt n),
      (lit ''previous'', dget content ''previous'')]" "int_printable n"
      and p: "is_hex (dget content ''previous'') 64"
    show ?thesis unfolding r(1) expected_request_def
      using enc pr ex v gr r(2) is_hex_json [OF p]
      by (simp add: witness_request_schema_def witness_role_def)
  qed
qed

text \<open>Hence every field of the request is the expected one.\<close>

lemma request_sorted:
  assumes "request_says w g policy request content service operator raw renewal"
    and "stroma_ok (o_crypto w) (o_stroma w)" "grantor_ok g"
  shows "\<exists>t1 t2 t3 t4. let x = expected_request g content service operator t1 t2 t3 t4 (sha256_hex raw) @ renewal
    in json_ok (VDict x) \<and> sort_keys (VDict x) = VDict content"
proof -
  obtain e where e: "dget content ''not_after'' = VInt e"
    "canonical_json content = canonical_json (expected_request g content service operator
      (time_of request) (min (time_of request + request_ttl) e) (time_of request) e
      (sha256_hex raw) @ renewal)"
    using assms(1) by (auto simp: request_says_def)
  let ?x = "expected_request g content service operator
      (time_of request) (min (time_of request + request_ttl) e) (time_of request) e
      (sha256_hex raw) @ renewal"
  have j: "json_ok (VDict ?x)" using expected_request_json [OF assms e(1)] .
  have "loads (ev_content request) = Inr (VDict content)" "ev_content request = canonical_json content"
    using assms(1) unfolding request_says_def by blast+
  then have "loads (canonical_json ?x) = Inr (VDict content)" by (metis e(2))
  then have "sort_keys (VDict ?x) = VDict content" using loads_canonical [OF j] by simp
  with j show ?thesis unfolding Let_def by blast
qed

lemma request_field:
  assumes "request_says w g policy request content service operator raw renewal"
    and "stroma_ok (o_crypto w) (o_stroma w)" "grantor_ok g"
  shows "dget content ''requested_operator'' = VStr operator"
    "dget content ''policy_sha256'' = VStr (sha256_hex raw)"
    "dget content ''service'' = service_object service"
    "dget content ''commissioning_attestation'' = VStr (gr_attestation_id g)"
proof -
  obtain t1 t2 t3 t4 where x: "json_ok (VDict (expected_request g content service operator t1 t2 t3 t4
      (sha256_hex raw) @ renewal))"
    "sort_keys (VDict (expected_request g content service operator t1 t2 t3 t4 (sha256_hex raw) @ renewal))
      = VDict content"
    using request_sorted [OF assms] unfolding Let_def by blast
  have g: "dget content k = sort_keys (dget (expected_request g content service operator t1 t2 t3 t4
      (sha256_hex raw) @ renewal) k)" for k
    using x by (intro dget_sort_keys) simp_all
  have a: "dget (expected_request g content service operator t1 t2 t3 t4 h @ r) k
      = dget (expected_request g content service operator t1 t2 t3 t4 h) k"
    if "k \<in> set [''requested_operator'', ''policy_sha256'', ''service'', ''commissioning_attestation'']"
    for k h r
    using that by (auto simp: expected_request_def)
  show "dget content ''requested_operator'' = VStr operator"
    "dget content ''policy_sha256'' = VStr (sha256_hex raw)"
    "dget content ''service'' = service_object service"
    "dget content ''commissioning_attestation'' = VStr (gr_attestation_id g)"
    unfolding g by (simp_all add: a) (simp_all add: expected_request_def)
qed

lemma sort_keys_keys: "sort_keys (VDict d) = VDict e \<Longrightarrow> set (map fst e) = set (map fst d)"
  by force

lemma copy_fields_exists:
  "\<forall>(out, name) \<in> set names. \<exists>v. need content name = Inr v \<Longrightarrow> \<exists>c. copy_fields names content = Inr c"
  by (induction names) (auto simp: copy_fields_def)

text \<open>And the template of its authorization can be made.\<close>

lemma template_exists:
  assumes "request_says w g policy request content service operator raw renewal"
    and "stroma_ok (o_crypto w) (o_stroma w)" "grantor_ok g"
  shows "\<exists>tp. authorization_template w' request = Inr tp"
proof -
  obtain t1 t2 t3 t4 where x: "json_ok (VDict (expected_request g content service operator t1 t2 t3 t4
      (sha256_hex raw) @ renewal))"
    "sort_keys (VDict (expected_request g content service operator t1 t2 t3 t4 (sha256_hex raw) @ renewal))
      = VDict content"
    using request_sorted [OF assms] unfolding Let_def by blast
  have k: "set (map fst content) = set (map fst (expected_request g content service operator t1 t2 t3 t4
      (sha256_hex raw) @ renewal))"
    by (rule sort_keys_keys [OF x(2)])
  have ne: "\<exists>v. need content n = Inr v" if "n \<in> set [''schema_version'', ''service'', ''requested_operator'',
      ''management'', ''commissioning_attestation'', ''not_before'', ''not_after'', ''subject_kinds'',
      ''policy_sha256'']" for n
  proof -
    have "lit n \<in> set (map fst content)" using that unfolding k by (auto simp: expected_request_def)
    then obtain v where "map_of content (lit n) = Some v" by (metis map_of_eq_None_iff not_Some_eq set_map)
    then show ?thesis by (simp add: need_def)
  qed
  have "need_text content n = Inr v" if "dget content n = VStr v" for n v
    using that by (auto simp: need_text_def need_def dget_def split: option.splits)
  then have t: "need_text content ''requested_operator'' = Inr operator"
    "need_text content ''commissioning_attestation'' = Inr (gr_attestation_id g)"
    using request_field [OF assms] by blast+
  have l: "loads (ev_content request) = Inr (VDict content)"
    using assms(1) unfolding request_says_def by blast
  obtain copied where c: "copy_fields
            [(''schema_version'', ''schema_version''), (''service'', ''service''),
             (''operator'', ''requested_operator''), (''management'', ''management''),
             (''commissioning_attestation'', ''commissioning_attestation''),
             (''not_before'', ''not_before''), (''not_after'', ''not_after''),
             (''subject_kinds'', ''subject_kinds''), (''policy_sha256'', ''policy_sha256'')] content = Inr copied"
    using copy_fields_exists [of "[(''schema_version'', ''schema_version''), (''service'', ''service''),
             (''operator'', ''requested_operator''), (''management'', ''management''),
             (''commissioning_attestation'', ''commissioning_attestation''),
             (''not_before'', ''not_before''), (''not_after'', ''not_after''),
             (''subject_kinds'', ''subject_kinds''), (''policy_sha256'', ''policy_sha256'')]" content] ne
    by auto
  show ?thesis
    using request_field(3) [OF assms] t c
    by (simp add: authorization_template_def l service_object_def Let_def need_text_def [of "[_, _]"] need_def)
qed

section \<open>A permitted witness\<close>

lemma verify_authorizationD:
  assumes "verify_authorization w data request content = Inr event"
  shows "valid_event w ''witness authorization'' data = Inr event" "kind_of event = 30078"
    "VStr (ev_pubkey event) = dget content ''requested_operator''"
    "time_of request \<le> time_of event"
    "time_of event < int_field content ''expires_at''" "time_of event \<le> o_now w + max_clock_skew"
  using assms
  by (auto simp: verify_authorization_def rbind_eq_Inr int_field_def case_VDict_Inr split: if_splits)

lemma check_grantD:
  assumes "check_witness_evidence w g evidence current = Inr es" "is_grant evidence"
  obtains request content event where
    "verify_witness_request w (dget evidence ''request'') g (dget evidence ''policy'') current
       = Inr (request, content)"
    "verify_authorization w (dget evidence ''authorization'') request content = Inr event"
    "es_authorization_id es = Some (ev_id event)"
    "es_policy_sha256 es = dget content ''policy_sha256''"
    "es_subject_kinds es = dget content ''subject_kinds''"
    "es_not_before es = int_field content ''not_before''"
    "es_not_after es = int_field content ''not_after''"
    "es_state es = grant_state (o_now w) (time_of event) (es_not_before es) (es_not_after es)"
  using assms
  by (auto simp: check_witness_evidence_def rbind_eq_Inr Let_def split: if_splits)

lemma latest_grant_SomeD: "latest_grant h = Some d \<Longrightarrow> d \<in> set h \<and> is_grant d"
  unfolding latest_grant_def find_Some_iff by (metis nth_mem set_rev)

lemma check_request_state:
  assumes "check_witness_evidence w g evidence current = Inr es" "\<not> is_grant evidence"
  shows "es_state es \<in> {Request_Pending, Request_Expired}"
  using assms by (auto simp: check_witness_evidence_def rbind_eq_Inr Let_def split: if_splits)

lemma permitted_view:
  assumes "witness_view_of w s g a = Inr v" "vw_permitted v"
  shows "\<exists>grant es. latest_grant (vw_history v) = Some grant \<and> vw_evidence v = grant
    \<and> vw_status v = Some es \<and> es_state es = Authorized
    \<and> check_witness_evidence w g grant False = Inr es
    \<and> \<not> revoked_now (vw_history v) \<and> \<not> suspended_now (vw_controls v)
    \<and> validate_history w g a = Inr (vw_history v)"
proof -
  from assms(1) obtain history current pending_status granted where
    h: "validate_history w g a = Inr history" "load_authorization a = Inr current"
    and p: "check_optional w g (if current \<noteq> [] \<and> \<not> is_grant current then Some current else None)
        = Inr pending_status"
    and c: "check_optional w g (latest_grant history) = Inr granted"
    and v: "vw_history v = history" "vw_controls v = load_controls a"
      "vw_status v = (if latest_grant history = None then pending_status else granted)"
      "vw_permitted v = ((if revoked_now history then Revoked
          else case vw_status v of None \<Rightarrow> Not_Authorized | Some e \<Rightarrow> es_state e) = Authorized
        \<and> \<not> suspended_now (load_controls a))"
      "vw_evidence v = (case latest_grant history of Some d \<Rightarrow> d
               | None \<Rightarrow> (case (if current \<noteq> [] \<and> \<not> is_grant current then Some current else None)
                           of Some d \<Rightarrow> d | None \<Rightarrow> []))"
    by (auto simp: witness_view_of_def rbind_eq_Inr Let_def)
  from assms(2) v(4) have st: "\<not> revoked_now history" "\<not> suspended_now (load_controls a)"
    "\<exists>e. vw_status v = Some e \<and> es_state e = Authorized"
    by (auto split: if_splits option.splits)
  then obtain es where es: "vw_status v = Some es" "es_state es = Authorized" by blast
  show ?thesis
  proof (cases "latest_grant history")
    case None
    with es v(3) p check_request_state [of w g current False es] show ?thesis
      by (auto simp: check_optional_def rbind_eq_Inr split: if_splits)
  next
    case (Some grant)
    with es v(3) c have "check_witness_evidence w g grant False = Inr es"
      by (auto simp: check_optional_def rbind_eq_Inr)
    with Some es st v(1,2,5) h(1) show ?thesis by auto
  qed
qed

end
