(* ===== verification/Witness_Roundtrip.thy ===== *)
theory Witness_Roundtrip
  imports Witness_Spec
begin

text \<open>
  The witness documents fit together: the request the service makes verifies, and what the
  operator signs from its template is accepted with it.
\<close>

section \<open>Sorted keys and assignment\<close>

lemma sort_key_map_of:
  assumes "distinct (map fst d)" "distinct (map fst e)" "map_of d = map_of e"
  shows "sort_key fst d = sort_key fst e"
proof (rule map_sorted_distinct_set_unique [of fst])
  have s: "set d = set e" using assms by (simp add: map_of_inject_set)
  then show "set (sort_key fst d) = set (sort_key fst e)" by simp
  show "inj_on fst (set (sort_key fst d) \<union> set (sort_key fst e))"
    using assms(1) s by (simp add: distinct_map)
qed (simp_all add: assms(1,2) map_fst_sort_keys)

lemma sort_keys_map_of:
  assumes "distinct (map fst d)" "distinct (map fst e)"
    and "\<And>k. map_option sort_keys (map_of d k) = map_option sort_keys (map_of e k)"
  shows "sort_keys (VDict d) = sort_keys (VDict e)"
  unfolding sort_keys_dict using assms
  by (auto intro!: sort_key_map_of simp: map_of_pairs)

lemma map_of_sort_keys:
  assumes "sort_keys (VDict d) = VDict e" "distinct (map fst d)"
  shows "map_of e k = map_option sort_keys (map_of d k)" "distinct (map fst e)"
proof -
  have e: "e = sort_key fst (map (\<lambda>(k, v). (k, sort_keys v)) d)" using assms(1) by simp
  show "map_of e k = map_option sort_keys (map_of d k)"
    using assms(2) unfolding e by (subst map_of_sort_key) (simp_all add: map_of_pairs)
  show "distinct (map fst e)" using assms(2) unfolding e by (simp add: map_fst_sort_keys)
qed

text \<open>Changing one field before or after sorting the keys gives the same canonical text.\<close>

lemma canonical_dict_set:
  assumes "sort_keys (VDict d) = VDict e" "distinct (map fst d)"
  shows "canonical_json (dict_set k v e) = canonical_json (dict_set k v d)"
proof -
  note e = map_of_sort_keys [OF assms]
  have "sort_keys (VDict (dict_set k v e)) = sort_keys (VDict (dict_set k v d))"
    using assms(2) e
    by (intro sort_keys_map_of) (auto simp: sort_keys_idem map_option.compositionality o_def
        simp del: sort_keys.simps)
  then show ?thesis by (simp add: canonical_json_def)
qed

section \<open>The request\<close>

text \<open>
  Whom a witness is for: the public keys of the service and of its operator, as the commissioning
  gives them.
\<close>

definition parties :: "stroma \<Rightarrow> grantor \<Rightarrow> pystr \<Rightarrow> pystr \<Rightarrow> bool" where
  "parties st g service operator =
     (grantor_ok g \<and> public_hex st (gr_npub g) = Inr service
      \<and> public_hex st (gr_operator_npub g) = Inr operator)"

definition witness_tags :: "grantor \<Rightarrow> pystr \<Rightarrow> int \<Rightarrow> pystr list list" where
  "witness_tags g operator expires =
     [[lit ''p'', operator, [], lit ''operator''],
      [lit ''e'', gr_attestation_id g, [], lit ''commissioning-attestation''],
      [lit ''expiration'', int_text expires], [lit ''role'', witness_role]]"

lemma request_fields_ok:
  assumes "grantor_ok g" "hex_string 64 service" "hex_string 64 operator" "hex_string 64 (o_nonce w)"
    and "valid_kinds (sorted_kinds kinds)" "0 < valid_for"
    and "0 \<le> o_now w" "o_now w + valid_for < 2 ^ 63"
  shows "json_ok (VDict (request_body_fields w g service operator valid_for kinds raw))"
proof -
  have enc: "encodable service" "encodable operator" "encodable (sha256_hex raw)" "encodable (o_nonce w)"
    using assms(2-4) hex_string_encodable hex_string_encodable [of 64 "sha256_hex raw"]
    by (auto simp: hex_string_def sha256_hex_digits)
  have "int_printable (o_now w)" "int_printable (o_now w + valid_for)"
    "int_printable (min (o_now w + request_ttl) (o_now w + valid_for))"
    using assms(6-8) by (auto intro!: int_printable_64 simp: min_def request_ttl_def)
  with enc assms(1) kinds_json [OF assms(5)] show ?thesis
    by (simp add: request_body_fields_def Let_def grantor_ok_def witness_request_schema_def
        witness_role_def)
qed

lemma request_verifies:
  assumes st: "stroma_ok (o_crypto w') (o_stroma w')" and p: "parties (o_stroma w') g service operator"
    and sg: "signed_by (o_crypto w') service 78 (o_now w)
      (canonical_json (request_body_fields w g service operator valid_for kinds raw))
      (witness_tags g operator (min (o_now w + request_ttl) (o_now w + valid_for))) r"
    and raw: "policy_bytes (VStr policy) = Inr raw"
    and n: "hex_string 64 (o_nonce w)" and k: "valid_kinds (sorted_kinds kinds)"
    and v: "0 < valid_for" "valid_for \<le> max_validity_seconds"
    and t: "0 \<le> o_now w" "o_now w + valid_for < 2 ^ 63" "o_now w \<le> o_now w' + max_clock_skew"
      "current \<longrightarrow> o_now w' < min (o_now w + request_ttl) (o_now w + valid_for)"
    and d: "sort_keys (VDict (request_body_fields w g service operator valid_for kinds raw)) = VDict d"
  shows "verify_witness_request w' (VDict (to_dict r)) g (VStr policy) current = Inr (r, d)"
proof -
  let ?c = "request_body_fields w g service operator valid_for kinds raw"
  have hex: "hex_string 64 service" "hex_string 64 operator"
    using p public_hex_string [OF st] by (auto simp: parties_def)
  have j: "json_ok (VDict ?c)"
    using p by (intro request_fields_ok hex n k v t) (simp add: parties_def)
  then have di: "distinct (map fst ?c)" by simp
  have f: "dget d x = sort_keys (dget ?c x)" for x by (rule dget_sort_keys [OF di d])
  have fields: "dget d ''schema'' = VStr witness_request_schema" "dget d ''schema_version'' = VInt 1"
    "dget d ''issued_at'' = VInt (o_now w)" "dget d ''not_before'' = VInt (o_now w)"
    "dget d ''not_after'' = VInt (o_now w + valid_for)"
    "dget d ''expires_at'' = VInt (min (o_now w + request_ttl) (o_now w + valid_for))"
    "dget d ''nonce'' = VStr (o_nonce w)" "dget d ''subject_kinds'' = sorted_kinds kinds"
    using kinds_json [OF k] by (simp_all add: f) (simp_all add: request_body_fields_def Let_def)
  have r: "ev_content r = canonical_json ?c" "ev_pubkey r = service" "kind_of r = 78"
    "time_of r = o_now w" "ev_tags r = witness_tags g operator (min (o_now w + request_ttl) (o_now w + valid_for))"
    using sg by (simp_all add: signed_by_def kind_of_def time_of_def)
  have "loads (canonical_json ?c) = Inr (VDict d)" by (simp only: loads_canonical [OF j] d)
  then have "witness_content r witness_request_schema = Inr d"
    using canonical_idem [OF d] by (simp add: witness_content_iff r fields)
  moreover have "valid_event w' ''witness request'' (VDict (to_dict r)) = Inr r"
    using t by (intro valid_signed [OF st sg]) (simp add: max_clock_skew_def)
  moreover have "expected_request g d service operator (o_now w)
      (min (o_now w + request_ttl) (o_now w + valid_for)) (o_now w) (o_now w + valid_for) (sha256_hex raw) = ?c"
    by (simp add: expected_request_def fields request_body_fields_def Let_def)
  moreover have "renewal_fields d = Inr []" by (simp add: renewal_fields_def fields)
  moreover have "require_tags r [[lit ''p'', operator, [], lit ''operator''],
         [lit ''e'', gr_attestation_id g, [], lit ''commissioning-attestation''],
         [lit ''expiration'', int_text (min (o_now w + request_ttl) (o_now w + valid_for))],
         [lit ''role'', witness_role]] = Inr ()"
    by (simp add: require_tags_iff r witness_tags_def)
  moreover have "is_hex (VStr (o_nonce w)) 64" using n by (simp add: is_hex_iff)
  moreover have "\<not> (current \<and> min (o_now w + request_ttl) (o_now w + valid_for) \<le> o_now w')"
    using t(4) by auto
  ultimately show ?thesis
    using p v t(1,2,3) k canonical_idem [OF d]
    by (simp add: verify_witness_request_def r fields parties_def raw need_integer_def)
qed

section \<open>The authorization\<close>

definition authorization_fields ::
  "outside \<Rightarrow> grantor \<Rightarrow> pystr \<Rightarrow> pystr \<Rightarrow> int \<Rightarrow> int list \<Rightarrow> byte list \<Rightarrow> pystr \<Rightarrow> int \<Rightarrow> pydict" where
  "authorization_fields w g service operator valid_for kinds raw request_id issued =
     [(lit ''schema_version'', VInt 1), (lit ''service'', service_object service),
      (lit ''operator'', VStr operator), (lit ''management'', VStr (gr_management g)),
      (lit ''commissioning_attestation'', VStr (gr_attestation_id g)),
      (lit ''not_before'', VInt (o_now w)), (lit ''not_after'', VInt (o_now w + valid_for)),
      (lit ''subject_kinds'', sorted_kinds kinds), (lit ''policy_sha256'', VStr (sha256_hex raw)),
      (lit ''schema'', VStr authorization_schema), (lit ''action'', vlit ''authorize''),
      (lit ''role'', VStr witness_role), (lit ''request_event_id'', VStr request_id),
      (lit ''issued_at'', VInt issued), (lit ''sequence'', VInt 1), (lit ''previous'', VNone)]"

definition authorization_tags :: "grantor \<Rightarrow> pystr \<Rightarrow> pystr \<Rightarrow> pystr list list" where
  "authorization_tags g service request_id =
     [[lit ''d'', authorization_schema @ lit '':'' @ service], [lit ''p'', service, [], lit ''service''],
      [lit ''e'', request_id, [], lit ''authorization-request''],
      [lit ''e'', gr_attestation_id g, [], lit ''commissioning-attestation''],
      [lit ''role'', witness_role]]"

lemma template_of_request:
  assumes "ev_content r = canonical_json (request_body_fields w g service operator valid_for kinds raw)"
    and "json_ok (VDict (request_body_fields w g service operator valid_for kinds raw))"
    and "valid_kinds (sorted_kinds kinds)"
  shows "authorization_template w1 r =
    Inr \<lparr>tp_kind = 30078, tp_pubkey = operator, tp_created_at = o_now w1,
      tp_content = canonical_json
        (authorization_fields w g service operator valid_for kinds raw (ev_id r) (o_now w1)),
      tp_tags = authorization_tags g service (ev_id r)\<rparr>"
proof -
  let ?c = "request_body_fields w g service operator valid_for kinds raw"
  obtain d where d: "sort_keys (VDict ?c) = VDict d" by simp
  have l: "loads (ev_content r) = Inr (VDict d)" by (simp only: assms(1) loads_canonical [OF assms(2)] d)
  have m: "map_of d k = map_option sort_keys (map_of ?c k)" for k
    using map_of_sort_keys(1) [OF d] assms(2) by simp
  have fields: "map_of d (lit ''schema_version'') = Some (VInt 1)"
    "map_of d (lit ''service'') = Some (service_object service)"
    "map_of d (lit ''requested_operator'') = Some (VStr operator)"
    "map_of d (lit ''management'') = Some (VStr (gr_management g))"
    "map_of d (lit ''commissioning_attestation'') = Some (VStr (gr_attestation_id g))"
    "map_of d (lit ''not_before'') = Some (VInt (o_now w))"
    "map_of d (lit ''not_after'') = Some (VInt (o_now w + valid_for))"
    "map_of d (lit ''subject_kinds'') = Some (sorted_kinds kinds)"
    "map_of d (lit ''policy_sha256'') = Some (VStr (sha256_hex raw))"
    "map_of d (lit ''action'') = None" "map_of d (lit ''sequence'') = None"
    "map_of d (lit ''previous'') = None"
    using kinds_json [OF assms(3)] unfolding m by (simp_all add: request_body_fields_def Let_def)
  have "dget d ''service'' = VDict [(lit ''pubkey'', VStr service), (lit ''type'', vlit ''nostr-relay'')]"
    using fields(2) by (simp add: dget_def service_object_def)
  then show ?thesis
    by (simp add: authorization_template_def l copy_fields_def need_def need_text_def fields dget_or_def)
      (simp add: dget_def fields authorization_fields_def authorization_tags_def py_eq_def need_def)
qed

lemma authorization_fields_ok:
  assumes "json_ok (VDict (request_body_fields w g service operator valid_for kinds raw))"
    and "encodable request_id" "int_printable issued"
  shows "json_ok (VDict
    (authorization_fields w g service operator valid_for kinds raw request_id issued))"
  using assms
  by (simp add: request_body_fields_def authorization_fields_def Let_def authorization_schema_def)

lemma reissued:
  "dict_set (lit ''issued_at'') (VInt t)
     (authorization_fields w g service operator valid_for kinds raw request_id issued)
   = authorization_fields w g service operator valid_for kinds raw request_id t"
  by (simp add: authorization_fields_def)

lemma authorization_verifies:
  assumes st: "stroma_ok (o_crypto w') (o_stroma w')"
    and c: "ev_content r = canonical_json (request_body_fields w g service operator valid_for kinds raw)"
      "json_ok (VDict (request_body_fields w g service operator valid_for kinds raw))"
      "sort_keys (VDict (request_body_fields w g service operator valid_for kinds raw)) = VDict d"
      "valid_kinds (sorted_kinds kinds)" "wf_event r" "time_of r = o_now w"
    and sg: "signed_by (o_crypto w') operator 30078 t1
      (canonical_json (authorization_fields w g service operator valid_for kinds raw (ev_id r) t1))
      (authorization_tags g service (ev_id r)) a"
    and t: "o_now w \<le> t1" "t1 < min (o_now w + request_ttl) (o_now w + valid_for)"
      "t1 \<le> o_now w' + max_clock_skew" "int_printable t1" "int_printable (o_now w')"
  shows "verify_authorization w' (VDict (to_dict a)) r d = Inr a"
proof -
  let ?c = "request_body_fields w g service operator valid_for kinds raw"
  let ?x = "\<lambda>t. authorization_fields w g service operator valid_for kinds raw (ev_id r) t"
  have enc: "encodable (ev_id r)" using c(5) hex_string_encodable by (auto simp: wf_event_def)
  have j: "json_ok (VDict (?x t))" if "int_printable t" for t
    using authorization_fields_ok [OF c(2) enc that] .
  have a: "ev_content a = canonical_json (?x t1)" "ev_pubkey a = operator" "kind_of a = 30078"
    "time_of a = t1" "ev_created_at a = NInt t1" "ev_tags a = authorization_tags g service (ev_id r)"
    using sg by (simp_all add: signed_by_def kind_of_def time_of_def)
  obtain b where b: "sort_keys (VDict (?x t1)) = VDict b" by simp
  obtain b' where b': "sort_keys (VDict (?x (o_now w'))) = VDict b'" by simp
  have di: "distinct (map fst (?x t))" for t by (simp add: authorization_fields_def)
  have l: "loads (canonical_json (?x t1)) = Inr (VDict b)"
    "loads (canonical_json (?x (o_now w'))) = Inr (VDict b')"
    by (simp_all only: loads_canonical [OF j [OF t(4)]] loads_canonical [OF j [OF t(5)]] b b')
  have "dget b ''schema'' = VStr authorization_schema" "dget b ''schema_version'' = VInt 1"
    by (simp_all only: dget_sort_keys [OF di b]) (simp_all add: authorization_fields_def)
  then have w: "witness_content a authorization_schema = Inr b"
    using l(1) canonical_idem [OF b] by (simp add: witness_content_iff a)
  have "canonical_json (dict_set (lit ''issued_at'') (VInt t1) b')
      = canonical_json (dict_set (lit ''issued_at'') (VInt t1) (?x (o_now w')))"
    by (rule canonical_dict_set [OF b' di])
  then have s: "canonical_json b = canonical_json (dict_set (lit ''issued_at'') (VInt t1) b')"
    using canonical_idem [OF b] by (simp add: reissued)
  have f: "dget d ''requested_operator'' = VStr operator"
    "dget d ''expires_at'' = VInt (min (o_now w + request_ttl) (o_now w + valid_for))"
  proof -
    have "distinct (map fst ?c)" using c(2) by simp
    then show "dget d ''requested_operator'' = VStr operator"
      "dget d ''expires_at'' = VInt (min (o_now w + request_ttl) (o_now w + valid_for))"
      by (simp_all only: dget_sort_keys [OF _ c(3)]) (simp_all add: request_body_fields_def Let_def)
  qed
  have v: "valid_event w' ''witness authorization'' (VDict (to_dict a)) = Inr a"
    using t(3) by (intro valid_signed [OF st sg]) (simp add: max_clock_skew_def)
  have tags: "require_tags a (authorization_tags g service (ev_id r)) = Inr ()"
    by (simp add: require_tags_iff a)
  show ?thesis
    using t(1-3)
    by (simp add: verify_authorization_def v w a f c(6) template_of_request [OF c(1,2,4)] l(2)
        s [symmetric] tags)
qed

section \<open>What an authorization says\<close>

lemma copy_fieldsD:
  "copy_fields names content = Inr c \<Longrightarrow>
    map fst c = map (\<lambda>(out, name). lit out) names \<and> snd ` set c \<subseteq> snd ` set content"
proof (induction names arbitrary: c)
  case (Cons p names)
  obtain out name where p: "p = (out, name)" by (cases p)
  with Cons.prems obtain v cs where v: "need content name = Inr v" "c = (lit out, v) # cs"
    "copy_fields names content = Inr cs"
    by (auto simp: copy_fields_def rbind_eq_Inr)
  have "v \<in> snd ` set content" using v(1) by (force simp: need_def dest: map_of_SomeD split: option.splits)
  with Cons.IH [OF v(3)] v p show ?case by auto
qed (simp add: copy_fields_def)

lemma json_ok_dget: "json_ok (VDict d) \<Longrightarrow> json_ok (dget d k)"
  by (auto simp: dget_def list_all_iff dest: map_of_SomeD split: option.splits)

lemma json_ok_dget_or: "json_ok (VDict d) \<Longrightarrow> json_ok v \<Longrightarrow> json_ok (dget_or d k v)"
  by (auto simp: dget_or_def list_all_iff dest: map_of_SomeD split: option.splits)

lemma need_text_encodable: "json_ok (VDict d) \<Longrightarrow> need_text d k = Inr s \<Longrightarrow> encodable s"
proof -
  assume d: "json_ok (VDict d)" "need_text d k = Inr s"
  then obtain v where v: "need d k = Inr v" "need_str v = Inr s" by (auto simp: need_text_def rbind_eq_Inr)
  then have "json_ok v" using json_ok_dget [OF d(1), of k] by (simp add: need_def dget_def split: option.splits)
  then show ?thesis using v(2) by (cases v) auto
qed

text \<open>A template without its time.\<close>

definition authorization_body :: "pydict \<Rightarrow> pydict \<Rightarrow> stored_event \<Rightarrow> int \<Rightarrow> pydict" where
  "authorization_body copied content request now = copied @
     [(lit ''schema'', VStr authorization_schema),
      (lit ''action'', dget_or content ''action'' (vlit ''authorize'')),
      (lit ''role'', VStr witness_role), (lit ''request_event_id'', VStr (ev_id request)),
      (lit ''issued_at'', VInt now), (lit ''sequence'', dget_or content ''sequence'' (VInt 1)),
      (lit ''previous'', dget content ''previous'')]"

lemma template_parts:
  assumes "authorization_template w r = Inr tp" "loads (ev_content r) = Inr (VDict content)"
    and "json_ok (VDict content)" "encodable (ev_id r)" "int_printable (o_now w)"
  obtains copied where "tp_kind tp = 30078" "tp_created_at tp = o_now w"
    "tp_content tp = canonical_json (authorization_body copied content r (o_now w))"
    "json_ok (VDict (authorization_body copied content r (o_now w)))"
    "\<And>w'. authorization_template w' r
       = Inr (tp\<lparr>tp_created_at := o_now w', tp_content := canonical_json (authorization_body copied content r (o_now w'))\<rparr>)"
    "\<And>n. int_printable n \<Longrightarrow> json_ok (VDict (authorization_body copied content r n))"
    "list_all (list_all encodable) (tp_tags tp)"
    "copy_fields
            [(''schema_version'', ''schema_version''), (''service'', ''service''),
             (''operator'', ''requested_operator''), (''management'', ''management''),
             (''commissioning_attestation'', ''commissioning_attestation''),
             (''not_before'', ''not_before''), (''not_after'', ''not_after''),
             (''subject_kinds'', ''subject_kinds''), (''policy_sha256'', ''policy_sha256'')] content = Inr copied"
    "[lit ''e'', ev_id r, [], lit ''authorization-request''] \<in> set (tp_tags tp)"
    "[lit ''role'', witness_role] \<in> set (tp_tags tp)"
proof -
  obtain copied operator attestation service where c: "copy_fields
            [(''schema_version'', ''schema_version''), (''service'', ''service''),
             (''operator'', ''requested_operator''), (''management'', ''management''),
             (''commissioning_attestation'', ''commissioning_attestation''),
             (''not_before'', ''not_before''), (''not_after'', ''not_after''),
             (''subject_kinds'', ''subject_kinds''), (''policy_sha256'', ''policy_sha256'')] content = Inr copied"
    and n: "need_text content ''requested_operator'' = Inr operator"
      "need_text content ''commissioning_attestation'' = Inr attestation"
      "(case dget content ''service'' of VDict s \<Rightarrow> need_text s ''pubkey'' | _ \<Rightarrow> Inl TypeError) = Inr service"
    using assms(1,2) unfolding authorization_template_def by (auto simp: rbind_eq_Inr Let_def)
  have tp: "authorization_template w' r = Inr \<lparr>tp_kind = 30078, tp_pubkey = operator, tp_created_at = o_now w',
                tp_content = canonical_json (authorization_body copied content r (o_now w')),
                tp_tags =
                  [[lit ''d'', authorization_schema @ lit '':'' @ service @
                      (if py_eq (dget content ''schema_version'') (VInt 2)
                       then lit '':'' @ ev_id r else [])],
                   [lit ''p'', service, [], lit ''service''],
                   [lit ''e'', ev_id r, [], lit ''authorization-request''],
                   [lit ''e'', attestation, [], lit ''commissioning-attestation''],
                   [lit ''role'', witness_role]]\<rparr>" for w'
    by (simp add: authorization_template_def assms(2) c n authorization_body_def)
  have "\<forall>v \<in> snd ` set content. json_ok v" using assms(3) by (auto simp: list_all_iff)
  then have "list_all (\<lambda>(k, v). json_ok v) copied" using copy_fieldsD [OF c] by (fastforce simp: list_all_iff)
  moreover have "list_all (\<lambda>(k, v). encodable k) copied"
  proof -
    have "list_all encodable (map fst copied)" using copy_fieldsD [OF c] by simp
    then show ?thesis by (auto simp: list_all_iff)
  qed
  ultimately have cp: "list_all (\<lambda>(k, v). encodable k \<and> json_ok v) copied" by (auto simp: list_all_iff)
  have j: "json_ok (VDict (authorization_body copied content r n))" if "int_printable n" for n
    using copy_fieldsD [OF c] cp that assms(4) json_ok_dget [OF assms(3)] json_ok_dget_or [OF assms(3)]
    by (simp add: authorization_body_def authorization_schema_def witness_role_def)
  obtain sd where "dget content ''service'' = VDict sd" "need_text sd ''pubkey'' = Inr service"
    using n(3) by (cases "dget content ''service''") auto
  then have "encodable service" "encodable attestation"
    using need_text_encodable json_ok_dget [OF assms(3), of "''service''"] n(2) assms(3) by metis+
  note enc = this assms(4)
  note e = tp [of w, unfolded assms(1), THEN sum.inject(2) [THEN iffD1]]
  show thesis
    by (rule that [of copied]) (use tp j assms(5) enc c in \<open>simp_all add: e authorization_schema_def witness_role_def del: json_ok.simps\<close>)
qed

lemma json_ok_dict_set:
  assumes "json_ok (VDict d)" "json_ok v" "encodable k"
  shows "json_ok (VDict (dict_set k v d))"
proof -
  have "list_all P (dict_set k v d)" if "list_all P d" "P (k, v)" for P
    using that by (induction d) auto
  then show ?thesis using assms by simp
qed

lemma require_tags_in: "require_tags e ts = Inr u \<Longrightarrow> t \<in> set ts \<Longrightarrow> t \<in> set (ev_tags e)"
  unfolding require_tags_def
  by (induction ts) (auto simp: rbind_eq_Inr require_tag_def ensure_eq_Inr)

lemma printable_between:
  assumes "int_printable i" "int_printable k" "i \<le> j" "j \<le> k"
  shows "int_printable j"
proof -
  have l: "length (nat_text m) \<le> length (nat_text n)" if "m \<le> n" for m n
  proof -
    have "n < 10 ^ length (nat_text n)" by (metis digits_val_nat_text digits_val_less nat_text_all_digits)
    moreover have "0 < length (nat_text n)" by (simp add: nat_text.simps [of n])
    ultimately show ?thesis using that by (intro length_nat_text) simp_all
  qed
  have "nat \<bar>j\<bar> \<le> nat \<bar>i\<bar> \<or> nat \<bar>j\<bar> \<le> nat \<bar>k\<bar>" using assms(3,4) by linarith
  then show ?thesis using assms(1,2) l unfolding int_printable_def by (meson le_trans)
qed

text \<open>
  A verified authorization names the request and repeats its terms: what the operator signed is the
  interval, the kinds and the policy that the service asked for.
\<close>

lemma authorization_says:
  assumes a: "verify_authorization w data request content = Inr event"
    and r: "request_says w g policy request content service operator raw renewal"
    and st: "stroma_ok (o_crypto w) (o_stroma w)" and g: "grantor_ok g"
    and e: "encodable (ev_id request)" and n: "int_printable (o_now w)"
  shows "\<exists>body. loads (ev_content event) = Inr (VDict body)
    \<and> dget body ''schema'' = VStr authorization_schema \<and> dget body ''role'' = VStr witness_role
    \<and> dget body ''request_event_id'' = VStr (ev_id request)
    \<and> dget body ''operator'' = VStr operator \<and> dget body ''service'' = service_object service
    \<and> dget body ''policy_sha256'' = VStr (sha256_hex raw)
    \<and> dget body ''not_before'' = dget content ''not_before''
    \<and> dget body ''not_after'' = dget content ''not_after''
    \<and> dget body ''subject_kinds'' = dget content ''subject_kinds''
    \<and> [lit ''e'', ev_id request, [], lit ''authorization-request''] \<in> set (ev_tags event)
    \<and> [lit ''role'', witness_role] \<in> set (ev_tags event)"
proof -
  have l: "loads (ev_content request) = Inr (VDict content)" using r unfolding request_says_def by blast
  obtain t1 t2 t3 t4 where x: "json_ok (VDict (expected_request g content service operator t1 t2 t3 t4 (sha256_hex raw) @ renewal))"
    "sort_keys (VDict (expected_request g content service operator t1 t2 t3 t4 (sha256_hex raw) @ renewal)) = VDict content"
    using request_sorted [OF r st g] unfolding Let_def by blast
  have jc: "json_ok (VDict content)" using json_ok_sort_keys [OF x(1)] by (simp only: x(2))
  have "distinct (map fst (expected_request g content service operator t1 t2 t3 t4 (sha256_hex raw) @ renewal))"
    using x(1) by simp
  note cf = dget_sort_keys [OF this x(2)]
  have sc: "sort_keys (dget content k) = dget content k" for k by (simp add: cf sort_keys_idem)
  obtain tp d where t: "authorization_template w request = Inr tp" "loads (tp_content tp) = Inr (VDict d)"
    and tags: "require_tags event (tp_tags tp) = Inr ()"
    and b: "\<exists>body. witness_content event authorization_schema = Inr body
      \<and> canonical_json body = canonical_json (dict_set (lit ''issued_at'') (VNum (ev_created_at event)) d)"
    using a by (auto simp: verify_authorization_def rbind_eq_Inr case_VDict_Inr split: if_splits)
  from template_parts [OF t(1) l jc e n] obtain copied where
    p: "tp_content tp = canonical_json (authorization_body copied content request (o_now w))"
      "json_ok (VDict (authorization_body copied content request (o_now w)))"
      "copy_fields
            [(''schema_version'', ''schema_version''), (''service'', ''service''),
             (''operator'', ''requested_operator''), (''management'', ''management''),
             (''commissioning_attestation'', ''commissioning_attestation''),
             (''not_before'', ''not_before''), (''not_after'', ''not_after''),
             (''subject_kinds'', ''subject_kinds''), (''policy_sha256'', ''policy_sha256'')] content = Inr copied"
      "[lit ''e'', ev_id request, [], lit ''authorization-request''] \<in> set (tp_tags tp)"
      "[lit ''role'', witness_role] \<in> set (tp_tags tp)" by metis
  let ?A = "authorization_body copied content request (o_now w)"
  let ?X = "dict_set (lit ''issued_at'') (VNum (ev_created_at event)) ?A"
  have d: "sort_keys (VDict ?A) = VDict d" using loads_canonical [OF p(2)] t(2) by (simp only: p(1) sum.inject)
  have "json_ok (VNum (ev_created_at event))"
  proof (cases "ev_created_at event")
    case (NInt i)
    have "int_printable (time_of request)" using loads_int_field [OF l] r unfolding request_says_def by blast
    moreover obtain z where "dget content ''expires_at'' = VInt z" using r unfolding request_says_def by blast
    then have "int_printable (int_field content ''expires_at'')"
      using loads_int_field [OF l] by (simp add: int_field_def)
    ultimately have "int_printable (time_of event)"
      using verify_authorizationD(4,5) [OF a]
      by (intro printable_between [of "time_of request" "int_field content ''expires_at''" "time_of event"]) simp_all
    then show ?thesis using NInt by (simp add: time_of_def num_printable_def)
  qed (simp add: num_printable_def int_printable_small)
  then have jx: "json_ok (VDict ?X)" using p(2) by (intro json_ok_dict_set) simp_all
  obtain body where body: "loads (ev_content event) = Inr (VDict body)" "canonical_json body = ev_content event"
    "dget body ''schema'' = VStr authorization_schema"
    "canonical_json body = canonical_json ?X"
    using b canonical_dict_set [OF d] p(2) by (auto simp: witness_content_iff)
  have "sort_keys (VDict ?X) = VDict body" using loads_canonical [OF jx] body by simp
  moreover have "distinct (map fst ?X)" using jx by simp
  ultimately have f: "dget body k = sort_keys (dget ?X k)" for k by (intro dget_sort_keys)
  have X: "dget ?X k = dget ?A k" if "k \<noteq> ''issued_at''" for k
    using that by (simp add: dget_def)
  have nd: "need content k = Inr v \<Longrightarrow> dget content k = v" for k v
    by (auto simp: need_def dget_def split: option.splits)
  have A: "dget ?A ''role'' = VStr witness_role" "dget ?A ''request_event_id'' = VStr (ev_id request)"
    "dget ?A ''operator'' = dget content ''requested_operator''" "dget ?A ''service'' = dget content ''service''"
    "dget ?A ''policy_sha256'' = dget content ''policy_sha256''" "dget ?A ''not_before'' = dget content ''not_before''"
    "dget ?A ''not_after'' = dget content ''not_after''" "dget ?A ''subject_kinds'' = dget content ''subject_kinds''"
    using p(3) by (auto simp: copy_fields_def rbind_eq_Inr authorization_body_def dest!: nd)
  show ?thesis
    using body(1,3) require_tags_in [OF tags p(4)] require_tags_in [OF tags p(5)] request_field [OF r st g]
    by (intro exI [of _ body]) (simp add: f X A sc)
qed

end
