(* ===== verification/Witness_Cycle.thy ===== *)
theory Witness_Cycle
  imports Witness_Roundtrip
begin

text \<open>
  The life of a first authorization: the request, the operator's signature on its template, and
  the two operations of \<open>WitnessAuthorization\<close> that retain them, up to the permitted witness.
\<close>

section \<open>A request and its grant\<close>

definition request_expiry :: "outside \<Rightarrow> int \<Rightarrow> int" where
  "request_expiry w valid_for = min (o_now w + request_ttl) (o_now w + valid_for)"

definition requestable ::
  "outside \<Rightarrow> grantor \<Rightarrow> pystr \<Rightarrow> pystr \<Rightarrow> int \<Rightarrow> int list \<Rightarrow> pystr \<Rightarrow> byte list \<Rightarrow> bool" where
  "requestable w g service operator valid_for kinds policy raw =
     (stroma_ok (o_crypto w) (o_stroma w) \<and> parties (o_stroma w) g service operator
      \<and> policy_bytes (VStr policy) = Inr raw \<and> hex_string 64 (o_nonce w)
      \<and> valid_kinds (sorted_kinds kinds) \<and> 0 < valid_for \<and> valid_for \<le> max_validity_seconds
      \<and> 0 \<le> o_now w \<and> o_now w + valid_for < 2 ^ 63)"

definition made_request ::
  "outside \<Rightarrow> grantor \<Rightarrow> pystr \<Rightarrow> pystr \<Rightarrow> int \<Rightarrow> int list \<Rightarrow> byte list \<Rightarrow> stored_event \<Rightarrow> bool" where
  "made_request w g service operator valid_for kinds raw r =
     signed_by (o_crypto w) service 78 (o_now w)
       (canonical_json (request_body_fields w g service operator valid_for kinds raw))
       (witness_tags g operator (request_expiry w valid_for)) r"

definition made_grant ::
  "outside \<Rightarrow> grantor \<Rightarrow> pystr \<Rightarrow> pystr \<Rightarrow> int \<Rightarrow> int list \<Rightarrow> byte list \<Rightarrow> stored_event \<Rightarrow> int
     \<Rightarrow> stored_event \<Rightarrow> bool" where
  "made_grant w g service operator valid_for kinds raw r t1 a =
     (signed_by (o_crypto w) operator 30078 t1
        (canonical_json (authorization_fields w g service operator valid_for kinds raw (ev_id r) t1))
        (authorization_tags g service (ev_id r)) a
      \<and> o_now w \<le> t1 \<and> t1 < request_expiry w valid_for)"

definition same_libraries :: "outside \<Rightarrow> outside \<Rightarrow> bool" where
  "same_libraries w w' = (o_crypto w' = o_crypto w \<and> o_stroma w' = o_stroma w)"

lemma verify_request_cong:
  assumes "valid_event w ''witness request'' rv = Inr r"
    and "valid_event w ''witness request'' rv' = Inr r"
  shows "verify_witness_request w rv g p cur = verify_witness_request w rv' g p cur"
  using assms by (simp add: verify_witness_request_def)

lemma made_request_verifies:
  assumes "requestable w g service operator valid_for kinds policy raw"
    and "made_request w g service operator valid_for kinds raw r" "same_libraries w w'"
    and "o_now w \<le> o_now w' + max_clock_skew" "current \<longrightarrow> o_now w' < request_expiry w valid_for"
    and "valid_event w' ''witness request'' rv = Inr r"
    and "sort_keys (VDict (request_body_fields w g service operator valid_for kinds raw)) = VDict d"
  shows "verify_witness_request w' rv g (VStr policy) current = Inr (r, d)"
proof -
  have st: "stroma_ok (o_crypto w') (o_stroma w')"
    using assms(1,3) by (simp add: requestable_def same_libraries_def)
  have sg: "signed_by (o_crypto w') service 78 (o_now w)
      (canonical_json (request_body_fields w g service operator valid_for kinds raw))
      (witness_tags g operator (min (o_now w + request_ttl) (o_now w + valid_for))) r"
    using assms(2,3) by (simp add: made_request_def same_libraries_def request_expiry_def)
  have "valid_event w' ''witness request'' (VDict (to_dict r)) = Inr r"
    using assms(4) by (intro valid_signed [OF st sg]) (simp add: max_clock_skew_def)
  moreover have "verify_witness_request w' (VDict (to_dict r)) g (VStr policy) current = Inr (r, d)"
    using assms(1,3,4,5,7)
    by (intro request_verifies [OF st _ sg]) (simp_all add: requestable_def same_libraries_def request_expiry_def)
  ultimately show ?thesis using verify_request_cong [OF assms(6)] by metis
qed

lemma request_json:
  assumes "requestable w g service operator valid_for kinds policy raw"
  shows "json_ok (VDict (request_body_fields w g service operator valid_for kinds raw))"
proof -
  have "hex_string 64 service" "hex_string 64 operator"
    using assms public_hex_string by (auto simp: requestable_def parties_def)
  then show ?thesis
    using assms by (intro request_fields_ok) (simp_all add: requestable_def parties_def)
qed

lemma made_grant_verifies:
  assumes rq: "requestable w g service operator valid_for kinds policy raw"
    and r: "made_request w g service operator valid_for kinds raw r" and w: "same_libraries w w'"
    and a: "made_grant w g service operator valid_for kinds raw r t1 a"
    and t: "t1 \<le> o_now w' + max_clock_skew" "o_now w' < 2 ^ 63"
    and v: "valid_event w' ''witness authorization'' av = Inr a"
    and d: "sort_keys (VDict (request_body_fields w g service operator valid_for kinds raw)) = VDict d"
  shows "verify_authorization w' av r d = Inr a"
proof -
  have st: "stroma_ok (o_crypto w') (o_stroma w')" using rq w by (simp add: requestable_def same_libraries_def)
  have n: "0 \<le> o_now w" "o_now w + valid_for < 2 ^ 63" using rq by (simp_all add: requestable_def)
  have t1: "o_now w \<le> t1" "t1 < o_now w + valid_for"
    using a by (simp_all add: made_grant_def request_expiry_def)
  have pr: "int_printable t1" "int_printable (o_now w')"
    using n t1 t by (auto intro!: int_printable_64 simp: max_clock_skew_def)
  have sg: "signed_by (o_crypto w') operator 30078 t1
      (canonical_json (authorization_fields w g service operator valid_for kinds raw (ev_id r) t1))
      (authorization_tags g service (ev_id r)) a"
    using a w by (simp add: made_grant_def same_libraries_def)
  have e: "valid_event w' ''witness authorization'' (VDict (to_dict a)) = Inr a"
    using t(1) by (intro valid_signed [OF st sg]) (simp add: max_clock_skew_def)
  have "verify_authorization w' (VDict (to_dict a)) r d = Inr a"
  proof (rule authorization_verifies [OF st _ request_json [OF rq] d _ _ _ sg])
    show "ev_content r = canonical_json (request_body_fields w g service operator valid_for kinds raw)"
      "wf_event r" "time_of r = o_now w"
      using r by (simp_all add: made_request_def signed_by_def time_of_def)
    show "valid_kinds (sorted_kinds kinds)" using rq by (simp add: requestable_def)
    show "t1 < min (o_now w + request_ttl) (o_now w + valid_for)"
      using a by (simp add: made_grant_def request_expiry_def)
  qed (use t1 t pr in simp_all)
  then show ?thesis by (simp add: verify_authorization_def e v)
qed

section \<open>The retained evidence\<close>

lemma request_evidence_checks:
  assumes rq: "requestable w g service operator valid_for kinds policy raw"
    and r: "made_request w g service operator valid_for kinds raw r" and w: "same_libraries w w'"
    and t: "o_now w \<le> o_now w' + max_clock_skew" "current \<longrightarrow> o_now w' < request_expiry w valid_for"
    and ev: "set (map fst ev) = {lit ''request'', lit ''policy''}"
      "valid_event w' ''witness request'' (dget ev ''request'') = Inr r" "dget ev ''policy'' = VStr policy"
  shows "\<exists>es. check_witness_evidence w' g ev current = Inr es"
proof -
  obtain d where d: "sort_keys (VDict (request_body_fields w g service operator valid_for kinds raw)) = VDict d"
    by simp
  have "\<not> is_grant ev"
  proof
    assume "is_grant ev"
    then have "lit ''authorization'' \<in> set (map fst ev)" by (simp add: has_key_def map_of_eq_None_iff)
    then show False unfolding ev(1) by simp
  qed
  then show ?thesis
    using made_request_verifies [OF rq r w t ev(2) d] ev(1,3)
    by (simp add: check_witness_evidence_def Let_def)
qed

definition grant_status ::
  "outside \<Rightarrow> int \<Rightarrow> int list \<Rightarrow> byte list \<Rightarrow> stored_event \<Rightarrow> evidence_status \<Rightarrow> bool" where
  "grant_status w valid_for kinds raw a es =
     (es_authorization_id es = Some (ev_id a) \<and> es_not_before es = o_now w
      \<and> es_not_after es = o_now w + valid_for \<and> es_subject_kinds es = sorted_kinds kinds
      \<and> es_policy_sha256 es = VStr (sha256_hex raw))"

lemma grant_evidence_checks:
  assumes rq: "requestable w g service operator valid_for kinds policy raw"
    and r: "made_request w g service operator valid_for kinds raw r" and w: "same_libraries w w'"
    and a: "made_grant w g service operator valid_for kinds raw r t1 a"
    and t: "t1 \<le> o_now w' + max_clock_skew" "o_now w' < 2 ^ 63"
      "current \<longrightarrow> o_now w' < request_expiry w valid_for"
    and ev: "set (map fst ev) = {lit ''request'', lit ''policy'', lit ''authorization''}"
      "valid_event w' ''witness request'' (dget ev ''request'') = Inr r" "dget ev ''policy'' = VStr policy"
      "valid_event w' ''witness authorization'' (dget ev ''authorization'') = Inr a"
  shows "\<exists>es. check_witness_evidence w' g ev current = Inr es
    \<and> es_state es = grant_state (o_now w') t1 (o_now w) (o_now w + valid_for)
    \<and> grant_status w valid_for kinds raw a es"
proof -
  let ?c = "request_body_fields w g service operator valid_for kinds raw"
  obtain d where d: "sort_keys (VDict ?c) = VDict d" by simp
  have "o_now w \<le> o_now w' + max_clock_skew" using a t(1) by (simp add: made_grant_def)
  note v = made_request_verifies [OF rq r w this t(3) ev(2) d]
    made_grant_verifies [OF rq r w a t(1,2) ev(4) d]
  have di: "distinct (map fst ?c)" using request_json [OF rq] by simp
  have "valid_kinds (sorted_kinds kinds)" using rq by (simp add: requestable_def)
  then have f: "int_field d ''not_before'' = o_now w" "int_field d ''not_after'' = o_now w + valid_for"
    "dget d ''subject_kinds'' = sorted_kinds kinds" "dget d ''policy_sha256'' = VStr (sha256_hex raw)"
    using kinds_json [of "sorted_kinds kinds"]
    by (simp_all only: int_field_def dget_sort_keys [OF di d])
      (simp_all add: request_body_fields_def Let_def)
  have "is_grant ev" using ev(1) by (auto simp: has_key_def map_of_eq_None_iff)
  moreover have "time_of a = t1" using a by (simp add: made_grant_def signed_by_def time_of_def)
  moreover have "set (map fst ev) = {lit ''request'', lit ''policy''} \<union> {lit ''authorization''}"
    using ev(1) by auto
  ultimately show ?thesis
    using v ev(3) by (simp add: check_witness_evidence_def Let_def f grant_status_def)
qed

section \<open>The commissioned operator\<close>

context admin_contract begin

lemma grantor: "arelates R (verified_grantor w s)"
  unfolding verified_grantor_def by (intro closed evidence)

lemma viewed: "arelates R (read_view w s g)"
  unfolding read_view_def by (rule closed)

lemma witness_shown: "arelates R (witness_show w s)"
proof -
  have "arelates R (connection w False
        (abind (areads load_authorization) (\<lambda>evidence.
         abind (areads (\<lambda>a. Inr (load_controls a))) (\<lambda>controls.
         if evidence \<noteq> [] \<or> controls \<noteq> []
         then abind (verified_grantor w s) (read_view w s)
         else areturn (no_view s)))))"
    by (intro connected closed grantor viewed)
  then show ?thesis using same by (simp add: arelates_def witness_show_def)
qed

lemma witness_verified: "arelates R (witness_verify w s)"
  unfolding witness_verify_def by (intro closed witness_shown)

lemma revocation_requested: "arelates R (witness_revocation_request w s reason)"
  unfolding witness_revocation_request_def by (intro connected closed grantor)

end

lemma verified_grantor_ok:
  assumes "verified_grantor w s a = (Inr g, b)" "stroma_ok (o_crypto w) (o_stroma w)"
  shows "\<exists>d n c. load_commissioning a = Inr d \<and> settings_npub (o_stroma w) s = Inr (Some n) \<and> n \<noteq> []
    \<and> bound_to (sentinel_file b) n \<and> check_evidence w d n (service_management s) = Inr c
    \<and> commissioning_table b = commissioning_table a
    \<and> g = \<lparr>gr_operator_npub = cm_operator_npub c, gr_attestation_id = cm_attestation_id c,
            gr_npub = n, gr_management = service_management s\<rparr>"
proof -
  obtain d c where d: "load_commissioning a = Inr d" "verify_evidence w s d a = (Inr c, b)"
    and g: "\<exists>n. settings_npub (o_stroma w) s = Inr n
      \<and> g = \<lparr>gr_operator_npub = cm_operator_npub c, gr_attestation_id = cm_attestation_id c,
            gr_npub = the n, gr_management = service_management s\<rparr>"
    using assms(1)
    by (auto simp: verified_grantor_def abind_lift_apply abind_apply split: sum.splits prod.splits)
  from verify_evidence_ok [OF d(2) assms(2)] d(1) g show ?thesis by auto
qed

lemma verified_grantor_again:
  assumes "verified_grantor w s a = (Inr g, b)" "stroma_ok (o_crypto w) (o_stroma w)"
    and "same_libraries w w'" "o_now w \<le> o_now w'"
    and "commissioning_table b' = commissioning_table b" "sentinel_file b' = sentinel_file b"
  shows "verified_grantor w' s b' = (Inr g, b')"
proof -
  obtain d n c where v: "load_commissioning a = Inr d" "settings_npub (o_stroma w) s = Inr (Some n)"
    "n \<noteq> []" "bound_to (sentinel_file b) n" "check_evidence w d n (service_management s) = Inr c"
    "commissioning_table b = commissioning_table a"
    and g: "g = \<lparr>gr_operator_npub = cm_operator_npub c, gr_attestation_id = cm_attestation_id c,
            gr_npub = n, gr_management = service_management s\<rparr>"
    using verified_grantor_ok [OF assms(1,2)] by blast
  have w: "o_crypto w' = o_crypto w" "o_stroma w' = o_stroma w"
    using assms(3) by (simp_all add: same_libraries_def)
  have "check_evidence w' d n (service_management s) = Inr c"
    using check_evidence_later [OF v(5) assms(2) w assms(4)] .
  moreover have "service_identity w' s b' = (Inr n, b')"
    using service_identity_again [of w' s n b'] v(2-4) assms(6) w by simp
  moreover have "load_commissioning b' = Inr d"
    using load_commissioning_cong [of b' a] v(1,6) assms(5) by simp
  ultimately show ?thesis
    using v(2) w
    by (simp add: verified_grantor_def abind_lift_apply verify_evidence_def abind_apply g)
qed

text \<open>A value that has been read from JSON text equals itself.\<close>

lemma json_ok_no_nan: "json_ok v \<Longrightarrow> \<not> has_nan v"
proof (induction v rule: has_nan.induct)
  case (2 vs)
  then show ?case by (auto simp: list_ex_iff list_all_iff)
next
  case (3 d)
  then show ?case by (fastforce simp: list_ex_iff list_all_iff)
qed auto

lemma py_eq_json: "json_ok v \<Longrightarrow> py_eq v v"
  by (simp add: py_eq_refl json_ok_no_nan)

section \<open>Evidence that is written reads back\<close>

lemma sorted_dict:
  assumes "json_ok (VDict d)" "sort_keys (VDict d) = VDict e"
  shows "loads (canonical_json d) = Inr (VDict e)" "set (map fst e) = set (map fst d)"
    "dget e k = sort_keys (dget d k)" "json_ok (VDict e)"
proof -
  show "loads (canonical_json d) = Inr (VDict e)" by (simp only: loads_canonical [OF assms(1)] assms(2))
  show "set (map fst e) = set (map fst d)" using assms(2) by force
  show "dget e k = sort_keys (dget d k)" using assms by (intro dget_sort_keys) simp_all
  show "json_ok (VDict e)" using json_ok_sort_keys [OF assms(1)] by (simp only: assms(2))
qed

lemma grant_content:
  assumes rq: "requestable w g service operator valid_for kinds policy raw"
    and r: "made_request w g service operator valid_for kinds raw r"
    and a: "made_grant w g service operator valid_for kinds raw r t1 a"
  shows "\<exists>b. loads (ev_content a) = Inr (VDict b) \<and> witness_content a authorization_schema = Inr b
    \<and> map_of b (lit ''sequence'') = Some (VInt 1) \<and> map_of b (lit ''previous'') = Some VNone
    \<and> map_of b (lit ''action'') = Some (vlit ''authorize'') \<and> map_of b (lit ''issued_at'') = Some (VInt t1)"
proof -
  let ?x = "authorization_fields w g service operator valid_for kinds raw (ev_id r) t1"
  have "0 \<le> o_now w" "o_now w + valid_for < 2 ^ 63" "o_now w \<le> t1" "t1 < o_now w + valid_for"
    using rq a by (simp_all add: requestable_def made_grant_def request_expiry_def)
  then have t: "int_printable t1" by (intro int_printable_64) simp_all
  have "encodable (ev_id r)"
    using r hex_string_encodable by (auto simp: made_request_def signed_by_def wf_event_def)
  then have j: "json_ok (VDict ?x)" using authorization_fields_ok [OF request_json [OF rq] _ t] by blast
  obtain b where b: "sort_keys (VDict ?x) = VDict b" by simp
  have c: "ev_content a = canonical_json ?x" using a by (simp add: made_grant_def signed_by_def)
  have di: "distinct (map fst ?x)" using j by simp
  have f: "map_of b k = map_option sort_keys (map_of ?x k)" for k
    by (rule map_of_sort_keys(1) [OF b di])
  have "dget b ''schema'' = VStr authorization_schema" "dget b ''schema_version'' = VInt 1"
    by (simp_all only: dget_sort_keys [OF di b]) (simp_all add: authorization_fields_def)
  then have "witness_content a authorization_schema = Inr b"
    using sorted_dict(1) [OF j b] canonical_idem [OF b] by (simp add: witness_content_iff c)
  then show ?thesis
    using sorted_dict(1) [OF j b] by (simp add: c f) (simp add: authorization_fields_def)
qed

text \<open>One grant is a valid history, and what the view shows of it.\<close>

lemma granted_view:
  assumes rq: "requestable w g service operator valid_for kinds policy raw"
    and r: "made_request w g service operator valid_for kinds raw r" and w: "same_libraries w w'"
    and a: "made_grant w g service operator valid_for kinds raw r t1 a"
    and t: "t1 \<le> o_now w' + max_clock_skew" "o_now w' < 2 ^ 63"
    and ev: "set (map fst f) = {lit ''request'', lit ''policy'', lit ''authorization''}"
      "valid_event w' ''witness request'' (dget f ''request'') = Inr r" "dget f ''policy'' = VStr policy"
      "valid_event w' ''witness authorization'' (dget f ''authorization'') = Inr a" "json_ok (VDict f)"
    and l: "load_history c = Inr [f]" "load_authorization c = Inr f"
  shows "\<exists>v. witness_view_of w' s g c = Inr v
    \<and> vw_authorization_state v = grant_state (o_now w') t1 (o_now w) (o_now w + valid_for)
    \<and> (vw_permitted v \<longleftrightarrow> grant_state (o_now w') t1 (o_now w) (o_now w + valid_for) = Authorized
         \<and> \<not> suspended_now (load_controls c))
    \<and> vw_history v = [f] \<and> vw_evidence v = f
    \<and> (\<exists>es. vw_status v = Some es \<and> grant_status w valid_for kinds raw a es)"
proof -
  obtain es where es: "check_witness_evidence w' g f False = Inr es"
    "es_state es = grant_state (o_now w') t1 (o_now w) (o_now w + valid_for)"
    "grant_status w valid_for kinds raw a es"
    using grant_evidence_checks [OF rq r w a t _ ev(1-4), of False] by blast
  obtain b where b: "witness_content a authorization_schema = Inr b"
    "map_of b (lit ''sequence'') = Some (VInt 1)" "map_of b (lit ''previous'') = Some VNone"
    "map_of b (lit ''action'') = Some (vlit ''authorize'')"
    using grant_content [OF rq r a] by blast
  have st: "stroma_ok (o_crypto w') (o_stroma w')" using rq w by (simp add: requestable_def same_libraries_def)
  have k: "has_key (lit ''authorization'') f" "\<not> is_revocation f" "f \<noteq> []"
  proof -
    show "has_key (lit ''authorization'') f" using ev(1) by (auto simp: has_key_def map_of_eq_None_iff)
    have "lit ''revocation'' \<notin> set (map fst f)" unfolding ev(1) by simp
    then show "\<not> is_revocation f" by (simp add: has_key_def map_of_eq_None_iff)
    show "f \<noteq> []" using ev(1) by auto
  qed
  then obtain x where x: "map_of f (lit ''authorization'') = Some x" by (auto simp: has_key_def)
  then have "entry_event f = x" "dget f ''authorization'' = x"
    by (simp_all add: entry_event_def dget_or_def dget_def)
  then have e: "valid_event w' ''witness lifecycle event'' (entry_event f) = Inr a"
    using ev(4) by (simp add: valid_event_iff [OF st])
  have "check_entry w' g 1 None f = Inr ()"
    using e b k(1) es(1) by (simp add: check_entry_def dget_def need_def py_eq_def)
  then have h: "validate_history w' g c = Inr [f]"
    using l k(1) py_eq_json [OF ev(5)] by (simp add: validate_history_def latest_grant_def)
  then show ?thesis
    using l(2) k es by (simp add: witness_view_of_def check_optional_def latest_grant_def Let_def revoked_now_def)
qed

section \<open>The two operations\<close>

lemma no_history:
  assumes "validate_history w g a = Inr []"
  shows "history_table a = None \<or> history_table a = Some []"
proof -
  have "length ys = length rs" if "rmap h rs = Inr ys" for h :: "(int \<times> pystr) \<Rightarrow> pydict res" and rs ys
    using that by (induction rs arbitrary: ys) (auto simp: rbind_eq_Inr)
  moreover have "load_history a = Inr []"
    using assms by (auto simp: validate_history_def rbind_eq_Inr split: if_splits option.splits)
  ultimately show ?thesis
    by (auto simp: load_history_def split: option.splits)
      (metis length_0_conv length_sort)
qed

definition request_evidence :: "pystr \<Rightarrow> stored_event \<Rightarrow> pydict" where
  "request_evidence policy r = [(lit ''request'', VDict (to_dict r)), (lit ''policy'', VStr policy)]"

lemma made_requestI:
  assumes rq: "requestable w g service operator valid_for kinds policy raw"
    and k: "priv_key (o_stroma w) key = Some (service, np)"
  shows "made_request w g service operator valid_for kinds raw
    (sign_event (o_stroma w) key 78 (o_now w)
      (canonical_json (request_body_fields w g service operator valid_for kinds raw))
      (witness_tags g operator (request_expiry w valid_for)))"
proof -
  have st: "stroma_ok (o_crypto w) (o_stroma w)" and g: "encodable (gr_attestation_id g)"
    and "hex_string 64 operator"
    using rq public_hex_string by (auto simp: requestable_def parties_def grantor_ok_def)
  then have "list_all (list_all encodable) (witness_tags g operator (request_expiry w valid_for))"
    using hex_string_encodable by (simp add: witness_tags_def witness_role_def)
  then show ?thesis
    unfolding made_request_def
    by (intro stroma_sign [OF st k] encodable_canonical request_json [OF rq])
qed

lemma request_operation:
  assumes rq: "requestable w g service operator valid_for kinds policy raw"
    and k: "priv_key (o_stroma w) (own_key s) = Some (service, np)" and f: "o_db_fault w = None"
    and p: "utf8_decode raw = Inr policy"
    and g: "verified_grantor w s (open_for_writing a) = (Inr g, b)" "validate_history w g b = Inr []"
  shows "\<exists>es r tp. made_request w g service operator valid_for kinds raw r
    \<and> witness_request w s (Inr raw) valid_for kinds False a
      = (Inr (es, request_evidence policy r, tp),
         b\<lparr>authorization_row := Some (canonical_json (request_evidence policy r))\<rparr>)
    \<and> authorization_template w r = Inr tp"
proof -
  let ?c = "request_body_fields w g service operator valid_for kinds raw"
  let ?r = "sign_event (o_stroma w) (own_key s) 78 (o_now w) (canonical_json ?c)
      (witness_tags g operator (request_expiry w valid_for))"
  let ?ev = "request_evidence policy ?r"
  have r: "made_request w g service operator valid_for kinds raw ?r" by (rule made_requestI [OF rq k])
  have st: "stroma_ok (o_crypto w) (o_stroma w)" and rw: "raw \<noteq> []" "length raw \<le> max_policy_bytes"
    and vf: "0 < valid_for" "valid_for \<le> max_validity_seconds"
    and op: "public_hex (o_stroma w) (gr_operator_npub g) = Inr operator"
    using rq by (auto simp: requestable_def parties_def policy_bytes_iff)
  have same: "same_libraries w w" by (simp add: same_libraries_def)
  have "valid_event w ''witness request'' (VDict (to_dict ?r)) = Inr ?r"
    using r by (intro valid_signed [OF st]) (auto simp: made_request_def)
  then have "\<exists>es. check_witness_evidence w g ?ev True = Inr es"
    using vf by (intro request_evidence_checks [OF rq r same])
      (simp_all add: request_evidence_def max_clock_skew_def request_expiry_def request_ttl_def)
  then obtain es where es: "check_witness_evidence w g ?ev True = Inr es" by blast
  obtain tp where tp: "authorization_template w ?r = Inr tp"
    using template_of_request [of ?r w g service operator valid_for kinds raw] request_json [OF rq] rq r
    by (simp add: made_request_def signed_by_def requestable_def)
  have x: "int_field ?c ''expires_at'' = request_expiry w valid_for"
    by (simp add: int_field_def request_body_fields_def Let_def request_expiry_def)
  have "witness_request_body w s raw policy valid_for kinds False (open_for_writing a)
      = (Inr (es, ?ev, ?r), b\<lparr>authorization_row := Some (canonical_json ?ev)\<rparr>)"
    using g es
    by (simp add: witness_request_body_def abind_apply [of "verified_grantor w s"] abind_areads_apply
        op k x Let_def witness_tags_def [symmetric] request_evidence_def write_authorization_def abind_apply)
  then have "witness_request w s (Inr raw) valid_for kinds False a
      = (Inr (es, ?ev, tp), b\<lparr>authorization_row := Some (canonical_json ?ev)\<rparr>)"
    using vf rw p f tp by (simp add: witness_request_def abind_apply connection_def)
  with r tp show ?thesis by blast
qed

lemma made_json:
  assumes "requestable w g service operator valid_for kinds policy raw"
  shows "made_request w g service operator valid_for kinds raw r \<Longrightarrow> json_ok (VDict (to_dict r))"
    "made_grant w g service operator valid_for kinds raw r t1 x \<Longrightarrow> json_ok (VDict (to_dict x))"
proof -
  have "0 \<le> o_now w" "o_now w + valid_for < 2 ^ 63" "0 < valid_for" using assms by (simp_all add: requestable_def)
  then have n: "int_printable (o_now w)" "o_now w \<le> t1 \<Longrightarrow> t1 < o_now w + valid_for \<Longrightarrow> int_printable t1"
    "int_printable 78" "int_printable 30078" by (auto intro!: int_printable_64)
  show "made_request w g service operator valid_for kinds raw r \<Longrightarrow> json_ok (VDict (to_dict r))"
    using n by (intro json_ok_event) (simp_all add: made_request_def signed_by_def event_printable_def)
  show "made_grant w g service operator valid_for kinds raw r t1 x \<Longrightarrow> json_ok (VDict (to_dict x))"
    using n by (intro json_ok_event)
      (simp_all add: made_grant_def signed_by_def event_printable_def request_expiry_def)
qed

lemma requestable_policy: "requestable w g service operator valid_for kinds policy raw \<Longrightarrow> encodable policy"
  by (auto simp: requestable_def policy_bytes_iff utf8_encode_def split: if_splits)

definition grant_evidence :: "pydict \<Rightarrow> stored_event \<Rightarrow> pydict" where
  "grant_evidence request x = dict_set (lit ''authorization'') (VDict (to_dict x)) request"

text \<open>
  The evidence in the database after each operation: what the request leaves reads back, is
  completed with the grant, and reads back again.
\<close>

lemma retained_evidence:
  assumes rq: "requestable w g service operator valid_for kinds policy raw"
    and r: "made_request w g service operator valid_for kinds raw r" and w: "same_libraries w w'"
    and x: "made_grant w g service operator valid_for kinds raw r t1 x" and t: "t1 \<le> o_now w'"
    and d: "sort_keys (VDict (request_evidence policy r)) = VDict d"
    and e: "sort_keys (VDict (grant_evidence d x)) = VDict e"
    and f: "f \<in> {grant_evidence d x, e}"
  shows "loads (canonical_json (request_evidence policy r)) = Inr (VDict d)"
    "loads (canonical_json (grant_evidence d x)) = Inr (VDict e)"
    "set (map fst d) = {lit ''request'', lit ''policy''}"
    "set (map fst f) = {lit ''request'', lit ''policy'', lit ''authorization''}"
    "valid_event w' ''witness request'' (dget f ''request'') = Inr r" "dget f ''policy'' = VStr policy"
    "valid_event w' ''witness authorization'' (dget f ''authorization'') = Inr x" "json_ok (VDict f)"
proof -
  note j = made_json [OF rq]
  have st: "stroma_ok (o_crypto w') (o_stroma w')" using rq w by (simp add: requestable_def same_libraries_def)
  have j1: "json_ok (VDict (request_evidence policy r))"
    using j(1) [OF r] requestable_policy [OF rq] by (simp add: request_evidence_def del: json_ok.simps(7) to_dict_def)
      (simp add: list_all_iff)
  note s1 = sorted_dict [OF j1 d]
  show "loads (canonical_json (request_evidence policy r)) = Inr (VDict d)" by (rule s1(1))
  show keys: "set (map fst d) = {lit ''request'', lit ''policy''}"
    unfolding s1(2) by (simp add: request_evidence_def)
  have j2: "json_ok (VDict (grant_evidence d x))"
  proof -
    have "set (dict_set k v d) \<subseteq> insert (k, v) (set d)" for k :: pystr and v
      by (induction d) (auto split: if_splits)
    then show ?thesis using s1(4) j(2) [OF x] unfolding grant_evidence_def
      by (fastforce simp: list_all_iff)
  qed
  note s2 = sorted_dict [OF j2 e]
  show "loads (canonical_json (grant_evidence d x)) = Inr (VDict e)" by (rule s2(1))
  have vr: "valid_event w' ''witness request'' (VDict (to_dict r)) = Inr r"
    using r w x t by (intro valid_signed [OF st])
      (auto simp: made_request_def made_grant_def same_libraries_def)
  have vx: "valid_event w' ''witness authorization'' (VDict (to_dict x)) = Inr x"
    using w x t by (intro valid_signed [OF st]) (auto simp: made_grant_def same_libraries_def)
  have vr': "valid_event w' ''witness request'' (sort_keys (VDict (to_dict r))) = Inr r"
    by (rule valid_event_sorted [OF vr j(1) [OF r] st])
  have keys2: "set (map fst (grant_evidence d x)) = {lit ''request'', lit ''policy'', lit ''authorization''}"
    using keys by (auto simp: grant_evidence_def keys_dict_set)
  have get: "dget (grant_evidence d x) ''request'' = sort_keys (VDict (to_dict r))"
    "dget (grant_evidence d x) ''policy'' = VStr policy"
    "dget (grant_evidence d x) ''authorization'' = VDict (to_dict x)"
    using s1(3) [of "''request''"] s1(3) [of "''policy''"]
    by (simp_all add: grant_evidence_def dget_def request_evidence_def del: sort_keys.simps)
      (simp_all)
  show "set (map fst f) = {lit ''request'', lit ''policy'', lit ''authorization''}"
    "valid_event w' ''witness request'' (dget f ''request'') = Inr r" "dget f ''policy'' = VStr policy"
    "valid_event w' ''witness authorization'' (dget f ''authorization'') = Inr x" "json_ok (VDict f)"
    using f keys2 get vr' vx j2 s2 valid_event_sorted [OF vx j(2) [OF x] st] sort_keys.simps(6) [of policy]
    by (auto simp: sort_keys_idem simp del: sort_keys.simps)
qed

text \<open>The view shows the grant \<open>x\<close> of that request.\<close>

definition shows_grant ::
  "outside \<Rightarrow> int \<Rightarrow> int list \<Rightarrow> pystr \<Rightarrow> byte list \<Rightarrow> stored_event \<Rightarrow> outside \<Rightarrow> witness_view \<Rightarrow> bool" where
  "shows_grant w valid_for kinds policy raw x w' v =
     (valid_event w' ''witness authorization'' (dget (vw_evidence v) ''authorization'') = Inr x
      \<and> has_key (lit ''authorization'') (vw_evidence v) \<and> dget (vw_evidence v) ''policy'' = VStr policy
      \<and> (\<exists>es. vw_status v = Some es \<and> grant_status w valid_for kinds raw x es))"

lemma authorize_operation:
  assumes rq: "requestable w g service operator valid_for kinds policy raw"
    and r: "made_request w g service operator valid_for kinds raw r" and w: "same_libraries w w'"
    and x: "made_grant w g service operator valid_for kinds raw r t1 x" and t: "t1 \<le> o_now w'"
      "o_now w' < request_expiry w valid_for"
    and f: "o_db_fault w' = None"
    and g: "verified_grantor w' s (open_for_writing a) = (Inr g, b)"
      "history_table b = None \<or> history_table b = Some []"
      "authorization_row b = Some (canonical_json (request_evidence policy r))"
  shows "\<exists>v row. witness_authorize w' s (VDict (to_dict x)) a
      = (Inr v, b\<lparr>history_table := Some [(1, row)], authorization_row := Some row\<rparr>)
    \<and> vw_authorization_state v = Authorized \<and> vw_permitted v = (\<not> suspended_now (load_controls b))
    \<and> length (vw_history v) = 1
    \<and> witness_view_of w' s g (b\<lparr>history_table := Some [(1, row)], authorization_row := Some row\<rparr>) = Inr v
    \<and> shows_grant w valid_for kinds policy raw x w' v"
proof -
  obtain d where d: "sort_keys (VDict (request_evidence policy r)) = VDict d" by simp
  let ?f = "grant_evidence d x"
  obtain e where e: "sort_keys (VDict ?f) = VDict e" by simp
  have "e \<in> {?f, e}" "?f \<in> {?f, e}" by simp_all
  note ev = retained_evidence [OF rq r w x t(1) d e this(1)]
    and fv = retained_evidence [OF rq r w x t(1) d e this(2)]
  have n: "o_now w + valid_for < 2 ^ 63" "0 < valid_for" using rq by (simp_all add: requestable_def)
  then have t': "t1 \<le> o_now w' + max_clock_skew" "o_now w' < 2 ^ 63" "o_now w \<le> t1"
    "o_now w' < o_now w + valid_for"
    using t x by (simp_all add: max_clock_skew_def request_expiry_def made_grant_def)
  have grant: "grant_state (o_now w') t1 (o_now w) (o_now w + valid_for) = Authorized"
    using t t' by (simp add: grant_state_def)
  have nk: "\<not> is_grant d"
  proof
    assume "is_grant d"
    then have "lit ''authorization'' \<in> set (map fst d)" by (simp add: has_key_def map_of_eq_None_iff)
    then show False unfolding ev(3) by simp
  qed
  have ld: "load_authorization b = Inr d" "d \<noteq> []"
    using ev(1) ev(3) g(3) by (auto simp: load_authorization_def)
  then have h0: "load_history b = Inr []"
    using g(2) nk by (auto simp: load_history_def)
  then have v0: "validate_history w' g b = Inr []"
    using ld nk by (simp add: validate_history_def)
  have ck: "\<exists>es. check_witness_evidence w' g ?f True = Inr es"
    using grant_evidence_checks [OF rq r w x t'(1,2) _ fv(4-7), of True] t(2) by auto
  obtain c where c: "loads (ev_content x) = Inr (VDict c)" "map_of c (lit ''sequence'') = Some (VInt 1)"
    "map_of c (lit ''previous'') = Some VNone"
    using grant_content [OF rq r x] by blast
  have pre: "check_predecessor [] (VDict (to_dict x)) = Inr ()"
  proof -
    have "need_text (to_dict x) ''content'' = Inr (ev_content x)"
      using holds_event_need [OF holds_event_to_dict, of x] by (simp add: need_text_def)
    then show ?thesis using c by (simp add: check_predecessor_def need_def py_eq_def)
  qed
  have ke: "has_key (lit ''authorization'') e" using ev(4) by (auto simp: has_key_def map_of_eq_None_iff)
  let ?row = "canonical_json ?f"
  let ?b = "b\<lparr>history_table := Some [(1, ?row)], authorization_row := Some ?row\<rparr>"
  have l: "load_history ?b = Inr [e]" "load_authorization ?b = Inr e"
    using ev(2) by (simp_all add: load_history_def load_entry_def load_authorization_def)
  obtain v where v: "witness_view_of w' s g ?b = Inr v" "vw_authorization_state v = Authorized"
    "vw_permitted v \<longleftrightarrow> \<not> suspended_now (load_controls b)" "vw_history v = [e]"
    "shows_grant w valid_for kinds policy raw x w' v"
    using granted_view [OF rq r w x t'(1,2) ev(4-8) l, of s] grant ev(5-7) ke
    by (auto simp: load_controls_def shows_grant_def)
  have "new_authorization w' g [] d (VDict (to_dict x)) b = (Inr (), ?b)"
    using ck pre g(2) unfolding grant_evidence_def [symmetric]
    by (auto simp: new_authorization_def grant_evidence_def Let_def abind_apply
        append_history_def insert_history_def write_authorization_def)
  then have "authorize_body w' s (VDict (to_dict x)) (open_for_writing a) = (Inr v, ?b)"
    using g(1) v0 v(1) ld nk
    by (simp add: authorize_body_def abind_apply in_history_def read_view_def)
  then have "witness_authorize w' s (VDict (to_dict x)) a = (Inr v, ?b)"
    using f by (simp add: witness_authorize_def connection_def)
  then show ?thesis using v by auto
qed

end
