(* ===== verification/Witness_Properties.thy ===== *)
theory Witness_Properties
  imports Witness_Cycle
begin

text \<open>
  The witness authorization as its users see it: whose authority a permitted witness rests on,
  that a grant brings it about, and what a failed operation leaves.
\<close>

section \<open>Authority\<close>

text \<open>C7: a witness is permitted only on the operator's standing authority: the latest grant of the
  history is an authorization with a valid signature of the commissioned operator. What the operator
  signed names the request's event id, the service, the role, the policy and the interval, all as in
  a request that this service signed and that commits to the retained policy. It was signed within
  that request's window, the clock is within the interval that the operator's text grants and not
  before it was signed; the head of the history is no revocation and the last local control no
  suspension.\<close>

theorem permitted_traceback:
  assumes "witness_view_of w s g a = Inr v" "vw_permitted v"
    and "stroma_ok (o_crypto w) (o_stroma w)" "grantor_ok g"
  shows "\<exists>grant request event content raw operator service body.
    latest_grant (vw_history v) = Some grant
    \<and> \<not> revoked_now (vw_history v) \<and> \<not> suspended_now (vw_controls v)
    \<and> validate_event (o_crypto w) True (o_now w) (dget grant ''request'') = Inr request
    \<and> public_hex (o_stroma w) (gr_npub g) = Inr service \<and> ev_pubkey request = service
    \<and> validate_event (o_crypto w) True (o_now w) (dget grant ''authorization'') = Inr event
    \<and> public_hex (o_stroma w) (gr_operator_npub g) = Inr operator \<and> ev_pubkey event = operator
    \<and> loads (ev_content request) = Inr (VDict content)
    \<and> policy_bytes (dget grant ''policy'') = Inr raw
    \<and> dget content ''policy_sha256'' = VStr (sha256_hex raw)
    \<and> time_of request \<le> time_of event \<and> time_of event < time_of request + 86400
    \<and> max (time_of request) (time_of event) \<le> o_now w
    \<and> o_now w < int_field content ''not_after''
    \<and> int_field content ''not_after'' \<le> time_of request + 31536000
    \<and> kind_of event = 30078 \<and> loads (ev_content event) = Inr (VDict body)
    \<and> dget body ''schema'' = VStr authorization_schema \<and> dget body ''role'' = VStr witness_role
    \<and> dget body ''request_event_id'' = VStr (ev_id request)
    \<and> dget body ''operator'' = VStr operator \<and> dget body ''service'' = service_object service
    \<and> dget body ''policy_sha256'' = VStr (sha256_hex raw)
    \<and> dget body ''subject_kinds'' = dget content ''subject_kinds''
    \<and> dget body ''not_before'' = VInt (time_of request)
    \<and> dget body ''not_after'' = VInt (int_field content ''not_after'')
    \<and> [lit ''e'', ev_id request, [], lit ''authorization-request''] \<in> set (ev_tags event)
    \<and> [lit ''role'', witness_role] \<in> set (ev_tags event)"
proof -
  obtain grant es where g: "latest_grant (vw_history v) = Some grant" "es_state es = Authorized"
    "check_witness_evidence w g grant False = Inr es"
    "\<not> revoked_now (vw_history v)" "\<not> suspended_now (vw_controls v)"
    using permitted_view [OF assms(1,2)] by blast
  from g(1) have "is_grant grant" by (blast dest: latest_grant_SomeD)
  from check_grantD [OF g(3) this] obtain request content event where
    c: "verify_witness_request w (dget grant ''request'') g (dget grant ''policy'') False
       = Inr (request, content)"
    "verify_authorization w (dget grant ''authorization'') request content = Inr event"
    "es_state es = grant_state (o_now w) (time_of event)
       (int_field content ''not_before'') (int_field content ''not_after'')" by metis
  from verify_witness_requestD [OF c(1)] obtain service operator raw renewal where
    r: "valid_event w ''witness request'' (dget grant ''request'') = Inr request"
    "request_says w g (dget grant ''policy'') request content service operator raw renewal" by metis
  note ev = verify_authorizationD [OF c(2)] and f = request_field [OF r(2) assms(3,4)]
  have t: "int_field content ''not_before'' = time_of request"
    "int_field content ''not_after'' \<le> time_of request + 31536000"
    "int_field content ''expires_at'' \<le> time_of request + 86400"
    using r(2) by (auto simp: request_says_def int_field_def max_validity_seconds_def request_ttl_def)
  have "max (time_of request) (time_of event) \<le> o_now w" "o_now w < int_field content ''not_after''"
    using c(3) g(2) t(1) by (auto simp: grant_state_def split: if_splits)
  moreover have nf: "dget content ''not_before'' = VInt (time_of request)"
    "dget content ''not_after'' = VInt (int_field content ''not_after'')"
    using r(2) by (auto simp: request_says_def int_field_def)
  moreover have "encodable (ev_id request)"
    using r(1) hex_string_encodable by (auto simp: valid_event_iff [OF assms(3)] validate_event_iff wf_event_def)
  moreover have "int_printable (o_now w)"
  proof (rule printable_between)
    have "loads (ev_content request) = Inr (VDict content)" using r(2) unfolding request_says_def by blast
    then show "int_printable (time_of request)" "int_printable (int_field content ''not_after'')"
      using loads_int_field nf by blast+
    show "time_of request \<le> o_now w" "o_now w \<le> int_field content ''not_after''"
      using c(3) g(2) t(1) by (auto simp: grant_state_def split: if_splits)
  qed
  ultimately have says: "\<exists>body. loads (ev_content event) = Inr (VDict body)
    \<and> dget body ''schema'' = VStr authorization_schema \<and> dget body ''role'' = VStr witness_role
    \<and> dget body ''request_event_id'' = VStr (ev_id request)
    \<and> dget body ''operator'' = VStr operator \<and> dget body ''service'' = service_object service
    \<and> dget body ''policy_sha256'' = VStr (sha256_hex raw)
    \<and> dget body ''subject_kinds'' = dget content ''subject_kinds''
    \<and> dget body ''not_before'' = VInt (time_of request)
    \<and> dget body ''not_after'' = VInt (int_field content ''not_after'')
    \<and> [lit ''e'', ev_id request, [], lit ''authorization-request''] \<in> set (ev_tags event)
    \<and> [lit ''role'', witness_role] \<in> set (ev_tags event)"
    using authorization_says [OF c(2) r(2) assms(3,4)] by metis
  have "max (time_of request) (time_of event) \<le> o_now w" "o_now w < int_field content ''not_after''"
    using c(3) g(2) t(1) by (auto simp: grant_state_def split: if_splits)
  moreover have "ev_pubkey request = service" "public_hex (o_stroma w) (gr_npub g) = Inr service"
    "public_hex (o_stroma w) (gr_operator_npub g) = Inr operator"
    "policy_bytes (dget grant ''policy'') = Inr raw" "loads (ev_content request) = Inr (VDict content)"
    using r(2) unfolding request_says_def by blast+
  moreover have "ev_pubkey event = operator" using ev(3) f(1) by simp
  moreover note g(1,4,5) r(1) [unfolded valid_event_iff [OF assms(3)]]
    ev(1) [unfolded valid_event_iff [OF assms(3)]]
    f(2) ev(2,4) t(2) says
  moreover have "time_of event < time_of request + 86400" using ev(5) t(3) by linarith
  ultimately show ?thesis by blast
qed

section \<open>A grant\<close>

lemma own_key_npub:
  assumes "settings_npub st s = Inr (Some n)"
  shows "\<exists>hex. priv_key st (own_key s) = Some (hex, n)"
  using assms
  by (auto simp: settings_npub_def the_key_def own_key_def service_npub_def rbind_eq_Inr
      split: option.splits if_splits)

lemma verified_parties:
  assumes g: "verified_grantor w s a = (Inr g, b)" and st: "stroma_ok (o_crypto w) (o_stroma w)"
    and m: "encodable (service_management s)"
  shows "\<exists>service np operator. priv_key (o_stroma w) (own_key s) = Some (service, np)
    \<and> parties (o_stroma w) g service operator"
proof -
  obtain d n c where v: "settings_npub (o_stroma w) s = Inr (Some n)"
    "check_evidence w d n (service_management s) = Inr c"
    and g': "g = \<lparr>gr_operator_npub = cm_operator_npub c, gr_attestation_id = cm_attestation_id c,
            gr_npub = n, gr_management = service_management s\<rparr>"
    using verified_grantor_ok [OF g st] by blast
  obtain service where k: "priv_key (o_stroma w) (own_key s) = Some (service, n)"
    using own_key_npub [OF v(1)] by blast
  obtain vc where vc: "verify_operator_attestation w (dget d ''commissioning_request'')
      (dget d ''operator_attestation'') n (service_management s) False = Inr vc"
    "cm_operator_npub c = vc_operator_npub vc" "cm_attestation_id c = ev_id (vc_attestation vc)"
    using v(2) by (auto simp: check_evidence_def rbind_eq_Inr split: if_splits)
  obtain x where x: "pub_key (o_stroma w) (ev_pubkey (vc_attestation vc)) = Some (x, vc_operator_npub vc)"
    "valid_event w ''operator attestation'' (dget d ''operator_attestation'') = Inr (vc_attestation vc)"
    using vc(1) by (auto simp: verify_attestation_iff attestation_ok_def)
  have "wf_event (vc_attestation vc)" using x(2) by (auto simp: valid_event_iff [OF st] validate_event_iff)
  then have "encodable (ev_id (vc_attestation vc))"
    using hex_string_encodable by (auto simp: wf_event_def)
  moreover have "public_hex (o_stroma w) n = Inr service"
    using stroma_priv [OF st k] by (simp add: public_hex_iff key_pair_def)
  moreover have "public_hex (o_stroma w) (vc_operator_npub vc) = Inr x"
    using stroma_pub [OF st x(1)] by (simp add: public_hex_iff key_pair_def)
  ultimately show ?thesis using k m by (auto simp: parties_def g' grantor_ok_def vc)
qed

lemma template_made_grant:
  assumes rq: "requestable w g service operator valid_for kinds policy raw"
    and r: "made_request w g service operator valid_for kinds raw r"
    and tp: "authorization_template w1 r = Inr tp"
    and x: "signed_by (o_crypto w) (tp_pubkey tp) (tp_kind tp) (tp_created_at tp) (tp_content tp) (tp_tags tp) x"
    and t: "o_now w \<le> o_now w1" "o_now w1 < request_expiry w valid_for"
  shows "made_grant w g service operator valid_for kinds raw r (o_now w1) x"
  using template_of_request [of r w g service operator valid_for kinds raw w1] request_json [OF rq] rq r tp x t
  by (auto simp: made_request_def signed_by_def requestable_def made_grant_def)

lemma authorization_cycle:
  assumes "verified_grantor w s (open_for_writing a) = (Inr g, b)" "validate_history w g b = Inr []"
    and "stroma_ok (o_crypto w) (o_stroma w)" "encodable (service_management s)"
    and "policy_bytes (VStr policy) = Inr raw"
    and "hex_string 64 (o_nonce w)" "valid_kinds (sorted_kinds kinds)"
    and "0 < valid_for" "valid_for \<le> max_validity_seconds" "0 \<le> o_now w" "o_now w + valid_for < 2 ^ 63"
    and "o_db_fault w = None"
  shows "\<exists>service operator np es ev r tp a'. parties (o_stroma w) g service operator
    \<and> requestable w g service operator valid_for kinds policy raw
    \<and> made_request w g service operator valid_for kinds raw r
    \<and> priv_key (o_stroma w) (own_key s) = Some (service, np)
    \<and> witness_request w s (Inr raw) valid_for kinds False a = (Inr (es, ev, tp), a')
    \<and> dget ev ''request'' = VDict (to_dict r) \<and> authorization_template w r = Inr tp
    \<and> (\<forall>w1 tp1 x w'. authorization_template w1 r = Inr tp1
        \<and> signed_by (o_crypto w) (tp_pubkey tp1) (tp_kind tp1) (tp_created_at tp1) (tp_content tp1) (tp_tags tp1) x
        \<and> o_now w \<le> o_now w1 \<and> o_now w1 \<le> o_now w'
        \<and> o_now w' < o_now w + request_ttl \<and> o_now w' < o_now w + valid_for
        \<and> same_libraries w w' \<and> o_db_fault w' = None
        \<longrightarrow> (\<exists>v a''. witness_authorize w' s (VDict (to_dict x)) a' = (Inr v, a'')
              \<and> vw_authorization_state v = Authorized
              \<and> vw_permitted v = (\<not> suspended_now (load_controls a))))"
proof -
  obtain service np operator where k: "priv_key (o_stroma w) (own_key s) = Some (service, np)"
    and p: "parties (o_stroma w) g service operator"
    using verified_parties [OF assms(1,3,4)] by blast
  have rq: "requestable w g service operator valid_for kinds policy raw"
    using assms p by (simp add: requestable_def)
  have dec: "utf8_decode raw = Inr policy"
    using assms(5) utf8_decode_encode by (auto simp: policy_bytes_iff)
  let ?ev = "request_evidence policy"
  obtain es r tp where r: "made_request w g service operator valid_for kinds raw r"
    and q: "witness_request w s (Inr raw) valid_for kinds False a
      = (Inr (es, ?ev r, tp), b\<lparr>authorization_row := Some (canonical_json (?ev r))\<rparr>)"
    and tp: "authorization_template w r = Inr tp"
    using request_operation [OF rq k assms(12) dec assms(1,2)] by blast
  let ?a = "b\<lparr>authorization_row := Some (canonical_json (?ev r))\<rparr>"
  have kept: "keeps_commissioning (open_for_writing a) b"
    using arelatesD [OF kept.grantor assms(1)] .
  obtain row where tb: "commissioning_table b = Some row"
    using verified_grantor_ok [OF assms(1,3)] by (auto split: option.splits)
  have op: "open_for_writing ?a = ?a"
    using tb kept by (simp add: open_for_writing_def keeps_commissioning_def)
  have "\<exists>v a''. witness_authorize w' s (VDict (to_dict x)) ?a = (Inr v, a'')
      \<and> vw_authorization_state v = Authorized \<and> vw_permitted v = (\<not> suspended_now (load_controls a))"
    if x: "authorization_template w1 r = Inr tp1"
      "signed_by (o_crypto w) (tp_pubkey tp1) (tp_kind tp1) (tp_created_at tp1) (tp_content tp1) (tp_tags tp1) x"
      and t: "o_now w \<le> o_now w1" "o_now w1 \<le> o_now w'" "o_now w' < o_now w + request_ttl"
        "o_now w' < o_now w + valid_for"
      and w: "same_libraries w w'" "o_db_fault w' = None" for w1 tp1 x w'
  proof -
    have e: "o_now w' < request_expiry w valid_for" using t by (simp add: request_expiry_def)
    then have mg: "made_grant w g service operator valid_for kinds raw r (o_now w1) x"
      using t by (intro template_made_grant [OF rq r x]) simp_all
    have g': "verified_grantor w' s (open_for_writing ?a) = (Inr g, ?a)"
      unfolding op using t by (intro verified_grantor_again [OF assms(1,3) w(1)]) simp_all
    have "history_table ?a = None \<or> history_table ?a = Some []"
      using no_history [OF assms(2)] by simp
    moreover have "load_controls ?a = load_controls a"
      using kept by (simp add: keeps_commissioning_def load_controls_def)
    ultimately show ?thesis
      using authorize_operation [OF rq r w(1) mg t(2) e w(2) g'] by auto
  qed
  moreover have "dget (?ev r) ''request'' = VDict (to_dict r)" by (simp add: request_evidence_def)
  ultimately show ?thesis using q tp p rq r k by blast
qed

text \<open>C8: a service that is commissioned and has no grant yet obtains one: its request succeeds, and
  once the operator has signed the template of that request while it is current, \<open>authorize\<close>, on the
  data that the request left, returns an authorized witness, which is permitted unless it had been
  suspended.\<close>

theorem authorization_works:
  assumes "verified_grantor w s (open_for_writing a) = (Inr g, b)" "validate_history w g b = Inr []"
    and "stroma_ok (o_crypto w) (o_stroma w)" "encodable (service_management s)"
    and "policy_bytes (VStr policy) = Inr raw"
    and "hex_string 64 (o_nonce w)" "valid_kinds (sorted_kinds kinds)"
    and "0 < valid_for" "valid_for \<le> max_validity_seconds" "0 \<le> o_now w" "o_now w + valid_for < 2 ^ 63"
    and "o_db_fault w = None"
  shows "\<exists>es ev r tp a'. witness_request w s (Inr raw) valid_for kinds False a = (Inr (es, ev, tp), a')
    \<and> dget ev ''request'' = VDict (to_dict r) \<and> authorization_template w r = Inr tp
    \<and> (\<forall>w1 tp1 x w'. authorization_template w1 r = Inr tp1
        \<and> signed_by (o_crypto w) (tp_pubkey tp1) (tp_kind tp1) (tp_created_at tp1) (tp_content tp1) (tp_tags tp1) x
        \<and> o_now w \<le> o_now w1 \<and> o_now w1 \<le> o_now w'
        \<and> o_now w' < o_now w + request_ttl \<and> o_now w' < o_now w + valid_for
        \<and> same_libraries w w' \<and> o_db_fault w' = None
        \<longrightarrow> (\<exists>v a''. witness_authorize w' s (VDict (to_dict x)) a' = (Inr v, a'')
              \<and> vw_authorization_state v = Authorized
              \<and> vw_permitted v = (\<not> suspended_now (load_controls a))))"
  using authorization_cycle [OF assms] by blast

section \<open>A granted witness\<close>

lemma commissioned_grantor:
  assumes "service_commission w s v a = (Inr (c, ev), b)"
    and "stroma_ok (o_crypto w) (o_stroma w)" "json_ok (VDict ev)"
  shows "\<exists>g. verified_grantor w s (open_for_writing b) = (Inr g, b) \<and> open_for_writing b = b"
proof -
  obtain n d where n: "settings_npub (o_stroma w) s = Inr (Some n)" "n \<noteq> []" "bound_to (sentinel_file b) n"
    "db_file b" and d: "load_commissioning b = Inr d" "check_evidence w d n (service_management s) = Inr c"
    using commission_retained [OF assms] by blast
  then have "open_for_writing b = b"
    by (cases "commissioning_table b") (simp_all add: open_for_writing_def load_commissioning_def)
  moreover have "\<exists>g. verified_grantor w s b = (Inr g, b)"
    using n d service_identity_again [OF n(1,2,3)]
    by (simp add: verified_grantor_def abind_lift_apply verify_evidence_def abind_apply)
  ultimately show ?thesis by simp
qed

lemma toy_policy: "policy_bytes (VStr [112]) = Inr [112]" "utf8_decode [112] = Inr [112]"
proof -
  have "utf8_encode [112] = Inr [112 :: byte]"
    by (simp add: encodable_def scalar_def utf8_char_def)
  then show "policy_bytes (VStr [112]) = Inr [112]" by (simp add: policy_bytes_def max_policy_bytes_def)
  show "utf8_decode [112] = Inr [112]" by (simp add: utf8_decode_def decode_utf8.simps(2))
qed

text \<open>The commissioned service with the two keys, without witness evidence.\<close>

lemma toy_witness_chain:
  "\<exists>b g operator ev d chain. verified_grantor (toy_world 3000) toy_settings (open_for_writing b) = (Inr g, b)
    \<and> validate_history (toy_world 3000) g b = Inr [] \<and> load_controls b = []
    \<and> requestable (toy_world 3000) g hex_a operator 80000 [1415] [112] [112]
    \<and> load_commissioning b = Inr chain \<and> VDict chain = sort_keys (VDict ev) \<and> json_ok (VDict ev)
    \<and> ev = [(lit ''commissioning_request'', sort_keys (VDict (to_dict toy_request))),
          (lit ''operator_attestation'', VDict (to_dict toy_attestation)),
          (lit ''service_descriptor'', VDict (to_dict d))]
    \<and> signed_by lax_crypto hex_a 30078 2000
        (canonical_json (descriptor_content hex_a (lit ''independent'') toy_attestation 2000))
        (descriptor_tags toy_attestation) d"
proof -
  let ?w = "toy_world 3000"
  obtain c d ev b where c: "service_commission ?w toy_settings
      (VDict (to_dict toy_attestation)) toy_pending = (Inr (c, ev), b)"
    and ev: "ev = [(lit ''commissioning_request'', sort_keys (VDict (to_dict toy_request))),
          (lit ''operator_attestation'', VDict (to_dict toy_attestation)),
          (lit ''service_descriptor'', VDict (to_dict d))]" "wf_event d" "event_printable d"
    and d: "signed_by lax_crypto hex_a 30078 2000
        (canonical_json (descriptor_content hex_a (lit ''independent'') toy_attestation 2000))
        (descriptor_tags toy_attestation) d"
    and b: "b = toy_pending\<lparr>commissioning_table := Some (Some (canonical_json ev))\<rparr>"
    using toy_commission by blast
  have "json_ok (VDict (to_dict toy_request))" "json_ok (VDict (to_dict toy_attestation))"
    "json_ok (VDict (to_dict d))"
    using json_ok_event toy_wf ev by blast+
  then have j: "json_ok (VDict ev)"
    using json_ok_sort_keys [of "VDict (to_dict toy_request)"] unfolding ev(1)
    by (simp del: sort_keys.simps)
  have st: "stroma_ok (o_crypto ?w) (o_stroma ?w)" by (simp add: toy_stroma_ok)
  obtain g where g: "verified_grantor ?w toy_settings (open_for_writing b) = (Inr g, b)"
    using commissioned_grantor [OF c st j] by blast
  have "encodable (service_management toy_settings)" by simp
  from verified_parties [OF g st this] obtain operator where p: "parties toy_stroma g hex_a operator"
    by auto
  have "valid_kinds (sorted_kinds [1415])" by (simp add: valid_kinds_def sorted_kinds_def)
  then have "requestable ?w g hex_a operator 80000 [1415] [112] [112]"
    using p st toy_policy by (simp add: requestable_def max_validity_seconds_def hex_string_replicate)
  moreover have "validate_history ?w g b = Inr []" "load_controls b = []"
    unfolding b
    by (simp_all add: validate_history_def load_history_def load_authorization_def toy_pending_def
        load_controls_def has_key_def)
  moreover obtain chain where chain: "sort_keys (VDict ev) = VDict chain" by simp
  then have "load_commissioning b = Inr chain"
    unfolding b using loads_canonical [OF j]
    by (simp add: load_commissioning_def toy_pending_def del: sort_keys.simps)
  ultimately show ?thesis using g j chain ev(1) d by metis
qed

lemma toy_witness_start:
  "\<exists>b g operator. verified_grantor (toy_world 3000) toy_settings (open_for_writing b) = (Inr g, b)
    \<and> validate_history (toy_world 3000) g b = Inr [] \<and> load_controls b = []
    \<and> requestable (toy_world 3000) g hex_a operator 80000 [1415] [112] [112]"
  using toy_witness_chain by blast

text \<open>Every key the toy library knows has a private key.\<close>

lemma toy_signer:
  assumes "public_hex toy_stroma k = Inr hex"
  shows "\<exists>nsec np. priv_key toy_stroma nsec = Some (hex, np)"
proof -
  have "hex = hex_a \<or> hex = hex_b"
    using assms by (auto simp: public_hex_iff toy_stroma_def toy_pub_def split: if_splits)
  then show ?thesis using toy_keys by blast
qed

lemma toy_grant:
  assumes rq: "requestable w g service operator valid_for kinds policy raw"
    and r: "made_request w g service operator valid_for kinds raw r"
    and w: "o_stroma w = toy_stroma" "o_crypto w = lax_crypto"
  shows "\<exists>tp x. authorization_template w r = Inr tp
    \<and> signed_by (o_crypto w) (tp_pubkey tp) (tp_kind tp) (tp_created_at tp) (tp_content tp) (tp_tags tp) x"
proof -
  have p: "public_hex toy_stroma (gr_operator_npub g) = Inr operator" "public_hex toy_stroma (gr_npub g) = Inr service"
    "grantor_ok g" "stroma_ok (o_crypto w) (o_stroma w)"
    "0 \<le> o_now w" "o_now w + valid_for < 2 ^ 63" "0 < valid_for"
    using rq w by (auto simp: requestable_def parties_def)
  obtain nsec np where k: "priv_key (o_stroma w) nsec = Some (operator, np)"
    using toy_signer [OF p(1)] w(1) by auto
  have "hex_string 64 service" "hex_string 64 (ev_id r)"
    using public_hex_string [OF p(4)] p(2) w r by (auto simp: made_request_def signed_by_def wf_event_def)
  then have enc: "encodable service" "encodable (ev_id r)" by (simp_all add: hex_string_encodable)
  have "int_printable (o_now w)" using p(5-7) by (intro int_printable_64) simp_all
  then have "encodable (canonical_json
      (authorization_fields w g service operator valid_for kinds raw (ev_id r) (o_now w)))"
    by (intro encodable_canonical authorization_fields_ok request_json [OF rq] enc)
  moreover have "list_all (list_all encodable) (authorization_tags g service (ev_id r))"
    using enc p(3) by (simp add: authorization_tags_def authorization_schema_def witness_role_def grantor_ok_def)
  ultimately have "\<exists>x. signed_by (o_crypto w) operator 30078 (o_now w) (canonical_json
      (authorization_fields w g service operator valid_for kinds raw (ev_id r) (o_now w)))
      (authorization_tags g service (ev_id r)) x"
    using stroma_sign [OF p(4) k] by blast
  then show ?thesis
    using template_of_request [of r w g service operator valid_for kinds raw w] request_json [OF rq] rq r
    by (auto simp: made_request_def signed_by_def requestable_def)
qed

theorem authorization_works_witness:
  "\<exists>a es ev r tp x a' v a''.
     witness_request (toy_world 3000) toy_settings (Inr [112]) 80000 [1415] False a = (Inr (es, ev, tp), a')
     \<and> authorization_template (toy_world 3000) r = Inr tp
     \<and> signed_by lax_crypto (tp_pubkey tp) (tp_kind tp) (tp_created_at tp) (tp_content tp) (tp_tags tp) x
     \<and> witness_authorize (toy_world 4000) toy_settings (VDict (to_dict x)) a' = (Inr v, a'')
     \<and> vw_permitted v"
proof -
  let ?w = "toy_world 3000"
  obtain b g operator where g: "verified_grantor ?w toy_settings (open_for_writing b) = (Inr g, b)"
    "validate_history ?w g b = Inr []" "load_controls b = []"
    "requestable ?w g hex_a operator 80000 [1415] [112] [112]"
    using toy_witness_start by blast
  obtain es r tp where r: "made_request ?w g hex_a operator 80000 [1415] [112] r"
    and q: "witness_request ?w toy_settings (Inr [112]) 80000 [1415] False b
      = (Inr (es, request_evidence [112] r, tp),
         b\<lparr>authorization_row := Some (canonical_json (request_evidence [112] r))\<rparr>)"
    using request_operation [OF g(4) _ _ toy_policy(2) g(1,2)] by auto
  obtain tp1 x where x: "authorization_template ?w r = Inr tp1"
    "signed_by (o_crypto ?w) (tp_pubkey tp1) (tp_kind tp1) (tp_created_at tp1) (tp_content tp1) (tp_tags tp1) x"
    using toy_grant [OF g(4) r] by auto
  have st: "stroma_ok (o_crypto ?w) (o_stroma ?w)" by (simp add: toy_stroma_ok)
  have inj: "to_dict e = to_dict e' \<Longrightarrow> e = e'" for e e' by (simp add: to_dict_inject)
  have rd: "dget (request_evidence [112] r) ''request'' = VDict (to_dict r)" by (simp add: request_evidence_def)
  have "encodable (service_management toy_settings)" by simp
  note works = authorization_works [OF g(1,2) st this toy_policy(1), of "[1415]" 80000]
  obtain r' where r': "dget (request_evidence [112] r) ''request'' = VDict (to_dict r')"
    "authorization_template ?w r' = Inr tp"
    and go: "\<And>w1 tp1 x w'. authorization_template w1 r' = Inr tp1
        \<and> signed_by (o_crypto ?w) (tp_pubkey tp1) (tp_kind tp1) (tp_created_at tp1) (tp_content tp1) (tp_tags tp1) x
        \<and> o_now ?w \<le> o_now w1 \<and> o_now w1 \<le> o_now w'
        \<and> o_now w' < o_now ?w + request_ttl \<and> o_now w' < o_now ?w + 80000
        \<and> same_libraries ?w w' \<and> o_db_fault w' = None
        \<Longrightarrow> \<exists>v a''. witness_authorize w' toy_settings (VDict (to_dict x))
              (b\<lparr>authorization_row := Some (canonical_json (request_evidence [112] r))\<rparr>) = (Inr v, a'')
              \<and> vw_authorization_state v = Authorized
              \<and> vw_permitted v = (\<not> suspended_now (load_controls b))"
    using works g(4) unfolding q by (auto simp: requestable_def)
  have "r' = r" using r'(1) inj rd by simp
  then have "\<exists>v a''. witness_authorize (toy_world 4000) toy_settings (VDict (to_dict x))
      (b\<lparr>authorization_row := Some (canonical_json (request_evidence [112] r))\<rparr>) = (Inr v, a'')
    \<and> vw_authorization_state v = Authorized \<and> vw_permitted v = (\<not> suspended_now (load_controls b))"
    using x by (intro go [of ?w tp1]) (simp_all add: request_ttl_def same_libraries_def)
  moreover have "tp1 = tp" using x(1) r'(2) \<open>r' = r\<close> by simp
  ultimately show ?thesis using q x g(3) by (fastforce simp: suspended_now_def)
qed

text \<open>The view of that witness.\<close>

theorem permitted_traceback_witness:
  "\<exists>g a v. witness_view_of (toy_world 4000) toy_settings g a = Inr v \<and> vw_permitted v
    \<and> (\<exists>grant request event operator body. latest_grant (vw_history v) = Some grant
         \<and> validate_event lax_crypto True 4000 (dget grant ''request'') = Inr request
         \<and> loads (ev_content event) = Inr (VDict body)
         \<and> dget body ''request_event_id'' = VStr (ev_id request)
         \<and> validate_event lax_crypto True 4000 (dget grant ''authorization'') = Inr event
         \<and> public_hex toy_stroma (gr_operator_npub g) = Inr operator \<and> ev_pubkey event = operator)"
proof -
  let ?w = "toy_world 3000"
  obtain b g operator where g: "verified_grantor ?w toy_settings (open_for_writing b) = (Inr g, b)"
    "validate_history ?w g b = Inr []" "load_controls b = []"
    "requestable ?w g hex_a operator 80000 [1415] [112] [112]"
    using toy_witness_start by blast
  have st: "stroma_ok (o_crypto ?w) (o_stroma ?w)" by (simp add: toy_stroma_ok)
  obtain es r tp where r: "made_request ?w g hex_a operator 80000 [1415] [112] r"
    using request_operation [OF g(4) _ _ toy_policy(2) g(1,2)] by auto
  obtain tp x where x: "authorization_template ?w r = Inr tp"
    "signed_by (o_crypto ?w) (tp_pubkey tp) (tp_kind tp) (tp_created_at tp) (tp_content tp) (tp_tags tp) x"
    using toy_grant [OF g(4) r] by auto
  have mg: "made_grant ?w g hex_a operator 80000 [1415] [112] r 3000 x"
    using template_made_grant [OF g(4) r x] by (simp add: request_expiry_def request_ttl_def)
  have w: "same_libraries ?w (toy_world 4000)" by (simp add: same_libraries_def)
  let ?b = "b\<lparr>authorization_row := Some (canonical_json (request_evidence [112] r))\<rparr>"
  obtain row where "commissioning_table b = Some row"
    using verified_grantor_ok [OF g(1) st] by (auto split: option.splits)
  moreover have "db_file b"
    using arelatesD [OF kept.grantor g(1)] by (simp add: keeps_commissioning_def)
  ultimately have "open_for_writing ?b = ?b" by (simp add: open_for_writing_def)
  then have g': "verified_grantor (toy_world 4000) toy_settings (open_for_writing ?b) = (Inr g, ?b)"
    using verified_grantor_again [OF g(1) st w, of ?b] by simp
  have "history_table ?b = None \<or> history_table ?b = Some []" using no_history [OF g(2)] by simp
  from authorize_operation [OF g(4) r w mg _ _ _ g' this]
  obtain v c where v: "witness_view_of (toy_world 4000) toy_settings g c = Inr v"
    "vw_permitted v = (\<not> suspended_now (load_controls ?b))"
    by (auto simp: request_expiry_def request_ttl_def)
  have p: "vw_permitted v" using v(2) g(3) by (simp add: load_controls_def suspended_now_def)
  have "grantor_ok g" using g(4) by (simp add: requestable_def parties_def)
  from permitted_traceback [OF v(1) p _ this] have "\<exists>grant request event operator body.
      latest_grant (vw_history v) = Some grant
      \<and> validate_event lax_crypto True 4000 (dget grant ''request'') = Inr request
      \<and> loads (ev_content event) = Inr (VDict body)
      \<and> dget body ''request_event_id'' = VStr (ev_id request)
      \<and> validate_event lax_crypto True 4000 (dget grant ''authorization'') = Inr event
      \<and> public_hex toy_stroma (gr_operator_npub g) = Inr operator \<and> ev_pubkey event = operator"
    by (simp add: toy_stroma_ok) blast
  with v(1) p show ?thesis by blast
qed

end
