(* ===== verification/Receipts.thy ===== *)
theory Receipts
  imports Stroma_Spec
begin

text \<open>
  \<open>spurline/receipts.py\<close>: the digest of a signed event, the tags of a receipt and its
  verification against the event it observed; and what a verified receipt establishes.
\<close>

section \<open>The digest of a signed event\<close>

definition witness_kind :: int where
  "witness_kind = 1418"

definition receipt_schema :: pystr where
  "receipt_schema = lit ''org.spurline.observation-receipt''"

definition subject_profile :: pystr where
  "subject_profile = lit ''nostr-schnorr-secp256k1-v1''"

definition digest_domain :: "byte list" where
  "digest_domain = map word_of_nat (lit ''spurline.observed-signed-event.v1'') @ [0]"

definition max_safe_integer :: int where
  "max_safe_integer = 2 ^ 53 - 1"

text \<open>\<open>type(v) is int\<close> (or an \<open>int\<close> that is no \<open>bool\<close>) between 0 and \<open>MAX_SAFE_INTEGER\<close>.\<close>

definition safe_int :: "pyval \<Rightarrow> bool" where
  "safe_int v = (case as_int v of Some i \<Rightarrow> 0 \<le> i \<and> i \<le> max_safe_integer | None \<Rightarrow> False)"

fun the_dict :: "pyval \<Rightarrow> pydict" where
  "the_dict (VDict d) = d"
| "the_dict _ = []"

definition signed_event_digest :: "crypto \<Rightarrow> int \<Rightarrow> pyval \<Rightarrow> pystr res" where
  "signed_event_digest c now subject =
     rbind (validate_event c True now subject) (\<lambda>_.
       let d = the_dict subject in
       if \<not> safe_int (dget d ''kind'') \<or> \<not> safe_int (dget d ''created_at'')
       then Inl (CE ''subject kind and time must be nonnegative integers'')
       else
         rbind (bytes_fromhex (the_str (dget d ''id''))) (\<lambda>i.
         rbind (bytes_fromhex (the_str (dget d ''sig''))) (\<lambda>s.
           Inr (sha256_hex (digest_domain @ i @ s)))))"

text \<open>The values of the subject that \<open>receipt_tags\<close> reads are strings and a number.\<close>

definition receipt_tags :: "pydict \<Rightarrow> int \<Rightarrow> pystr list list res" where
  "receipt_tags subject version =
     (if version \<notin> {1, 2, 3} then Inl (CE ''unsupported receipt version'')
      else
        rbind (rbind (need subject ''id'') need_str) (\<lambda>i.
        rbind (rbind (need subject ''pubkey'') need_str) (\<lambda>p.
        rbind (rbind (need subject ''kind'') need_num) (\<lambda>k.
          Inr [[lit ''e'', i], [lit ''p'', p], [lit ''k'', num_str k],
               [lit ''t'', lit ''spurline-observation-receipt-v'' @ int_text version]]))))"

section \<open>Verification\<close>

definition receipt_fields :: "int \<Rightarrow> pystr set" where
  "receipt_fields version =
     {lit ''schema'', lit ''schema_version'', lit ''subject_profile'', lit ''event_id'',
      lit ''signed_event_digest'', lit ''observed_at_ms'', lit ''issued_at_ms'',
      lit ''clock_uncertainty_ms'', lit ''validation'', lit ''observation_mode'',
      lit ''witness_policy_digest'', lit ''authorization_event_id''}
     \<union> (if version \<in> {2, 3} then {lit ''clock_accuracy'', lit ''clock_basis''} else {})"

definition clock_basis :: "int \<Rightarrow> pystr" where
  "clock_basis version =
     (if version = 3 then lit ''system-clock'' else lit ''ntp-synchronized-system-clock'')"

definition check_profile :: "pydict \<Rightarrow> unit res" where
  "check_profile body =
     (if dget body ''schema'' \<noteq> VStr receipt_schema
         \<or> as_int (dget body ''schema_version'') = None
         \<or> dget body ''subject_profile'' \<noteq> VStr subject_profile
         \<or> dget body ''validation'' \<noteq> vlit ''event-id-and-signature''
         \<or> dget body ''observation_mode'' \<notin> {vlit ''live'', vlit ''backfill''}
      then Inl (CE ''unsupported receipt profile'')
      else if \<not> safe_int (dget body ''observed_at_ms'') \<or> \<not> safe_int (dget body ''issued_at_ms'')
      then Inl (CE ''receipt times must be nonnegative safe integers'')
      else Inr ())"

definition check_uncertainty :: "int \<Rightarrow> pydict \<Rightarrow> unit res" where
  "check_uncertainty version body =
     (let uncertainty = dget body ''clock_uncertainty_ms'' in
      if version = 1 then
        (if \<not> safe_int uncertainty then Inl (CE ''v1 requires a numeric clock uncertainty'')
         else if num_val (the_num (dget body ''observed_at_ms'')) + num_val (the_num uncertainty)
                 > max_safe_integer
         then Inl (CE ''inconsistent receipt times'')
         else Inr ())
      else if uncertainty \<noteq> VNone \<or> dget body ''clock_accuracy'' \<noteq> vlit ''unspecified''
           \<or> dget body ''clock_basis'' \<noteq> VStr (clock_basis version)
      then Inl (CE ''receipt requires explicit unspecified accuracy and matching clock basis'')
      else Inr ())"

definition hex_reference :: "pyval \<Rightarrow> bool" where
  "hex_reference v = is_hex v 64"

definition check_binding ::
  "pydict \<Rightarrow> pydict \<Rightarrow> pydict \<Rightarrow> int \<Rightarrow> pystr \<Rightarrow> unit res" where
  "check_binding receipt subject body version digest =
     (if num_val (the_num (dget body ''observed_at_ms'')) > num_val (the_num (dget body ''issued_at_ms''))
         \<or> as_int (dget receipt ''created_at'')
             \<noteq> Some (num_val (the_num (dget body ''issued_at_ms'')) div 1000)
      then Inl (CE ''inconsistent receipt times'')
      else if \<not> hex_reference (dget body ''witness_policy_digest'')
           \<or> \<not> hex_reference (dget body ''authorization_event_id'')
      then Inl (CE ''invalid receipt evidence reference'')
      else if dget body ''event_id'' \<noteq> dget subject ''id''
           \<or> dget body ''signed_event_digest'' \<noteq> VStr digest
      then Inl (CE ''receipt does not bind this exact signed subject'')
      else rbind (receipt_tags subject version) (\<lambda>tags.
        ensure (dget receipt ''tags'' = tags_val tags)
          (CE ''receipt does not bind this exact signed subject'')))"

definition check_body :: "pydict \<Rightarrow> pydict \<Rightarrow> pystr \<Rightarrow> pydict \<Rightarrow> pydict res" where
  "check_body receipt subject digest body =
     (case as_int (dget body ''schema_version'') of
        None \<Rightarrow> Inl (CE ''unsupported receipt version'')
      | Some version \<Rightarrow>
          if version \<notin> {1, 2, 3} then Inl (CE ''unsupported receipt version'')
          else if set (map fst body) \<noteq> receipt_fields version
               \<or> VStr (canonical_json body) \<noteq> dget receipt ''content''
          then Inl (CE ''receipt fields or canonical encoding do not match profile'')
          else
            rbind (check_profile body) (\<lambda>_.
            rbind (check_uncertainty version body) (\<lambda>_.
            rbind (check_binding receipt subject body version digest) (\<lambda>_.
              Inr body))))"

definition verify_receipt :: "crypto \<Rightarrow> int \<Rightarrow> pyval \<Rightarrow> pyval \<Rightarrow> pydict res" where
  "verify_receipt c now receipt_data subject_data =
     rbind (validate_event c True now receipt_data) (\<lambda>_.
     rbind (signed_event_digest c now subject_data) (\<lambda>digest.
     let receipt = the_dict receipt_data; subject = the_dict subject_data in
     if as_int (dget receipt ''kind'') \<noteq> Some witness_kind
     then Inl (CE ''unsupported receipt kind'')
     else if as_int (dget subject ''kind'') \<notin> {Some 1415, Some 1416}
     then Inl (CE ''unsupported receipt subject kind'')
     else
       rbind (recast (loads (the_str (dget receipt ''content''))) is_value_error
                (CE ''invalid receipt JSON'')) (\<lambda>v.
       case v of
         VDict body \<Rightarrow> check_body receipt subject digest body
       | _ \<Rightarrow> Inl (CE ''receipt body must be an object''))))"

section \<open>What a verified receipt establishes\<close>

definition digest_input :: "stored_event \<Rightarrow> byte list" where
  "digest_input e =
     (case (bytes_fromhex (ev_id e), bytes_fromhex (ev_sig e)) of
        (Inr i, Inr s) \<Rightarrow> digest_domain @ i @ s | _ \<Rightarrow> [])"

lemma safe_int_iff: "safe_int v \<longleftrightarrow> (\<exists>i. v = VInt i \<and> 0 \<le> i \<and> i \<le> max_safe_integer)"
  by (cases v rule: as_int.cases) (auto simp: safe_int_def)

lemma signed_event_digest_iff:
  "signed_event_digest c now v = Inr digest \<longleftrightarrow>
     (\<exists>e. validate_event c True now v = Inr e \<and> digest = sha256_hex (digest_input e)
        \<and> safe_int (VNum (ev_kind e)) \<and> safe_int (VNum (ev_created_at e)))"
proof (cases "validate_event c True now v")
  case (Inr e)
  then obtain d where d: "v = VDict d" "holds_event d e" "wf_event e"
    by (auto simp: validate_event_iff)
  from wf_event_hex_bytes [OF d(3)] obtain i s where
    "bytes_fromhex (ev_id e) = Inr i" "bytes_fromhex (ev_sig e) = Inr s" by metis
  with Inr d show ?thesis
    by (auto simp: signed_event_digest_def holds_event_dget [OF d(2)] digest_input_def Let_def)
qed (simp add: signed_event_digest_def)

lemma as_int_VInt: "as_int v = Some i \<longleftrightarrow> v = VInt i"
  by (cases v rule: as_int.cases) auto

lemma as_int_num: "as_int (VNum n) = Some i \<longleftrightarrow> n = NInt i"
  by (cases n) auto

lemma receipt_tags_holds:
  "holds_event d e \<Longrightarrow> receipt_tags d version = Inr tags \<longleftrightarrow> version \<in> {1, 2, 3}
     \<and> tags = [[lit ''e'', ev_id e], [lit ''p'', ev_pubkey e], [lit ''k'', num_str (ev_kind e)],
               [lit ''t'', lit ''spurline-observation-receipt-v'' @ int_text version]]"
  by (auto simp: receipt_tags_def holds_event_need)

text \<open>The body of a receipt \<open>r\<close> for the signed event \<open>e\<close>.\<close>

definition receipt_for :: "stored_event \<Rightarrow> stored_event \<Rightarrow> int \<Rightarrow> pydict \<Rightarrow> bool" where
  "receipt_for r e version body =
     (version \<in> {1, 2, 3} \<and> dget body ''schema_version'' = VInt version
      \<and> set (map fst body) = receipt_fields version \<and> ev_content r = canonical_json body
      \<and> check_profile body = Inr () \<and> check_uncertainty version body = Inr ()
      \<and> num_val (the_num (dget body ''observed_at_ms'')) \<le> num_val (the_num (dget body ''issued_at_ms''))
      \<and> ev_created_at r = NInt (num_val (the_num (dget body ''issued_at_ms'')) div 1000)
      \<and> is_hex (dget body ''witness_policy_digest'') 64
      \<and> is_hex (dget body ''authorization_event_id'') 64
      \<and> dget body ''event_id'' = VStr (ev_id e)
      \<and> dget body ''signed_event_digest'' = VStr (sha256_hex (digest_input e))
      \<and> ev_tags r = [[lit ''e'', ev_id e], [lit ''p'', ev_pubkey e], [lit ''k'', num_str (ev_kind e)],
                     [lit ''t'', lit ''spurline-observation-receipt-v'' @ int_text version]])"

lemma check_body_iff:
  assumes "holds_event rd r" "holds_event sd e"
  shows "check_body rd sd (sha256_hex (digest_input e)) b = Inr body \<longleftrightarrow>
    b = body \<and> (\<exists>version. receipt_for r e version body)"
proof
  note get = holds_event_dget [OF assms(1)] holds_event_dget [OF assms(2)]
  {
    assume "check_body rd sd (sha256_hex (digest_input e)) b = Inr body"
    then obtain version where
      "dget body ''schema_version'' = VInt version" "b = body"
      "version \<in> {1, 2, 3}" "set (map fst body) = receipt_fields version"
      "canonical_json body = ev_content r" "check_profile body = Inr ()"
      "check_uncertainty version body = Inr ()"
      "check_binding rd sd body version (sha256_hex (digest_input e)) = Inr ()"
      by (auto simp: check_body_def rbind_eq_Inr as_int_VInt get split: option.splits if_splits)
    then show "b = body \<and> (\<exists>version. receipt_for r e version body)"
      by (auto simp: receipt_for_def check_binding_def rbind_eq_Inr ensure_eq_Inr as_int_VInt get
          hex_reference_def receipt_tags_holds [OF assms(2)] split: if_splits)
  next
    assume "b = body \<and> (\<exists>version. receipt_for r e version body)"
    then obtain version where b: "b = body" and f: "receipt_for r e version body" by blast
    have "receipt_tags sd version = Inr (ev_tags r)"
      using f receipt_tags_holds [OF assms(2)] by (auto simp: receipt_for_def)
    then have "check_binding rd sd body version (sha256_hex (digest_input e)) = Inr ()"
      using f by (simp add: check_binding_def receipt_for_def get hex_reference_def as_int_num)
    then show "check_body rd sd (sha256_hex (digest_input e)) b = Inr body"
      using f by (auto simp: check_body_def receipt_for_def b get)
  }
qed

lemma verify_receipt_iff:
  "verify_receipt c now rv sv = Inr body \<longleftrightarrow>
     (\<exists>r e version. validate_event c True now rv = Inr r \<and> validate_event c True now sv = Inr e
        \<and> ev_kind r = NInt 1418 \<and> ev_kind e \<in> {NInt 1415, NInt 1416}
        \<and> safe_int (VNum (ev_created_at e)) \<and> loads (ev_content r) = Inr (VDict body)
        \<and> receipt_for r e version body)"
proof (cases "validate_event c True now rv")
  case (Inr r)
  show ?thesis
  proof (cases "validate_event c True now sv")
    case e: (Inr e)
    obtain rd sd where d: "rv = VDict rd" "holds_event rd r" "sv = VDict sd" "holds_event sd e"
      using Inr e by (auto simp: validate_event_iff)
    note get = holds_event_dget [OF d(2)] holds_event_dget [OF d(4)]
    note v = Inr [unfolded d(1)] e [unfolded d(3)]
    have digest: "signed_event_digest c now (VDict sd) = Inr g \<longleftrightarrow>
      g = sha256_hex (digest_input e) \<and> safe_int (VNum (ev_kind e)) \<and> safe_int (VNum (ev_created_at e))" for g
      by (auto simp: signed_event_digest_iff v)
    have k: "ev_kind e \<in> {NInt 1415, NInt 1416} \<Longrightarrow> safe_int (VNum (ev_kind e))"
      by (auto simp: safe_int_iff max_safe_integer_def)
    have "verify_receipt c now (VDict rd) (VDict sd) = Inr body \<longleftrightarrow>
      safe_int (VNum (ev_kind e)) \<and> safe_int (VNum (ev_created_at e)) \<and> ev_kind r = NInt 1418
      \<and> ev_kind e \<in> {NInt 1415, NInt 1416}
      \<and> (\<exists>b. loads (ev_content r) = Inr (VDict b)
           \<and> check_body rd sd (sha256_hex (digest_input e)) b = Inr body)"
      by (auto simp: verify_receipt_def rbind_eq_Inr digest v Let_def get as_int_num witness_kind_def
          recast_eq_Inr case_VDict_Inr split: if_splits)
    then show ?thesis
      using k by (auto simp: v d check_body_iff [OF d(2,4)])
  qed (auto simp: verify_receipt_def signed_event_digest_def Inr)
qed (simp add: verify_receipt_def)

lemma hex_char_hex_value: "hex_digit c \<Longrightarrow> hex_value c = Some h \<Longrightarrow> hex_char h = c \<and> h < 16"
  by (auto simp: hex_digit_def hex_value_def hex_char_def split: if_splits)

lemma fromhex_hex:
  "list_all hex_digit s \<Longrightarrow> even (length s) \<Longrightarrow> bytes_fromhex s = Inr bs \<Longrightarrow> bytes_hex bs = s"
proof (induction s arbitrary: bs rule: bytes_fromhex.induct)
  case (3 c d s)
  then have cd: "hex_digit c" "hex_digit d" "\<not> ascii_space c"
    using hex_digit_not_space by simp_all
  obtain h l where hl: "hex_value c = Some h" "hex_value d = Some l"
    using hex_value_hex_digit cd(1,2) by blast
  note n = hex_char_hex_value [OF cd(1) hl(1)] hex_char_hex_value [OF cd(2) hl(2)]
  then have small: "16 * h + l < 256" by simp
  have "unat (word_of_nat m :: byte) = m" if "m < 256" for m
    using that by (simp add: unsigned_of_nat take_bit_nat_eq_self)
  note u = this [OF small]
  obtain t where t: "bytes_fromhex s = Inr t" "bs = word_of_nat (16 * h + l) # t"
    using 3(5) cd(3) hl by (auto simp: rbind_eq_Inr)
  have "bytes_hex t = s" using 3(2) [OF cd(3) refl hl] 3(3,4) t(1) by simp
  moreover have "byte_hex (word_of_nat (16 * h + l)) = [c, d]"
    using n unfolding byte_hex_def u by simp
  ultimately show ?case by (simp add: t(2) bytes_hex_def)
qed (auto simp: bytes_hex_def)

lemma fromhex_inject:
  "hex_string n s \<Longrightarrow> hex_string n t \<Longrightarrow> even n \<Longrightarrow> bytes_fromhex s = Inr b \<Longrightarrow> bytes_fromhex t = Inr b
    \<Longrightarrow> s = t"
  using fromhex_hex [of s b] fromhex_hex [of t b] by (simp add: hex_string_def)

text \<open>C28: a receipt names one signed event: if it verifies against two, they have the same id and the
  same signature, unless their signed bytes are a SHA-256 collision.\<close>

theorem receipt_binds_subject:
  assumes "verify_receipt c1 now1 rv sv1 = Inr b1" "verify_receipt c2 now2 rv sv2 = Inr b2"
  shows "\<exists>e1 e2. validate_event c1 True now1 sv1 = Inr e1 \<and> validate_event c2 True now2 sv2 = Inr e2
    \<and> b1 = b2 \<and> ev_id e1 = ev_id e2
    \<and> (ev_sig e1 = ev_sig e2
       \<or> digest_input e1 \<noteq> digest_input e2 \<and> sha256 (digest_input e1) = sha256 (digest_input e2))"
proof -
  obtain r1 e1 n1 where 1: "validate_event c1 True now1 rv = Inr r1"
    "validate_event c1 True now1 sv1 = Inr e1" "loads (ev_content r1) = Inr (VDict b1)"
    "receipt_for r1 e1 n1 b1" using assms(1) by (auto simp: verify_receipt_iff)
  obtain r2 e2 n2 where 2: "validate_event c2 True now2 rv = Inr r2"
    "validate_event c2 True now2 sv2 = Inr e2" "loads (ev_content r2) = Inr (VDict b2)"
    "receipt_for r2 e2 n2 b2" using assms(2) by (auto simp: verify_receipt_iff)
  have "r1 = r2"
    using 1(1) 2(1) from_dict_holds by (auto simp: validate_event_iff) (metis sum.inject(2))
  then have b: "b1 = b2" using 1(3) 2(3) by simp
  with 1(4) 2(4) have id: "ev_id e1 = ev_id e2"
    "sha256 (digest_input e1) = sha256 (digest_input e2)"
    by (auto simp: receipt_for_def sha256_hex_def)
  have wf: "wf_event e1" "wf_event e2" using 1(2) 2(2) by (simp_all add: validate_event_iff)
  obtain i1 p1 s1 where h1: "bytes_fromhex (ev_id e1) = Inr i1" "bytes_fromhex (ev_sig e1) = Inr s1"
    using wf_event_hex_bytes [OF wf(1)] by metis
  obtain i2 p2 s2 where h2: "bytes_fromhex (ev_id e2) = Inr i2" "bytes_fromhex (ev_sig e2) = Inr s2"
    using wf_event_hex_bytes [OF wf(2)] by metis
  have "ev_sig e1 = ev_sig e2" if "digest_input e1 = digest_input e2"
    using that id(1) h1 h2 wf fromhex_inject [of 128 "ev_sig e1" "ev_sig e2" s1]
    by (simp add: digest_input_def wf_event_def)
  then show ?thesis using 1(2) 2(2) b id by blast
qed

end
