(* ===== verification/Clock.thy ===== *)
theory Clock
  imports Stroma_Spec Py_Utf8
begin

text \<open>
  The clock of the automatic witness (\<open>WitnessClock\<close> of \<open>spurline/automatic_witness.py\<close>) and the
  monitor that feeds it (\<open>spurline/clock_monitor.py\<close>): the health file one writes is the one the
  other reads.
\<close>

section \<open>The clock\<close>

text \<open>
  One look at the outside: \<open>time.time()\<close> and \<open>time.monotonic()\<close> in nanoseconds and the first 4097
  bytes of the health file. Python computes with floats; their rounding is not modelled.
\<close>

record reading =
  rd_wall :: int
  rd_monotonic :: int
  rd_file :: "byte list res"

record clock =
  ck_previous :: "int \<times> int"
  ck_failed :: bool

definition start_clock :: "reading \<Rightarrow> clock" where
  "start_clock rd = \<lparr>ck_previous = (rd_wall rd, rd_monotonic rd), ck_failed = False\<rparr>"

text \<open>\<open>int(wall * 1000)\<close> truncates.\<close>

definition to_ms :: "int \<Rightarrow> int" where
  "to_ms t = (if t < 0 then - (- t div 1000000) else t div 1000000)"

definition max_drift :: int where
  "max_drift = 250000000"

definition discontinuity :: "reading \<Rightarrow> clock \<Rightarrow> bool" where
  "discontinuity rd ck =
     (case ck_previous ck of (old_wall, old_monotonic) \<Rightarrow>
        \<bar>(rd_wall rd - old_wall) - (rd_monotonic rd - old_monotonic)\<bar> > max_drift)"

text \<open>\<open>json.loads\<close> of bytes, for UTF-8 with or without a byte order mark.\<close>

definition loads_bytes :: "byte list \<Rightarrow> pyval res" where
  "loads_bytes raw =
     (if take 3 raw = [239, 187, 191]
      then rbind (utf8_decode (drop 3 raw)) loads
      else rbind (utf8_decode raw) loads)"

definition unhealthy :: exc where
  "unhealthy = ValueError (lit ''unhealthy clock'')"

definition within :: "int \<Rightarrow> int \<Rightarrow> int \<Rightarrow> bool" where
  "within lo hi x = (lo \<le> x \<and> x \<le> hi)"

definition bounded_health :: "int \<Rightarrow> pyval \<Rightarrow> (int \<times> int option) res" where
  "bounded_health now uncertainty =
     (case as_int uncertainty of
        Some u \<Rightarrow> if within 0 1000 u then Inr (now, Some u) else Inl unhealthy
      | None \<Rightarrow> Inl unhealthy)"

definition operational_health ::
  "int \<Rightarrow> int \<Rightarrow> pyval \<Rightarrow> pydict \<Rightarrow> (int \<times> int option) res" where
  "operational_health now checked uncertainty data =
     rbind (need data ''last_sync_at_ms'') (\<lambda>last_sync.
       if dget data ''mode'' \<noteq> vlit ''operational'' \<or> uncertainty \<noteq> VNone
          \<or> dget data ''source'' \<noteq> vlit ''systemd-timesyncd''
       then Inl unhealthy
       else case as_int last_sync of
         None \<Rightarrow> Inl unhealthy
       | Some t \<Rightarrow>
           if within 0 7200000 (checked - t) \<and> within 0 7200000 (now - t)
           then Inr (now, None) else Inl unhealthy)"

definition check_health :: "pystr \<Rightarrow> int \<Rightarrow> pyval \<Rightarrow> (int \<times> int option) res" where
  "check_health mode now v =
     (case v of
        VDict data \<Rightarrow>
          rbind (need data ''checked_at_ms'') (\<lambda>checked.
          rbind (need data ''uncertainty_ms'') (\<lambda>uncertainty.
          rbind (need data ''synchronized'') (\<lambda>synchronized.
            if synchronized \<noteq> VNum (NBool True) then Inl unhealthy
            else case as_int checked of
              None \<Rightarrow> Inl unhealthy
            | Some c \<Rightarrow>
                if \<not> within 0 30000 (now - c) then Inl unhealthy
                else if mode = lit ''bounded'' then bounded_health now uncertainty
                else operational_health now c uncertainty data)))
      | _ \<Rightarrow> Inl TypeError)"

definition clock_unavailable :: "exc \<Rightarrow> bool" where
  "clock_unavailable x = (x = OSError \<or> is_value_error x \<or> x = TypeError \<or> x = KeyError)"

text \<open>A sample: the local time in milliseconds and its uncertainty, if the mode has one.\<close>

definition sample :: "pystr \<Rightarrow> reading \<Rightarrow> clock \<Rightarrow> (int \<times> int option) res \<times> clock" where
  "sample mode rd ck =
     (let failed = ck_failed ck \<or> discontinuity rd ck;
          ck' = \<lparr>ck_previous = (rd_wall rd, rd_monotonic rd), ck_failed = failed\<rparr>;
          now = to_ms (rd_wall rd)
      in if failed
         then (Inl (ClockUnavailable (lit ''clock discontinuity; restart after correcting time'')), ck')
         else if mode = lit ''system'' then (Inr (now, None), ck')
         else (recast (rbind (rd_file rd) (\<lambda>raw. rbind (loads_bytes raw) (check_health mode now)))
                 clock_unavailable
                 (ClockUnavailable (lit ''fresh synchronized clock evidence unavailable'')), ck'))"

section \<open>The monitor\<close>

text \<open>
  What the host says: the outputs of \<open>systemctl is-active\<close> and \<open>timedatectl\<close>, the modification time
  of the synchronization file, and the wall clock before and after, all in nanoseconds.
\<close>

record host =
  h_active :: "pystr res"
  h_synchronized :: "pystr res"
  h_mtime :: "int res"
  h_start :: int
  h_end :: int

definition max_sync_age_ms :: int where
  "max_sync_age_ms = 2 * 60 * 60 * 1000"

definition health_report :: "bool \<Rightarrow> int \<Rightarrow> pyval \<Rightarrow> string \<Rightarrow> pydict" where
  "health_report synchronized checked last_sync reason =
     [(lit ''mode'', vlit ''operational''), (lit ''source'', vlit ''systemd-timesyncd''),
      (lit ''synchronized'', VNum (NBool synchronized)), (lit ''checked_at_ms'', VInt checked),
      (lit ''uncertainty_ms'', VNone), (lit ''last_sync_at_ms'', last_sync),
      (lit ''reason'', vlit reason)]"

definition host_state :: "host \<Rightarrow> int \<Rightarrow> (bool \<times> int) res" where
  "host_state h checked =
     rbind (h_active h) (\<lambda>active.
     rbind (h_synchronized h) (\<lambda>synchronized.
     rbind (h_mtime h) (\<lambda>mtime.
       let last_sync = mtime div 1000000; now = to_ms (h_end h);
           recent = within 0 max_sync_age_ms (checked - last_sync)
                    \<and> within 0 max_sync_age_ms (now - last_sync)
       in Inr (active = lit ''active'' \<and> synchronized = lit ''yes'' \<and> recent, last_sync))))"

definition collect :: "host \<Rightarrow> pydict res" where
  "collect h =
     (let checked = to_ms (h_start h) in
      case host_state h checked of
        Inl x \<Rightarrow>
          (if x = OSError \<or> x = SubprocessError
           then Inr (health_report False checked VNone ''monitor-error'') else Inl x)
      | Inr (ok, last_sync) \<Rightarrow>
          Inr (health_report ok checked (VInt last_sync)
                 (if ok then ''ok'' else ''unsynchronized-or-stale'')))"

section \<open>Writing the health file\<close>

text \<open>
  The target and the temporary file beside it, each with its bytes. Every call may fail; what a
  failed write leaves in the temporary file is arbitrary.
\<close>

record health_dir =
  hd_target :: "byte list option"
  hd_temporary :: "byte list option"

datatype write_fault = No_Fault | Create_Fails | Write_Fails "byte list" | Replace_Fails

definition health_text :: "pydict \<Rightarrow> pystr" where
  "health_text data = dumps style_default (sort_keys (VDict data)) @ [10]"

definition unlink_temporary :: "health_dir \<Rightarrow> health_dir" where
  "unlink_temporary d = d\<lparr>hd_temporary := None\<rparr>"

text \<open>The states of the directory during a call, and how it ends.\<close>

definition write_health ::
  "write_fault \<Rightarrow> pydict \<Rightarrow> health_dir \<Rightarrow> unit res \<times> health_dir list" where
  "write_health fault data d =
     (case utf8_encode (health_text data) of
        Inl x \<Rightarrow> (Inl x, [d, d\<lparr>hd_temporary := Some []\<rparr>, d])
      | Inr raw \<Rightarrow>
          (case fault of
             Create_Fails \<Rightarrow> (Inl OSError, [d])
           | Write_Fails partial \<Rightarrow>
               (let d1 = d\<lparr>hd_temporary := Some partial\<rparr>
                in (Inl OSError, [d, d1, unlink_temporary d1]))
           | Replace_Fails \<Rightarrow>
               (let d1 = d\<lparr>hd_temporary := Some raw\<rparr>
                in (Inl OSError, [d, d1, unlink_temporary d1]))
           | No_Fault \<Rightarrow>
               (let d1 = d\<lparr>hd_temporary := Some raw\<rparr>;
                    d2 = \<lparr>hd_target = Some raw, hd_temporary = None\<rparr>
                in (Inr (), [d, d1, d2, unlink_temporary d2]))))"

end
