(* ===== verification/Auto_Witness.thy ===== *)
theory Auto_Witness
  imports Witness_Properties Receipts Clock Store_Properties
begin

text \<open>
  \<open>AutomaticWitness\<close> of \<open>spurline/automatic_witness.py\<close>: accepting events, queueing observations,
  issuing receipts and the worker's loop. The lock and the write transaction on the administrative
  database make \<open>accept\<close> and \<open>issue\<close> atomic with respect to each other and to the command line.
\<close>

section \<open>State\<close>

text \<open>\<open>au_published\<close> lists the receipts handed to \<open>broadcast\<close>.\<close>

record auto =
  au_admin :: admin
  au_store :: store
  au_clock :: clock
  au_published :: "stored_event list"

definition on_admin :: "(admin, 'a) act \<Rightarrow> (auto, 'a) act" where
  "on_admin f au = (case f (au_admin au) of (x, a) \<Rightarrow> (x, au\<lparr>au_admin := a\<rparr>))"

definition on_store :: "(store \<Rightarrow> (store \<times> 'a) res) \<Rightarrow> (auto, 'a) act" where
  "on_store f au =
     (case f (au_store au) of
        Inl x \<Rightarrow> (Inl x, au)
      | Inr (st, r) \<Rightarrow> (Inr r, au\<lparr>au_store := st\<rparr>))"

definition on_clock :: "settings \<Rightarrow> reading \<Rightarrow> (auto, int \<times> int option) act" where
  "on_clock s rd au =
     (case sample (witness_clock_mode s) rd (au_clock au) of (x, ck) \<Rightarrow> (x, au\<lparr>au_clock := ck\<rparr>))"

definition acatch :: "('s, 'a) act \<Rightarrow> (exc \<Rightarrow> bool) \<Rightarrow> ('s, 'a) act \<Rightarrow> ('s, 'a) act" where
  "acatch m caught handler st =
     (case m st of
        (Inl x, st') \<Rightarrow> if caught x then handler st' else (Inl x, st')
      | r \<Rightarrow> r)"

text \<open>
  \<open>with self.lock, self.authority.service.connection() as db\<close>: an exception rolls the
  administrative database back; the event store and the clock keep what was done to them.
\<close>

definition locked :: "outside \<Rightarrow> (auto, 'a) act \<Rightarrow> (auto, 'a) act" where
  "locked w body au =
     (case o_db_fault w of
        Some x \<Rightarrow> (Inl x, au)
      | None \<Rightarrow>
          let start = open_for_writing (au_admin au) in
          (case body (au\<lparr>au_admin := start\<rparr>) of
             (Inl x, au') \<Rightarrow>
               (Inl x, au'\<lparr>au_admin := start\<lparr>sentinel_file := sentinel_file (au_admin au')\<rparr>\<rparr>)
           | (Inr r, au') \<Rightarrow> (Inr r, au')))"

section \<open>What is permitted now\<close>

definition auto_view :: "outside \<Rightarrow> settings \<Rightarrow> (admin, witness_view) act" where
  "auto_view w s = abind (verified_grantor w s) (\<lambda>g. read_view w s g)"

definition need_object :: "pyval \<Rightarrow> pydict res" where
  "need_object v = (case v of VDict d \<Rightarrow> Inr d | _ \<Rightarrow> Inl TypeError)"

text \<open>\<open>json.loads(view['evidence']['authorization']['content'])\<close>\<close>

definition grant_body :: "witness_view \<Rightarrow> pydict res" where
  "grant_body view =
     rbind (rbind (need (vw_evidence view) ''authorization'') need_object) (\<lambda>event.
     rbind (rbind (need_text event ''content'') loads) need_object)"

definition view_status :: "witness_view \<Rightarrow> evidence_status res" where
  "view_status view = (case vw_status view of None \<Rightarrow> Inl KeyError | Some es \<Rightarrow> Inr es)"

definition in_interval :: "witness_view \<Rightarrow> int \<Rightarrow> int option \<Rightarrow> bool res" where
  "in_interval view now uncertainty =
     rbind (grant_body view) (\<lambda>grant.
     rbind (rbind (need grant ''issued_at'') need_num) (\<lambda>issued.
     rbind (view_status view) (\<lambda>es.
       let start = max (num_val issued) (es_not_before es) * 1000; stop = es_not_after es * 1000
       in Inr (case uncertainty of
                 None \<Rightarrow> start \<le> now \<and> now < stop
               | Some u \<Rightarrow> start \<le> now - u \<and> now + u < stop))))"

text \<open>\<open>str.splitlines\<close>: a carriage return and a following line feed are one break.\<close>

definition line_break :: "nat \<Rightarrow> bool" where
  "line_break c = (c \<in> {10, 11, 12, 13, 28, 29, 30, 133, 8232, 8233})"

fun split_lines :: "bool \<Rightarrow> pystr \<Rightarrow> pystr \<Rightarrow> pystr list" where
  "split_lines after_cr line [] = (if line = [] then [] else [line])"
| "split_lines after_cr line (c # s) =
     (if after_cr \<and> c = 10 then split_lines False line s
      else if line_break c then line # split_lines (c = 13) [] s
      else split_lines False (line @ [c]) s)"

definition splitlines :: "pystr \<Rightarrow> pystr list" where
  "splitlines s = split_lines False [] s"

definition operational_marker :: pystr where
  "operational_marker = lit ''Spurline-Clock-Profile: operational-v1''"

definition system_marker :: pystr where
  "system_marker = lit ''Spurline-Clock-Profile: system-v1''"

definition policy_markers :: "pystr \<Rightarrow> pystr set" where
  "policy_markers policy =
     set [line \<leftarrow> splitlines policy. startswith line (lit ''Spurline-Clock-Profile:'')]"

definition expected_markers :: "pystr \<Rightarrow> pystr set res" where
  "expected_markers mode =
     (if mode = lit ''bounded'' then Inr {}
      else if mode = lit ''operational'' then Inr {operational_marker}
      else if mode = lit ''system'' then Inr {system_marker} else Inl KeyError)"

definition policy_allows_mode :: "settings \<Rightarrow> witness_view \<Rightarrow> bool res" where
  "policy_allows_mode s view =
     (case dget_or (vw_evidence view) ''policy'' (VStr []) of
        VStr policy \<Rightarrow>
          rbind (expected_markers (witness_clock_mode s)) (\<lambda>expected.
            Inr (policy_markers policy = expected
                 \<and> (witness_clock_mode s = lit ''bounded'' \<or> witness_max_delay_seconds s \<le> 60)))
      | _ \<Rightarrow> Inl AttributeError)"

section \<open>Accepting an event\<close>

definition plain_save :: "stored_event \<Rightarrow> (auto, bool) act" where
  "plain_save e = on_store (save e None 1000 None)"

definition listed :: "pyval \<Rightarrow> pyval \<Rightarrow> bool res" where
  "listed v vs = (case vs of VList xs \<Rightarrow> Inr (list_ex (py_eq v) xs) | _ \<Rightarrow> Inl TypeError)"

definition may_observe ::
  "settings \<Rightarrow> stored_event \<Rightarrow> witness_view \<Rightarrow> int \<Rightarrow> int option \<Rightarrow> bool res" where
  "may_observe s e view now uncertainty =
     (if \<not> vw_permitted view then Inr False
      else
        rbind (view_status view) (\<lambda>es.
        rbind (listed (VNum (ev_kind e)) (es_subject_kinds es)) (\<lambda>kind_ok.
        if \<not> kind_ok then Inr False
        else
          rbind (policy_allows_mode s view) (\<lambda>mode_ok.
          if \<not> mode_ok then Inr False else in_interval view now uncertainty))))"

definition witness_refusal :: "exc \<Rightarrow> bool" where
  "witness_refusal x = (case x of CommissioningError _ \<Rightarrow> True | ClockUnavailable _ \<Rightarrow> True | _ \<Rightarrow> False)"

definition unsigned_subject :: "exc \<Rightarrow> bool" where
  "unsigned_subject x = (case x of EventValidationError _ \<Rightarrow> True | CommissioningError _ \<Rightarrow> True | _ \<Rightarrow> False)"

text \<open>The view, the time and its uncertainty, if the event may be observed now.\<close>

definition observe ::
  "outside \<Rightarrow> settings \<Rightarrow> reading \<Rightarrow> stored_event \<Rightarrow> (auto, (witness_view \<times> int \<times> int option) option) act" where
  "observe w s rd e =
     acatch
       (abind (on_admin (auto_view w s)) (\<lambda>view.
        abind (on_clock s rd) (\<lambda>(now, uncertainty).
        abind (alift (may_observe s e view now uncertainty)) (\<lambda>ok.
          areturn (if ok then Some (view, now, uncertainty) else None)))))
       witness_refusal (areturn None)"

definition uncertainty_val :: "int option \<Rightarrow> pyval" where
  "uncertainty_val u = (case u of None \<Rightarrow> VNone | Some i \<Rightarrow> VInt i)"

definition own_pubkey :: "outside \<Rightarrow> settings \<Rightarrow> pystr res" where
  "own_pubkey w s =
     (case priv_key (o_stroma w) (own_key s) of None \<Rightarrow> Inl StromaKeyError | Some (hex, _) \<Rightarrow> Inr hex)"

definition observed_job ::
  "outside \<Rightarrow> settings \<Rightarrow> stored_event \<Rightarrow> pystr \<Rightarrow> witness_view \<Rightarrow> int \<Rightarrow> int option \<Rightarrow> pydict res" where
  "observed_job w s e digest view now uncertainty =
     rbind (witness_receipt_version s) (\<lambda>version.
     rbind (view_status view) (\<lambda>es.
     rbind (own_pubkey w s) (\<lambda>pubkey.
       Inr [(lit ''subject'', VDict (to_dict e)), (lit ''signed_event_digest'', VStr digest),
            (lit ''receipt_version'', VInt version), (lit ''observed_at_ms'', VInt now),
            (lit ''clock_uncertainty_ms'', uncertainty_val uncertainty),
            (lit ''authorization_event_id'',
               (case es_authorization_id es of None \<Rightarrow> VNone | Some i \<Rightarrow> VStr i)),
            (lit ''witness_policy_digest'', es_policy_sha256 es),
            (lit ''witness_pubkey'', VStr pubkey)])))"

definition accept :: "outside \<Rightarrow> settings \<Rightarrow> reading \<Rightarrow> stored_event \<Rightarrow> (auto, bool) act" where
  "accept w s rd e =
     (if num_val (ev_kind e) \<notin> {1415, 1416} then plain_save e
      else case signed_event_digest (o_crypto w) (o_now w) (VDict (to_dict e)) of
        Inl x \<Rightarrow> if unsigned_subject x then plain_save e else araise x
      | Inr digest \<Rightarrow>
          locked w
            (abind (observe w s rd e) (\<lambda>seen.
             case seen of
               None \<Rightarrow> plain_save e
             | Some (view, now, uncertainty) \<Rightarrow>
                 abind (alift (observed_job w s e digest view now uncertainty)) (\<lambda>job.
                   on_store (save e (Some job) (witness_queue_limit s) None)))))"

section \<open>Issuing a receipt\<close>

definition job_version :: "pydict \<Rightarrow> pyval" where
  "job_version job = dget_or job ''receipt_version'' (VInt 1)"

definition still_valid ::
  "outside \<Rightarrow> settings \<Rightarrow> pydict \<Rightarrow> witness_view \<Rightarrow> int \<Rightarrow> int option \<Rightarrow> bool res" where
  "still_valid w s job view now uncertainty =
     (if \<not> vw_permitted view then Inr False
      else
        rbind (policy_allows_mode s view) (\<lambda>mode_ok.
        if \<not> mode_ok then Inr False
        else
          rbind (witness_receipt_version s) (\<lambda>version.
          if \<not> py_eq (job_version job) (VInt version) then Inr False
          else
            rbind (view_status view) (\<lambda>es.
            rbind (need job ''authorization_event_id'') (\<lambda>authorization.
            if \<not> py_eq (case es_authorization_id es of None \<Rightarrow> VNone | Some i \<Rightarrow> VStr i) authorization
            then Inr False
            else
              rbind (need job ''witness_pubkey'') (\<lambda>witness.
              rbind (own_pubkey w s) (\<lambda>pubkey.
              if \<not> py_eq witness (VStr pubkey) then Inr False
              else
                rbind (in_interval view now uncertainty) (\<lambda>interval_ok.
                if \<not> interval_ok then Inr False
                else
                  rbind (rbind (need job ''observed_at_ms'') need_num) (\<lambda>observed.
                    Inr (num_val observed \<le> now
                         \<and> now - num_val observed \<le> witness_max_delay_seconds s * 1000))))))))))"

definition issue_time :: "outside \<Rightarrow> settings \<Rightarrow> reading \<Rightarrow> pydict \<Rightarrow> (auto, int option) act" where
  "issue_time w s rd job =
     acatch
       (abind (on_admin (auto_view w s)) (\<lambda>view.
        abind (on_clock s rd) (\<lambda>(now, uncertainty).
        abind (alift (still_valid w s job view now uncertainty)) (\<lambda>ok.
          areturn (if ok then Some now else None)))))
       witness_refusal (areturn None)"

text \<open>The body of the receipt; its canonical text does not depend on the order of the keys.\<close>

definition receipt_body :: "pydict \<Rightarrow> int \<Rightarrow> pydict res" where
  "receipt_body job now =
     rbind (copy_fields
        [(''signed_event_digest'', ''signed_event_digest''), (''observed_at_ms'', ''observed_at_ms''),
         (''clock_uncertainty_ms'', ''clock_uncertainty_ms''),
         (''authorization_event_id'', ''authorization_event_id''),
         (''witness_policy_digest'', ''witness_policy_digest'')] job) (\<lambda>copied.
     rbind (rbind (need job ''subject'') need_object) (\<lambda>subject.
     rbind (need subject ''id'') (\<lambda>event_id.
     let version = job_version job;
         body = copied @
           [(lit ''schema'', VStr receipt_schema), (lit ''schema_version'', version),
            (lit ''subject_profile'', VStr subject_profile), (lit ''event_id'', event_id),
            (lit ''issued_at_ms'', VInt now), (lit ''validation'', vlit ''event-id-and-signature''),
            (lit ''observation_mode'', vlit ''live'')]
     in Inr (if py_eq version (VInt 2) \<or> py_eq version (VInt 3)
             then body @ [(lit ''clock_accuracy'', vlit ''unspecified''),
                    (lit ''clock_basis'', if py_eq version (VInt 3) then vlit ''system-clock''
                                         else vlit ''ntp-synchronized-system-clock'')]
             else body))))"

definition sign_receipt :: "outside \<Rightarrow> settings \<Rightarrow> pydict \<Rightarrow> int \<Rightarrow> stored_event res" where
  "sign_receipt w s job now =
     rbind (receipt_body job now) (\<lambda>body.
     rbind (rbind (need job ''subject'') need_object) (\<lambda>subject.
     rbind (case as_int (job_version job) of
              None \<Rightarrow> Inl (CE ''unsupported receipt version'')
            | Some version \<Rightarrow> receipt_tags subject version) (\<lambda>tags.
     rbind (own_pubkey w s) (\<lambda>_.
     let receipt = sign_event (o_stroma w) (own_key s) witness_kind (now div 1000) (canonical_json body) tags
     in rbind (verify_receipt (o_crypto w) (o_now w) (VDict (to_dict receipt)) (VDict subject)) (\<lambda>_.
          validate_event (o_crypto w) True (o_now w) (VDict (to_dict receipt)))))))"

definition load_job :: "job_row \<Rightarrow> pydict res" where
  "load_job row = rbind (loads (j_inputs row)) need_object"

definition abandon_job :: "pystr \<Rightarrow> (auto, unit) act" where
  "abandon_job digest = on_store (\<lambda>st. rbind (witness_update digest True st) (\<lambda>st'. Inr (st', ())))"

definition first_row :: "pystr \<Rightarrow> store \<Rightarrow> job_row res" where
  "first_row digest st =
     rbind (witness_rows (Some digest) st) (\<lambda>rows. case rows of [] \<Rightarrow> Inl IndexError | r # _ \<Rightarrow> Inr r)"

definition issue :: "outside \<Rightarrow> settings \<Rightarrow> reading \<Rightarrow> pystr \<Rightarrow> (auto, unit) act" where
  "issue w s rd digest =
     locked w
       (abind (areads (\<lambda>au. first_row digest (au_store au))) (\<lambda>row.
        if j_state row \<noteq> Pending then areturn ()
        else
          abind (alift (load_job row)) (\<lambda>job.
          abind (issue_time w s rd job) (\<lambda>time.
          case time of
            None \<Rightarrow> abandon_job digest
          | Some now \<Rightarrow>
              abind (alift (sign_receipt w s job now)) (\<lambda>receipt.
              abind (on_store (save receipt None 1000 (Some digest))) (\<lambda>_. areturn ()))))))"

section \<open>The worker\<close>

definition check_clock :: "settings \<Rightarrow> reading \<Rightarrow> (auto, unit) act" where
  "check_clock s rd =
     acatch (abind (on_clock s rd) (\<lambda>_. areturn ()))
       (\<lambda>x. case x of ClockUnavailable _ \<Rightarrow> True | _ \<Rightarrow> False) (areturn ())"

definition stored_receipt :: "job_row \<Rightarrow> stored_event res" where
  "stored_receipt row =
     (case j_receipt row of
        None \<Rightarrow> Inl TypeError
      | Some text \<Rightarrow> rbind (rbind (loads text) need_object) from_dict)"

text \<open>\<open>wait_for(broadcast(...), 5)\<close>: it may raise or time out.\<close>

definition publish_receipt :: "(stored_event \<Rightarrow> exc option) \<Rightarrow> stored_event \<Rightarrow> (auto, unit) act" where
  "publish_receipt fault e au =
     (case fault e of
        Some x \<Rightarrow> (Inl x, au)
      | None \<Rightarrow> (Inr (), au\<lparr>au_published := au_published au @ [e]\<rparr>))"

definition process_row ::
  "outside \<Rightarrow> settings \<Rightarrow> reading \<Rightarrow> (stored_event \<Rightarrow> exc option) \<Rightarrow> job_row \<Rightarrow> (auto, unit) act" where
  "process_row w s rd fault row =
     (if j_state row = Pending then issue w s rd (j_digest row)
      else
        abind (alift (stored_receipt row)) (\<lambda>e.
        abind (publish_receipt fault e) (\<lambda>_.
          on_store (\<lambda>st. rbind (witness_update (j_digest row) False st) (\<lambda>st'. Inr (st', ()))))))"

text \<open>
  One pass over the rows; each row has its own look at the outside, and the worker may be told to
  stop before it.
\<close>

fun process_rows ::
  "settings \<Rightarrow> (stored_event \<Rightarrow> exc option) \<Rightarrow> (outside \<times> reading \<times> bool) list \<Rightarrow> job_row list
     \<Rightarrow> (auto, unit) act" where
  "process_rows s fault ((w, rd, stop) # looks) (row # rows) =
     (if stop then areturn ()
      else abind (process_row w s rd fault row) (\<lambda>_. process_rows s fault looks rows))"
| "process_rows s fault _ _ = areturn ()"

definition run_pass ::
  "settings \<Rightarrow> (stored_event \<Rightarrow> exc option) \<Rightarrow> reading \<Rightarrow> (outside \<times> reading \<times> bool) list \<Rightarrow> (auto, unit) act" where
  "run_pass s fault rd looks =
     abind (check_clock s rd) (\<lambda>_.
     abind (areads (\<lambda>au. witness_rows None (au_store au))) (\<lambda>rows.
       process_rows s fault looks rows))"

text \<open>The failures in a row and the delay in milliseconds before the next pass.\<close>

definition after_pass :: "unit res \<Rightarrow> nat \<Rightarrow> nat \<times> nat" where
  "after_pass outcome failures =
     (case outcome of
        Inr _ \<Rightarrow> (0, 250)
      | Inl _ \<Rightarrow> (let f = min (failures + 1) 5 in (f, min (2 ^ f) 30 * 1000)))"

definition job_status :: "pystr \<Rightarrow> store \<Rightarrow> (job_state option \<times> pyval) res" where
  "job_status digest st =
     rbind (witness_rows (Some digest) st) (\<lambda>rows.
       case rows of
         [] \<Rightarrow> Inr (None, VNone)
       | row # _ \<Rightarrow>
           (case j_receipt row of
              None \<Rightarrow> Inr (Some (j_state row), VNone)
            | Some text \<Rightarrow>
                if text = [] then Inr (Some (j_state row), VNone)
                else rbind (rbind (rbind (loads text) need_object) (\<lambda>d. need d ''id'')) (\<lambda>i.
                  Inr (Some (j_state row), i))))"

end
