(* ===== verification/Auto_Spec.thy ===== *)
theory Auto_Spec
  imports Auto_Witness
begin

text \<open>
  The automatic witness: it never changes what the relay stores, observes and issues only on the
  authority that is current, and its worker finishes the queue.
\<close>

section \<open>Effects\<close>

lemma on_store_Inr: "on_store f au = (Inr r, au') \<longleftrightarrow> (\<exists>st. f (au_store au) = Inr (st, r) \<and> au' = au\<lparr>au_store := st\<rparr>)"
  by (auto simp: on_store_def split: sum.splits prod.splits)

lemma on_store_state: "on_store f au = (x, au') \<Longrightarrow> au' = au \<or> (\<exists>st r. f (au_store au) = Inr (st, r) \<and> x = Inr r \<and> au' = au\<lparr>au_store := st\<rparr>)"
  by (auto simp: on_store_def split: sum.splits prod.splits)

lemma acatch_Inr:
  "acatch m c h st = (Inr r, t) \<longleftrightarrow> m st = (Inr r, t) \<or> (\<exists>x u. m st = (Inl x, u) \<and> c x \<and> h u = (Inr r, t))"
  by (auto simp: acatch_def split: prod.splits sum.splits)

lemma locked_Inr:
  "locked w body au = (Inr r, au') \<longleftrightarrow>
     o_db_fault w = None \<and> body (au\<lparr>au_admin := open_for_writing (au_admin au)\<rparr>) = (Inr r, au')"
  by (auto simp: locked_def Let_def split: option.splits prod.splits sum.splits)

lemma on_admin_Inr: "on_admin f au = (Inr r, au') \<longleftrightarrow> (\<exists>a. f (au_admin au) = (Inr r, a) \<and> au' = au\<lparr>au_admin := a\<rparr>)"
  by (auto simp: on_admin_def split: prod.splits)

lemma on_clock_Inr: "on_clock s rd au = (Inr r, au') \<longleftrightarrow>
    (\<exists>ck. sample (witness_clock_mode s) rd (au_clock au) = (Inr r, ck) \<and> au' = au\<lparr>au_clock := ck\<rparr>)"
  by (auto simp: on_clock_def split: prod.splits)

text \<open>Parts of an action that leave the store alone.\<close>

definition keeps_store :: "auto \<Rightarrow> auto \<Rightarrow> bool" where
  "keeps_store au au' = (au_store au' = au_store au \<and> au_published au' = au_published au)"

interpretation stored: step_contract keeps_store
  by unfold_locales (auto simp: keeps_store_def reflp_def transp_def)

lemma keeps_store_parts:
  "arelates keeps_store (on_admin f)" "arelates keeps_store (on_clock s rd)"
  by (auto simp: arelates_def keeps_store_def on_admin_def on_clock_def split: prod.split)

lemma keeps_store_catch:
  "arelates keeps_store m \<Longrightarrow> arelates keeps_store h \<Longrightarrow> arelates keeps_store (acatch m c h)"
  unfolding arelates_def acatch_def keeps_store_def
  by (auto split: prod.split sum.split) (metis snd_conv)+

lemma observe_keeps: "arelates keeps_store (observe w s rd e)"
  unfolding observe_def
  by (intro stored.closed keeps_store_catch keeps_store_parts)

lemma issue_time_keeps: "arelates keeps_store (issue_time w s rd job)"
  unfolding issue_time_def
  by (intro stored.closed keeps_store_catch keeps_store_parts)

section \<open>Witnessing and the relay's data\<close>

text \<open>Whether a job is queued makes no difference to the rest of a save.\<close>

lemma enqueue_only_jobs:
  "enqueue_job job q st = Inr st' \<Longrightarrow> \<exists>js. st' = st\<lparr>witness_jobs := js\<rparr>
     \<and> (js = witness_jobs st \<or> (\<exists>j. js = witness_jobs st @ [j] \<and> j_inputs j = dumps style_default (VDict job)
          \<and> j_state j = (if int (count_pending st) < q then Pending else Unavailable)))"
proof -
  assume a: "enqueue_job job q st = Inr st'"
  have same: "st = st\<lparr>witness_jobs := witness_jobs st\<rparr>" by simp
  let ?j = "\<lambda>d. \<lparr>j_digest = d, j_inputs = dumps style_default (VDict job),
        j_state = (if int (count_pending st) < q then Pending else Unavailable),
        j_receipt = None, j_broadcast = False\<rparr>"
  obtain d where d: "st' = (if d \<in> j_digest ` set (witness_jobs st) then st
      else st\<lparr>witness_jobs := witness_jobs st @ [?j d]\<rparr>)"
    using a unfolding enqueue_job_def Let_def rbind_eq_Inr by blast
  show ?thesis
  proof (cases "d \<in> j_digest ` set (witness_jobs st)")
    case True
    then show ?thesis using d same by metis
  next
    case False
    then have "st' = st\<lparr>witness_jobs := witness_jobs st @ [?j d]\<rparr>" using d by simp
    then show ?thesis
      by (intro exI [of _ "witness_jobs st @ [?j d]"] conjI disjI2 exI [of _ "?j d"])
        (simp_all del: dumps.simps split del: if_split)
  qed
qed

lemma insert_event_with_jobs:
  "insert_event e (st\<lparr>witness_jobs := js\<rparr>)
    = rbind (insert_event e st) (\<lambda>(st', b). Inr (st'\<lparr>witness_jobs := js\<rparr>, b))"
  by (auto simp: insert_event_def rbind_def split: sum.split)

lemma save_job_parts:
  assumes "save e (Some job) q None st = Inr (st1, ins)"
  shows "\<exists>st0 js. save e None q' None st = Inr (st0, ins) \<and> st1 = st0\<lparr>witness_jobs := js\<rparr>
    \<and> (js = witness_jobs st \<or> (\<exists>j. js = witness_jobs st @ [j] \<and> j_inputs j = dumps style_default (VDict job)
          \<and> j_state j = (if int (count_pending st) < q then Pending else Unavailable)))"
proof -
  obtain js where en: "enqueue_job job q st = Inr (st\<lparr>witness_jobs := js\<rparr>)"
    and js: "js = witness_jobs st \<or> (\<exists>j. js = witness_jobs st @ [j] \<and> j_inputs j = dumps style_default (VDict job)
          \<and> j_state j = (if int (count_pending st) < q then Pending else Unavailable))"
    using assms enqueue_only_jobs [of job q st] by (auto simp: save_def rbind_eq_Inr)
  obtain st2 where i: "insert_event e st = Inr (st2, ins)"
    using assms by (auto simp: save_def rbind_eq_Inr en insert_event_with_jobs split: if_splits)
  show ?thesis
  proof (cases "num_val (ev_kind e) = 5")
    case True
    then obtain ds where ds: "record_deletions e (deletions st2) = Inr ds"
      "st1 = st2\<lparr>witness_jobs := js, deletions := ds\<rparr>"
      using assms by (auto simp: save_def rbind_eq_Inr en insert_event_with_jobs i)
    then have "save e None q' None st = Inr (st2\<lparr>deletions := ds\<rparr>, ins)"
      using True by (simp add: save_def i)
    moreover have "st1 = st2\<lparr>deletions := ds\<rparr>\<lparr>witness_jobs := js\<rparr>"
      unfolding ds(2) by (rule store.equality) simp_all
    ultimately show ?thesis using js by blast
  next
    case False
    then have "st1 = st2\<lparr>witness_jobs := js\<rparr>" "save e None q' None st = Inr (st2, ins)"
      using assms by (simp_all add: save_def en insert_event_with_jobs i)
    then show ?thesis using js by blast
  qed
qed

lemma save_keeps_jobs:
  "save e None q None st = Inr (st', ins) \<Longrightarrow> witness_jobs st' = witness_jobs st"
  by (auto simp: save_def insert_event_def rbind_eq_Inr split: if_splits)

lemma accept_cases:
  assumes "accept w s rd e au = (Inr ins, au')"
  obtains "plain_save e au = (Inr ins, au')"
  | au1 where "keeps_store au au1" "plain_save e au1 = (Inr ins, au')"
  | digest au1 view now u job where
      "signed_event_digest (o_crypto w) (o_now w) (VDict (to_dict e)) = Inr digest"
      "o_db_fault w = None"
      "observe w s rd e (au\<lparr>au_admin := open_for_writing (au_admin au)\<rparr>) = (Inr (Some (view, now, u)), au1)"
      "keeps_store au au1" "observed_job w s e digest view now u = Inr job"
      "on_store (save e (Some job) (witness_queue_limit s) None) au1 = (Inr ins, au')"
proof (cases "num_val (ev_kind e) \<in> {1415, 1416}")
  case True
  note k = this
  show thesis
  proof (cases "signed_event_digest (o_crypto w) (o_now w) (VDict (to_dict e))")
    case (Inl x)
    with assms k that(1) show thesis by (auto simp: accept_def split: if_splits)
  next
    case (Inr digest)
    with assms k obtain seen au1 where
      o: "o_db_fault w = None"
        "observe w s rd e (au\<lparr>au_admin := open_for_writing (au_admin au)\<rparr>) = (Inr seen, au1)"
      and r: "(case seen of None \<Rightarrow> plain_save e
             | Some (view, now, uncertainty) \<Rightarrow>
                 abind (alift (observed_job w s e digest view now uncertainty)) (\<lambda>job.
                   on_store (save e (Some job) (witness_queue_limit s) None))) au1 = (Inr ins, au')"
      by (auto simp: accept_def locked_Inr abind_eq_Inr)
    have kp: "keeps_store au au1"
      using arelatesD [OF observe_keeps o(2)] by (simp add: keeps_store_def)
    show thesis
    proof (cases seen)
      case None
      with r kp that(2) show thesis by simp
    next
      case (Some v)
      obtain view now u where v: "v = (view, now, u)" by (cases v) auto
      with Some r obtain job where "observed_job w s e digest view now u = Inr job"
        "on_store (save e (Some job) (witness_queue_limit s) None) au1 = (Inr ins, au')"
        by (auto simp: abind_eq_Inr)
      with that(3) Inr o Some v kp show thesis by blast
    qed
  qed
qed (use assms that(1) in \<open>simp add: accept_def\<close>)

lemma locked_store:
  assumes "locked w body au = (x, au')"
  shows "au' = au \<and> (\<exists>e. x = Inl e)
    \<or> (\<exists>b. body (au\<lparr>au_admin := open_for_writing (au_admin au)\<rparr>) = (x, b)
          \<and> au_store au' = au_store b \<and> au_published au' = au_published b)"
  using assms by (auto simp: locked_def Let_def split: option.splits prod.splits sum.splits)

lemma on_store_cases:
  assumes "on_store f au = (x, au')"
  obtains y where "x = Inl y" "au' = au"
  | st r where "f (au_store au) = Inr (st, r)" "x = Inr r" "au' = au\<lparr>au_store := st\<rparr>"
  using assms by (auto simp: on_store_def split: sum.splits prod.splits)

lemma accept_raises_store:
  assumes "accept w s rd e au = (Inl x, au')"
  shows "au_store au' = au_store au"
proof -
  have saves: "au_store b' = au_store b" if "on_store f b = (Inl y, b')" for f y b b'
    using that by (auto elim: on_store_cases)
  show ?thesis
  proof (cases "signed_event_digest (o_crypto w) (o_now w) (VDict (to_dict e))")
    case (Inl y)
    then show ?thesis using assms saves by (auto simp: accept_def plain_save_def araise_def split: if_splits)
  next
    case (Inr digest)
    show ?thesis
    proof (cases "num_val (ev_kind e) \<in> {1415, 1416}")
      case False
      then show ?thesis using assms saves by (simp add: accept_def plain_save_def)
    next
      case True
      let ?body = "abind (observe w s rd e) (\<lambda>seen.
             case seen of
               None \<Rightarrow> plain_save e
             | Some (view, now, uncertainty) \<Rightarrow>
                 abind (alift (observed_job w s e digest view now uncertainty)) (\<lambda>job.
                   on_store (save e (Some job) (witness_queue_limit s) None)))"
      have "locked w ?body au = (Inl x, au')"
        using assms True Inr unfolding accept_def by (auto split: if_splits)
      then consider "au' = au" | b where "?body (au\<lparr>au_admin := open_for_writing (au_admin au)\<rparr>) = (Inl x, b)"
          "au_store au' = au_store b"
        using locked_store by blast
      then show ?thesis
      proof cases
        case 2
        obtain seen au1 where o: "observe w s rd e (au\<lparr>au_admin := open_for_writing (au_admin au)\<rparr>) = (seen, au1)"
          by fastforce
        then have "au_store au1 = au_store au"
          using arelatesD [OF observe_keeps o] by (simp add: keeps_store_def)
        moreover have "au_store b = au_store au1"
          using 2(1) o saves
          by (auto simp: abind_apply [of "observe _ _ _ _"] abind_lift_apply plain_save_def
              split: sum.splits option.splits)
        ultimately show ?thesis using 2(2) by simp
      qed simp
    qed
  qed
qed

lemma accept_returns_alike:
  assumes "accept w s rd e au = (Inr ins, au')"
  shows "\<exists>st. save e None 1000 None (au_store au) = Inr (st, ins)
    \<and> events (au_store au') = events st \<and> event_tags (au_store au') = event_tags st
    \<and> deletions (au_store au') = deletions st
    \<and> (witness_jobs (au_store au') = witness_jobs (au_store au)
       \<or> (\<exists>job. witness_jobs (au_store au') = witness_jobs (au_store au) @ [job]))"
  using assms
proof (cases rule: accept_cases)
  case 1
  then show ?thesis by (auto simp: plain_save_def on_store_Inr dest: save_keeps_jobs)
next
  case (2 au1)
  then show ?thesis by (auto simp: plain_save_def on_store_Inr keeps_store_def dest: save_keeps_jobs)
next
  case (3 digest au1 view now u job)
  then have st: "au_store au1 = au_store au" by (simp add: keeps_store_def)
  obtain st1 where s1: "save e (Some job) (witness_queue_limit s) None (au_store au) = Inr (st1, ins)"
    "au_store au' = st1" using 3(6) st by (auto simp: on_store_Inr)
  from save_job_parts [OF s1(1), of 1000] show ?thesis using s1(2) by auto
qed

text \<open>C27: what the automatic witness changes of what the relay stores. When \<open>accept\<close> returns, saving the
  event without it would have succeeded too, with the same answer and the same events, tags and
  deletions; only a witness job may have been added. When it raises, the event store is untouched.
  An event of any kind but the two it observes is saved exactly as without it, so only an event of
  those kinds can be refused where a plain save would have stored it.\<close>

theorem accept_stores_alike:
  "(case accept w s rd e au of
      (Inl x, au') \<Rightarrow> au_store au' = au_store au
    | (Inr ins, au') \<Rightarrow>
        \<exists>st. save e None 1000 None (au_store au) = Inr (st, ins)
          \<and> events (au_store au') = events st \<and> event_tags (au_store au') = event_tags st
          \<and> deletions (au_store au') = deletions st
          \<and> (witness_jobs (au_store au') = witness_jobs (au_store au)
             \<or> (\<exists>job. witness_jobs (au_store au') = witness_jobs (au_store au) @ [job])))
   \<and> (num_val (ev_kind e) \<notin> {1415, 1416} \<longrightarrow>
       accept w s rd e au =
         (case save e None 1000 None (au_store au) of
            Inl x \<Rightarrow> (Inl x, au)
          | Inr (st, ins) \<Rightarrow> (Inr ins, au\<lparr>au_store := st\<rparr>)))"
proof (intro conjI impI)
  obtain x au' where "accept w s rd e au = (x, au')" by fastforce
  then show "case accept w s rd e au of
      (Inl x, au') \<Rightarrow> au_store au' = au_store au
    | (Inr ins, au') \<Rightarrow>
        \<exists>st. save e None 1000 None (au_store au) = Inr (st, ins)
          \<and> events (au_store au') = events st \<and> event_tags (au_store au') = event_tags st
          \<and> deletions (au_store au') = deletions st
          \<and> (witness_jobs (au_store au') = witness_jobs (au_store au)
             \<or> (\<exists>job. witness_jobs (au_store au') = witness_jobs (au_store au) @ [job]))"
    using accept_raises_store accept_returns_alike by (cases x) auto
qed (simp add: accept_def plain_save_def on_store_def)

section \<open>Authority for an observation\<close>

lemma observe_Some:
  assumes "observe w s rd e au = (Inr (Some (view, now, u)), au')"
  shows "\<exists>a ck. auto_view w s (au_admin au) = (Inr view, a)
    \<and> sample (witness_clock_mode s) rd (au_clock au) = (Inr (now, u), ck)
    \<and> may_observe s e view now u = Inr True"
proof -
  let ?m = "abind (on_admin (auto_view w s)) (\<lambda>view.
        abind (on_clock s rd) (\<lambda>(now, uncertainty).
        abind (alift (may_observe s e view now uncertainty)) (\<lambda>ok.
          areturn (if ok then Some (view, now, uncertainty) else None))))"
  have "?m au = (Inr (Some (view, now, u)), au')"
    using assms unfolding observe_def acatch_Inr by simp
  then obtain v a n u' ck ok where
    "auto_view w s (au_admin au) = (Inr v, a)"
    "sample (witness_clock_mode s) rd (au_clock au) = (Inr (n, u'), ck)"
    "may_observe s e v n u' = Inr ok" "(if ok then Some (v, n, u') else None) = Some (view, now, u)"
    by (auto simp: abind_eq_Inr on_admin_Inr on_clock_Inr)
  then show ?thesis by (auto split: if_splits)
qed

lemma may_observe_iff:
  "may_observe s e view now u = Inr True \<longleftrightarrow> vw_permitted view
     \<and> (\<exists>es. vw_status view = Some es \<and> listed (VNum (ev_kind e)) (es_subject_kinds es) = Inr True)
     \<and> policy_allows_mode s view = Inr True \<and> in_interval view now u = Inr True"
  by (auto simp: may_observe_def rbind_eq_Inr view_status_def split: option.splits)

lemma in_interval_iff:
  "in_interval view now u = Inr True \<longleftrightarrow> (\<exists>grant issued es. grant_body view = Inr grant
     \<and> need grant ''issued_at'' = Inr (VNum issued) \<and> vw_status view = Some es
     \<and> max (num_val issued) (es_not_before es) * 1000 \<le> now - (case u of None \<Rightarrow> 0 | Some i \<Rightarrow> i)
     \<and> now + (case u of None \<Rightarrow> 0 | Some i \<Rightarrow> i) < es_not_after es * 1000)"
proof -
  have n: "need_num v = Inr m \<longleftrightarrow> v = VNum m" for v m by (cases v) auto
  show ?thesis
    by (cases u; cases "vw_status view")
      (auto simp: in_interval_def rbind_eq_Inr view_status_def Let_def n)
qed

text \<open>When \<open>accept\<close> adds a job, these held.\<close>

lemma accept_adds_job:
  assumes "accept w s rd e au = (Inr ins, au')" "witness_jobs (au_store au') \<noteq> witness_jobs (au_store au)"
  shows "\<exists>digest view now u a ck es grant issued row job.
    signed_event_digest (o_crypto w) (o_now w) (VDict (to_dict e)) = Inr digest
    \<and> auto_view w s (open_for_writing (au_admin au)) = (Inr view, a) \<and> vw_permitted view
    \<and> sample (witness_clock_mode s) rd (au_clock au) = (Inr (now, u), ck)
    \<and> vw_status view = Some es \<and> listed (VNum (ev_kind e)) (es_subject_kinds es) = Inr True
    \<and> policy_allows_mode s view = Inr True
    \<and> grant_body view = Inr grant \<and> need grant ''issued_at'' = Inr (VNum issued)
    \<and> max (num_val issued) (es_not_before es) * 1000 \<le> now - (case u of None \<Rightarrow> 0 | Some i \<Rightarrow> i)
    \<and> now + (case u of None \<Rightarrow> 0 | Some i \<Rightarrow> i) < es_not_after es * 1000
    \<and> observed_job w s e digest view now u = Inr job
    \<and> witness_jobs (au_store au') = witness_jobs (au_store au) @ [row]
    \<and> j_inputs row = dumps style_default (VDict job)"
  using assms(1)
proof (cases rule: accept_cases)
  case 1
  with assms(2) show ?thesis by (auto simp: plain_save_def on_store_Inr dest: save_keeps_jobs)
next
  case (2 au1)
  with assms(2) show ?thesis
    by (auto simp: plain_save_def on_store_Inr keeps_store_def dest: save_keeps_jobs)
next
  case (3 digest au1 view now u job)
  then have st: "au_store au1 = au_store au" by (simp add: keeps_store_def)
  obtain st1 where s1: "save e (Some job) (witness_queue_limit s) None (au_store au) = Inr (st1, ins)"
    "au_store au' = st1" using 3(6) st by (auto simp: on_store_Inr)
  from save_job_parts [OF s1(1), of 1000] s1(2) assms(2) obtain row where
    row: "witness_jobs (au_store au') = witness_jobs (au_store au) @ [row]"
      "j_inputs row = dumps style_default (VDict job)" by auto
  obtain a ck where o: "auto_view w s (open_for_writing (au_admin au)) = (Inr view, a)"
    "sample (witness_clock_mode s) rd (au_clock au) = (Inr (now, u), ck)"
    "may_observe s e view now u = Inr True"
    using observe_Some [OF 3(3)] by auto
  from o(3) obtain es where m: "vw_permitted view" "vw_status view = Some es"
    "listed (VNum (ev_kind e)) (es_subject_kinds es) = Inr True" "policy_allows_mode s view = Inr True"
    "in_interval view now u = Inr True"
    by (auto simp: may_observe_iff)
  from m(5) m(2) obtain grant issued where g: "grant_body view = Inr grant"
    "need grant ''issued_at'' = Inr (VNum issued)"
    "max (num_val issued) (es_not_before es) * 1000 \<le> now - (case u of None \<Rightarrow> 0 | Some i \<Rightarrow> i)"
    "now + (case u of None \<Rightarrow> 0 | Some i \<Rightarrow> i) < es_not_after es * 1000"
    by (auto simp: in_interval_iff)
  show ?thesis
    by (rule exI [of _ digest], rule exI [of _ view], rule exI [of _ now], rule exI [of _ u],
        rule exI [of _ a], rule exI [of _ ck], rule exI [of _ es], rule exI [of _ grant],
        rule exI [of _ issued], rule exI [of _ row], rule exI [of _ job])
      (intro conjI 3(1,5) o(1,2) m(1-4) g row)
qed

text \<open>C16: an event is only observed on current authority: if \<open>accept\<close> adds a job, the event carries a valid
  signature, and at that moment, under the administrative lock, the view was that of a permitted
  witness, the kind is one it was granted, the policy names the clock mode in use, the clock could
  be sampled, and the sampled time, with its uncertainty on either side, lies in the granted
  interval after the operator's signature; the job says what was observed, under which
  authorization, when.\<close>

theorem observed_with_authority:
  assumes "accept w s rd e au = (Inr ins, au')" "witness_jobs (au_store au') \<noteq> witness_jobs (au_store au)"
  shows "\<exists>digest view now u a ck es grant issued row job.
    signed_event_digest (o_crypto w) (o_now w) (VDict (to_dict e)) = Inr digest
    \<and> auto_view w s (open_for_writing (au_admin au)) = (Inr view, a) \<and> vw_permitted view
    \<and> sample (witness_clock_mode s) rd (au_clock au) = (Inr (now, u), ck)
    \<and> vw_status view = Some es \<and> listed (VNum (ev_kind e)) (es_subject_kinds es) = Inr True
    \<and> policy_allows_mode s view = Inr True
    \<and> grant_body view = Inr grant \<and> need grant ''issued_at'' = Inr (VNum issued)
    \<and> max (num_val issued) (es_not_before es) * 1000 \<le> now - (case u of None \<Rightarrow> 0 | Some i \<Rightarrow> i)
    \<and> now + (case u of None \<Rightarrow> 0 | Some i \<Rightarrow> i) < es_not_after es * 1000
    \<and> observed_job w s e digest view now u = Inr job
    \<and> witness_jobs (au_store au') = witness_jobs (au_store au) @ [row]
    \<and> j_inputs row = dumps style_default (VDict job)"
  by (rule accept_adds_job [OF assms])

section \<open>Authority for a receipt\<close>

lemma issue_time_Some:
  assumes "issue_time w s rd job au = (Inr (Some now), au')"
  shows "\<exists>view a u ck. auto_view w s (au_admin au) = (Inr view, a)
    \<and> sample (witness_clock_mode s) rd (au_clock au) = (Inr (now, u), ck)
    \<and> still_valid w s job view now u = Inr True"
proof -
  let ?m = "abind (on_admin (auto_view w s)) (\<lambda>view.
        abind (on_clock s rd) (\<lambda>(now, uncertainty).
        abind (alift (still_valid w s job view now uncertainty)) (\<lambda>ok.
          areturn (if ok then Some now else None))))"
  have "?m au = (Inr (Some now), au')"
    using assms unfolding issue_time_def acatch_Inr by simp
  then obtain v a n u ck ok where
    "auto_view w s (au_admin au) = (Inr v, a)"
    "sample (witness_clock_mode s) rd (au_clock au) = (Inr (n, u), ck)"
    "still_valid w s job v n u = Inr ok" "(if ok then Some n else None) = Some now"
    by (auto simp: abind_eq_Inr on_admin_Inr on_clock_Inr)
  then show ?thesis by (auto split: if_splits)
qed

lemma still_valid_D:
  assumes "still_valid w s job view now u = Inr True"
  shows "vw_permitted view" "policy_allows_mode s view = Inr True" "in_interval view now u = Inr True"
    "\<exists>v. witness_receipt_version s = Inr v \<and> py_eq (job_version job) (VInt v)"
    "\<exists>es. vw_status view = Some es \<and> (\<exists>id. need job ''authorization_event_id'' = Inr id
       \<and> py_eq (case es_authorization_id es of None \<Rightarrow> VNone | Some i \<Rightarrow> VStr i) id)"
    "\<exists>k p. need job ''witness_pubkey'' = Inr k \<and> own_pubkey w s = Inr p \<and> py_eq k (VStr p)"
    "\<exists>t. need job ''observed_at_ms'' = Inr (VNum t) \<and> num_val t \<le> now
       \<and> now - num_val t \<le> witness_max_delay_seconds s * 1000"
proof -
  have n: "need_num v = Inr m \<longleftrightarrow> v = VNum m" for v m by (cases v) auto
  show "vw_permitted view" "policy_allows_mode s view = Inr True" "in_interval view now u = Inr True"
    "\<exists>v. witness_receipt_version s = Inr v \<and> py_eq (job_version job) (VInt v)"
    "\<exists>es. vw_status view = Some es \<and> (\<exists>id. need job ''authorization_event_id'' = Inr id
       \<and> py_eq (case es_authorization_id es of None \<Rightarrow> VNone | Some i \<Rightarrow> VStr i) id)"
    "\<exists>k p. need job ''witness_pubkey'' = Inr k \<and> own_pubkey w s = Inr p \<and> py_eq k (VStr p)"
    "\<exists>t. need job ''observed_at_ms'' = Inr (VNum t) \<and> num_val t \<le> now
       \<and> now - num_val t \<le> witness_max_delay_seconds s * 1000"
    using assms
    by (auto simp: still_valid_def rbind_eq_Inr view_status_def n split: if_splits option.splits)
qed

text \<open>How a call of \<open>issue\<close> ends for the store.\<close>

lemma issue_cases:
  assumes "issue w s rd digest au = (x, au')"
  obtains (same) "au_store au' = au_store au" "au_published au' = au_published au"
      "x = Inr () \<Longrightarrow> \<exists>row. first_row digest (au_store au) = Inr row \<and> j_state row \<noteq> Pending"
  | (abandoned) row where "first_row digest (au_store au) = Inr row" "j_state row = Pending"
      "witness_update digest True (au_store au) = Inr (au_store au')" "au_published au' = au_published au"
  | (issued) row job view a now u ck receipt ins where
      "first_row digest (au_store au) = Inr row" "j_state row = Pending" "load_job row = Inr job"
      "auto_view w s (open_for_writing (au_admin au)) = (Inr view, a)"
      "sample (witness_clock_mode s) rd (au_clock au) = (Inr (now, u), ck)"
      "still_valid w s job view now u = Inr True" "sign_receipt w s job now = Inr receipt"
      "save receipt None 1000 (Some digest) (au_store au) = Inr (au_store au', ins)"
      "au_published au' = au_published au"
proof -
  let ?au = "au\<lparr>au_admin := open_for_writing (au_admin au)\<rparr>"
  let ?rest = "\<lambda>row. abind (alift (load_job row)) (\<lambda>job.
          abind (issue_time w s rd job) (\<lambda>time.
          case time of
            None \<Rightarrow> abandon_job digest
          | Some now \<Rightarrow>
              abind (alift (sign_receipt w s job now)) (\<lambda>receipt.
              abind (on_store (save receipt None 1000 (Some digest))) (\<lambda>_. areturn ()))))"
  show thesis
  proof (cases "first_row digest (au_store au)")
    case (Inl e)
    then show thesis
      using assms locked_store [of w _ au x au'] that(1) by (fastforce simp: issue_def abind_lift_apply)
  next
    case (Inr row)
    note row = this
    show thesis
    proof (cases "j_state row = Pending")
      case False
      then show thesis
        using assms locked_store [of w _ au x au'] that(1) row by (fastforce simp: issue_def abind_lift_apply)
    next
      case True
      from assms row True have "locked w (abind (areads (\<lambda>au. first_row digest (au_store au))) (\<lambda>row.
        if j_state row \<noteq> Pending then areturn () else ?rest row)) au = (x, au')" by (simp add: issue_def)
      from locked_store [OF this] consider (fault) e where "au' = au" "x = Inl e"
        | (run) b where "?rest row ?au = (x, b)" "au_store au' = au_store b" "au_published au' = au_published b"
        using row True by (auto simp: abind_lift_apply)
      then show thesis
      proof cases
        case fault
        then show thesis using that(1) by simp
      next
        case run
        show thesis
        proof (cases "load_job row")
          case (Inl e)
          then show thesis using run that(1) by auto
        next
          case (Inr job)
          obtain t c where t: "issue_time w s rd job ?au = (t, c)" by (cases "issue_time w s rd job ?au")
          have c: "au_store c = au_store au" "au_published c = au_published au"
            using arelatesD [OF issue_time_keeps t] by (simp_all add: keeps_store_def)
          show thesis
          proof (cases t)
            case (Inl e)
            then show thesis using run that(1) t c \<open>load_job row = Inr job\<close> by auto
          next
            case (Inr time)
            show thesis
            proof (cases time)
              case None
              then have "abandon_job digest c = (x, b)" using run(1) t \<open>load_job row = Inr job\<close> Inr by simp
              then show thesis using that(1,2) row True run(2,3) c
                by (auto simp: abandon_job_def on_store_def rbind_def split: sum.splits)
            next
              case (Some now)
              obtain view a u ck where i: "auto_view w s (open_for_writing (au_admin au)) = (Inr view, a)"
                "sample (witness_clock_mode s) rd (au_clock au) = (Inr (now, u), ck)"
                "still_valid w s job view now u = Inr True"
                using issue_time_Some [of w s rd job ?au now c] t Inr Some by auto
              show thesis
              proof (cases "sign_receipt w s job now")
                case (Inl e)
                then show thesis
                  using run that(1) t c \<open>load_job row = Inr job\<close> \<open>t = Inr time\<close> Some by auto
              next
                case (Inr receipt)
                note r = this
                show thesis
                proof (cases "save receipt None 1000 (Some digest) (au_store au)")
                  case (Inl e)
                  then show thesis
                    using run that(1) t c \<open>load_job row = Inr job\<close> \<open>t = Inr time\<close> Some r
                    by (auto simp: abind_apply on_store_def)
                next
                  case (Inr y)
                  then obtain st ins where "save receipt None 1000 (Some digest) (au_store au) = Inr (st, ins)"
                    by (cases y) auto
                  then show thesis
                    using run that(3) t c \<open>load_job row = Inr job\<close> \<open>t = Inr time\<close> Some r row True i
                    by (auto simp: abind_apply on_store_def)
                qed
              qed
            qed
          qed
        qed
      qed
    qed
  qed
qed

definition completed :: "stored_event \<Rightarrow> pystr \<Rightarrow> job_row \<Rightarrow> job_row" where
  "completed e digest j =
     (if j_digest j = digest \<and> j_state j = Pending
      then j\<lparr>j_state := Issued, j_receipt := Some (dumps style_default (VDict (to_dict e))), j_broadcast := False\<rparr>
      else j)"

lemma save_completed:
  assumes "save e None q (Some digest) st = Inr (st', ins)"
  shows "witness_jobs st' = map (completed e digest) (witness_jobs st)" "ev_id e \<in> r_id ` set (events st')"
proof -
  obtain st2 where i: "insert_event e st = Inr (st2, ins)"
    using assms by (auto simp: save_def rbind_eq_Inr split: if_splits)
  have "witness_jobs st2 = witness_jobs st" "ev_id e \<in> r_id ` set (events st2)"
    using i by (auto simp: insert_event_def rbind_eq_Inr row_of_def split: if_splits)
  moreover obtain ds where "complete_job e digest (st2\<lparr>deletions := ds\<rparr>) = Inr st'"
  proof (cases "num_val (ev_kind e) = 5")
    case False
    moreover have "st2\<lparr>deletions := deletions st2\<rparr> = st2" by simp
    ultimately show thesis using assms that [of "deletions st2"] by (simp add: save_def i rbind_eq_Inr)
  qed (use assms that in \<open>auto simp: save_def i rbind_eq_Inr\<close>)
  ultimately show "witness_jobs st' = map (completed e digest) (witness_jobs st)"
    "ev_id e \<in> r_id ` set (events st')"
    by (auto simp: complete_job_def rbind_eq_Inr completed_def simp del: dumps.simps)
qed

lemma sign_receipt_verified:
  assumes "sign_receipt w s job now = Inr receipt"
  shows "\<exists>subject body. need job ''subject'' = Inr (VDict subject)
    \<and> verify_receipt (o_crypto w) (o_now w) (VDict (to_dict receipt)) (VDict subject) = Inr body"
proof -
  have o: "need_object v = Inr d \<longleftrightarrow> v = VDict d" for v d by (cases v) (auto simp: need_object_def)
  obtain subject r0 body where s: "need job ''subject'' = Inr (VDict subject)"
    "verify_receipt (o_crypto w) (o_now w) (VDict (to_dict r0)) (VDict subject) = Inr body"
    "validate_event (o_crypto w) True (o_now w) (VDict (to_dict r0)) = Inr receipt"
    using assms by (auto simp: sign_receipt_def rbind_eq_Inr Let_def o)
  then have "holds_event (to_dict r0) receipt" by (simp add: validate_event_iff)
  then have "receipt = r0" using holds_event_inject holds_event_to_dict by blast
  with s show ?thesis by blast
qed

lemma first_row_in: "first_row digest st = Inr row \<Longrightarrow> row \<in> set (witness_jobs st) \<and> j_digest row = digest"
  by (auto simp: first_row_def rbind_eq_Inr witness_rows_def filter_eq_Cons_iff split: list.splits)

definition abandoned :: "pystr \<Rightarrow> job_row \<Rightarrow> job_row" where
  "abandoned digest j = (if j_digest j = digest \<and> j_state j = Pending then j\<lparr>j_state := Unavailable\<rparr> else j)"

definition broadcast_done :: "pystr \<Rightarrow> job_row \<Rightarrow> job_row" where
  "broadcast_done digest j = (if j_digest j = digest \<and> j_state j = Issued then j\<lparr>j_broadcast := True\<rparr> else j)"

lemma update_jobs:
  "witness_update digest True st = Inr st' \<Longrightarrow> witness_jobs st' = map (abandoned digest) (witness_jobs st)"
  "witness_update digest False st = Inr st' \<Longrightarrow> witness_jobs st' = map (broadcast_done digest) (witness_jobs st)"
  by (auto simp: witness_update_def rbind_eq_Inr abandoned_def broadcast_done_def)

text \<open>C6: a receipt is only issued on current authority: when \<open>issue\<close> turns a job into an issued one,
  the job was pending, and at that moment, under the administrative lock, the view was that of a
  permitted witness with the same authorization as the observation's, the policy names the clock
  mode, the clock could be sampled and its time lies in the granted interval, not before the
  observation and at most the allowed delay after it; the receipt it stores is a stored event that
  verifies against the job's subject.\<close>

theorem issued_with_authority:
  assumes "issue w s rd digest au = (x, au')"
    and "new \<in> set (witness_jobs (au_store au'))" "j_state new = Issued"
    and "new \<notin> set (witness_jobs (au_store au))"
  shows "\<exists>row job view a now u ck es id t receipt subject body.
    row \<in> set (witness_jobs (au_store au)) \<and> j_digest row = digest \<and> j_state row = Pending
    \<and> load_job row = Inr job
    \<and> auto_view w s (open_for_writing (au_admin au)) = (Inr view, a) \<and> vw_permitted view
    \<and> policy_allows_mode s view = Inr True
    \<and> sample (witness_clock_mode s) rd (au_clock au) = (Inr (now, u), ck)
    \<and> in_interval view now u = Inr True
    \<and> vw_status view = Some es \<and> need job ''authorization_event_id'' = Inr id
    \<and> py_eq (case es_authorization_id es of None \<Rightarrow> VNone | Some i \<Rightarrow> VStr i) id
    \<and> need job ''observed_at_ms'' = Inr (VNum t) \<and> num_val t \<le> now
    \<and> now \<le> num_val t + witness_max_delay_seconds s * 1000
    \<and> need job ''subject'' = Inr (VDict subject)
    \<and> verify_receipt (o_crypto w) (o_now w) (VDict (to_dict receipt)) (VDict subject) = Inr body
    \<and> j_digest new = digest \<and> j_receipt new = Some (dumps style_default (VDict (to_dict receipt)))
    \<and> ev_id receipt \<in> r_id ` set (events (au_store au'))"
  using assms(1)
proof (cases rule: issue_cases)
  case same
  then show ?thesis using assms(2,4) by simp
next
  case (abandoned row)
  then obtain j where "j \<in> set (witness_jobs (au_store au))" "new = Auto_Spec.abandoned digest j"
    using assms(2) update_jobs(1) by auto
  then show ?thesis using assms(3,4) by (auto simp: abandoned_def split: if_splits)
next
  case (issued row job view a now u ck receipt ins)
  note sv = save_completed [OF issued(8)]
  obtain j where j: "j \<in> set (witness_jobs (au_store au))" "new = completed receipt digest j"
    using assms(2) sv(1) by auto
  then have new: "j_digest new = digest" "j_receipt new = Some (dumps style_default (VDict (to_dict receipt)))"
    using assms(4) by (auto simp: completed_def simp del: dumps.simps split: if_splits)
  note v = still_valid_D [OF issued(6)]
  obtain es id where es: "vw_status view = Some es" "need job ''authorization_event_id'' = Inr id"
    "py_eq (case es_authorization_id es of None \<Rightarrow> VNone | Some i \<Rightarrow> VStr i) id" using v(5) by blast
  obtain t where t: "need job ''observed_at_ms'' = Inr (VNum t)" "num_val t \<le> now"
    "now \<le> num_val t + witness_max_delay_seconds s * 1000" using v(7) by (auto simp: algebra_simps)
  obtain subject body where sb: "need job ''subject'' = Inr (VDict subject)"
    "verify_receipt (o_crypto w) (o_now w) (VDict (to_dict receipt)) (VDict subject) = Inr body"
    using sign_receipt_verified [OF issued(7)] by blast
  note r = first_row_in [OF issued(1)]
  show ?thesis
    by (rule exI [of _ row], rule exI [of _ job], rule exI [of _ view], rule exI [of _ a],
        rule exI [of _ now], rule exI [of _ u], rule exI [of _ ck], rule exI [of _ es], rule exI [of _ id],
        rule exI [of _ t], rule exI [of _ receipt], rule exI [of _ subject], rule exI [of _ body])
      (intro conjI r [THEN conjunct1] r [THEN conjunct2] issued(2-5) v(1-3) es t sb new sv(2))
qed

end
