(* ===== verification/Auto_Worker.thy ===== *)
theory Auto_Worker
  imports Auto_Spec
begin

text \<open>
  The worker of the automatic witness: every pass that ends brings the queue closer to empty, and
  failures are backed off exponentially, up to half a minute.
\<close>

section \<open>What is left to do\<close>

text \<open>A pending job needs a receipt and a broadcast, an issued one a broadcast.\<close>

definition job_work :: "job_row \<Rightarrow> nat" where
  "job_work j = (case j_state j of Pending \<Rightarrow> 2 | Issued \<Rightarrow> (if j_broadcast j then 0 else 1) | Unavailable \<Rightarrow> 0)"

definition queue_work :: "store \<Rightarrow> nat" where
  "queue_work st = sum_list (map job_work (witness_jobs st))"

definition digests :: "store \<Rightarrow> pystr list" where
  "digests st = map j_digest (witness_jobs st)"

lemma due_iff: "(j_state j = Pending \<or> j_state j = Issued \<and> \<not> j_broadcast j) \<longleftrightarrow> 0 < job_work j"
  by (auto simp: job_work_def split: job_state.splits)

lemma work_decreases:
  assumes "\<And>j. j \<in> set js \<Longrightarrow> job_work (f j) \<le> job_work j" "row \<in> set js" "job_work (f row) < job_work row"
  shows "sum_list (map job_work (map f js)) < sum_list (map job_work js)"
  using assms
proof (induction js)
  case (Cons j js)
  have le: "sum_list (map job_work (map f js)) \<le> sum_list (map job_work js)"
    using Cons.prems(1) by (simp add: sum_list_mono)
  show ?case
  proof (cases "row = j")
    case True
    with Cons.prems(3) le show ?thesis by simp
  next
    case False
    then have "sum_list (map job_work (map f js)) < sum_list (map job_work js)"
      using Cons by simp
    with Cons.prems(1) [of j] show ?thesis by simp
  qed
qed simp

section \<open>One row\<close>

definition row_effect :: "job_row \<Rightarrow> store \<Rightarrow> store \<Rightarrow> bool" where
  "row_effect row st st' = (\<exists>f. witness_jobs st' = map f (witness_jobs st)
     \<and> (\<forall>j. j_digest (f j) = j_digest j) \<and> (\<forall>j. j_digest j \<noteq> j_digest row \<longrightarrow> f j = j)
     \<and> job_work (f row) < job_work row)"

lemma distinct_job:
  "distinct (digests st) \<Longrightarrow> j \<in> set (witness_jobs st) \<Longrightarrow> k \<in> set (witness_jobs st) \<Longrightarrow> j_digest j = j_digest k \<Longrightarrow> j = k"
  by (auto simp: digests_def distinct_map dest: inj_onD)

lemma row_effect_work:
  assumes "row_effect row st st'" "row \<in> set (witness_jobs st)" "distinct (digests st)"
  shows "queue_work st' < queue_work st" "digests st' = digests st"
    "j \<in> set (witness_jobs st) \<Longrightarrow> j_digest j \<noteq> j_digest row \<Longrightarrow> j \<in> set (witness_jobs st')"
proof -
  obtain f where f: "witness_jobs st' = map f (witness_jobs st)" "\<And>j. j_digest (f j) = j_digest j"
    "\<And>j. j_digest j \<noteq> j_digest row \<Longrightarrow> f j = j" "job_work (f row) < job_work row"
    using assms(1) by (auto simp: row_effect_def)
  have "job_work (f j) \<le> job_work j" if "j \<in> set (witness_jobs st)" for j
    using f(3,4) distinct_job [OF assms(3) that assms(2)] by (cases "j_digest j = j_digest row") auto
  from work_decreases [OF this assms(2) f(4)] show "queue_work st' < queue_work st"
    by (simp add: queue_work_def f(1))
  show "digests st' = digests st" by (simp add: digests_def f(1,2))
  show "j \<in> set (witness_jobs st) \<Longrightarrow> j_digest j \<noteq> j_digest row \<Longrightarrow> j \<in> set (witness_jobs st')"
    using f(1,3) by force
qed

lemma issue_effect:
  assumes "issue w s rd (j_digest row) au = (Inr (), au')" "j_state row = Pending"
    and "row \<in> set (witness_jobs (au_store au))" "distinct (digests (au_store au))"
  shows "row_effect row (au_store au) (au_store au')"
  using assms(1)
proof (cases rule: issue_cases)
  case same
  then obtain r where "first_row (j_digest row) (au_store au) = Inr r" "j_state r \<noteq> Pending" by auto
  with first_row_in [OF this(1)] distinct_job [OF assms(4) _ assms(3)] assms(2) show ?thesis by auto
next
  case (abandoned r)
  then show ?thesis
    using update_jobs(1) [OF abandoned(3)] assms(2)
    by (auto simp: row_effect_def job_work_def abandoned_def intro!: exI [of _ "Auto_Spec.abandoned (j_digest row)"])
next
  case (issued r job view a now u ck receipt ins)
  then show ?thesis
    using save_completed(1) [OF issued(8)] assms(2)
    by (auto simp: row_effect_def job_work_def completed_def simp del: dumps.simps
        intro!: exI [of _ "completed receipt (j_digest row)"])
qed

lemma process_row_effect:
  assumes "process_row w s rd fault row au = (Inr (), au')" "0 < job_work row"
    and "row \<in> set (witness_jobs (au_store au))" "distinct (digests (au_store au))"
  shows "row_effect row (au_store au) (au_store au')"
proof (cases "j_state row = Pending")
  case True
  then show ?thesis using assms issue_effect by (simp add: process_row_def)
next
  case False
  then have i: "j_state row = Issued" "\<not> j_broadcast row" using assms(2) due_iff [of row] by auto
  have "witness_update (j_digest row) False (au_store au) = Inr (au_store au')"
    using assms(1) False
    by (auto simp: process_row_def abind_eq_Inr publish_receipt_def on_store_Inr rbind_eq_Inr split: option.splits)
  from update_jobs(2) [OF this] i show ?thesis
    by (auto simp: row_effect_def job_work_def broadcast_done_def intro!: exI [of _ "broadcast_done (j_digest row)"])
qed

section \<open>A pass\<close>

lemma process_rows_work:
  assumes "process_rows s fault looks rows au = (Inr (), au')" "length rows \<le> length looks"
    and "list_all (\<lambda>(w, rd, stop). \<not> stop) looks" "distinct (map j_digest rows)"
    and "\<And>r. r \<in> set rows \<Longrightarrow> r \<in> set (witness_jobs (au_store au)) \<and> 0 < job_work r"
    and "distinct (digests (au_store au))"
  shows "queue_work (au_store au') + length rows \<le> queue_work (au_store au)
    \<and> digests (au_store au') = digests (au_store au)"
  using assms
proof (induction rows arbitrary: looks au)
  case (Cons row rows)
  then obtain w rd looks' where l: "looks = (w, rd, False) # looks'"
    by (cases looks) (auto split: prod.splits)
  with Cons.prems(1) obtain au1 where p: "process_row w s rd fault row au = (Inr (), au1)"
    "process_rows s fault looks' rows au1 = (Inr (), au')"
    by (auto simp: abind_eq_Inr)
  have r: "row \<in> set (witness_jobs (au_store au))" "0 < job_work row" using Cons.prems(5) by auto
  note e = row_effect_work [OF process_row_effect [OF p(1) r(2,1) Cons.prems(6)] r(1) Cons.prems(6)]
  have "queue_work (au_store au') + length rows \<le> queue_work (au_store au1)
    \<and> digests (au_store au') = digests (au_store au1)"
  proof (rule Cons.IH [OF p(2)])
    show "r \<in> set (witness_jobs (au_store au1)) \<and> 0 < job_work r" if "r \<in> set rows" for r
    proof -
      have "j_digest r \<noteq> j_digest row" using that Cons.prems(4)
        by (metis distinct.simps(2) image_eqI image_set list.simps(9))
      then show ?thesis using e(3) [of r] Cons.prems(5) [of r] that by simp
    qed
  qed (use Cons.prems e(2) l in simp_all)
  then show ?case using e by simp
qed simp

lemma check_clock_keeps: "arelates keeps_store (check_clock s rd)"
  unfolding check_clock_def
  by (intro stored.closed keeps_store_catch keeps_store_parts)

text \<open>A complete pass: it returns and the worker is not told to stop during it.\<close>

lemma run_pass_work:
  assumes "run_pass s fault rd looks au = (Inr (), au')" "32 \<le> length looks"
    and "list_all (\<lambda>(w, rd, stop). \<not> stop) looks" "distinct (digests (au_store au))"
  shows "queue_work (au_store au') + min 32 (length [j \<leftarrow> witness_jobs (au_store au). 0 < job_work j])
      \<le> queue_work (au_store au)
    \<and> digests (au_store au') = digests (au_store au)"
proof -
  let ?rows = "take 32 [j \<leftarrow> witness_jobs (au_store au). 0 < job_work j]"
  obtain au1 where c: "check_clock s rd au = (Inr (), au1)"
    "process_rows s fault looks (take 32 [j \<leftarrow> witness_jobs (au_store au1). 0 < job_work j]) au1 = (Inr (), au')"
    using assms(1) by (auto simp: run_pass_def abind_eq_Inr witness_rows_def due_iff)
  have st: "au_store au1 = au_store au"
    using arelatesD [OF check_clock_keeps c(1)] by (simp add: keeps_store_def)
  have "distinct (map j_digest ?rows)"
    using assms(4) unfolding digests_def
    by (simp add: take_map [symmetric] distinct_map_filter)
  then have "queue_work (au_store au') + length ?rows \<le> queue_work (au_store au1)
    \<and> digests (au_store au') = digests (au_store au1)"
    using c(2) assms(2-4) st
    by (intro process_rows_work [of s fault looks ?rows au1 au']) (auto dest: in_set_takeD)
  then show ?thesis by (simp add: st min.commute)
qed

fun run_passes ::
  "settings \<Rightarrow> ((stored_event \<Rightarrow> exc option) \<times> reading \<times> (outside \<times> reading \<times> bool) list) list
     \<Rightarrow> (auto, unit) act" where
  "run_passes s [] = areturn ()"
| "run_passes s ((fault, rd, looks) # ps) = abind (run_pass s fault rd looks) (\<lambda>_. run_passes s ps)"

text \<open>C23: the worker empties the queue: two passes per waiting job are enough, if they return, are
  not told to stop and nothing is queued meanwhile; then every job is unavailable, or issued and
  broadcast.\<close>

theorem worker_drains:
  assumes "run_passes s ps au = (Inr (), au')"
    and "\<forall>(fault, rd, looks) \<in> set ps. 32 \<le> length looks \<and> list_all (\<lambda>(w, rd, stop). \<not> stop) looks"
    and "distinct (map j_digest (witness_jobs (au_store au)))"
    and "2 * length [j \<leftarrow> witness_jobs (au_store au). j_state j \<noteq> Unavailable] \<le> length ps"
  shows "\<forall>j \<in> set (witness_jobs (au_store au')). j_state j = Unavailable \<or> j_state j = Issued \<and> j_broadcast j"
proof -
  have "sum_list (map job_work js) \<le> 2 * length [j \<leftarrow> js. j_state j \<noteq> Unavailable]" for js
    by (induction js) (auto simp: job_work_def split: job_state.splits)
  then have "queue_work (au_store au) \<le> length ps"
    using assms(4) order_trans by (fastforce simp: queue_work_def)
  moreover have "queue_work (au_store au') = 0"
    if "run_passes s ps au = (Inr (), au')" "queue_work (au_store au) \<le> length ps"
      "\<forall>(fault, rd, looks) \<in> set ps. 32 \<le> length looks \<and> list_all (\<lambda>(w, rd, stop). \<not> stop) looks"
      "distinct (digests (au_store au))" for ps au
    using that
  proof (induction ps arbitrary: au)
    case (Cons p ps)
    obtain fault rd looks where p: "p = (fault, rd, looks)" by (cases p) auto
    with Cons.prems(1) obtain au1 where r: "run_pass s fault rd looks au = (Inr (), au1)"
      "run_passes s ps au1 = (Inr (), au')" by (auto simp: abind_eq_Inr)
    have w: "queue_work (au_store au1) + min 32 (length [j \<leftarrow> witness_jobs (au_store au). 0 < job_work j])
        \<le> queue_work (au_store au)" "digests (au_store au1) = digests (au_store au)"
      using run_pass_work [OF r(1)] Cons.prems(3,4) p by auto
    have "queue_work (au_store au1) \<le> length ps"
    proof (cases "[j \<leftarrow> witness_jobs (au_store au). 0 < job_work j] = []")
      case True
      then have "queue_work (au_store au) = 0" by (auto simp: queue_work_def filter_empty_conv)
      then show ?thesis using w(1) by simp
    next
      case False
      then have "1 \<le> min 32 (length [j \<leftarrow> witness_jobs (au_store au). 0 < job_work j])"
        by (simp add: Suc_le_eq)
      then show ?thesis using w(1) Cons.prems(2) by simp
    qed
    then show ?case using Cons.IH [OF r(2)] Cons.prems(3,4) w(2) by simp
  qed simp
  ultimately have "queue_work (au_store au') = 0"
    using assms(1-3) by (simp add: digests_def)
  then have "job_work j = 0" if "j \<in> set (witness_jobs (au_store au'))" for j
    using that by (simp add: queue_work_def)
  then show ?thesis by (fastforce simp: job_work_def split: job_state.splits if_splits)
qed

section \<open>Backing off\<close>

definition failures_after :: "unit res list \<Rightarrow> nat" where
  "failures_after outcomes = fold (\<lambda>outcome f. fst (after_pass outcome f)) outcomes 0"

lemma failures_run:
  "list_all (\<lambda>x. \<exists>e. x = Inl e) xs \<Longrightarrow> f \<le> 5 \<Longrightarrow>
    fold (\<lambda>outcome f. fst (after_pass outcome f)) xs f = min (f + length xs) 5"
  by (induction xs arbitrary: f) (auto simp: after_pass_def Let_def)

text \<open>Failures are backed off: after k failed passes in a row the worker waits 2, 4, 8 and 16
  seconds and then always 30; one pass that returns resets it to a quarter of a second.\<close>

theorem backoff:
  assumes "list_all (\<lambda>x. \<exists>e. x = Inl e) failed"
  shows "snd (after_pass (Inl e) (failures_after (pre @ [Inr ()] @ failed))) = min (2 ^ (length failed + 1)) 30 * 1000"
    "snd (after_pass (Inl e) (failures_after failed)) = min (2 ^ (length failed + 1)) 30 * 1000"
    "snd (after_pass (Inr ()) f) = 250" "fst (after_pass (Inr ()) f) = 0"
proof -
  have r: "fst (after_pass (Inr ()) f) = 0" for f by (simp add: after_pass_def)
  have "failures_after failed = min (length failed) 5"
    "failures_after (pre @ [Inr ()] @ failed) = min (length failed) 5"
    using failures_run [OF assms, of 0] by (simp_all add: failures_after_def r)
  moreover have "min (2 ^ min (min n 5 + 1) 5) 30 = (min (2 ^ (n + 1)) 30 :: nat)" for n
  proof (cases "n \<le> 4")
    case True
    then show ?thesis by simp
  next
    case False
    then have "(2::nat) ^ 5 \<le> 2 ^ (n + 1)" by (intro power_increasing) simp_all
    with False show ?thesis by simp
  qed
  ultimately show "snd (after_pass (Inl e) (failures_after (pre @ [Inr ()] @ failed))) = min (2 ^ (length failed + 1)) 30 * 1000"
    "snd (after_pass (Inl e) (failures_after failed)) = min (2 ^ (length failed + 1)) 30 * 1000"
    by (simp_all add: after_pass_def Let_def)
qed (simp_all add: after_pass_def)

theorem backoff_witness:
  "snd (after_pass (Inl TypeError) (failures_after [Inl KeyError, Inl KeyError])) = 8000"
  using backoff(2) [of "[Inl KeyError, Inl KeyError]" TypeError] by simp

end
