(* ===== verification/Relay_Witness.thy ===== *)
theory Relay_Witness
  imports Relay_Properties Auto_Worker "HOL-Library.Sublist"
begin

text \<open>
  The relay with the automatic witness: publishing goes through \<open>accept\<close>, and beside the tasks of
  the connections the worker issues and broadcasts receipts. One step relation covers both, with
  every interleaving between two \<open>await\<close>s.
\<close>

section \<open>The calls of the relay\<close>

text \<open>SQLite fails while the event store is written: its transaction is undone.\<close>

definition undone :: "(auto, 'a) act \<Rightarrow> (auto, 'a) act" where
  "undone m au =
     (case m au of (x, au') \<Rightarrow>
        (Inl (case x of Inl y \<Rightarrow> y | Inr _ \<Rightarrow> SqliteError), au'\<lparr>au_store := au_store au\<rparr>))"

definition with_fault :: "bool \<Rightarrow> (auto, 'a) act \<Rightarrow> (auto, 'a) act" where
  "with_fault fault m = (if fault then undone m else m)"

definition accept_call :: "settings \<Rightarrow> bool \<times> outside \<times> reading \<Rightarrow> stored_event \<Rightarrow> (auto, bool) act" where
  "accept_call s = (\<lambda>(fault, w, rd) e. with_fault fault (accept w s rd e))"

definition page_call :: "bool \<Rightarrow> relay_filter list \<Rightarrow> auto \<Rightarrow> stored_event list res" where
  "page_call fault fs au = storage_query fault fs (au_store au)"

definition witness_env ::
  "settings \<Rightarrow> crypto \<Rightarrow> int \<Rightarrow> (pystr \<Rightarrow> bool) \<Rightarrow> bool \<times> outside \<times> reading \<Rightarrow> bool \<Rightarrow> auto relay_env" where
  "witness_env s c now deep call fault =
     \<lparr>re_save = (\<lambda>e au. rbind (storage_save fault e (au_store au)) (\<lambda>(st, b). Inr (au\<lparr>au_store := st\<rparr>, b))),
      re_query = page_call fault, re_witness = Some (accept_call s call),
      re_verify = verify_signatures s, re_crypto = c, re_now = now,
      re_too_deep = deep\<rparr>"

definition witness_envs :: "settings \<Rightarrow> crypto \<Rightarrow> auto relay_env set" where
  "witness_envs s c = {witness_env s c now deep call fault | now deep call fault. True}"

section \<open>What accept does to the store\<close>

lemma with_fault_store:
  assumes "with_fault fault m au = (x, au')"
  obtains "m au = (x, au')" | y where "x = Inl y" "au_store au' = au_store au"
  using assms by (auto simp: with_fault_def undone_def split: if_splits prod.splits)

lemma accept_saves:
  assumes "accept w s rd e au = (Inr new, au')"
  shows "\<exists>wj q. save e wj q None (au_store au) = Inr (au_store au', new)"
proof -
  have saved: "\<exists>wj q. save e wj q None (au_store au) = Inr (au_store au', new)"
    if "on_store (save e wj q None) b = (Inr new, au')" "au_store b = au_store au" for wj q b
    using that by (elim on_store_cases) auto
  from assms show ?thesis
  proof (cases rule: accept_cases)
    case 1
    then show ?thesis using saved by (simp add: plain_save_def)
  next
    case (2 au1)
    then show ?thesis using saved by (simp add: plain_save_def keeps_store_def)
  next
    case (3 digest au1 view now u job)
    then show ?thesis using saved by (simp add: keeps_store_def)
  qed
qed

lemma accept_call_store:
  assumes "accept_call s call e au = (x, au')"
  shows "(\<exists>y. x = Inl y) \<and> au_store au' = au_store au
    \<or> (\<exists>new wj q. x = Inr new \<and> save e wj q None (au_store au) = Inr (au_store au', new))"
proof -
  obtain fault w rd where "with_fault fault (accept w s rd e) au = (x, au')"
    using assms by (cases call) (auto simp: accept_call_def)
  then show ?thesis
    by (cases rule: with_fault_store; cases x) (auto dest: accept_raises_store accept_saves)
qed

lemma save_storable: "wf_event e \<Longrightarrow> save e wj q c st = Inr r \<Longrightarrow> storable e"
  by (rule ccontr) (auto simp: save_def insert_event_def bind_row_wf rbind_eq_Inr)

text \<open>Saving through the witness is saving; whether a job is queued makes no difference.\<close>

interpretation witnessing: event_source "accept_call s" page_call "\<lambda>au. store_inv (au_store au)"
  "\<lambda>au. abs_store (au_store au)" for s
proof
  fix au e call x au'
  assume s: "store_inv (au_store au)" "publishable e" and r: "accept_call s call e au = (x, au')"
  from accept_call_store [OF r]
  show "store_inv (au_store au') \<and> abs_store (au_store au') =
      (case x of Inl _ \<Rightarrow> abs_store (au_store au) | Inr _ \<Rightarrow> spec_save e (abs_store (au_store au)))
    \<and> (\<forall>new. x = Inr new \<longrightarrow> (new \<longleftrightarrow> ev_id e \<notin> ev_id ` set (sp_events (abs_store (au_store au)))))"
  proof (elim disjE exE conjE)
    fix new wj q assume x: "x = Inr new" and sv: "save e wj q None (au_store au) = Inr (au_store au', new)"
    have "storable e" using save_storable [OF _ sv] s(2) by (simp add: publishable_def)
    from save_simulates [OF s(1) this sv] show ?thesis by (simp add: x abs_store_def)
  qed (use s in auto)
next
  fix au g fs es
  assume "store_inv (au_store au)" "page_call g fs au = Inr es"
  then show "es = spec_query fs (abs_store (au_store au))"
    using sqlite.get_ok by (simp add: page_call_def)
qed (rule sqlite.genuine)

section \<open>The worker beside the connections\<close>

text \<open>
  Where the coroutine \<open>run\<close> waits: for its delay or the stop, after \<open>check_clock\<close>, before the next of
  the rows it read, after a broadcast that it has not marked yet.
\<close>

datatype worker =
    Waiting
  | Checked
  | Working "job_row list"
  | Announced stored_event job_row "job_row list"
  | Stopped

record system =
  sy_relay :: "auto world"
  sy_worker :: worker

abbreviation sy_auto :: "system \<Rightarrow> auto" where
  "sy_auto S \<equiv> backend (hub (sy_relay S))"

definition at_hub :: "auto relay \<Rightarrow> worker \<Rightarrow> system \<Rightarrow> system" where
  "at_hub r k S = S\<lparr>sy_relay := (sy_relay S)\<lparr>hub := r\<rparr>, sy_worker := k\<rparr>"

definition at_backend :: "auto \<Rightarrow> worker \<Rightarrow> system \<Rightarrow> system" where
  "at_backend au k S = at_hub ((hub (sy_relay S))\<lparr>backend := au\<rparr>) k S"

text \<open>A broadcast that is complete, and one that the time limit cut short after some of its sends.\<close>

definition announce :: "stored_event \<Rightarrow> auto relay \<Rightarrow> auto relay" where
  "announce e r =
     (snd (broadcast e r))\<lparr>backend := (backend r)\<lparr>au_published := au_published (backend r) @ [e]\<rparr>\<rparr>"

definition send_all :: "(nat \<times> pyval) list \<Rightarrow> 's relay \<Rightarrow> 's relay" where
  "send_all sends r = fold (\<lambda>(sock, msg) r. snd (send_json sock msg r)) sends r"

text \<open>
  The steps: those of the relay, and those of \<open>run\<close> between two \<open>await\<close>s. An exception anywhere in a
  pass ends it, and the next begins with a look at the clock.
\<close>

inductive system_step :: "settings \<Rightarrow> crypto \<Rightarrow> system \<Rightarrow> system \<Rightarrow> bool" for s c where
  relays: "wstep (witness_envs s c) (sy_relay S) w \<Longrightarrow> system_step s c S (S\<lparr>sy_relay := w\<rparr>)"
| checks: "sy_worker S = Waiting \<Longrightarrow> check_clock s rd (sy_auto S) = (x, au) \<Longrightarrow>
    system_step s c S (at_backend au (if x = Inr () then Checked else Waiting) S)"
| looks: "sy_worker S = Checked \<Longrightarrow> witness_rows None (au_store (sy_auto S)) = Inr rows \<Longrightarrow>
    system_step s c S (S\<lparr>sy_worker := Working rows\<rparr>)"
| issues: "sy_worker S = Working (row # rows) \<Longrightarrow> j_state row = Pending \<Longrightarrow>
    with_fault fault (issue w s rd (j_digest row)) (sy_auto S) = (x, au) \<Longrightarrow>
    system_step s c S (at_backend au (if x = Inr () then Working rows else Waiting) S)"
| announces: "sy_worker S = Working (row # rows) \<Longrightarrow> j_state row \<noteq> Pending \<Longrightarrow> stored_receipt row = Inr e \<Longrightarrow>
    system_step s c S (at_hub (announce e (hub (sy_relay S))) (Announced e row rows) S)"
| times_out: "sy_worker S = Working (row # rows) \<Longrightarrow> j_state row \<noteq> Pending \<Longrightarrow> stored_receipt row = Inr e \<Longrightarrow>
    subseq sends (broadcast_sends e (connections (hub (sy_relay S)))) \<Longrightarrow>
    system_step s c S (at_hub (send_all sends (hub (sy_relay S))) Waiting S)"
| marks: "sy_worker S = Announced e row rows \<Longrightarrow>
    witness_update (j_digest row) False (au_store (sy_auto S)) = Inr st \<Longrightarrow>
    system_step s c S (at_backend ((sy_auto S)\<lparr>au_store := st\<rparr>) (Working rows) S)"
| sleeps: "sy_worker S = Working [] \<Longrightarrow> system_step s c S (S\<lparr>sy_worker := Waiting\<rparr>)"
| fails: "sy_worker S \<noteq> Stopped \<Longrightarrow> system_step s c S (S\<lparr>sy_worker := Waiting\<rparr>)"
| stops: "sy_worker S = Waiting \<or> (\<exists>rows. sy_worker S = Working rows) \<Longrightarrow>
    system_step s c S (S\<lparr>sy_worker := Stopped\<rparr>)"

definition first_system :: "auto \<Rightarrow> system" where
  "first_system au = \<lparr>sy_relay = first_world au, sy_worker = Waiting\<rparr>"

section \<open>What the worker owes\<close>

text \<open>The receipts of the jobs that are issued and not marked as broadcast.\<close>

definition due :: "store \<Rightarrow> stored_event set" where
  "due st = {e. \<exists>j \<in> set (witness_jobs st). j_state j = Issued \<and> \<not> j_broadcast j \<and> stored_receipt j = Inr e}"

text \<open>The one that was broadcast and is about to be marked has been sent.\<close>

definition owed_by :: "system \<Rightarrow> stored_event set" where
  "owed_by S = due (au_store (sy_auto S)) - (case sy_worker S of Announced e row rows \<Rightarrow> {e} | _ \<Rightarrow> {})"

text \<open>The rows the worker has read: the finished ones are still those of the table.\<close>

definition known_row :: "store \<Rightarrow> job_row \<Rightarrow> bool" where
  "known_row st row = (\<exists>j \<in> set (witness_jobs st). j_digest j = j_digest row
     \<and> (j_state row \<noteq> Pending \<longrightarrow> j_state j = j_state row \<and> j_receipt j = j_receipt row))"

fun rows_of :: "worker \<Rightarrow> job_row list" where
  "rows_of (Working rows) = rows"
| "rows_of (Announced e row rows) = row # rows"
| "rows_of _ = []"

definition worker_ok :: "system \<Rightarrow> bool" where
  "worker_ok S = (jobs_ok (au_store (sy_auto S))
     \<and> (\<forall>row \<in> set (rows_of (sy_worker S)). known_row (au_store (sy_auto S)) row)
     \<and> (\<forall>e row rows. sy_worker S = Announced e row rows \<longrightarrow> stored_receipt row = Inr e \<and> j_state row \<noteq> Pending))"

definition system_inv :: "system \<Rightarrow> bool" where
  "system_inv S = (worker_ok S
     \<and> delivery_inv (\<lambda>au. abs_store (au_store au)) (owed_by S) (\<lambda>au. store_inv (au_store au)) (sy_relay S))"

section \<open>The job table\<close>

lemma due_mono: "{j \<in> set (witness_jobs st). j_state j = Issued} \<subseteq> set (witness_jobs st') \<Longrightarrow> due st \<subseteq> due st'"
  by (fastforce simp: due_def)

lemma save_due:
  assumes "save e wj q None st = Inr (st', new)" shows "due st \<subseteq> due st'"
proof (cases wj)
  case None
  then show ?thesis using save_keeps_jobs assms by (auto simp: due_def)
next
  case (Some job)
  from save_job_parts [OF assms [unfolded Some]] obtain st0 js
    where "st' = st0\<lparr>witness_jobs := js\<rparr>" "js = witness_jobs st \<or> (\<exists>j. js = witness_jobs st @ [j])"
    by blast
  then show ?thesis by (intro due_mono) auto
qed

lemma completed_due:
  assumes "save e None q (Some digest) st = Inr (st', new)" shows "due st \<subseteq> due st'"
  using save_completed(1) [OF assms] by (intro due_mono) (force simp: completed_def)

lemma abandoned_due:
  assumes "witness_update digest True st = Inr st'" shows "due st \<subseteq> due st'"
  using update_jobs(1) [OF assms] by (intro due_mono) (force simp: abandoned_def)

lemma witness_update_events: "witness_update d u st = Inr st' \<Longrightarrow> stored_events st' = stored_events st"
  by (auto simp: witness_update_def rbind_eq_Inr stored_events_def)

lemma known_row_evolves:
  assumes "known_row st row" "jobs_evolve (witness_jobs st) (witness_jobs st')"
  shows "known_row st' row"
proof -
  obtain i where i: "i < length (witness_jobs st)" "j_digest (witness_jobs st ! i) = j_digest row"
    "j_state row \<noteq> Pending \<longrightarrow> j_state (witness_jobs st ! i) = j_state row \<and> j_receipt (witness_jobs st ! i) = j_receipt row"
    using assms(1) by (auto simp: known_row_def in_set_conv_nth)
  from jobs_evolve_nth [OF assms(2) i(1)] have n: "i < length (witness_jobs st')"
    "job_step\<^sup>*\<^sup>* (witness_jobs st ! i) (witness_jobs st' ! i)" by auto
  show ?thesis unfolding known_row_def
  proof (rule bexI [of _ "witness_jobs st' ! i"])
    show "j_digest (witness_jobs st' ! i) = j_digest row \<and> (j_state row \<noteq> Pending \<longrightarrow>
        j_state (witness_jobs st' ! i) = j_state row \<and> j_receipt (witness_jobs st' ! i) = j_receipt row)"
      using i(2,3) job_steps_same [OF n(2)] job_steps_final [OF n(2)] by auto
  qed (use n(1) in simp)
qed

lemma known_row_receipt:
  assumes "known_row st row" "jobs_ok st" "j_state row \<noteq> Pending"
    and "j \<in> set (witness_jobs st)" "j_digest j = j_digest row"
  shows "stored_receipt j = stored_receipt row"
proof -
  obtain k where k: "k \<in> set (witness_jobs st)" "j_digest k = j_digest row" "j_receipt k = j_receipt row"
    using assms(1,3) by (auto simp: known_row_def)
  then have "j = k" using distinct_job [of st j k] assms(2,4,5) by (simp add: jobs_ok_def digests_def)
  then show ?thesis by (simp add: stored_receipt_def k(3))
qed

text \<open>A receipt that the broadcast of its row has delivered is the only one that marking drops.\<close>

lemma marked_due:
  assumes "witness_update (j_digest row) False st = Inr st'" "known_row st row" "jobs_ok st"
    and "j_state row \<noteq> Pending" "stored_receipt row = Inr e"
  shows "due st - {e} \<subseteq> due st'"
proof
  fix e' assume e': "e' \<in> due st - {e}"
  then obtain j where j: "j \<in> set (witness_jobs st)" "j_state j = Issued" "\<not> j_broadcast j" "stored_receipt j = Inr e'"
    by (auto simp: due_def)
  have "j_digest j \<noteq> j_digest row"
    using known_row_receipt [OF assms(2-4) j(1)] j(4) assms(5) e' by auto
  then have "j \<in> set (witness_jobs st')"
    using update_jobs(2) [OF assms(1)] j(1) by (force simp: broadcast_done_def)
  with j show "e' \<in> due st'" by (auto simp: due_def)
qed

text \<open>Issuing stores a receipt that is due from then on.\<close>

lemma issue_store:
  assumes "issue w s rd digest au = (x, au')" "store_inv (au_store au)"
  shows "store_step\<^sup>*\<^sup>* (au_store au) (au_store au') \<and> store_inv (au_store au')
    \<and> due (au_store au) \<subseteq> due (au_store au')
    \<and> set (stored_events (au_store au')) \<subseteq> set (stored_events (au_store au)) \<union> due (au_store au')"
  using assms(1)
proof (cases rule: issue_cases)
  case same
  then show ?thesis using assms(2) by simp
next
  case (abandoned row)
  have "store_step (au_store au) (au_store au')"
    by (rule store_step.ok [of "Update_Op digest True"]) (simp add: abandoned(3))
  moreover have "store_inv (au_store au')" "stored_events (au_store au') = stored_events (au_store au)"
    using witness_update_jobs(4) [OF abandoned(3)] witness_update_jobs(5) [OF abandoned(3)]
      witness_update_events [OF abandoned(3)] assms(2)
    by (simp_all add: store_inv_def)
  ultimately show ?thesis using abandoned_due [OF abandoned(3)] by auto
next
  case (issued row job view a now u ck receipt ins)
  have "wf_event receipt"
  proof -
    obtain v where "validate_event (o_crypto w) True (o_now w) v = Inr receipt"
      using issued(7) by (auto simp: sign_receipt_def rbind_eq_Inr Let_def)
    then show ?thesis by (simp add: validate_event_iff)
  qed
  then have st: "storable receipt" using save_storable issued(8) by blast
  note sim = save_simulates [OF assms(2) st issued(8)]
  have "store_step (au_store au) (au_store au')"
    by (rule store_step.ok [of "Save_Op receipt None 1000 (Some digest)"]) (simp add: issued(8))
  moreover have "receipt \<in> due (au_store au')"
  proof -
    note r = first_row_in [OF issued(1)]
    have "completed receipt digest row \<in> set (witness_jobs (au_store au'))"
      using save_completed(1) [OF issued(8)] r by simp
    moreover have "j_state (completed receipt digest row) = Issued" "\<not> j_broadcast (completed receipt digest row)"
      "j_receipt (completed receipt digest row) = Some (dumps style_default (VDict (to_dict receipt)))"
      using r issued(2) by (simp_all add: completed_def)
    moreover from this(3) have "stored_receipt (completed receipt digest row) = Inr receipt"
      using loads_dumps [OF storable_json_ok [OF st]] from_dict_to_dict [of receipt]
      by (simp add: stored_receipt_def need_object_def del: dumps.simps to_dict_def)
    ultimately show ?thesis by (auto simp: due_def)
  qed
  moreover have "set (stored_events (au_store au')) \<subseteq> insert receipt (set (stored_events (au_store au)))"
    using sim(2) by (auto simp: abs_store_def spec_save_def split: if_splits)
  ultimately show ?thesis using completed_due [OF issued(8)] sim(1) by auto
qed

section \<open>What a step of the relay does to the store\<close>

lemma wstep_backend:
  assumes "wstep E w w'"
  shows "backend (hub w') = backend (hub w)
    \<or> (\<exists>env \<in> E. \<exists>e. backend (hub w') = snd (publish_op env e (backend (hub w))))"
  using assms
proof cases
  case (open_socket sock)
  then show ?thesis by (simp add: connect_def)
next
  case (receive sock env m t r)
  then show ?thesis using local_backend [OF local_start receive(4)] by simp
next
  case (receive_raises sock env m x r)
  then show ?thesis using local_backend [OF local_start receive_raises(4)] by simp
next
  case (run sock t env t' r)
  have "backend r = backend (hub w) \<or> (\<exists>e. backend r = snd (publish_op env e (backend (hub w))))"
  proof (cases t)
    case (Storing e)
    then have "backend r = snd (publish_op env e (backend (hub w)))"
      using run(4) by (auto simp: abind_eq_Inr save_call_outcome split: prod.splits)
    then show ?thesis by blast
  qed (use run(4) local_backend [OF local_resume run(4)] in
      \<open>auto simp: abind_eq_Inr local_task_def broadcast_outcome query_call_def\<close>)
  then show ?thesis using run(1,3) by auto
next
  case (run_raises sock t env x r)
  have "local_task t"
    using run_raises(4)
    by (cases t) (auto simp: local_task_def abind_def broadcast_outcome query_call_def save_call_outcome
        split: sum.splits prod.splits)
  then show ?thesis using run_raises(1) local_backend [OF local_resume run_raises(4)] by simp
qed auto

lemma witness_served: "served_by (accept_call s) page_call (witness_envs s c)"
  unfolding served_by_def witness_envs_def witness_env_def publish_op_def by fastforce

lemma relay_step_store:
  assumes "wstep (witness_envs s c) w w'"
  shows "store_step\<^sup>*\<^sup>* (au_store (backend (hub w))) (au_store (backend (hub w')))
    \<and> due (au_store (backend (hub w))) \<subseteq> due (au_store (backend (hub w')))"
  using wstep_backend [OF assms]
proof (elim disjE bexE exE)
  fix env e assume env: "env \<in> witness_envs s c"
    and b: "backend (hub w') = snd (publish_op env e (backend (hub w)))"
  then obtain call where "publish_op env = accept_call s call"
    by (auto simp: witness_envs_def witness_env_def publish_op_def)
  with b obtain x where "accept_call s call e (backend (hub w)) = (x, backend (hub w'))"
    by (cases "accept_call s call e (backend (hub w))") auto
  from accept_call_store [OF this] show ?thesis
  proof (elim disjE exE conjE)
    fix new wj q
    assume sv: "save e wj q None (au_store (backend (hub w))) = Inr (au_store (backend (hub w')), new)"
    have "store_step (au_store (backend (hub w))) (au_store (backend (hub w')))"
      by (rule store_step.ok [of "Save_Op e wj q None"]) (simp add: sv)
    then show ?thesis using save_due [OF sv] by simp
  qed simp
qed simp

section \<open>The invariant of the system\<close>

lemma sy_simps [simp]:
  "sy_relay (at_hub r k S) = (sy_relay S)\<lparr>hub := r\<rparr>" "sy_worker (at_hub r k S) = k"
  "sy_relay (at_backend au k S) = (sy_relay S)\<lparr>hub := (hub (sy_relay S))\<lparr>backend := au\<rparr>\<rparr>"
  "sy_worker (at_backend au k S) = k"
  by (simp_all add: at_hub_def at_backend_def)

lemma worker_ok_step:
  assumes "worker_ok S" "store_step\<^sup>*\<^sup>* (au_store (sy_auto S)) (au_store (sy_auto S'))"
    and "set (rows_of (sy_worker S')) \<subseteq> set (rows_of (sy_worker S))"
    and "\<And>e row rows. sy_worker S' = Announced e row rows \<Longrightarrow> stored_receipt row = Inr e \<and> j_state row \<noteq> Pending"
  shows "worker_ok S'"
proof -
  have "known_row (au_store (sy_auto S')) row" if "row \<in> set (rows_of (sy_worker S'))" for row
    using known_row_evolves [of "au_store (sy_auto S)" row "au_store (sy_auto S')"]
      store_steps_jobs [OF assms(2)] assms(1,3) that by (auto simp: worker_ok_def)
  then show ?thesis using assms(1,4) store_steps_jobs [OF assms(2)] by (auto simp: worker_ok_def)
qed

abbreviation delivers :: "stored_event set \<Rightarrow> auto world \<Rightarrow> bool" where
  "delivers owed \<equiv> delivery_inv (\<lambda>au. abs_store (au_store au)) owed (\<lambda>au. store_inv (au_store au))"

lemma delivers_mono: "delivers owed w \<Longrightarrow> owed \<subseteq> owed' \<Longrightarrow> delivers owed' w"
  by (rule outside_step_inv [where owed = owed and new = "[]"]) (auto simp: delivery_inv_def)

lemma at_backend_delivers:
  assumes "delivers owed w" "store_inv (au_store au)" "owed \<subseteq> owed'"
    and "set (stored_events (au_store au)) \<subseteq> set (stored_events (au_store (backend (hub w)))) \<union> owed'"
  shows "delivers owed' (w\<lparr>hub := (hub w)\<lparr>backend := au\<rparr>\<rparr>)"
  by (rule outside_step_inv [OF assms(1), where new = "[]"])
    (use assms(2-4) in \<open>auto simp: stored_def abs_store_def\<close>)

lemma send_all_outcome:
  "send_all sends r = r\<lparr>sent := sent r @ [(sock, m) \<leftarrow> sends. sock \<notin> set (gone r) \<and> sendable m]\<rparr>"
  unfolding send_all_def by (rule sends_outcome)

lemma announce_delivers:
  assumes "delivers owed w" shows "delivers (owed - {e}) (w\<lparr>hub := announce e (hub w)\<rparr>)"
proof (rule outside_step_inv [OF assms])
  show "sent (hub (w\<lparr>hub := announce e (hub w)\<rparr>)) = sent (hub w) @
      [(sock, m) \<leftarrow> broadcast_sends e (connections (hub w)). sock \<notin> set (gone (hub w)) \<and> sendable m]"
    by (simp add: announce_def broadcast_outcome)
  fix e' sock sid fs
  assume e': "e' \<in> owed" "e' \<notin> owed - {e}" "live (hub w) sock sid fs" "matches_any_filter e' fs" "encodable sid"
    "e' \<in> stored (\<lambda>au. abs_store (au_store au)) (w\<lparr>hub := announce e (hub w)\<rparr>)"
  have "store_inv (au_store (backend (hub w)))" using assms by (simp add: delivery_inv_def)
  moreover have "e' \<in> set (sp_events (abs_store (au_store (backend (hub w)))))"
    using e'(6) by (simp add: stored_def announce_def)
  ultimately have "wf_event e'" using sqlite.genuine by (simp add: publishable_def)
  then show "(sock, event_msg sid e') \<in> set [(sock, m) \<leftarrow> broadcast_sends e (connections (hub w)).
      sock \<notin> set (gone (hub w)) \<and> sendable m] \<or> sock \<in> set (gone (hub w))"
    using e' broadcast_sends_live by auto
qed (use assms in \<open>auto simp: announce_def broadcast_outcome stored_def delivery_inv_def\<close>)

lemma send_all_delivers: "delivers owed w \<Longrightarrow> delivers owed (w\<lparr>hub := send_all sends (hub w)\<rparr>)"
  by (rule outside_step_inv) (auto simp: send_all_outcome stored_def delivery_inv_def)

lemma owed_by_subset: "owed_by S \<subseteq> due (au_store (sy_auto S))"
  by (auto simp: owed_by_def split: worker.splits)

lemma owed_by_due: "\<forall>e row rows. sy_worker S \<noteq> Announced e row rows \<Longrightarrow> owed_by S = due (au_store (sy_auto S))"
  by (auto simp: owed_by_def split: worker.splits)

lemma with_fault_issue:
  assumes "with_fault fault (issue w s rd digest) au = (x, au')" "store_inv (au_store au)"
  shows "store_step\<^sup>*\<^sup>* (au_store au) (au_store au') \<and> store_inv (au_store au')
    \<and> due (au_store au) \<subseteq> due (au_store au')
    \<and> set (stored_events (au_store au')) \<subseteq> set (stored_events (au_store au)) \<union> due (au_store au')"
  using assms(1)
proof (cases rule: with_fault_store)
  case 1
  then show ?thesis using issue_store assms(2) by blast
qed (use assms(2) in simp)

lemma witness_rows_known: "witness_rows None st = Inr rows \<Longrightarrow> row \<in> set rows \<Longrightarrow> known_row st row"
  by (auto simp: witness_rows_def known_row_def dest!: in_set_takeD)

lemma at_backend_inv:
  assumes inv: "system_inv S"
    and st: "store_step\<^sup>*\<^sup>* (au_store (sy_auto S)) (au_store au)" "store_inv (au_store au)"
      "owed_by S \<subseteq> due (au_store au)"
      "set (stored_events (au_store au)) \<subseteq> set (stored_events (au_store (sy_auto S))) \<union> due (au_store au)"
    and k: "set (rows_of k) \<subseteq> set (rows_of (sy_worker S))" "\<forall>e row rows. k \<noteq> Announced e row rows"
  shows "system_inv (at_backend au k S)"
proof -
  have "owed_by (at_backend au k S) = due (au_store au)" using k(2) by (simp add: owed_by_due)
  then show ?thesis
    using inv st k at_backend_delivers [of "owed_by S" "sy_relay S" au "due (au_store au)"]
      worker_ok_step [of S "at_backend au k S"]
    by (simp add: system_inv_def)
qed

text \<open>The steps that change nothing but where the worker is.\<close>

lemma moved_inv:
  assumes "system_inv S" "\<forall>e row rows. k \<noteq> Announced e row rows"
    and "\<And>row. row \<in> set (rows_of k) \<Longrightarrow> row \<in> set (rows_of (sy_worker S)) \<or> known_row (au_store (sy_auto S)) row"
  shows "system_inv (S\<lparr>sy_worker := k\<rparr>)"
proof -
  have "owed_by (S\<lparr>sy_worker := k\<rparr>) = due (au_store (sy_auto S))" using assms(2) by (simp add: owed_by_due)
  then have "delivers (owed_by (S\<lparr>sy_worker := k\<rparr>)) (sy_relay (S\<lparr>sy_worker := k\<rparr>))"
    using assms(1) delivers_mono [OF _ owed_by_subset] by (simp add: system_inv_def)
  moreover have "worker_ok (S\<lparr>sy_worker := k\<rparr>)"
    using assms unfolding system_inv_def worker_ok_def by (simp; blast)
  ultimately show ?thesis by (simp add: system_inv_def)
qed

lemma system_step_inv:
  assumes "system_step s c S S'" "system_inv S"
  shows "system_inv S'"
  using assms(1)
proof cases
  case (relays w)
  note st = relay_step_store [OF relays(2)]
  have "delivers (owed_by S) w"
    using witnessing.wstep_inv [OF witness_served relays(2)] assms(2) by (simp add: system_inv_def)
  moreover have "owed_by S \<subseteq> owed_by (S\<lparr>sy_relay := w\<rparr>)"
    using st by (auto simp: owed_by_def)
  ultimately have "delivers (owed_by (S\<lparr>sy_relay := w\<rparr>)) w" by (rule delivers_mono)
  moreover have "worker_ok (S\<lparr>sy_relay := w\<rparr>)"
    using assms(2) st worker_ok_step [of S "S\<lparr>sy_relay := w\<rparr>"]
    by (simp add: system_inv_def worker_ok_def [of S])
  ultimately show ?thesis by (simp add: relays(1) system_inv_def)
next
  case (checks rd x au)
  have "au_store au = au_store (sy_auto S)"
    using arelatesD [OF check_clock_keeps checks(3)] by (simp add: keeps_store_def)
  then show ?thesis unfolding checks(1)
    by (intro at_backend_inv [OF assms(2)])
      (use assms(2) owed_by_subset [of S] in \<open>auto simp: system_inv_def delivery_inv_def\<close>)
next
  case (looks rows)
  then show ?thesis using moved_inv [OF assms(2), of "Working rows"] witness_rows_known by simp
next
  case (issues row rows fault w rd x au)
  have "store_inv (au_store (sy_auto S))" using assms(2) by (simp add: system_inv_def delivery_inv_def)
  note i = with_fault_issue [OF issues(4) this]
  show ?thesis unfolding issues(1)
    by (intro at_backend_inv [OF assms(2)]) (use i owed_by_subset [of S] issues(2) in auto)
next
  case (announces row rows e)
  let ?S = "at_hub (announce e (hub (sy_relay S))) (Announced e row rows) S"
  have b: "au_store (sy_auto ?S) = au_store (sy_auto S)" by (simp add: announce_def)
  have "owed_by ?S = owed_by S - {e}" using announces(2) b by (simp add: owed_by_def)
  then have "delivers (owed_by ?S) (sy_relay ?S)"
    using announce_delivers assms(2) by (simp add: system_inv_def)
  moreover have "worker_ok ?S"
    using assms(2) announces(2-4) b worker_ok_step [of S ?S] by (simp add: system_inv_def)
  ultimately show ?thesis by (simp add: announces(1) system_inv_def)
next
  case (times_out row rows e sends)
  let ?S = "at_hub (send_all sends (hub (sy_relay S))) Waiting S"
  have b: "au_store (sy_auto ?S) = au_store (sy_auto S)" by (simp add: send_all_outcome)
  have "owed_by ?S = owed_by S" using times_out(2) b by (simp add: owed_by_def)
  then have "delivers (owed_by ?S) (sy_relay ?S)"
    using send_all_delivers assms(2) by (simp add: system_inv_def)
  moreover have "worker_ok ?S"
    using assms(2) b worker_ok_step [of S ?S] by (simp add: system_inv_def)
  ultimately show ?thesis by (simp add: times_out(1) system_inv_def)
next
  case (marks e row rows st)
  have w: "known_row (au_store (sy_auto S)) row" "jobs_ok (au_store (sy_auto S))"
    "stored_receipt row = Inr e" "j_state row \<noteq> Pending" "store_inv (au_store (sy_auto S))"
    using assms(2) marks(2) by (auto simp: system_inv_def worker_ok_def delivery_inv_def)
  have "store_step (au_store (sy_auto S)) st"
    by (rule store_step.ok [of "Update_Op (j_digest row) False"]) (simp add: marks(3))
  moreover have "store_inv st"
    using witness_update_jobs(4) [OF marks(3)] witness_update_events [OF marks(3)] w(5)
    by (simp add: store_inv_def)
  ultimately show ?thesis unfolding marks(1)
    by (intro at_backend_inv [OF assms(2)])
      (use marked_due [OF marks(3) w(1,2,4,3)] witness_update_events [OF marks(3)] marks(2) in
        \<open>auto simp: owed_by_def\<close>)
next
  case sleeps
  then show ?thesis using moved_inv [OF assms(2), of Waiting] by simp
next
  case fails
  then show ?thesis using moved_inv [OF assms(2), of Waiting] by simp
next
  case stops
  then show ?thesis using moved_inv [OF assms(2), of Stopped] by simp
qed

lemma first_system_inv: "store_inv (au_store au) \<Longrightarrow> jobs_ok (au_store au) \<Longrightarrow> system_inv (first_system au)"
  using witnessing.first_world_inv
  by (simp add: system_inv_def worker_ok_def first_system_def first_world_def)

lemma reachable_system_inv:
  assumes "(system_step s c)\<^sup>*\<^sup>* (first_system au) S" "store_inv (au_store au)" "jobs_ok (au_store au)"
  shows "system_inv S"
  using assms(1) by (induction rule: rtranclp_induct) (auto intro: first_system_inv assms system_step_inv)

section \<open>No receipt is lost\<close>

text \<open>C2: No event and no receipt is lost to a subscription, whatever the interleaving of the
  connections and the witness's worker, with failures of SQLite, disconnections, time-outs of a
  broadcast and a stop at any point: for every registered subscription whose query was made, every
  stored event that matches, receipts included, was left out of the query's page, or has been sent
  since, or is in the answer being sent, or the client has gone, or its publisher's broadcast is
  still due, or the publisher's task ended before it, or it is the receipt of a job that is issued
  and not yet marked as broadcast: the worker will announce it. The subscriptions are those whose
  name can be sent at all, which a lone surrogate prevents.\<close>

theorem no_receipt_lost:
  assumes "store_inv (au_store au)" "jobs_ok (au_store au)" "(system_step s c)\<^sup>*\<^sup>* (first_system au) S"
    and "settled (sy_relay S) sock sid fs"
  shows "\<exists>n s0. (sock, sid, fs, n, s0) \<in> set (answered (sy_relay S)) \<and> n \<le> length (sent (hub (sy_relay S)))
    \<and> (\<forall>e \<in> set (stored_events (au_store (sy_auto S))). matches_any_filter e fs \<longrightarrow>
         (e \<in> set (stored_events (au_store s0)) \<and> e \<notin> set (spec_query fs (abs_store (au_store s0)))
          \<or> (sock, event_msg sid e) \<in> set (drop n (sent (hub (sy_relay S))))
          \<or> event_msg sid e \<in> queued (sy_relay S) sock
          \<or> sock \<in> set (gone (hub (sy_relay S))) \<or> pending (sy_relay S) e \<or> e \<in> set (orphaned (sy_relay S))
          \<or> (\<exists>j \<in> set (witness_jobs (au_store (sy_auto S))).
               j_state j = Issued \<and> \<not> j_broadcast j \<and> stored_receipt j = Inr e)))"
proof -
  have "delivers (owed_by S) (sy_relay S)"
    using reachable_system_inv [OF assms(3,1,2)] by (simp add: system_inv_def)
  then have "delivers (due (au_store (sy_auto S))) (sy_relay S)" by (rule delivers_mono [OF _ owed_by_subset])
  then have "served (\<lambda>au. abs_store (au_store au)) (due (au_store (sy_auto S))) (sy_relay S) sock sid fs"
    using assms(4) by (simp add: delivery_inv_def)
  then show ?thesis unfolding served_def reaches_def stored_def due_def by (simp add: abs_store_def)
qed

section \<open>A pass of the worker is a run of the system\<close>

definition arrives :: "settings \<Rightarrow> crypto \<Rightarrow> system \<Rightarrow> auto \<Rightarrow> worker set \<Rightarrow> bool" where
  "arrives s c S au K = (\<exists>S'. (system_step s c)\<^sup>*\<^sup>* S S' \<and> sy_auto S' = au \<and> sy_worker S' \<in> K)"

lemma arrives_now: "sy_auto S = au \<Longrightarrow> sy_worker S \<in> K \<Longrightarrow> arrives s c S au K"
  unfolding arrives_def by blast

lemma arrives_step: "system_step s c S S' \<Longrightarrow> arrives s c S' au K \<Longrightarrow> arrives s c S au K"
  unfolding arrives_def by (blast intro: converse_rtranclp_into_rtranclp)

lemma arrives_failing: "sy_worker S \<noteq> Stopped \<Longrightarrow> sy_auto S = au \<Longrightarrow> Waiting \<in> K \<Longrightarrow> arrives s c S au K"
  by (rule arrives_step [OF system_step.fails arrives_now]) simp_all

lemma row_is_steps:
  assumes "sy_worker S = Working (row # rows)" "process_row w s rd fault row (sy_auto S) = (y, au)"
  shows "arrives s c S au {if y = Inr () then Working rows else Waiting}"
proof (cases "j_state row = Pending")
  case True
  with assms(2) have "with_fault False (issue w s rd (j_digest row)) (sy_auto S) = (y, au)"
    by (simp add: process_row_def with_fault_def)
  from system_step.issues [OF assms(1) True this] show ?thesis
    by (rule arrives_step) (rule arrives_now, simp_all)
next
  case live: False
  show ?thesis
  proof (cases "\<exists>e. stored_receipt row = Inr e \<and> fault e = None")
    case False
    with assms(2) live have "\<exists>z. y = Inl z" "au = sy_auto S"
      by (auto simp: process_row_def abind_apply publish_receipt_def split: sum.splits option.splits)
    then show ?thesis using assms(1) by (intro arrives_failing) auto
  next
    case True
    then obtain e where e: "stored_receipt row = Inr e" "fault e = None" by blast
    let ?S = "at_hub (announce e (hub (sy_relay S))) (Announced e row rows) S"
    have b: "backend (announce e (hub (sy_relay S))) = (sy_auto S)\<lparr>au_published := au_published (sy_auto S) @ [e]\<rparr>"
      by (simp add: announce_def broadcast_outcome)
    have "arrives s c ?S au {if y = Inr () then Working rows else Waiting}"
    proof (cases "witness_update (j_digest row) False (au_store (sy_auto S))")
      case (Inl z)
      with assms(2) live e have "y = Inl z" "au = sy_auto ?S"
        by (auto simp: process_row_def abind_apply publish_receipt_def on_store_def b)
      then show ?thesis by (intro arrives_failing) simp_all
    next
      case (Inr st)
      with assms(2) live e have y: "y = Inr ()" "au = (sy_auto ?S)\<lparr>au_store := st\<rparr>"
        by (auto simp: process_row_def abind_apply publish_receipt_def on_store_def b)
      have "system_step s c ?S (at_backend au (Working rows) ?S)"
        unfolding y(2) by (rule system_step.marks [of _ e row]) (use Inr b in simp_all)
      then show ?thesis by (rule arrives_step) (rule arrives_now, simp_all add: y(1))
    qed
    with system_step.announces [OF assms(1) live e(1)] show ?thesis by (rule arrives_step)
  qed
qed

lemma arrives_trans:
  assumes "arrives s c S b K" "\<And>S'. sy_auto S' = b \<Longrightarrow> sy_worker S' \<in> K \<Longrightarrow> arrives s c S' au L"
  shows "arrives s c S au L"
proof -
  obtain S' where S': "(system_step s c)\<^sup>*\<^sup>* S S'" "sy_auto S' = b" "sy_worker S' \<in> K"
    using assms(1) by (auto simp: arrives_def)
  obtain S'' where "(system_step s c)\<^sup>*\<^sup>* S' S''" "sy_auto S'' = au" "sy_worker S'' \<in> L"
    using assms(2) [OF S'(2,3)] by (auto simp: arrives_def)
  with S'(1) show ?thesis unfolding arrives_def by (blast intro: rtranclp_trans)
qed

lemma rows_are_steps:
  assumes "sy_worker S = Working rows" "process_rows s fault looks rows (sy_auto S) = (x, au)"
  shows "arrives s c S au {Waiting, Stopped}"
  using assms
proof (induction rows arbitrary: S looks)
  case Nil
  then show ?case by (intro arrives_failing) auto
next
  case (Cons row rows)
  show ?case
  proof (cases looks)
    case Nil
    with Cons.prems show ?thesis by (intro arrives_failing) auto
  next
    case looks: (Cons l looks')
    obtain w rd stop where l: "l = (w, rd, stop)" by (cases l) auto
    obtain y b where pr: "process_row w s rd fault row (sy_auto S) = (y, b)" by fastforce
    show ?thesis
    proof (cases stop)
      case True
      with Cons.prems(2) looks l have "sy_auto S = au" by simp
      then have "arrives s c (S\<lparr>sy_worker := Stopped\<rparr>) au {Waiting, Stopped}" by (intro arrives_now) simp_all
      with system_step.stops [of S s c] Cons.prems(1) show ?thesis by (blast intro: arrives_step)
    next
      case False
      show ?thesis
      proof (rule arrives_trans [OF row_is_steps [OF Cons.prems(1) pr]])
        fix S' assume S': "sy_auto S' = b" "sy_worker S' \<in> {if y = Inr () then Working rows else Waiting}"
        show "arrives s c S' au {Waiting, Stopped}"
        proof (cases y)
          case (Inl z)
          with Cons.prems(2) looks l False pr have "b = au" by (simp add: abind_apply)
          with S' Inl show ?thesis by (intro arrives_now) simp_all
        next
          case (Inr u)
          with Cons.prems(2) looks l False pr have "process_rows s fault looks' rows b = (x, au)"
            by (simp add: abind_apply)
          with Cons.IH [of S' looks'] S' Inr show ?thesis by simp
        qed
      qed
    qed
  qed
qed

text \<open>The worker's sequential pass is one of the system's runs, the one no other task interrupts:
  whatever the pass does to the backend, and whether it returns or raises, the system's steps do.\<close>

theorem pass_is_steps:
  assumes "sy_worker S = Waiting" "run_pass s fault rd looks (sy_auto S) = (x, au)"
  shows "\<exists>S'. (system_step s c)\<^sup>*\<^sup>* S S' \<and> sy_auto S' = au \<and> sy_worker S' \<in> {Waiting, Stopped}"
proof -
  obtain y b where k: "check_clock s rd (sy_auto S) = (y, b)" by fastforce
  let ?S = "at_backend b (if y = Inr () then Checked else Waiting) S"
  have "arrives s c ?S au {Waiting, Stopped}"
  proof (cases y)
    case (Inl z)
    with assms(2) k have "b = au" by (simp add: run_pass_def abind_apply)
    with Inl show ?thesis by (intro arrives_now) simp_all
  next
    case Inr: (Inr u)
    show ?thesis
    proof (cases "witness_rows None (au_store b)")
      case (Inl z)
      with assms(2) k Inr show ?thesis
        by (intro arrives_failing) (simp_all add: run_pass_def abind_apply areads_def)
    next
      case rows: (Inr rows)
      have "system_step s c ?S (?S\<lparr>sy_worker := Working rows\<rparr>)"
        by (rule system_step.looks) (use Inr rows in simp_all)
      moreover have "arrives s c (?S\<lparr>sy_worker := Working rows\<rparr>) au {Waiting, Stopped}"
        by (rule rows_are_steps [of _ rows s fault looks x])
          (use assms(2) k Inr rows in \<open>simp_all add: run_pass_def abind_apply areads_def\<close>)
      ultimately show ?thesis by (rule arrives_step)
    qed
  qed
  with system_step.checks [OF assms(1) k] have "arrives s c S au {Waiting, Stopped}" by (rule arrives_step)
  then show ?thesis by (simp add: arrives_def)
qed

end
