(* ===== verification/Clock_Spec.thy ===== *)
theory Clock_Spec
  imports Clock Commissioning_Spec
begin

text \<open>
  What the clock of the automatic witness is worth: a sample certifies the whole run since the
  start, the monitor's file is read back as it was meant, and is replaced atomically.
\<close>

section \<open>The latch\<close>

text \<open>The clock after a sequence of samples.\<close>

definition after_samples :: "pystr \<Rightarrow> reading list \<Rightarrow> clock \<Rightarrow> clock" where
  "after_samples mode rds ck = fold (\<lambda>rd ck. snd (sample mode rd ck)) rds ck"

definition drift :: "reading \<Rightarrow> reading \<Rightarrow> int" where
  "drift a b = (rd_wall b - rd_wall a) - (rd_monotonic b - rd_monotonic a)"

definition steady :: "reading \<Rightarrow> reading \<Rightarrow> bool" where
  "steady a b = (\<bar>drift a b\<bar> \<le> 250000000)"

lemma sample_state:
  "ck_previous (snd (sample mode rd ck)) = (rd_wall rd, rd_monotonic rd)"
  "ck_failed (snd (sample mode rd ck)) = (ck_failed ck \<or> discontinuity rd ck)"
  by (simp_all add: sample_def Let_def)

lemma sample_fails: "ck_failed ck \<or> discontinuity rd ck \<Longrightarrow> \<exists>m. fst (sample mode rd ck) = Inl (ClockUnavailable m)"
  by (auto simp: sample_def Let_def)

lemma discontinuity_steady:
  "ck_previous ck = (rd_wall a, rd_monotonic a) \<Longrightarrow> discontinuity b ck \<longleftrightarrow> \<not> steady a b"
  by (simp add: discontinuity_def steady_def drift_def max_drift_def not_le)

lemma after_samples_state:
  assumes "ck_previous ck = (rd_wall a, rd_monotonic a)"
  shows "ck_previous (after_samples mode rds ck) = (rd_wall (last (a # rds)), rd_monotonic (last (a # rds)))
    \<and> (ck_failed (after_samples mode rds ck) \<longleftrightarrow> ck_failed ck \<or> \<not> successively steady (a # rds))"
  using assms
proof (induction rds arbitrary: a ck)
  case (Cons b rds)
  let ?ck = "snd (sample mode b ck)"
  have "ck_previous ?ck = (rd_wall b, rd_monotonic b)"
    "ck_failed ?ck = (ck_failed ck \<or> \<not> steady a b)"
    using Cons.prems by (simp_all add: sample_state discontinuity_steady)
  with Cons.IH [of ?ck b] show ?case by (auto simp: after_samples_def successively.simps)
qed (simp add: after_samples_def)

lemma total_drift:
  "successively steady (a # rds) \<Longrightarrow> \<bar>drift a (last (a # rds))\<bar> \<le> 250000000 * int (length rds)"
proof (induction rds arbitrary: a)
  case (Cons b rds)
  then have "\<bar>drift b (last (b # rds))\<bar> \<le> 250000000 * int (length rds)" "\<bar>drift a b\<bar> \<le> 250000000"
    by (simp_all add: successively.simps steady_def)
  moreover have "drift a (last (b # rds)) = drift a b + drift b (last (b # rds))"
    by (simp add: drift_def)
  ultimately show ?case by (simp add: algebra_simps)
qed (simp add: drift_def)

lemma case_Some_Inr:
  "(case x of None \<Rightarrow> Inl e | Some y \<Rightarrow> f y) = Inr z \<longleftrightarrow> (\<exists>y. x = Some y \<and> f y = Inr z)"
  by (cases x) auto

lemma if_Inl_Inr: "(if c then Inl e else m) = Inr z \<longleftrightarrow> \<not> c \<and> m = Inr z"
  by simp

lemma bounded_health_iff:
  "bounded_health now unc = Inr (n, u) \<longleftrightarrow> n = now \<and> (\<exists>i. u = Some i \<and> unc = VInt i \<and> within 0 1000 i)"
  by (auto simp: bounded_health_def case_Some_Inr as_int_Some)

lemma operational_health_iff:
  "operational_health now checked unc d = Inr (n, u) \<longleftrightarrow> n = now \<and> u = None \<and> unc = VNone
     \<and> dget d ''mode'' = vlit ''operational'' \<and> dget d ''source'' = vlit ''systemd-timesyncd''
     \<and> (\<exists>t. need d ''last_sync_at_ms'' = Inr (VInt t)
          \<and> within 0 7200000 (checked - t) \<and> within 0 7200000 (now - t))"
  by (auto simp: operational_health_def rbind_eq_Inr case_Some_Inr if_Inl_Inr as_int_Some)

lemma check_health_iff:
  "check_health mode now v = Inr (n, u) \<longleftrightarrow> (\<exists>d unc c. v = VDict d
     \<and> need d ''checked_at_ms'' = Inr (VInt c) \<and> need d ''uncertainty_ms'' = Inr unc
     \<and> need d ''synchronized'' = Inr (VNum (NBool True)) \<and> within 0 30000 (now - c)
     \<and> (if mode = lit ''bounded'' then bounded_health now unc
        else operational_health now c unc d) = Inr (n, u))"
proof (cases v)
  case (VDict d)
  then show ?thesis
    unfolding check_health_def
    by (simp add: rbind_eq_Inr case_Some_Inr if_Inl_Inr as_int_Some cong: conj_cong) blast
qed (simp_all add: check_health_def)

lemma check_health_now: "check_health mode now v = Inr (n, u) \<Longrightarrow> n = now"
  by (auto simp: check_health_iff bounded_health_iff operational_health_iff split: if_splits)

lemma sample_now: "fst (sample mode rd ck) = Inr (now, u) \<Longrightarrow> now = to_ms (rd_wall rd)"
  by (auto simp: sample_def Let_def rbind_eq_Inr recast_eq_Inr dest: check_health_now split: if_splits)

text \<open>C37: a clock sample vouches for the whole run: if sampling succeeds, then between any two
  consecutive readings since the start the wall clock and the monotonic clock moved alike, up to a
  quarter of a second, so their total disagreement is at most that much per sample; and the time
  returned is the wall clock's. A discontinuity is never forgotten.\<close>

theorem sample_vouches:
  assumes "fst (sample mode rd (after_samples mode rds (start_clock rd0))) = Inr (now, u)"
  shows "successively steady (rd0 # rds @ [rd])
    \<and> \<bar>drift rd0 rd\<bar> \<le> 250000000 * int (length rds + 1) \<and> now = to_ms (rd_wall rd)"
proof -
  let ?ck = "after_samples mode rds (start_clock rd0)"
  have "\<not> ck_failed ?ck \<and> \<not> discontinuity rd ?ck" using assms sample_fails [of ?ck rd mode] by auto
  moreover have "ck_failed (after_samples mode (rds @ [rd]) (start_clock rd0)) = (ck_failed ?ck \<or> discontinuity rd ?ck)"
    by (simp add: after_samples_def sample_state)
  moreover have "ck_previous (start_clock rd0) = (rd_wall rd0, rd_monotonic rd0)"
    by (simp add: start_clock_def)
  ultimately have s: "successively steady (rd0 # rds @ [rd])"
    using after_samples_state [of "start_clock rd0" rd0 mode "rds @ [rd]"] by simp
  have "now = to_ms (rd_wall rd)" by (rule sample_now [OF assms])
  then show ?thesis using s total_drift [OF s] by simp
qed

theorem sample_vouches_witness:
  "\<bar>drift \<lparr>rd_wall = 0, rd_monotonic = 0, rd_file = Inl OSError\<rparr>
      \<lparr>rd_wall = 7000000, rd_monotonic = 5000000, rd_file = Inl OSError\<rparr>\<bar> \<le> 500000000"
proof -
  let ?r = "\<lambda>w m. \<lparr>rd_wall = w, rd_monotonic = m, rd_file = Inl OSError\<rparr>"
  have "fst (sample (lit ''system'') (?r 7000000 5000000)
      (after_samples (lit ''system'') [?r 3000000 2000000] (start_clock (?r 0 0)))) = Inr (7, None)"
    by (simp add: sample_def after_samples_def start_clock_def discontinuity_def max_drift_def to_ms_def)
  from sample_vouches [OF this] show ?thesis by simp
qed

section \<open>Replacing the health file\<close>

text \<open>The health file is replaced atomically: whatever fails, at every moment of a call the
  target holds either what it held before or the complete new report; it holds the new report in
  the end exactly when the call returns; and no temporary file is left.\<close>

theorem health_file_atomic:
  assumes "write_health fault data d = (x, states)" "hd_temporary d = None"
  shows "\<exists>raw. (\<forall>s \<in> set states. hd_target s = hd_target d
        \<or> utf8_encode (health_text data) = Inr raw \<and> hd_target s = Some raw)
    \<and> hd_temporary (last states) = None
    \<and> (if x = Inr () then utf8_encode (health_text data) = Inr raw \<and> hd_target (last states) = Some raw
       else hd_target (last states) = hd_target d)"
proof (cases "utf8_encode (health_text data)")
  case (Inr raw)
  then show ?thesis
    using assms by (intro exI [of _ raw])
      (auto simp: write_health_def Let_def unlink_temporary_def split: write_fault.splits)
qed (use assms in \<open>auto simp: write_health_def\<close>)

theorem health_file_atomic_witness:
  "\<exists>x states. write_health (Write_Fails []) (health_report True 5 VNone ''ok'')
      \<lparr>hd_target = Some [1], hd_temporary = None\<rparr> = (x, states)
    \<and> hd_target (last states) = Some [1]"
proof -
  let ?d = "\<lparr>hd_target = Some [1], hd_temporary = None\<rparr>"
  obtain x states where w: "write_health (Write_Fails []) (health_report True 5 VNone ''ok'') ?d = (x, states)"
    by (cases "write_health (Write_Fails []) (health_report True 5 VNone ''ok'') ?d")
  have "x \<noteq> Inr ()" using w by (auto simp: write_health_def Let_def split: sum.splits)
  with health_file_atomic [OF w] w show ?thesis by auto
qed

section \<open>From the monitor to the clock\<close>

lemma collect_report:
  assumes "collect h = Inr d"
  shows "\<exists>ok last_sync reason. d = health_report ok (to_ms (h_start h)) last_sync reason
    \<and> (last_sync = VNone \<and> \<not> ok \<and> (\<exists>x. host_state h (to_ms (h_start h)) = Inl x)
         \<or> (\<exists>t. last_sync = VInt t \<and> host_state h (to_ms (h_start h)) = Inr (ok, t)))
    \<and> reason \<in> {''ok'', ''unsynchronized-or-stale'', ''monitor-error''}"
  using assms by (auto simp: collect_def Let_def split: sum.splits prod.splits if_splits)

lemma health_report_text:
  assumes "int_printable c" "last_sync = VNone \<or> (\<exists>t. last_sync = VInt t \<and> int_printable t)"
    and "sort_keys (VDict (health_report ok c last_sync reason)) = VDict d"
  shows "json_ok (VDict (health_report ok c last_sync reason))"
    "loads (health_text (health_report ok c last_sync reason)) = Inr (VDict d)"
    "need d k = need (health_report ok c last_sync reason) k"
    "dget d k = dget (health_report ok c last_sync reason) k"
proof -
  let ?h = "health_report ok c last_sync reason"
  show j: "json_ok (VDict ?h)" using assms(1,2) by (auto simp: health_report_def num_printable_def)
  have "json_ok (VDict d)" using json_ok_sort_keys [OF j] assms(3) by simp
  then show "loads (health_text ?h) = Inr (VDict d)"
    unfolding health_text_def assms(3) by (rule loads_line)
  have di: "distinct (map fst ?h)" using j by simp
  have "d = sort_key fst (map (\<lambda>(k, v). (k, sort_keys v)) ?h)" using assms(3) by simp
  moreover have "map (\<lambda>(k, v). (k, sort_keys v)) ?h = ?h"
    using assms(2) by (auto simp: health_report_def)
  ultimately have m: "map_of d = map_of ?h" using map_of_sort_key [OF di] by simp
  show "need d k = need ?h k" "dget d k = dget ?h k" by (simp_all add: need_def dget_def m)
qed

text \<open>C40: the clock understands its monitor: when the monitor's report has been written and the
  4097 bytes that are read hold it whole, an operational sample succeeds exactly when the clock has been continuous, the host
  said that the service is active and synchronized, the report is at most thirty seconds old and the
  last synchronization at most two hours, by both looks at the wall clock and by the sample; it then
  returns the local time without an uncertainty, and a bounded clock refuses the report.\<close>

theorem monitor_feeds_clock:
  assumes "collect h = Inr d" "write_health fault d dir = (Inr (), states)"
    and "hd_target (last states) = Some raw" "rd_file rd = Inr raw"
    and "int_printable (to_ms (h_start h))" "\<And>m. h_mtime h = Inr m \<Longrightarrow> int_printable (m div 1000000)"
  shows "(fst (sample (lit ''operational'') rd ck) = Inr (now, u) \<longleftrightarrow>
      \<not> ck_failed ck \<and> \<not> discontinuity rd ck \<and> now = to_ms (rd_wall rd) \<and> u = None
      \<and> within 0 30000 (now - to_ms (h_start h))
      \<and> (\<exists>m. h_active h = Inr (lit ''active'') \<and> h_synchronized h = Inr (lit ''yes'') \<and> h_mtime h = Inr m
           \<and> within 0 7200000 (to_ms (h_start h) - m div 1000000)
           \<and> within 0 7200000 (to_ms (h_end h) - m div 1000000)
           \<and> within 0 7200000 (now - m div 1000000)))
    \<and> (\<exists>x. fst (sample (lit ''bounded'') rd ck) = Inl x)"
proof -
  let ?c = "to_ms (h_start h)"
  obtain ok last_sync reason where d: "d = health_report ok ?c last_sync reason"
    and ls: "last_sync = VNone \<and> \<not> ok \<and> (\<exists>x. host_state h ?c = Inl x) \<or> (\<exists>t. last_sync = VInt t \<and> host_state h ?c = Inr (ok, t))"
    using collect_report [OF assms(1)] by blast
  have st: "host_state h ?c = Inr (b, t) \<longleftrightarrow> (\<exists>a s m. h_active h = Inr a \<and> h_synchronized h = Inr s
      \<and> h_mtime h = Inr m \<and> t = m div 1000000 \<and> (b \<longleftrightarrow> a = lit ''active'' \<and> s = lit ''yes''
        \<and> within 0 7200000 (?c - t) \<and> within 0 7200000 (to_ms (h_end h) - t)))" for b t
    by (auto simp: host_state_def rbind_eq_Inr Let_def max_sync_age_ms_def)
  obtain e where e: "sort_keys (VDict (health_report ok ?c last_sync reason)) = VDict e" by simp
  have "last_sync = VNone \<or> (\<exists>t. last_sync = VInt t \<and> int_printable t)"
    using ls assms(6) by (auto simp: st)
  note t = health_report_text [OF assms(5) this e]
  have raw: "utf8_encode (health_text d) = Inr raw"
    using assms(2,3) by (auto simp: write_health_def Let_def unlink_temporary_def split: sum.splits write_fault.splits)
  have "\<exists>xs. health_text d = 123 # xs"
    by (simp add: health_text_def d e dumps_VDict)
  then have "take 3 raw \<noteq> [239, 187, 191]"
    using raw by (auto simp: utf8_encode_def utf8_char_def split: if_splits)
  then have l: "loads_bytes raw = Inr (VDict e)"
    using utf8_decode_encode [OF raw] t(2) by (simp add: loads_bytes_def d)
  note rf = assms(4)
  have f: "need e ''checked_at_ms'' = Inr (VInt ?c)" "need e ''uncertainty_ms'' = Inr VNone"
    "need e ''synchronized'' = Inr (VNum (NBool ok))" "need e ''last_sync_at_ms'' = Inr last_sync"
    "dget e ''mode'' = vlit ''operational''" "dget e ''source'' = vlit ''systemd-timesyncd''"
    unfolding t(3,4) by (simp_all add: health_report_def need_def)
  have "fst (sample (lit ''operational'') rd ck) = Inr (now, u) \<longleftrightarrow>
      \<not> ck_failed ck \<and> \<not> discontinuity rd ck
      \<and> check_health (lit ''operational'') (to_ms (rd_wall rd)) (VDict e) = Inr (now, u)"
    by (simp add: sample_def Let_def rf l recast_eq_Inr)
  also have "\<dots> \<longleftrightarrow> \<not> ck_failed ck \<and> \<not> discontinuity rd ck \<and> now = to_ms (rd_wall rd) \<and> u = None
      \<and> within 0 30000 (now - ?c) \<and> (\<exists>t. ok \<and> last_sync = VInt t
        \<and> within 0 7200000 (?c - t) \<and> within 0 7200000 (now - t))"
    by (auto simp: check_health_iff operational_health_iff f)
  also have "\<dots> \<longleftrightarrow> \<not> ck_failed ck \<and> \<not> discontinuity rd ck \<and> now = to_ms (rd_wall rd) \<and> u = None
      \<and> within 0 30000 (now - ?c)
      \<and> (\<exists>m. h_active h = Inr (lit ''active'') \<and> h_synchronized h = Inr (lit ''yes'') \<and> h_mtime h = Inr m
           \<and> within 0 7200000 (?c - m div 1000000) \<and> within 0 7200000 (to_ms (h_end h) - m div 1000000)
           \<and> within 0 7200000 (now - m div 1000000))"
    using ls
  proof (elim disjE conjE exE)
    fix x assume "host_state h ?c = Inl x" "last_sync = VNone" "\<not> ok"
    then have "\<not> (\<exists>b t. host_state h ?c = Inr (b, t))" "last_sync = VNone" "\<not> ok" by simp_all
    then show ?thesis unfolding st by auto
  qed (auto simp: st)
  finally have "fst (sample (lit ''operational'') rd ck) = Inr (now, u) \<longleftrightarrow>
      \<not> ck_failed ck \<and> \<not> discontinuity rd ck \<and> now = to_ms (rd_wall rd) \<and> u = None
      \<and> within 0 30000 (now - to_ms (h_start h))
      \<and> (\<exists>m. h_active h = Inr (lit ''active'') \<and> h_synchronized h = Inr (lit ''yes'') \<and> h_mtime h = Inr m
           \<and> within 0 7200000 (to_ms (h_start h) - m div 1000000)
           \<and> within 0 7200000 (to_ms (h_end h) - m div 1000000)
           \<and> within 0 7200000 (now - m div 1000000))" .
  moreover have "\<exists>x. fst (sample (lit ''bounded'') rd ck) = Inl x"
  proof (cases "fst (sample (lit ''bounded'') rd ck)")
    case (Inr r)
    then show ?thesis
      by (cases r) (auto simp: sample_def Let_def rf l recast_eq_Inr check_health_iff
          bounded_health_iff f split: if_splits)
  qed simp
  ultimately show ?thesis by (intro conjI)
qed

text \<open>A synchronized host, reported and sampled a second later.\<close>

definition toy_host :: host where
  "toy_host = \<lparr>h_active = Inr (lit ''active''), h_synchronized = Inr (lit ''yes''),
     h_mtime = Inr 4000000000, h_start = 5000000000, h_end = 5100000000\<rparr>"

theorem monitor_feeds_clock_witness:
  "\<exists>d raw. collect toy_host = Inr d
    \<and> fst (sample (lit ''operational'') \<lparr>rd_wall = 6000000000, rd_monotonic = 900, rd_file = Inr raw\<rparr>
        (start_clock \<lparr>rd_wall = 6000000000, rd_monotonic = 900, rd_file = Inl OSError\<rparr>)) = Inr (6000, None)"
proof -
  let ?d = "health_report True 5000 (VInt 4000) ''ok''"
  have c: "collect toy_host = Inr ?d"
    by (simp add: collect_def host_state_def toy_host_def to_ms_def within_def max_sync_age_ms_def)
  have p: "int_printable 5000" "int_printable 4000" by (rule int_printable_64; simp)+
  then have "json_ok (sort_keys (VDict ?d))"
    by (intro json_ok_sort_keys) (simp add: health_report_def num_printable_def)
  then have "encodable (health_text ?d)"
    unfolding health_text_def by (simp add: encodable_dumps del: sort_keys.simps dumps.simps)
  then obtain raw where raw: "utf8_encode (health_text ?d) = Inr raw" by simp
  obtain states where w: "write_health No_Fault ?d \<lparr>hd_target = None, hd_temporary = None\<rparr> = (Inr (), states)"
    "hd_target (last states) = Some raw"
    by (simp add: write_health_def raw unlink_temporary_def Let_def)
  have ms: "to_ms (h_start toy_host) = 5000" "to_ms (h_end toy_host) = 5100" "to_ms 6000000000 = 6000"
    "h_mtime toy_host = Inr 4000000000" "h_active toy_host = Inr (lit ''active'')"
    "h_synchronized toy_host = Inr (lit ''yes'')"
    by (simp_all add: toy_host_def to_ms_def)
  have "fst (sample (lit ''operational'') \<lparr>rd_wall = 6000000000, rd_monotonic = 900, rd_file = Inr raw\<rparr>
        (start_clock \<lparr>rd_wall = 6000000000, rd_monotonic = 900, rd_file = Inl OSError\<rparr>)) = Inr (6000, None)"
    by (subst monitor_feeds_clock [OF c w, THEN conjunct1])
      (use p in \<open>simp_all add: ms start_clock_def discontinuity_def max_drift_def within_def\<close>)
  with c show ?thesis by blast
qed

end
