(* ===== verification/Auto_Receipt.thy ===== *)
theory Auto_Receipt
  imports Auto_Spec Clock_Spec
begin

text \<open>
  From an observation to its receipt: the job that \<open>accept\<close> queues reads back from the database, and
  as long as the authority holds, \<open>issue\<close> signs and stores the receipt.
\<close>

section \<open>The job\<close>

definition job_of ::
  "stored_event \<Rightarrow> pystr \<Rightarrow> int \<Rightarrow> int \<Rightarrow> int option \<Rightarrow> pystr \<Rightarrow> pystr \<Rightarrow> pystr \<Rightarrow> pydict" where
  "job_of e digest version t u authorization policy pubkey =
     [(lit ''subject'', VDict (to_dict e)), (lit ''signed_event_digest'', VStr digest),
      (lit ''receipt_version'', VInt version), (lit ''observed_at_ms'', VInt t),
      (lit ''clock_uncertainty_ms'', uncertainty_val u), (lit ''authorization_event_id'', VStr authorization),
      (lit ''witness_policy_digest'', VStr policy), (lit ''witness_pubkey'', VStr pubkey)]"

definition observation_ok :: "int \<Rightarrow> int \<Rightarrow> int option \<Rightarrow> bool" where
  "observation_ok version t u =
     (0 \<le> t \<and> t \<le> max_safe_integer \<and> version \<in> {1, 2, 3}
      \<and> (case u of None \<Rightarrow> version \<noteq> 1 | Some i \<Rightarrow> version = 1 \<and> 0 \<le> i \<and> t + i \<le> max_safe_integer))"

lemma observation_json:
  "observation_ok version t u \<Longrightarrow> json_ok (uncertainty_val u) \<and> int_printable t \<and> int_printable version"
  by (auto simp: observation_ok_def max_safe_integer_def uncertainty_val_def intro!: int_printable_64
      split: option.splits)

lemma job_reads_back:
  assumes "wf_event e" "event_printable e" "observation_ok version t u"
    and "hex_string 64 digest" "hex_string 64 gid" "hex_string 64 policy" "hex_string 64 pubkey"
  shows "loads (dumps style_default (VDict (job_of e digest version t u gid policy pubkey)))
    = Inr (VDict (job_of e digest version t u gid policy pubkey))"
proof -
  have "json_ok (VDict (to_dict e))" by (rule json_ok_event [OF assms(1,2)])
  then have "json_ok (VDict (job_of e digest version t u gid policy pubkey))"
    using observation_json [OF assms(3)] assms(4-7) hex_string_encodable
    by (simp add: job_of_def del: json_ok.simps(7)) (simp add: list_all_iff)
  then show ?thesis by (rule loads_dumps)
qed

section \<open>Its receipt\<close>

definition receipt_fields_of ::
  "stored_event \<Rightarrow> pystr \<Rightarrow> int \<Rightarrow> int \<Rightarrow> int option \<Rightarrow> pystr \<Rightarrow> pystr \<Rightarrow> int \<Rightarrow> pydict" where
  "receipt_fields_of e digest version t u gid policy now =
     [(lit ''signed_event_digest'', VStr digest), (lit ''observed_at_ms'', VInt t),
      (lit ''clock_uncertainty_ms'', uncertainty_val u), (lit ''authorization_event_id'', VStr gid),
      (lit ''witness_policy_digest'', VStr policy),
      (lit ''schema'', VStr receipt_schema), (lit ''schema_version'', VInt version),
      (lit ''subject_profile'', VStr subject_profile), (lit ''event_id'', VStr (ev_id e)),
      (lit ''issued_at_ms'', VInt now), (lit ''validation'', vlit ''event-id-and-signature''),
      (lit ''observation_mode'', vlit ''live'')]
     @ (if version = 1 then [] else [(lit ''clock_accuracy'', vlit ''unspecified''),
         (lit ''clock_basis'', VStr (clock_basis version))])"

lemma receipt_body_job:
  assumes "version \<in> {1, 2, 3}"
  shows "receipt_body (job_of e digest version t u gid policy pubkey) now
    = Inr (receipt_fields_of e digest version t u gid policy now)"
proof -
  have "need (job_of e digest version t u gid policy pubkey) ''subject'' = Inr (VDict (to_dict e))"
    by (simp add: job_of_def need_def del: to_dict_def)
  then show ?thesis
    using assms holds_event_need [OF holds_event_to_dict, of e]
    by (auto simp: receipt_body_def copy_fields_def job_of_def need_def dget_or_def job_version_def
        need_object_def receipt_fields_of_def clock_basis_def py_eq_def Let_def)
qed

text \<open>An event that the witness can receipt: a validly signed commitment of kind 1415 or 1416.\<close>

definition receiptable :: "crypto \<Rightarrow> int \<Rightarrow> stored_event \<Rightarrow> bool" where
  "receiptable c now e =
     (validate_event c True now (VDict (to_dict e)) = Inr e \<and> ev_kind e \<in> {NInt 1415, NInt 1416}
      \<and> safe_int (VNum (ev_created_at e)))"

lemma receipt_fields_json:
  assumes "observation_ok version t u" "0 \<le> now" "now \<le> max_safe_integer" "wf_event e"
    and "hex_string 64 digest" "hex_string 64 gid" "hex_string 64 policy"
  shows "json_ok (VDict (receipt_fields_of e digest version t u gid policy now))"
proof -
  have "int_printable now" using assms(2,3) by (intro int_printable_64) (simp_all add: max_safe_integer_def)
  moreover have "hex_string 64 (ev_id e)" using assms(4) unfolding wf_event_def by blast
  ultimately show ?thesis
    using observation_json [OF assms(1)] assms(5-7) hex_string_encodable
    by (simp add: receipt_fields_of_def receipt_schema_def subject_profile_def clock_basis_def)
qed

lemma receipt_fields_keys:
  "version \<in> {1, 2, 3} \<Longrightarrow>
    set (map fst (receipt_fields_of e digest version t u gid policy now)) = receipt_fields version"
  by (auto simp: receipt_fields_of_def receipt_fields_def)

lemma made_receipt_for:
  assumes o: "observation_ok version t u" and now: "t \<le> now" "now \<le> max_safe_integer"
    and hex: "hex_string 64 gid" "hex_string 64 policy" and e: "wf_event e"
    and d: "sort_keys (VDict (receipt_fields_of e (sha256_hex (digest_input e)) version t u gid policy now)) = VDict d"
    and r: "ev_content r = canonical_json (receipt_fields_of e (sha256_hex (digest_input e)) version t u gid policy now)"
      "ev_created_at r = NInt (now div 1000)"
      "ev_tags r = [[lit ''e'', ev_id e], [lit ''p'', ev_pubkey e], [lit ''k'', num_str (ev_kind e)],
                     [lit ''t'', lit ''spurline-observation-receipt-v'' @ int_text version]]"
  shows "receipt_for r e version d" "loads (ev_content r) = Inr (VDict d)"
proof -
  let ?b = "receipt_fields_of e (sha256_hex (digest_input e)) version t u gid policy now"
  have v: "version \<in> {1, 2, 3}" "0 \<le> t" using o by (simp_all add: observation_ok_def)
  have "json_ok (VDict ?b)"
    using receipt_fields_json [OF o _ now(2) e _ hex] v(2) now sha256_hex_digits by (simp add: hex_string_def)
  note s = sorted_dict [OF this d]
  then show "loads (ev_content r) = Inr (VDict d)" by (simp add: r)
  have f: "dget ?b ''schema'' = VStr receipt_schema" "dget ?b ''schema_version'' = VInt version"
    "dget ?b ''subject_profile'' = VStr subject_profile" "dget ?b ''validation'' = vlit ''event-id-and-signature''"
    "dget ?b ''observation_mode'' = vlit ''live''" "dget ?b ''observed_at_ms'' = VInt t"
    "dget ?b ''issued_at_ms'' = VInt now" "dget ?b ''clock_uncertainty_ms'' = uncertainty_val u"
    "dget ?b ''witness_policy_digest'' = VStr policy" "dget ?b ''authorization_event_id'' = VStr gid"
    "dget ?b ''event_id'' = VStr (ev_id e)" "dget ?b ''signed_event_digest'' = VStr (sha256_hex (digest_input e))"
    "version \<noteq> 1 \<Longrightarrow> dget ?b ''clock_accuracy'' = vlit ''unspecified''"
    "version \<noteq> 1 \<Longrightarrow> dget ?b ''clock_basis'' = VStr (clock_basis version)"
    by (simp_all add: receipt_fields_of_def dget_def)
  have u: "sort_keys (uncertainty_val u) = uncertainty_val u"
    by (simp add: uncertainty_val_def split: option.split)
  note g = s(3) [of "''schema''"] s(3) [of "''schema_version''"] s(3) [of "''subject_profile''"]
    s(3) [of "''validation''"] s(3) [of "''observation_mode''"] s(3) [of "''observed_at_ms''"]
    s(3) [of "''issued_at_ms''"] s(3) [of "''clock_uncertainty_ms''"] s(3) [of "''witness_policy_digest''"]
    s(3) [of "''authorization_event_id''"] s(3) [of "''event_id''"] s(3) [of "''signed_event_digest''"]
    s(3) [of "''clock_accuracy''"] s(3) [of "''clock_basis''"]
  have "set (map fst d) = receipt_fields version" using s(2) receipt_fields_keys [OF v(1)] by metis
  moreover have "check_profile d = Inr ()"
    using v(2) now by (simp add: check_profile_def g f safe_int_def)
  moreover have "check_uncertainty version d = Inr ()"
  proof (cases u)
    case None
    then have "version \<noteq> 1" using o by (simp add: observation_ok_def)
    moreover have "uncertainty_val u = VNone" using None by (simp add: uncertainty_val_def)
    ultimately show ?thesis by (simp add: check_uncertainty_def g f)
  next
    case (Some i)
    then have "uncertainty_val u = VInt i" by (simp add: uncertainty_val_def)
    then have "dget d ''clock_uncertainty_ms'' = VInt i" "dget d ''observed_at_ms'' = VInt t"
      by (simp_all add: g f)
    with Some show ?thesis using o
      by (simp add: check_uncertainty_def observation_ok_def safe_int_def)
  qed
  moreover have "ev_content r = canonical_json d" by (simp add: r canonical_idem [OF d])
  ultimately show "receipt_for r e version d"
    using v(1) now(1) hex by (simp add: receipt_for_def g f r is_hex_def hex_string_def)
qed

lemma made_receipt:
  assumes st: "stroma_ok (o_crypto w) (o_stroma w)" and k: "priv_key (o_stroma w) (own_key s) = Some (hex, np)"
    and e: "receiptable (o_crypto w) (o_now w) e" and o: "observation_ok version t u"
    and now: "t \<le> now" "now \<le> max_safe_integer" "now div 1000 \<le> o_now w + 900"
    and hex: "hex_string 64 gid" "hex_string 64 policy"
  shows "\<exists>r d. sign_receipt w s (job_of e (sha256_hex (digest_input e)) version t u gid policy pubkey) now = Inr r
    \<and> verify_receipt (o_crypto w) (o_now w) (VDict (to_dict r)) (VDict (to_dict e)) = Inr d
    \<and> storable r \<and> ev_pubkey r = hex"
proof -
  let ?job = "job_of e (sha256_hex (digest_input e)) version t u gid policy pubkey"
  let ?b = "receipt_fields_of e (sha256_hex (digest_input e)) version t u gid policy now"
  let ?tags = "[[lit ''e'', ev_id e], [lit ''p'', ev_pubkey e], [lit ''k'', num_str (ev_kind e)],
               [lit ''t'', lit ''spurline-observation-receipt-v'' @ int_text version]]"
  let ?r = "sign_event (o_stroma w) (own_key s) witness_kind (now div 1000) (canonical_json ?b) ?tags"
  have v: "version \<in> {1, 2, 3}" "0 \<le> t" using o by (simp_all add: observation_ok_def)
  have ve: "validate_event (o_crypto w) True (o_now w) (VDict (to_dict e)) = Inr e"
    and kind: "ev_kind e \<in> {NInt 1415, NInt 1416}" and tm: "safe_int (VNum (ev_created_at e))"
    using e by (simp_all add: receiptable_def)
  have wf: "wf_event e" using ve by (simp add: validate_event_iff)
  have "json_ok (VDict ?b)"
    using receipt_fields_json [OF o _ now(2) wf _ hex] v(2) now sha256_hex_digits by (simp add: hex_string_def)
  note c = encodable_canonical [OF this]
  have "hex_string 64 (ev_id e)" "hex_string 64 (ev_pubkey e)" using wf unfolding wf_event_def by blast+
  then have "encodable (ev_id e)" "encodable (ev_pubkey e)" by (simp_all add: hex_string_encodable)
  moreover have "encodable (num_str (ev_kind e))"
    using kind by auto
  ultimately have "list_all (list_all encodable) ?tags" by simp
  from stroma_sign [OF st k c this] have r: "signed_by (o_crypto w) hex witness_kind (now div 1000) (canonical_json ?b) ?tags ?r" .
  then have vr: "validate_event (o_crypto w) True (o_now w) (VDict (to_dict ?r)) = Inr ?r"
    using now(3) by (auto simp: signed_by_def validate_event_iff)
  obtain d where d: "sort_keys (VDict ?b) = VDict d" by simp
  have f: "receipt_for ?r e version d" "loads (ev_content ?r) = Inr (VDict d)"
    using r by (intro made_receipt_for [OF o now(1,2) hex wf d]; simp add: signed_by_def)+
  have ok: "verify_receipt (o_crypto w) (o_now w) (VDict (to_dict ?r)) (VDict (to_dict e)) = Inr d"
    unfolding verify_receipt_iff
    by (rule exI [of _ ?r], rule exI [of _ e], rule exI [of _ version])
      (use vr ve kind tm f r in \<open>simp add: signed_by_def witness_kind_def\<close>)
  have sj: "need ?job ''subject'' = Inr (VDict (to_dict e))" "job_version ?job = VInt version"
    by (simp_all add: job_of_def need_def job_version_def dget_or_def del: to_dict_def)
  have tg: "receipt_tags (to_dict e) version = Inr ?tags"
    using receipt_tags_holds [OF holds_event_to_dict] v(1) by simp
  have "sign_receipt w s ?job now = Inr ?r"
    using ok vr by (simp add: sign_receipt_def receipt_body_job [OF v(1)] sj need_object_def tg own_pubkey_def k Let_def)
  moreover have "fits64 (now div 1000)" "fits64 1418"
    using v(2) now by (auto simp: fits64_def max_safe_integer_def)
  then have "storable ?r" using r by (auto simp: storable_def signed_by_def witness_kind_def)
  ultimately show ?thesis using ok r by (auto simp: signed_by_def)
qed

section \<open>What the authority says\<close>

lemma auto_view_parts:
  assumes "auto_view w s a = (Inr view, b)" "stroma_ok (o_crypto w) (o_stroma w)"
    and "encodable (service_management s)"
  shows "\<exists>g. verified_grantor w s a = (Inr g, b) \<and> witness_view_of w s g b = Inr view \<and> grantor_ok g"
proof -
  obtain g c where g: "verified_grantor w s a = (Inr g, c)" "read_view w s g c = (Inr view, b)"
    using assms(1) by (auto simp: auto_view_def abind_eq_Inr)
  moreover obtain service operator where "parties (o_stroma w) g service operator"
    using verified_parties [OF g(1) assms(2,3)] by blast
  ultimately show ?thesis by (auto simp: read_view_def areads_def parties_def)
qed

lemma permitted_status:
  assumes "witness_view_of w s g a = Inr v" "vw_permitted v"
    and "stroma_ok (o_crypto w) (o_stroma w)" "grantor_ok g"
  shows "\<exists>es gid policy. vw_status v = Some es \<and> es_authorization_id es = Some gid \<and> hex_string 64 gid
    \<and> es_policy_sha256 es = VStr policy \<and> hex_string 64 policy"
proof -
  obtain grant es where g: "latest_grant (vw_history v) = Some grant" "vw_status v = Some es"
    "check_witness_evidence w g grant False = Inr es" using permitted_view [OF assms(1,2)] by blast
  from g(1) have "is_grant grant" by (blast dest: latest_grant_SomeD)
  from check_grantD [OF g(3) this] obtain request content event where
    c: "verify_witness_request w (dget grant ''request'') g (dget grant ''policy'') False
       = Inr (request, content)"
    "verify_authorization w (dget grant ''authorization'') request content = Inr event"
    "es_authorization_id es = Some (ev_id event)" "es_policy_sha256 es = dget content ''policy_sha256''" by metis
  from verify_witness_requestD [OF c(1)] obtain service operator raw renewal where
    "request_says w g (dget grant ''policy'') request content service operator raw renewal" by metis
  note f = request_field [OF this assms(3,4)]
  have "wf_event event"
    using verify_authorizationD(1) [OF c(2)] by (simp add: valid_event_iff [OF assms(3)] validate_event_iff)
  then have "hex_string 64 (ev_id event)" unfolding wf_event_def by blast
  moreover have "hex_string 64 (sha256_hex raw)" by (simp add: hex_string_def sha256_hex_digits)
  ultimately show ?thesis using g(2) c(3,4) f(2) by auto
qed

lemma sampled_observation:
  assumes "sample (witness_clock_mode s) rd ck = (Inr (now, u), ck')"
    and "witness_receipt_version s = Inr version" "0 \<le> to_ms (rd_wall rd)"
    and "to_ms (rd_wall rd) + 1000 \<le> max_safe_integer"
  shows "observation_ok version now u"
proof -
  let ?m = "witness_clock_mode s"
  have f: "fst (sample ?m rd ck) = Inr (now, u)" using assms(1) by simp
  have n: "now = to_ms (rd_wall rd)" by (rule sample_now [OF f])
  have v: "?m = lit ''bounded'' \<and> version = 1 \<or> ?m = lit ''operational'' \<and> version = 2
    \<or> ?m = lit ''system'' \<and> version = 3"
    using assms(2) by (auto simp: witness_receipt_version_def split: if_splits)
  have "case u of None \<Rightarrow> version \<noteq> 1 | Some i \<Rightarrow> version = 1 \<and> 0 \<le> i \<and> i \<le> 1000"
    using v f
    by (auto simp: sample_def Let_def rbind_eq_Inr recast_eq_Inr check_health_iff bounded_health_iff
        operational_health_iff within_def split: if_splits)
  then show ?thesis using v assms(3,4) by (auto simp: observation_ok_def n split: option.splits)
qed

section \<open>An accepted observation is receipted\<close>

text \<open>What \<open>accept\<close> queues.\<close>

lemma queued_job:
  assumes "accept w s rd e au = (Inr ins, au')" "witness_jobs (au_store au') = witness_jobs (au_store au) @ [row]"
    and "stroma_ok (o_crypto w) (o_stroma w)" "settings_ok (o_stroma w) s"
    and "0 \<le> to_ms (rd_wall rd)" "to_ms (rd_wall rd) + 1000 \<le> max_safe_integer"
  shows "\<exists>version t u gid policy pubkey. observation_ok version t u \<and> hex_string 64 gid \<and> hex_string 64 policy
    \<and> t = to_ms (rd_wall rd) \<and> receiptable (o_crypto w) (o_now w) e
    \<and> load_job row = Inr (job_of e (sha256_hex (digest_input e)) version t u gid policy pubkey)"
proof -
  have "witness_jobs (au_store au') \<noteq> witness_jobs (au_store au)" using assms(2) by simp
  from accept_adds_job [OF assms(1) this] obtain digest view now u a ck job where
    j: "signed_event_digest (o_crypto w) (o_now w) (VDict (to_dict e)) = Inr digest"
      "auto_view w s (open_for_writing (au_admin au)) = (Inr view, a)" "vw_permitted view"
      "sample (witness_clock_mode s) rd (au_clock au) = (Inr (now, u), ck)"
      "observed_job w s e digest view now u = Inr job"
      "j_inputs row = dumps style_default (VDict job)"
    using assms(2) by auto
  have "num_val (ev_kind e) \<in> {1415, 1416}"
  proof (rule ccontr)
    assume "\<not> ?thesis"
    then have "accept w s rd e au = plain_save e au" by (simp add: accept_def)
    with assms(1,2) show False by (auto simp: plain_save_def on_store_Inr dest: save_keeps_jobs)
  qed
  obtain e' where e': "validate_event (o_crypto w) True (o_now w) (VDict (to_dict e)) = Inr e'"
    "digest = sha256_hex (digest_input e')" "safe_int (VNum (ev_kind e'))" "safe_int (VNum (ev_created_at e'))"
    using j(1) by (auto simp: signed_event_digest_iff)
  have ee: "e' = e" using e'(1) holds_event_inject holds_event_to_dict by (auto simp: validate_event_iff)
  have m: "encodable (service_management s)"
    using assms(4) by (auto simp: settings_ok_def management_modes_def)
  obtain g where "witness_view_of w s g a = Inr view" "grantor_ok g"
    using auto_view_parts [OF j(2) assms(3) m] by blast
  from permitted_status [OF this(1) j(3) assms(3) this(2)] obtain es gid policy where
    es: "vw_status view = Some es" "es_authorization_id es = Some gid" "hex_string 64 gid"
      "es_policy_sha256 es = VStr policy" "hex_string 64 policy" by blast
  obtain version pubkey where vp: "witness_receipt_version s = Inr version" "own_pubkey w s = Inr pubkey"
    "job = job_of e digest version now u gid policy pubkey"
    using j(5) es by (auto simp: observed_job_def rbind_eq_Inr view_status_def job_of_def)
  have o: "observation_ok version now u" by (rule sampled_observation [OF j(4) vp(1) assms(5,6)])
  have "hex_string 64 pubkey"
    using vp(2) stroma_priv [OF assms(3)] by (auto simp: own_pubkey_def key_pair_def split: option.splits)
  moreover have "wf_event e" "event_printable e"
    using e' ee by (auto simp: validate_event_iff event_printable_def safe_int_iff max_safe_integer_def
        num_printable_def intro!: int_printable_64)
  ultimately have "load_job row = Inr job"
    using job_reads_back [OF _ _ o, of e digest gid policy pubkey] es e'(2) sha256_hex_digits j(6)
    by (simp add: load_job_def vp(3) hex_string_def need_object_def del: dumps.simps)
  moreover have "now = to_ms (rd_wall rd)" using j(4) sample_now [of "witness_clock_mode s" rd "au_clock au"] by simp
  moreover have "receiptable (o_crypto w) (o_now w) e"
    using e' ee \<open>num_val (ev_kind e) \<in> {1415, 1416}\<close> by (auto simp: receiptable_def safe_int_iff)
  ultimately show ?thesis using o es(3,5) e'(2) ee vp(3) by blast
qed

lemma issue_time_granted:
  assumes "auto_view w s (au_admin au) = (Inr view, a)"
    and "sample (witness_clock_mode s) rd (au_clock au) = (Inr (now, u), ck)"
    and "still_valid w s job view now u = Inr True"
  shows "issue_time w s rd job au = (Inr (Some now), au\<lparr>au_admin := a, au_clock := ck\<rparr>)"
  using assms by (simp add: issue_time_def acatch_def abind_apply on_admin_def on_clock_def)

lemma issue_completes:
  assumes "o_db_fault w = None" "first_row digest (au_store au) = Inr row" "j_state row = Pending"
    and "load_job row = Inr job"
    and "auto_view w s (open_for_writing (au_admin au)) = (Inr view, a)"
    and "sample (witness_clock_mode s) rd (au_clock au) = (Inr (now, u), ck)"
    and "still_valid w s job view now u = Inr True" "sign_receipt w s job now = Inr r"
    and "save r None 1000 (Some digest) (au_store au) = Inr (st, ins)"
  shows "issue w s rd digest au = (Inr (), au\<lparr>au_admin := a, au_clock := ck, au_store := st\<rparr>)"
proof -
  let ?au = "au\<lparr>au_admin := open_for_writing (au_admin au)\<rparr>"
  have "issue_time w s rd job ?au = (Inr (Some now), ?au\<lparr>au_admin := a, au_clock := ck\<rparr>)"
    using assms(5-7) by (intro issue_time_granted) simp_all
  then show ?thesis
    using assms(1-4,8,9)
    by (simp add: issue_def locked_def abind_apply on_store_def)
qed

text \<open>C5: an accepted observation gets its receipt: if \<open>accept\<close> queued a pending job and, when the worker
  comes to it, the authority still stands for that observation, then \<open>issue\<close> returns, the job is
  issued, and its receipt is a stored event, signed with the service's key, that verifies against
  the event that was accepted.\<close>

theorem receipt_issued:
  assumes "accept w0 s0 rd0 e au0 = (Inr ins, au1)"
    and "witness_jobs (au_store au1) = witness_jobs (au_store au0) @ [row]" "j_state row = Pending"
    and "stroma_ok (o_crypto w0) (o_stroma w0)" "settings_ok (o_stroma w0) s0"
    and "0 \<le> to_ms (rd_wall rd0)" "to_ms (rd_wall rd0) + 1000 \<le> max_safe_integer"
    and "same_libraries w0 w" "o_now w0 \<le> o_now w" "o_db_fault w = None"
    and "first_row (j_digest row) (au_store au) = Inr row" "store_inv (au_store au)"
    and "load_job row = Inr job" "auto_view w s (open_for_writing (au_admin au)) = (Inr view, a)"
    and "sample (witness_clock_mode s) rd (au_clock au) = (Inr (now, u), ck)"
    and "still_valid w s job view now u = Inr True"
    and "now \<le> max_safe_integer" "now div 1000 \<le> o_now w + 900"
  shows "\<exists>au' receipt body hex np. issue w s rd (j_digest row) au = (Inr (), au')
    \<and> completed receipt (j_digest row) row \<in> set (witness_jobs (au_store au'))
    \<and> j_state (completed receipt (j_digest row) row) = Issued
    \<and> ev_id receipt \<in> r_id ` set (events (au_store au'))
    \<and> priv_key (o_stroma w) (own_key s) = Some (hex, np) \<and> ev_pubkey receipt = hex
    \<and> verify_receipt (o_crypto w) (o_now w) (VDict (to_dict receipt)) (VDict (to_dict e)) = Inr body"
proof -
  obtain version t v gid policy pubkey where q: "observation_ok version t v" "hex_string 64 gid"
    "hex_string 64 policy" "receiptable (o_crypto w0) (o_now w0) e"
    "load_job row = Inr (job_of e (sha256_hex (digest_input e)) version t v gid policy pubkey)"
    using queued_job [OF assms(1,2,4-7)] by blast
  have job: "job = job_of e (sha256_hex (digest_input e)) version t v gid policy pubkey"
    using q(5) assms(13) by simp
  have st: "stroma_ok (o_crypto w) (o_stroma w)" using assms(4,8) by (simp add: same_libraries_def)
  have e: "receiptable (o_crypto w) (o_now w) e"
    using q(4) assms(8,9) by (auto simp: receiptable_def validate_event_iff same_libraries_def)
  note sv = still_valid_D [OF assms(16)]
  obtain hex np where k: "priv_key (o_stroma w) (own_key s) = Some (hex, np)"
    using sv(6) by (auto simp: own_pubkey_def split: option.splits)
  have "need job ''observed_at_ms'' = Inr (VNum (NInt t))" by (simp add: job job_of_def need_def)
  then have t: "t \<le> now" using sv(7) by auto
  obtain r d where r: "sign_receipt w s job now = Inr r"
    "verify_receipt (o_crypto w) (o_now w) (VDict (to_dict r)) (VDict (to_dict e)) = Inr d"
    "storable r" "ev_pubkey r = hex"
    using made_receipt [OF st k e q(1) t assms(17,18) q(2,3)] unfolding job by blast
  have "encodable (j_digest row)"
    using assms(11) by (auto simp: first_row_def witness_rows_def rbind_eq_Inr bind_text_def ensure_eq_Inr)
  then obtain st' ins' where sv': "save r None 1000 (Some (j_digest row)) (au_store au) = Inr (st', ins')"
    using save_completed_total [OF assms(12) r(3)] by blast
  have i: "issue w s rd (j_digest row) au = (Inr (), au\<lparr>au_admin := a, au_clock := ck, au_store := st'\<rparr>)"
    by (rule issue_completes [OF assms(10,11,3,13-16) r(1) sv'])
  have "row \<in> set (witness_jobs (au_store au))" using first_row_in [OF assms(11)] by simp
  then show ?thesis
    using i k r(2,4) save_completed [OF sv'] assms(3) by (auto simp: completed_def simp del: dumps.simps)
qed

end
