(* ===== verification/Auto_Example.thy ===== *)
theory Auto_Example
  imports Auto_Receipt Auto_Worker
begin

text \<open>
  One witness from its grant to a published receipt: the commissioned service with the two keys is
  authorized, accepts an observation, issues the receipt and broadcasts it.
\<close>

section \<open>The authorized witness\<close>

lemma toy_authorized:
  "\<exists>c v g operator r x. open_for_writing c = c \<and> auto_view (toy_world 4000) toy_settings c = (Inr v, c)
    \<and> vw_permitted v
    \<and> shows_grant (toy_world 3000) 80000 [1415] [112] [112] x (toy_world 4000) v
    \<and> requestable (toy_world 3000) g hex_a operator 80000 [1415] [112] [112]
    \<and> made_request (toy_world 3000) g hex_a operator 80000 [1415] [112] r
    \<and> made_grant (toy_world 3000) g hex_a operator 80000 [1415] [112] r 3000 x"
proof -
  let ?w = "toy_world 3000"
  obtain b g operator where g: "verified_grantor ?w toy_settings (open_for_writing b) = (Inr g, b)"
    "validate_history ?w g b = Inr []" "load_controls b = []"
    "requestable ?w g hex_a operator 80000 [1415] [112] [112]"
    using toy_witness_start by blast
  have st: "stroma_ok (o_crypto ?w) (o_stroma ?w)" by (simp add: toy_stroma_ok)
  obtain es r tp where r: "made_request ?w g hex_a operator 80000 [1415] [112] r"
    using request_operation [OF g(4) _ _ toy_policy(2) g(1,2)] by auto
  obtain tp x where x: "authorization_template ?w r = Inr tp"
    "signed_by (o_crypto ?w) (tp_pubkey tp) (tp_kind tp) (tp_created_at tp) (tp_content tp) (tp_tags tp) x"
    using toy_grant [OF g(4) r] by auto
  have mg: "made_grant ?w g hex_a operator 80000 [1415] [112] r 3000 x"
    using template_made_grant [OF g(4) r x] by (simp add: request_expiry_def request_ttl_def)
  have w: "same_libraries ?w (toy_world 4000)" by (simp add: same_libraries_def)
  let ?b = "b\<lparr>authorization_row := Some (canonical_json (request_evidence [112] r))\<rparr>"
  obtain row where tb: "commissioning_table b = Some row"
    using verified_grantor_ok [OF g(1) st] by (auto split: option.splits)
  have "db_file b"
    using arelatesD [OF kept.grantor g(1)] by (simp add: keeps_commissioning_def)
  with tb have ob: "open_for_writing (b\<lparr>history_table := z, authorization_row := y\<rparr>)
      = b\<lparr>history_table := z, authorization_row := y\<rparr>" "open_for_writing ?b = ?b" for y z
    by (simp_all add: open_for_writing_def)
  have again: "verified_grantor (toy_world 4000) toy_settings b' = (Inr g, b')"
    if "commissioning_table b' = commissioning_table b" "sentinel_file b' = sentinel_file b" for b'
    using verified_grantor_again [OF g(1) st w _ that] by simp
  have "history_table ?b = None \<or> history_table ?b = Some []" using no_history [OF g(2)] by simp
  moreover have "verified_grantor (toy_world 4000) toy_settings (open_for_writing ?b) = (Inr g, ?b)"
    using again [of ?b] unfolding ob(2) by simp
  ultimately obtain v y where
    v: "witness_view_of (toy_world 4000) toy_settings g
          (?b\<lparr>history_table := Some [(1, y)], authorization_row := Some y\<rparr>) = Inr v"
      "vw_permitted v = (\<not> suspended_now (load_controls ?b))"
      "shows_grant ?w 80000 [1415] [112] [112] x (toy_world 4000) v"
    using authorize_operation [OF g(4) r w mg, where s = toy_settings and a = ?b and b = ?b]
    by (auto simp: request_expiry_def request_ttl_def)
  let ?c = "?b\<lparr>history_table := Some [(1, y)], authorization_row := Some y\<rparr>"
  have c: "open_for_writing ?c = ?c" using ob(1) by simp
  have "auto_view (toy_world 4000) toy_settings ?c = (Inr v, ?c)"
    using again [of ?c] v(1) by (simp add: auto_view_def abind_apply read_view_def areads_def)
  moreover have "vw_permitted v" using v(2) g(3) by (simp add: load_controls_def suspended_now_def)
  ultimately show ?thesis using c v(3) g(4) r mg by metis
qed

section \<open>The event and the clock\<close>

definition toy_observed :: stored_event where
  "toy_observed = sign_event toy_stroma (lit ''nsec1a'') 1415 3900 (lit ''c'') []"

lemma toy_observed_signed: "signed_by lax_crypto hex_a 1415 3900 (lit ''c'') [] toy_observed"
  unfolding toy_observed_def by (rule stroma_sign [OF toy_stroma_ok toy_keys(1)]) simp_all

lemma toy_observed_ok: "receiptable lax_crypto 4000 toy_observed" "storable toy_observed"
  using toy_observed_signed
  by (auto simp: receiptable_def signed_by_def validate_event_iff safe_int_def max_safe_integer_def
      storable_def fits64_def)

definition toy_reading :: "byte list \<Rightarrow> reading" where
  "toy_reading raw = \<lparr>rd_wall = 4000000000000, rd_monotonic = 7, rd_file = Inr raw\<rparr>"

lemma toy_clock:
  "\<exists>raw. sample (lit ''bounded'') (toy_reading raw) (start_clock (toy_reading raw))
    = (Inr (4000000, Some 5), start_clock (toy_reading raw))"
proof -
  let ?d = "[(lit ''checked_at_ms'', VInt 4000000), (lit ''uncertainty_ms'', VInt 5),
      (lit ''synchronized'', VNum (NBool True))]"
  have "int_printable 4000000" "int_printable 5" by (rule int_printable_64; simp)+
  then have j: "json_ok (VDict ?d)" by (simp add: num_printable_def)
  then have "encodable (dumps style_ascii (VDict ?d))" by (simp add: encodable_dumps del: dumps.simps)
  then obtain raw where raw: "utf8_encode (dumps style_ascii (VDict ?d)) = Inr raw" by simp
  have "\<exists>xs. dumps style_ascii (VDict ?d) = 123 # xs" by (simp add: dumps_VDict)
  then have "take 3 raw \<noteq> [239, 187, 191]"
    using raw by (auto simp: utf8_encode_def utf8_char_def split: if_splits)
  then have l: "loads_bytes raw = Inr (VDict ?d)"
    using utf8_decode_encode [OF raw] loads_dumps [OF j] by (simp add: loads_bytes_def del: dumps.simps)
  have "sample (lit ''bounded'') (toy_reading raw) (start_clock (toy_reading raw))
    = (Inr (4000000, Some 5), start_clock (toy_reading raw))"
    by (simp add: sample_def toy_reading_def start_clock_def discontinuity_def max_drift_def Let_def to_ms_def l
        check_health_def need_def within_def bounded_health_def)
  then show ?thesis by blast
qed

section \<open>Accepting and issuing\<close>

lemma toy_mode [simp]: "witness_clock_mode toy_settings = lit ''bounded''"
    "witness_receipt_version toy_settings = Inr 1" "witness_queue_limit toy_settings = 1000"
    "witness_max_delay_seconds toy_settings = 60"
  by (simp_all add: toy_settings_def witness_receipt_version_def)

lemma toy_policy_mode:
  assumes "dget (vw_evidence v) ''policy'' = VStr [112]"
  shows "policy_allows_mode toy_settings v = Inr True"
proof -
  have "policy_markers [112] = {}"
    by (simp add: policy_markers_def splitlines_def line_break_def)
  moreover have "dget_or (vw_evidence v) ''policy'' (VStr []) = VStr [112]"
    using assms by (simp add: dget_def dget_or_def split: option.splits)
  ultimately show ?thesis by (simp add: policy_allows_mode_def expected_markers_def)
qed

abbreviation toy_digest :: pystr where
  "toy_digest \<equiv> sha256_hex (digest_input toy_observed)"

abbreviation toy_job :: "stored_event \<Rightarrow> pydict" where
  "toy_job x \<equiv> job_of toy_observed toy_digest 1 4000000 (Some 5) (ev_id x) (sha256_hex [112]) hex_a"

lemma toy_view:
  assumes sg: "shows_grant (toy_world 3000) 80000 [1415] [112] [112] x (toy_world 4000) v"
    and rq: "requestable (toy_world 3000) g hex_a operator 80000 [1415] [112] [112]"
    and r: "made_request (toy_world 3000) g hex_a operator 80000 [1415] [112] r"
    and a: "made_grant (toy_world 3000) g hex_a operator 80000 [1415] [112] r 3000 x"
    and p: "vw_permitted v"
  shows "may_observe toy_settings toy_observed v 4000000 (Some 5) = Inr True"
    "observed_job (toy_world 4000) toy_settings toy_observed toy_digest v 4000000 (Some 5) = Inr (toy_job x)"
    "still_valid (toy_world 4000) toy_settings (toy_job x) v 4000000 (Some 5) = Inr True"
proof -
  obtain es where es: "vw_status v = Some es" "grant_status (toy_world 3000) 80000 [1415] [112] x es"
    and ev: "valid_event (toy_world 4000) ''witness authorization'' (dget (vw_evidence v) ''authorization'') = Inr x"
      "has_key (lit ''authorization'') (vw_evidence v)" "dget (vw_evidence v) ''policy'' = VStr [112]"
    using sg by (auto simp: shows_grant_def)
  have st: "stroma_ok (o_crypto (toy_world 4000)) (o_stroma (toy_world 4000))" by (simp add: toy_stroma_ok)
  obtain d where d: "dget (vw_evidence v) ''authorization'' = VDict d" "holds_event d x"
    using ev(1) by (auto simp: valid_event_iff [OF st] validate_event_iff)
  then have n: "need (vw_evidence v) ''authorization'' = Inr (VDict d)"
    using ev(2) by (auto simp: need_def dget_def has_key_def)
  obtain b where b: "loads (ev_content x) = Inr (VDict b)" "map_of b (lit ''issued_at'') = Some (VInt 3000)"
    using grant_content [OF rq r a] by blast
  have gb: "grant_body v = Inr b"
    by (simp add: grant_body_def n need_object_def need_text_def holds_event_need [OF d(2)] b(1))
  have i: "in_interval v 4000000 (Some 5) = Inr True"
    using es by (simp add: in_interval_def gb need_def b(2) view_status_def grant_status_def)
  have k: "ev_kind toy_observed = NInt 1415" using toy_observed_signed by (simp add: signed_by_def)
  have l: "listed (VInt 1415) (es_subject_kinds es) = Inr True"
    using es(2) by (simp add: grant_status_def listed_def sorted_kinds_def py_eq_def)
  note m = toy_policy_mode [OF ev(3)]
  show "may_observe toy_settings toy_observed v 4000000 (Some 5) = Inr True"
    using p es(1) k l m i by (auto simp: may_observe_iff)
  have gs: "es_authorization_id es = Some (ev_id x)" "es_policy_sha256 es = VStr (sha256_hex [112])"
    using es(2) by (simp_all add: grant_status_def)
  show "observed_job (toy_world 4000) toy_settings toy_observed toy_digest v 4000000 (Some 5) = Inr (toy_job x)"
    by (simp add: observed_job_def view_status_def es(1) gs own_pubkey_def job_of_def)
  have f: "job_version (toy_job x) = VInt 1" "need (toy_job x) ''authorization_event_id'' = Inr (VStr (ev_id x))"
    "need (toy_job x) ''witness_pubkey'' = Inr (VStr hex_a)" "need (toy_job x) ''observed_at_ms'' = Inr (VInt 4000000)"
    by (simp_all add: job_of_def job_version_def dget_or_def need_def)
  show "still_valid (toy_world 4000) toy_settings (toy_job x) v 4000000 (Some 5) = Inr True"
    by (simp add: still_valid_def p m f view_status_def es(1) gs own_pubkey_def i py_eq_def)
qed

definition pending_job :: "pydict \<Rightarrow> pystr \<Rightarrow> job_row" where
  "pending_job job digest = \<lparr>j_digest = digest, j_inputs = dumps style_default (VDict job),
     j_state = Pending, j_receipt = None, j_broadcast = False\<rparr>"

lemma queued_save:
  assumes "store_inv st" "storable e" "need job ''signed_event_digest'' = Inr (VStr digest)"
    and "encodable digest" "digest \<notin> j_digest ` set (witness_jobs st)" "int (count_pending st) < q"
  shows "\<exists>st' ins. save e (Some job) q None st = Inr (st', ins)
    \<and> witness_jobs st' = witness_jobs st @ [pending_job job digest]"
proof -
  let ?js = "witness_jobs st @ [pending_job job digest]"
  have en: "enqueue_job job q st = Inr (st\<lparr>witness_jobs := ?js\<rparr>)"
    using assms(3-6) by (simp add: enqueue_job_def pending_job_def del: dumps.simps)
  have rep: "represents (stored_events st) st" using assms(1) by (simp add: store_inv_def)
  obtain st2 ins where i: "insert_event e st = Inr (st2, ins)"
    using insert_event_represents [OF rep assms(2)] by blast
  obtain ds where "record_deletions e (deletions st2) = Inr ds"
    using record_deletions_wf [OF assms(2)] by blast
  then show ?thesis
    by (cases "num_val (ev_kind e) = 5") (simp_all add: save_def en insert_event_with_jobs i)
qed

definition toy_auto :: "admin \<Rightarrow> byte list \<Rightarrow> auto" where
  "toy_auto c raw = \<lparr>au_admin = c, au_store = empty_store, au_clock = start_clock (toy_reading raw),
     au_published = []\<rparr>"

definition toy_scene :: "admin \<Rightarrow> byte list \<Rightarrow> witness_view \<Rightarrow> stored_event \<Rightarrow> bool" where
  "toy_scene c raw v x =
     (open_for_writing c = c \<and> auto_view (toy_world 4000) toy_settings c = (Inr v, c)
      \<and> sample (lit ''bounded'') (toy_reading raw) (start_clock (toy_reading raw))
          = (Inr (4000000, Some 5), start_clock (toy_reading raw))
      \<and> may_observe toy_settings toy_observed v 4000000 (Some 5) = Inr True
      \<and> observed_job (toy_world 4000) toy_settings toy_observed toy_digest v 4000000 (Some 5) = Inr (toy_job x)
      \<and> still_valid (toy_world 4000) toy_settings (toy_job x) v 4000000 (Some 5) = Inr True
      \<and> hex_string 64 (ev_id x))"

lemma toy_scene: "\<exists>c raw v x. toy_scene c raw v x"
proof -
  obtain c v g operator r x where t: "open_for_writing c = c" "auto_view (toy_world 4000) toy_settings c = (Inr v, c)"
    "vw_permitted v" "shows_grant (toy_world 3000) 80000 [1415] [112] [112] x (toy_world 4000) v"
    "requestable (toy_world 3000) g hex_a operator 80000 [1415] [112] [112]"
    "made_request (toy_world 3000) g hex_a operator 80000 [1415] [112] r"
    "made_grant (toy_world 3000) g hex_a operator 80000 [1415] [112] r 3000 x"
    using toy_authorized by metis
  have "wf_event x" using t(7) by (simp add: made_grant_def signed_by_def)
  then have "hex_string 64 (ev_id x)" unfolding wf_event_def by blast
  with t(1,2) toy_clock toy_view [OF t(4-7,3)] show ?thesis unfolding toy_scene_def by metis
qed

lemma toy_accepted:
  assumes sc: "toy_scene c raw v x"
  shows "\<exists>st ins. accept (toy_world 4000) toy_settings (toy_reading raw) toy_observed (toy_auto c raw)
      = (Inr ins, toy_auto c raw\<lparr>au_store := st\<rparr>)
    \<and> witness_jobs st = [pending_job (toy_job x) toy_digest] \<and> store_inv st"
proof -
  have d: "signed_event_digest lax_crypto 4000 (VDict (to_dict toy_observed)) = Inr toy_digest"
    unfolding signed_event_digest_iff
    by (rule exI [of _ toy_observed])
      (use toy_observed_ok(1) in \<open>auto simp: receiptable_def safe_int_def max_safe_integer_def\<close>)
  have k: "num_val (ev_kind toy_observed) = 1415" using toy_observed_signed by (simp add: signed_by_def)
  have o: "observe (toy_world 4000) toy_settings (toy_reading raw) toy_observed (toy_auto c raw)
    = (Inr (Some (v, 4000000, Some 5)), toy_auto c raw)"
    using sc by (simp add: toy_scene_def observe_def acatch_def abind_apply on_admin_def on_clock_def toy_auto_def)
  obtain st ins where st: "save toy_observed (Some (toy_job x)) 1000 None empty_store = Inr (st, ins)"
    "witness_jobs st = witness_jobs empty_store @ [pending_job (toy_job x) toy_digest]"
    using queued_save [OF store_inv_empty toy_observed_ok(2), of "toy_job x" toy_digest 1000]
      sha256_hex_digits [of "digest_input toy_observed"] hex_string_encodable [of 64 toy_digest]
    by (auto simp: job_of_def need_def empty_store_def count_pending_def hex_string_def)
  have "store_inv st" by (rule save_simulates(1) [OF store_inv_empty toy_observed_ok(2) st(1)])
  moreover have "accept (toy_world 4000) toy_settings (toy_reading raw) toy_observed (toy_auto c raw)
      = (Inr ins, toy_auto c raw\<lparr>au_store := st\<rparr>)"
    using o sc st(1)
    by (simp add: toy_scene_def accept_def k d locked_def Let_def abind_apply on_store_def toy_auto_def)
  ultimately show ?thesis using st(2) by (auto simp: empty_store_def)
qed

lemma toy_load:
  assumes "hex_string 64 (ev_id x)"
  shows "load_job (pending_job (toy_job x) toy_digest) = Inr (toy_job x)"
proof -
  have "event_printable toy_observed" "observation_ok 1 4000000 (Some 5)" "hex_string 64 hex_a"
    using toy_observed_signed
    by (auto simp: event_printable_def signed_by_def num_printable_def observation_ok_def max_safe_integer_def
        hex_a_def hex_string_replicate intro!: int_printable_64)
  then show ?thesis
    using assms toy_observed_ok(2) sha256_hex_digits
      job_reads_back [of toy_observed 1 4000000 "Some 5" toy_digest "ev_id x" "sha256_hex [112]" hex_a]
    by (simp add: load_job_def pending_job_def need_object_def storable_def hex_string_def del: dumps.simps)
qed

lemma toy_issued:
  assumes sc: "toy_scene c raw v x" and st: "witness_jobs st = [pending_job (toy_job x) toy_digest]" "store_inv st"
  shows "\<exists>st' r d. issue (toy_world 4000) toy_settings (toy_reading raw) toy_digest (toy_auto c raw\<lparr>au_store := st\<rparr>)
      = (Inr (), toy_auto c raw\<lparr>au_store := st'\<rparr>)
    \<and> witness_jobs st' = [completed r toy_digest (pending_job (toy_job x) toy_digest)] \<and> storable r
    \<and> verify_receipt lax_crypto 4000 (VDict (to_dict r)) (VDict (to_dict toy_observed)) = Inr d"
proof -
  let ?w = "toy_world 4000"
  have lib: "stroma_ok (o_crypto ?w) (o_stroma ?w)"
    "priv_key (o_stroma ?w) (own_key toy_settings) = Some (hex_a, lit ''npub1a'')"
    by (simp_all add: toy_stroma_ok)
  have ok: "receiptable (o_crypto ?w) (o_now ?w) toy_observed" "observation_ok 1 4000000 (Some 5)"
    "(4000000 :: int) \<le> 4000000" "(4000000 :: int) \<le> max_safe_integer" "(4000000 :: int) div 1000 \<le> o_now ?w + 900"
    "hex_string 64 (ev_id x)" "hex_string 64 (sha256_hex [112])"
    using toy_observed_ok(1) sc sha256_hex_digits
    by (simp_all add: observation_ok_def max_safe_integer_def toy_scene_def hex_string_def)
  obtain r d where r: "sign_receipt ?w toy_settings (toy_job x) 4000000 = Inr r"
    "verify_receipt (o_crypto ?w) (o_now ?w) (VDict (to_dict r)) (VDict (to_dict toy_observed)) = Inr d" "storable r"
    using made_receipt [OF lib ok, where pubkey = hex_a] by blast
  have e: "encodable toy_digest" using sha256_hex_digits hex_string_encodable by (simp add: hex_string_def)
  obtain st' ins where sv: "save r None 1000 (Some toy_digest) st = Inr (st', ins)"
    using save_completed_total [OF st(2) r(3) e] by blast
  have row: "first_row toy_digest st = Inr (pending_job (toy_job x) toy_digest)"
    using e by (simp add: first_row_def witness_rows_def st(1) pending_job_def)
  have "issue ?w toy_settings (toy_reading raw) toy_digest (toy_auto c raw\<lparr>au_store := st\<rparr>)
      = (Inr (), toy_auto c raw\<lparr>au_store := st\<rparr>\<lparr>au_admin := c, au_clock := start_clock (toy_reading raw), au_store := st'\<rparr>)"
    using sc toy_load [OF ok(6)] r(1) sv row
    by (intro issue_completes [where view = v and job = "toy_job x" and now = 4000000 and u = "Some 5"])
      (simp_all add: toy_scene_def toy_auto_def pending_job_def)
  moreover have "toy_auto c raw\<lparr>au_store := st\<rparr>\<lparr>au_admin := c, au_clock := start_clock (toy_reading raw), au_store := st'\<rparr>
      = toy_auto c raw\<lparr>au_store := st'\<rparr>" by (simp add: toy_auto_def)
  ultimately show ?thesis using save_completed(1) [OF sv] st(1) r(2,3) by auto
qed

section \<open>The properties at this witness\<close>

theorem accept_stores_alike_witness:
  "\<exists>c raw ins au st. accept (toy_world 4000) toy_settings (toy_reading raw) toy_observed (toy_auto c raw) = (Inr ins, au)
    \<and> length (witness_jobs (au_store au)) = 1
    \<and> save toy_observed None 1000 None empty_store = Inr (st, ins) \<and> events (au_store au) = events st
    \<and> accept (toy_world 4000) toy_settings (toy_reading raw) sample_event (toy_auto c raw)
       = (case save sample_event None 1000 None empty_store of
            Inl x \<Rightarrow> (Inl x, toy_auto c raw)
          | Inr (st, ins) \<Rightarrow> (Inr ins, (toy_auto c raw)\<lparr>au_store := st\<rparr>))"
proof -
  obtain c raw v x where "toy_scene c raw v x" using toy_scene by blast
  from toy_accepted [OF this] obtain st ins where
    a: "accept (toy_world 4000) toy_settings (toy_reading raw) toy_observed (toy_auto c raw)
      = (Inr ins, toy_auto c raw\<lparr>au_store := st\<rparr>)"
      "witness_jobs st = [pending_job (toy_job x) toy_digest]" by blast
  note alike = accept_stores_alike [where w = "toy_world 4000" and s = toy_settings
      and rd = "toy_reading raw" and au = "toy_auto c raw"]
  from alike [where e = toy_observed] a(1) obtain st' where
    "save toy_observed None 1000 None (au_store (toy_auto c raw)) = Inr (st', ins)"
    "events (au_store (toy_auto c raw\<lparr>au_store := st\<rparr>)) = events st'" by auto
  moreover have "num_val (ev_kind sample_event) \<notin> {1415, 1416}" by (simp add: sample_event_def)
  with alike [where e = sample_event] have
    "accept (toy_world 4000) toy_settings (toy_reading raw) sample_event (toy_auto c raw)
       = (case save sample_event None 1000 None empty_store of
            Inl x \<Rightarrow> (Inl x, toy_auto c raw)
          | Inr (st, ins) \<Rightarrow> (Inr ins, (toy_auto c raw)\<lparr>au_store := st\<rparr>))"
    by (simp add: toy_auto_def)
  moreover have "length (witness_jobs (au_store (toy_auto c raw\<lparr>au_store := st\<rparr>))) = 1"
    "au_store (toy_auto c raw) = empty_store" using a(2) by (simp_all add: toy_auto_def)
  ultimately show ?thesis using a(1) by metis
qed

theorem observed_with_authority_witness:
  "\<exists>c raw ins au view. accept (toy_world 4000) toy_settings (toy_reading raw) toy_observed (toy_auto c raw) = (Inr ins, au)
    \<and> length (witness_jobs (au_store au)) = 1
    \<and> auto_view (toy_world 4000) toy_settings (open_for_writing c) = (Inr view, c) \<and> vw_permitted view"
proof -
  obtain c raw v x where sc: "toy_scene c raw v x" using toy_scene by blast
  from toy_accepted [OF this] obtain st ins where
    a: "accept (toy_world 4000) toy_settings (toy_reading raw) toy_observed (toy_auto c raw)
      = (Inr ins, toy_auto c raw\<lparr>au_store := st\<rparr>)"
      "witness_jobs st = [pending_job (toy_job x) toy_digest]" by blast
  have "witness_jobs (au_store (toy_auto c raw\<lparr>au_store := st\<rparr>)) \<noteq> witness_jobs (au_store (toy_auto c raw))"
    using a(2) by (simp add: toy_auto_def empty_store_def)
  from observed_with_authority [OF a(1) this] obtain view b where
    "auto_view (toy_world 4000) toy_settings (open_for_writing (au_admin (toy_auto c raw))) = (Inr view, b)"
    "vw_permitted view" by blast
  moreover from this(1) sc have "b = c" by (simp add: toy_auto_def toy_scene_def)
  ultimately show ?thesis using a by (fastforce simp: toy_auto_def)
qed

lemma toy_settings_ok: "settings_ok toy_stroma toy_settings"
  by (simp add: settings_ok_def toy_settings_def clock_modes_def management_modes_def the_key_def)

theorem receipt_issued_witness:
  "\<exists>c raw ins au au' receipt body.
    accept (toy_world 4000) toy_settings (toy_reading raw) toy_observed (toy_auto c raw) = (Inr ins, au)
    \<and> issue (toy_world 4000) toy_settings (toy_reading raw) toy_digest au = (Inr (), au')
    \<and> ev_id receipt \<in> r_id ` set (events (au_store au'))
    \<and> verify_receipt lax_crypto 4000 (VDict (to_dict receipt)) (VDict (to_dict toy_observed)) = Inr body"
proof -
  let ?w = "toy_world 4000"
  obtain c raw v x where sc: "toy_scene c raw v x" using toy_scene by blast
  from toy_accepted [OF this] obtain st ins where
    a: "accept ?w toy_settings (toy_reading raw) toy_observed (toy_auto c raw)
      = (Inr ins, toy_auto c raw\<lparr>au_store := st\<rparr>)"
      "witness_jobs st = [pending_job (toy_job x) toy_digest]" "store_inv st" by blast
  let ?row = "pending_job (toy_job x) toy_digest" and ?au = "toy_auto c raw\<lparr>au_store := st\<rparr>"
  have e: "encodable toy_digest" using sha256_hex_digits hex_string_encodable by (simp add: hex_string_def)
  have row: "first_row (j_digest ?row) (au_store ?au) = Inr ?row"
    using e by (simp add: first_row_def witness_rows_def a(2) pending_job_def toy_auto_def)
  have h: "witness_jobs (au_store ?au) = witness_jobs (au_store (toy_auto c raw)) @ [?row]"
    using a(2) by (simp add: toy_auto_def empty_store_def)
  have "\<exists>au' receipt body hex np. issue ?w toy_settings (toy_reading raw) (j_digest ?row) ?au = (Inr (), au')
    \<and> completed receipt (j_digest ?row) ?row \<in> set (witness_jobs (au_store au'))
    \<and> j_state (completed receipt (j_digest ?row) ?row) = Issued
    \<and> ev_id receipt \<in> r_id ` set (events (au_store au'))
    \<and> priv_key (o_stroma ?w) (own_key toy_settings) = Some (hex, np) \<and> ev_pubkey receipt = hex
    \<and> verify_receipt (o_crypto ?w) (o_now ?w) (VDict (to_dict receipt)) (VDict (to_dict toy_observed)) = Inr body"
    using sc toy_load [of x] a(3)
    by (intro receipt_issued [OF a(1) h, where job = "toy_job x" and now = 4000000 and u = "Some 5" and view = v] row)
      (simp_all add: toy_scene_def toy_auto_def toy_stroma_ok toy_settings_ok same_libraries_def toy_reading_def
        to_ms_def max_safe_integer_def pending_job_def)
  with a(1) show ?thesis by (fastforce simp: pending_job_def)
qed

theorem issued_with_authority_witness:
  "\<exists>c raw st au row t. issue (toy_world 4000) toy_settings (toy_reading raw) toy_digest (toy_auto c raw\<lparr>au_store := st\<rparr>)
      = (Inr (), au)
    \<and> row \<in> set (witness_jobs st) \<and> j_state row = Pending
    \<and> (\<exists>job. load_job row = Inr job \<and> need job ''observed_at_ms'' = Inr (VNum t) \<and> num_val t = 4000000)"
proof -
  obtain c raw v x where sc: "toy_scene c raw v x" using toy_scene by blast
  from toy_accepted [OF this] obtain st where
    st: "witness_jobs st = [pending_job (toy_job x) toy_digest]" "store_inv st" by blast
  from toy_issued [OF sc this] obtain st' r where
    i: "issue (toy_world 4000) toy_settings (toy_reading raw) toy_digest (toy_auto c raw\<lparr>au_store := st\<rparr>)
      = (Inr (), toy_auto c raw\<lparr>au_store := st'\<rparr>)"
      "witness_jobs st' = [completed r toy_digest (pending_job (toy_job x) toy_digest)]" by blast
  let ?new = "completed r toy_digest (pending_job (toy_job x) toy_digest)"
  have "?new \<in> set (witness_jobs (au_store (toy_auto c raw\<lparr>au_store := st'\<rparr>)))" "j_state ?new = Issued"
    "?new \<notin> set (witness_jobs (au_store (toy_auto c raw\<lparr>au_store := st\<rparr>)))"
    using i(2) st(1) by (auto simp: completed_def pending_job_def simp del: dumps.simps)
  from issued_with_authority [OF i(1) this] obtain row job t where
    "row \<in> set (witness_jobs st)" "j_state row = Pending" "load_job row = Inr job"
    "need job ''observed_at_ms'' = Inr (VNum t)" by auto
  moreover have "job = toy_job x"
    using calculation(1,3) st(1) toy_load sc by (auto simp: toy_scene_def)
  then have "num_val t = 4000000" using calculation(4) by (auto simp: job_of_def need_def)
  ultimately show ?thesis using i(1) by blast
qed

theorem receipt_binds_subject_witness:
  "\<exists>r b1 b2. verify_receipt lax_crypto 4000 (VDict (to_dict r)) (VDict (to_dict toy_observed)) = Inr b1
    \<and> verify_receipt lax_crypto 4000 (VDict (to_dict r)) (VDict (to_dict toy_observed)) = Inr b2 \<and> b1 = b2"
proof -
  obtain c raw v x where sc: "toy_scene c raw v x" using toy_scene by blast
  from toy_accepted [OF this] obtain st where
    "witness_jobs st = [pending_job (toy_job x) toy_digest]" "store_inv st" by blast
  from toy_issued [OF sc this] obtain r d where
    "verify_receipt lax_crypto 4000 (VDict (to_dict r)) (VDict (to_dict toy_observed)) = Inr d" by blast
  with receipt_binds_subject [OF this this] show ?thesis by blast
qed

text \<open>Two passes of the worker: the first issues the receipt, the second broadcasts it.\<close>

lemma toy_pass:
  assumes "sample (lit ''bounded'') (toy_reading raw) (start_clock (toy_reading raw))
      = (Inr (4000000, Some 5), start_clock (toy_reading raw))"
    and "witness_jobs st = [row]" "j_state row = Pending \<or> j_state row = Issued \<and> \<not> j_broadcast row"
    and "process_row (toy_world 4000) toy_settings (toy_reading raw) (\<lambda>_. None) row (toy_auto c raw\<lparr>au_store := st\<rparr>)
      = (Inr (), au')"
  shows "run_pass toy_settings (\<lambda>_. None) (toy_reading raw) (replicate 32 (toy_world 4000, toy_reading raw, False))
      (toy_auto c raw\<lparr>au_store := st\<rparr>) = (Inr (), au')"
proof -
  have "replicate 32 (toy_world 4000, toy_reading raw, False)
    = (toy_world 4000, toy_reading raw, False) # replicate 31 (toy_world 4000, toy_reading raw, False)"
    by (simp add: numeral_eq_Suc)
  moreover have "check_clock toy_settings (toy_reading raw) (toy_auto c raw\<lparr>au_store := st\<rparr>)
      = (Inr (), toy_auto c raw\<lparr>au_store := st\<rparr>)"
    using assms(1) by (simp add: check_clock_def acatch_def abind_apply on_clock_def toy_auto_def)
  ultimately show ?thesis
    using assms(2-4) by (auto simp: run_pass_def abind_apply witness_rows_def)
qed

theorem worker_drains_witness:
  "\<exists>c raw x st r au. witness_jobs st = [pending_job (toy_job x) toy_digest]
    \<and> run_passes toy_settings (replicate 2 (\<lambda>_. None, toy_reading raw, replicate 32 (toy_world 4000, toy_reading raw, False)))
        (toy_auto c raw\<lparr>au_store := st\<rparr>) = (Inr (), au)
    \<and> au_published au = [r]
    \<and> (\<forall>j \<in> set (witness_jobs (au_store au)). j_state j = Unavailable \<or> j_state j = Issued \<and> j_broadcast j)"
proof -
  obtain c raw v x where sc: "toy_scene c raw v x" using toy_scene by blast
  then have ck: "sample (lit ''bounded'') (toy_reading raw) (start_clock (toy_reading raw))
      = (Inr (4000000, Some 5), start_clock (toy_reading raw))" by (simp add: toy_scene_def)
  from toy_accepted [OF sc] obtain st where
    st: "witness_jobs st = [pending_job (toy_job x) toy_digest]" "store_inv st" by blast
  let ?row = "pending_job (toy_job x) toy_digest" and ?au = "\<lambda>st. toy_auto c raw\<lparr>au_store := st\<rparr>"
  from toy_issued [OF sc st] obtain st' r where
    i: "issue (toy_world 4000) toy_settings (toy_reading raw) toy_digest (?au st) = (Inr (), ?au st')"
      "witness_jobs st' = [completed r toy_digest ?row]" "storable r" by blast
  let ?new = "completed r toy_digest ?row" and ?looks = "replicate 32 (toy_world 4000, toy_reading raw, False)"
  have p1: "run_pass toy_settings (\<lambda>_. None) (toy_reading raw) ?looks (?au st) = (Inr (), ?au st')"
    using i(1) by (intro toy_pass [OF ck st(1)]) (simp_all add: process_row_def pending_job_def)
  have new: "j_state ?new = Issued" "\<not> j_broadcast ?new" "j_digest ?new = toy_digest"
    "j_receipt ?new = Some (dumps style_default (VDict (to_dict r)))"
    by (simp_all add: completed_def pending_job_def)
  have sr: "stored_receipt ?new = Inr r"
    using loads_dumps [OF storable_json_ok [OF i(3)]] from_dict_to_dict [of r]
    by (simp add: stored_receipt_def new(4) need_object_def del: dumps.simps to_dict_def)
  have "encodable toy_digest" using sha256_hex_digits hex_string_encodable by (simp add: hex_string_def)
  then obtain st2 where u: "witness_update toy_digest False st' = Inr st2"
    by (simp add: witness_update_def)
  have p2: "run_pass toy_settings (\<lambda>_. None) (toy_reading raw) ?looks (?au st')
      = (Inr (), (?au st')\<lparr>au_published := [r], au_store := st2\<rparr>)"
    using new sr u
    by (intro toy_pass [OF ck i(2)])
      (simp_all add: process_row_def abind_apply publish_receipt_def on_store_def toy_auto_def)
  have run: "run_passes toy_settings (replicate 2 (\<lambda>_. None, toy_reading raw, ?looks)) (?au st)
      = (Inr (), (?au st')\<lparr>au_published := [r], au_store := st2\<rparr>)"
    using p1 p2 by (simp add: numeral_2_eq_2 abind_apply)
  have "\<forall>j \<in> set (witness_jobs (au_store ((?au st')\<lparr>au_published := [r], au_store := st2\<rparr>))).
      j_state j = Unavailable \<or> j_state j = Issued \<and> j_broadcast j"
    by (rule worker_drains [OF run]) (use st(1) in \<open>simp_all add: toy_auto_def pending_job_def list_all_iff\<close>)
  with st(1) run show ?thesis by fastforce
qed

end
