(* ===== verification/Receipt_Example.thy ===== *)
theory Receipt_Example
  imports Relay_Witness Auto_Example
begin

text \<open>
  A receipt reaches a subscriber: a client subscribes to everything while an observation waits in
  the queue, its query is answered, and the worker issues the receipt and announces it.
\<close>

definition all_events :: "relay_filter list" where
  "all_events = [[]]"

definition all_request :: pystr where
  "all_request = dumps style_raw (VList [vlit ''REQ'', VStr (lit ''q''), VDict []])"

lemma all_request_loads: "loads all_request = Inr (VList [vlit ''REQ'', VStr (lit ''q''), VDict []])"
  unfolding all_request_def by (rule loads_dumps) (simp add: encodable_def lit_def scalar_def)

lemma all_bounded: "filters_bounded all_events"
  by (simp add: all_events_def filters_bounded_def filter_bounded_def values_count_def)

lemma all_normalized: "normalize_filters [VDict []] = Inr all_events"
  using all_bounded by (simp add: normalize_filters_Inr all_events_def clean_filter_def List.map_filter_simps)

lemma all_match: "matches_any_filter e all_events"
  by (simp add: all_events_def matches_any_filter_def matches_filter_def get_ids_def get_authors_def
      get_kinds_def get_since_def get_until_def tag_filters_def)

lemma all_page:
  assumes "store_inv (au_store au)"
  shows "page_call False all_events au = Inr (spec_query all_events (abs_store (au_store au)))"
proof -
  have "list_all (\<lambda>f. list_all encodable (text_params f)) all_events"
    by (simp add: all_events_def text_params_def get_ids_def get_authors_def tag_filters_def)
  moreover have "validate_filter_bounds all_events = Inr ()"
    using all_bounded by (simp add: validate_filter_bounds_iff)
  ultimately have "query_params all_events = Inr ()" by (simp add: query_params_def)
  then show ?thesis using query_simulates [OF assms] by (simp add: page_call_def storage_query_def)
qed

text \<open>The subscription: connect, request, query.\<close>

lemma subscribed:
  assumes "store_inv (au_store au)"
  shows "\<exists>S. (system_step s c)\<^sup>*\<^sup>* (first_system au) S \<and> settled (sy_relay S) 0 (lit ''q'') all_events
    \<and> sy_worker S = Waiting \<and> sy_auto S = au \<and> gone (hub (sy_relay S)) = []"
proof -
  let ?E = "witness_envs s c" and ?env = "witness_env s c 0 never (False, undefined, undefined) False"
  let ?w0 = "first_world au"
  have env: "?env \<in> ?E" by (simp only: witness_envs_def) blast
  define w1 where "w1 = ?w0\<lparr>hub := snd (connect 0 (hub ?w0)), tasks := (tasks ?w0)(0 \<mapsto> Reading)\<rparr>"
  have s1: "wstep ?E ?w0 w1" unfolding w1_def by (rule wstep.open_socket) (simp add: first_world_def)
  have hub1: "hub w1 = \<lparr>connections = [(0, [])], backend = au, sent = [], gone = []\<rparr>"
    by (simp add: w1_def first_world_def connect_def)
  let ?t = "Querying (lit ''q'') all_events"
  obtain r2 where r2: "start ?env 0 all_request (hub w1) = (Inr ?t, r2)"
    "live r2 0 (lit ''q'') all_events" "backend r2 = au" "gone r2 = []"
    by (simp add: start_def read_message_def witness_env_def all_request_loads req_begin_def abind_def on_subscriptions_def all_normalized hub1
        live_def subs_of_def)
  define w2 where "w2 = w1\<lparr>hub := r2, tasks := (tasks w1)(0 \<mapsto> ?t)\<rparr>"
  have s2: "wstep ?E w1 w2"
    unfolding w2_def by (rule wstep.receive [OF _ env r2(1)]) (simp add: w1_def)
  let ?t' = "Queried (lit ''q'') (Inr (spec_query all_events (abs_store (au_store au))))"
  define w3 where "w3 = (note_query 0 ?t w2)\<lparr>hub := r2, tasks := (tasks w2)(0 \<mapsto> ?t')\<rparr>"
  have s3: "wstep ?E w2 w3"
    unfolding w3_def
    by (rule wstep.run [OF _ env])
      (simp_all add: w2_def query_call_def abind_def r2(3) witness_env_def all_page [OF assms])
  have run: "(wstep ?E)\<^sup>*\<^sup>* ?w0 w3" using s1 s2 s3 by (meson converse_rtranclp_into_rtranclp rtranclp.rtrancl_refl)
  have "(system_step s c)\<^sup>*\<^sup>* S (S\<lparr>sy_relay := w\<rparr>)" if "(wstep ?E)\<^sup>*\<^sup>* (sy_relay S) w" for S w
    using that
  proof (induction rule: rtranclp_induct)
    case (step v w)
    have "system_step s c (S\<lparr>sy_relay := v\<rparr>) (S\<lparr>sy_relay := v\<rparr>\<lparr>sy_relay := w\<rparr>)"
      using step.hyps(2) by (intro system_step.relays) simp
    with step.IH show ?case by simp
  qed simp
  from this [of "first_system au" w3] run
  have "(system_step s c)\<^sup>*\<^sup>* (first_system au) (first_system au\<lparr>sy_relay := w3\<rparr>)" by (simp add: first_system_def)
  moreover have "settled w3 0 (lit ''q'') all_events" using r2(2) by (simp add: settled_def w3_def)
  moreover have "backend (hub w3) = au" "gone (hub w3) = []" using r2(3,4) by (simp_all add: w3_def)
  ultimately show ?thesis by (intro exI [of _ "first_system au\<lparr>sy_relay := w3\<rparr>"]) (simp add: first_system_def)
qed

section \<open>The receipt\<close>

lemma clock_checked:
  assumes "sample (witness_clock_mode s) rd (au_clock (sy_auto S)) = (Inr t, au_clock (sy_auto S))"
    and "sy_worker S = Waiting"
  shows "system_step s c S (S\<lparr>sy_worker := Checked\<rparr>)"
proof -
  have "check_clock s rd (sy_auto S) = (Inr (), sy_auto S)"
    using assms(1) by (simp add: check_clock_def acatch_def abind_apply on_clock_def split: prod.splits)
  from system_step.checks [OF assms(2) this, of c] show ?thesis by (simp add: at_backend_def at_hub_def)
qed

theorem no_receipt_lost_witness:
  "\<exists>au S j r. (system_step toy_settings lax_crypto)\<^sup>*\<^sup>* (first_system au) S
    \<and> settled (sy_relay S) 0 (lit ''q'') all_events \<and> answered (sy_relay S) \<noteq> []
    \<and> witness_jobs (au_store (sy_auto S)) = [j] \<and> j_state j = Issued \<and> stored_receipt j = Inr r
    \<and> (0, event_msg (lit ''q'') r) \<in> set (sent (hub (sy_relay S)))"
proof -
  obtain c raw v x where sc: "toy_scene c raw v x" using toy_scene by blast
  then have ck: "sample (lit ''bounded'') (toy_reading raw) (start_clock (toy_reading raw))
      = (Inr (4000000, Some 5), start_clock (toy_reading raw))" by (simp add: toy_scene_def)
  from toy_accepted [OF sc] obtain st where
    st: "witness_jobs st = [pending_job (toy_job x) toy_digest]" "store_inv st" by blast
  let ?row = "pending_job (toy_job x) toy_digest" and ?au = "\<lambda>st. toy_auto c raw\<lparr>au_store := st\<rparr>"
  from toy_issued [OF sc st] obtain st' r where
    i: "issue (toy_world 4000) toy_settings (toy_reading raw) toy_digest (?au st) = (Inr (), ?au st')"
      "witness_jobs st' = [completed r toy_digest ?row]" "storable r" by blast
  let ?new = "completed r toy_digest ?row"
  have new: "j_state ?new = Issued" "\<not> j_broadcast ?new" "stored_receipt ?new = Inr r"
    using loads_dumps [OF storable_json_ok [OF i(3)]] from_dict_to_dict [of r]
    by (simp_all add: completed_def pending_job_def stored_receipt_def need_object_def
        del: dumps.simps to_dict_def)
  let ?reach = "\<lambda>S. (system_step toy_settings lax_crypto)\<^sup>*\<^sup>* (first_system (?au st)) S"
  have on: "?reach S'" if "?reach S" "system_step toy_settings lax_crypto S S'" for S S'
    using that by (rule rtranclp.rtrancl_into_rtrancl)
  obtain S where S: "?reach S" "settled (sy_relay S) 0 (lit ''q'') all_events" "sy_worker S = Waiting"
    "sy_auto S = ?au st" "gone (hub (sy_relay S)) = []"
    using subscribed [of "?au st"] st(2) by auto
  have clock: "au_clock (?au z) = start_clock (toy_reading raw)" for z by (simp add: toy_auto_def)
  define S1 where "S1 = at_backend (?au st') (Working []) S"
  have "?reach (S\<lparr>sy_worker := Checked\<rparr>)"
    by (rule on [OF S(1)], rule clock_checked) (use ck S in \<open>simp_all add: clock\<close>)
  then have "?reach (S\<lparr>sy_worker := Working [?row]\<rparr>)"
    by (rule on) (use system_step.looks [of "S\<lparr>sy_worker := Checked\<rparr>" "[?row]"] S(4) st(1) in
      \<open>simp add: witness_rows_def pending_job_def\<close>)
  then have r1: "?reach S1"
    by (rule on) (use system_step.issues [of "S\<lparr>sy_worker := Working [?row]\<rparr>" ?row "[]" False
          "toy_world 4000" toy_settings "toy_reading raw"] i(1) S(4) in
      \<open>simp add: S1_def at_backend_def at_hub_def with_fault_def pending_job_def\<close>)
  have b1: "sy_auto S1 = ?au st'" "sy_worker S1 = Working []" by (simp_all add: S1_def)
  have "?reach (S1\<lparr>sy_worker := Waiting\<rparr>)" by (rule on [OF r1], rule system_step.sleeps) (simp add: b1)
  then have "?reach (S1\<lparr>sy_worker := Checked\<rparr>)"
    by (rule on) (use clock_checked [of toy_settings "toy_reading raw" "S1\<lparr>sy_worker := Waiting\<rparr>"] ck in
      \<open>simp add: b1 clock\<close>)
  then have r2: "?reach (S1\<lparr>sy_worker := Working [?new]\<rparr>)"
    by (rule on) (use system_step.looks [of "S1\<lparr>sy_worker := Checked\<rparr>" "[?new]"] i(2) new in
      \<open>simp add: witness_rows_def b1\<close>)
  define S2 where "S2 = at_hub (announce r (hub (sy_relay S1))) (Announced r ?new []) S1"
  have r3: "?reach S2"
    by (rule on [OF r2]) (use system_step.announces [of "S1\<lparr>sy_worker := Working [?new]\<rparr>" ?new "[]" r] new in
      \<open>simp add: S2_def at_hub_def\<close>)
  have s2: "settled (sy_relay S2) 0 (lit ''q'') all_events"
    using S(2) by (simp add: S2_def S1_def announce_def broadcast_outcome settled_def)
  have "jobs_ok (au_store (?au st))" using st(1) by (simp add: jobs_ok_def job_ok_def pending_job_def)
  from no_receipt_lost [OF _ this r3 s2] st(2) have "answered (sy_relay S2) \<noteq> []" by auto
  moreover have "live (hub (sy_relay S1)) 0 (lit ''q'') all_events" "gone (hub (sy_relay S1)) = []"
    using S(2,5) by (simp_all add: S1_def settled_def)
  then have "(0, event_msg (lit ''q'') r) \<in> set (sent (hub (sy_relay S2)))"
    using broadcast_sends_live [of "hub (sy_relay S1)" 0 "lit ''q''" all_events r] all_match i(3)
    by (simp add: S2_def announce_def broadcast_outcome storable_def)
  moreover have "witness_jobs (au_store (sy_auto S2)) = [?new]"
    using i(2) by (simp add: S2_def announce_def b1)
  ultimately show ?thesis using r3 s2 new by blast
qed

theorem pass_is_steps_witness:
  "\<exists>au S. (system_step toy_settings lax_crypto)\<^sup>*\<^sup>* (first_system au) S
    \<and> count_pending (au_store au) = 1 \<and> count_pending (au_store (sy_auto S)) = 0
    \<and> sy_worker S \<in> {Waiting, Stopped}"
proof -
  obtain c raw v x where sc: "toy_scene c raw v x" using toy_scene by blast
  then have ck: "sample (lit ''bounded'') (toy_reading raw) (start_clock (toy_reading raw))
      = (Inr (4000000, Some 5), start_clock (toy_reading raw))" by (simp add: toy_scene_def)
  from toy_accepted [OF sc] obtain st where
    st: "witness_jobs st = [pending_job (toy_job x) toy_digest]" "store_inv st" by blast
  let ?row = "pending_job (toy_job x) toy_digest" and ?au = "\<lambda>st. toy_auto c raw\<lparr>au_store := st\<rparr>"
  from toy_issued [OF sc st] obtain st' r where
    i: "issue (toy_world 4000) toy_settings (toy_reading raw) toy_digest (?au st) = (Inr (), ?au st')"
      "witness_jobs st' = [completed r toy_digest ?row]" by blast
  have "run_pass toy_settings (\<lambda>_. None) (toy_reading raw) (replicate 32 (toy_world 4000, toy_reading raw, False)) (?au st)
      = (Inr (), ?au st')"
    using i(1) by (intro toy_pass [OF ck st(1)]) (simp_all add: process_row_def pending_job_def)
  moreover have "sy_auto (first_system (?au st)) = ?au st" "sy_worker (first_system (?au st)) = Waiting"
    by (simp_all add: first_system_def first_world_def)
  ultimately obtain S where S: "(system_step toy_settings lax_crypto)\<^sup>*\<^sup>* (first_system (?au st)) S"
    "sy_auto S = ?au st'" "sy_worker S \<in> {Waiting, Stopped}"
    using pass_is_steps [of "first_system (?au st)"] by metis
  have "count_pending st = 1" "count_pending st' = 0"
    using st(1) i(2) by (simp_all add: count_pending_def pending_job_def completed_def)
  with S show ?thesis by (intro exI [of _ "?au st"] exI [of _ S]) (simp add: toy_auto_def)
qed

end
