(* ===== verification/Startup.thy ===== *)
theory Startup
  imports Witness_Auth
begin

text \<open>
  The start of the relay, in \<open>spurline/main.py\<close>: what \<open>create_app\<close> decides and what the lifespan does
  to the administrative data before the first request.
\<close>

text \<open>\<open>create_app\<close>: whether there is a witness; it needs the SQLite backend.\<close>

definition create_app :: "settings \<Rightarrow> bool \<Rightarrow> bool res" where
  "create_app s sqlite_backend =
     (if witness_enabled s \<and> \<not> sqlite_backend
      then Inl (ValueError (lit ''automatic witnessing currently requires SQLiteStorage''))
      else Inr (witness_enabled s))"

text \<open>The lifespan up to its \<open>yield\<close>: the identity is bound, then the retained evidence is verified.\<close>

definition startup :: "outside \<Rightarrow> settings \<Rightarrow> (admin, unit) act" where
  "startup w s =
     abind (alift (settings_npub (o_stroma w) s)) (\<lambda>npub.
     abind (bind_identity w npub) (\<lambda>_.
     abind (service_show w s) (\<lambda>_.
     abind (witness_show w s) (\<lambda>_. areturn ()))))"

end
