(* ===== verification/Witness_History.thy ===== *)
theory Witness_History
  imports Witness_Properties Startup "HOL-Library.Sublist"
begin

text \<open>
  All administrative operations together, of the service, of the witness and the start of a relay:
  a commissioning lasts, the history of authorizations and the local controls
  are only ever appended to, and an operation that raises changes none of the evidence.
\<close>

section \<open>The operations on the data directory\<close>

datatype admin_op =
    On_Service service_op
  | Witness_Request "byte list res" int "int list" bool
  | Witness_Authorize pyval
  | Witness_Revocation_Request pyval
  | Witness_Revoke pyval
  | Witness_Control pystr pystr
  | Witness_Show
  | Witness_Verify
  | Start_Relay

definition adone :: "('s, 'a) act \<Rightarrow> ('s, unit) act" where
  "adone m = abind m (\<lambda>_. areturn ())"

fun run_admin :: "outside \<Rightarrow> settings \<Rightarrow> admin_op \<Rightarrow> (admin, unit) act" where
  "run_admin w s (On_Service opn) = run_service w s opn"
| "run_admin w s (Witness_Request file valid_for kinds renew) =
     adone (witness_request w s file valid_for kinds renew)"
| "run_admin w s (Witness_Authorize v) = adone (witness_authorize w s v)"
| "run_admin w s (Witness_Revocation_Request v) = adone (witness_revocation_request w s v)"
| "run_admin w s (Witness_Revoke v) = adone (witness_revoke w s v)"
| "run_admin w s (Witness_Control action reason) = adone (witness_control w s action reason)"
| "run_admin w s Witness_Show = adone (witness_show w s)"
| "run_admin w s Witness_Verify = adone (witness_verify w s)"
| "run_admin w s Start_Relay = startup w s"

text \<open>
  A step of any process on the data directory, whatever its settings, its clock and what goes wrong
  outside: an operation of the service or of the witness, or the start of a relay. It may succeed or
  raise.
\<close>

inductive admin_step :: "admin \<Rightarrow> admin \<Rightarrow> bool" where
  "run_admin w s opn a = (x, a') \<Longrightarrow> admin_step a a'"

inductive_cases admin_stepE: "admin_step a a'"

section \<open>What an operation may change\<close>

definition history_rows :: "admin \<Rightarrow> (int \<times> pystr) list" where
  "history_rows a = (case history_table a of None \<Rightarrow> [] | Some rows \<Rightarrow> rows)"

definition control_rows :: "admin \<Rightarrow> (pystr \<times> pystr \<times> int) list" where
  "control_rows a = (case controls_table a of None \<Rightarrow> [] | Some rows \<Rightarrow> rows)"

text \<open>The rows of the history are numbered from one, in the order they were inserted.\<close>

definition numbered :: "admin \<Rightarrow> bool" where
  "numbered a = (map fst (history_rows a) = map int [1..<length (history_rows a) + 1])"

definition appends :: "admin \<Rightarrow> admin \<Rightarrow> bool" where
  "appends a a' =
     ((numbered a \<longrightarrow> numbered a' \<and> prefix (history_rows a) (history_rows a'))
      \<and> prefix (control_rows a) (control_rows a')
      \<and> (accepted a \<longrightarrow> commissioning_table a' = commissioning_table a))"

lemma keeps_appends: "keeps_commissioning a b \<Longrightarrow> appends a b"
  by (simp add: keeps_commissioning_def appends_def numbered_def history_rows_def control_rows_def)

interpretation appended: admin_contract appends
proof
  show "reflp appends" by (simp add: reflp_def appends_def)
  show "transp appends"
  proof (rule transpI)
    fix a b c assume "appends a b" "appends b c"
    then show "appends a c"
      unfolding appends_def using accepted_cong [of b a] by (auto intro: prefix_order.trans)
  qed
  show "arelates appends (bind_identity w npub)" for w npub
    using keeps_appends bind_identity_keeps [of w npub] by (simp add: arelates_def)
  show "appends a (open_for_writing a)" for a by (rule keeps_appends [OF open_keeps])
  show "appends a b \<Longrightarrow> appends a (a\<lparr>sentinel_file := sentinel_file b\<rparr>)" for a b
    by (simp add: appends_def numbered_def history_rows_def control_rows_def)
qed

section \<open>Appending to the history\<close>

lemma validated_length:
  assumes "validate_history w g a = Inr h" "history_table a = Some rows"
  shows "length h = length rows"
proof -
  have "load_history a = Inr h"
    using assms(1) by (auto simp: validate_history_def rbind_eq_Inr split: if_splits option.splits)
  then show ?thesis using assms(2) rmap_eq_Inr_length by (fastforce simp: load_history_def)
qed

lemma validated_import:
  assumes "validate_history w g a = Inr h" "history_table a = None"
  shows "length h \<le> 1"
proof -
  have "load_history a = Inr h"
    using assms(1) by (auto simp: validate_history_def rbind_eq_Inr split: if_splits option.splits)
  then show ?thesis using assms(2) by (auto simp: load_history_def rbind_eq_Inr split: if_splits)
qed

text \<open>Importing what is there already changes nothing.\<close>

lemma import_present:
  assumes "\<And>k. k < length h \<Longrightarrow> n + int k \<in> fst ` set rows"
  shows "import_rows n h rows = rows"
  using assms
proof (induction h arbitrary: n)
  case (Cons old h)
  have "n \<in> fst ` set rows" using Cons.prems [of 0] by simp
  moreover have "import_rows (n + 1) h rows = rows"
  proof (rule Cons.IH)
    fix k assume "k < length h"
    then show "n + 1 + int k \<in> fst ` set rows" using Cons.prems [of "Suc k"] by (simp add: add.assoc)
  qed
  ultimately show ?case by (simp add: insert_or_ignore_def)
qed simp

lemma append_appends:
  assumes "validate_history w g a = Inr h \<or> h = [] \<and> history_table a = None"
  shows "appends a (snd (append_history h e a))"
proof -
  let ?b = "snd (append_history h e a)"
  have c: "commissioning_table ?b = commissioning_table a" "controls_table ?b = controls_table a"
    by (simp_all add: append_history_def Let_def split: sum.split)
  have "numbered a \<Longrightarrow> numbered ?b \<and> prefix (history_rows a) (history_rows ?b)"
  proof (cases "history_table a")
    case None
    then have "length h \<le> 1" using assms validated_import by fastforce
    then have "h = [] \<or> (\<exists>x. h = [x])" by (cases h) auto
    with None show "numbered ?b \<and> prefix (history_rows a) (history_rows ?b)"
      by (auto simp: append_history_def insert_history_def insert_or_ignore_def numbered_def
          history_rows_def)
  next
    case (Some rows)
    assume "numbered a"
    then have n: "map fst rows = map int [1..<length rows + 1]" using Some by (simp add: numbered_def history_rows_def)
    then have k: "fst ` set rows = int ` {1..length rows}"
      by (metis list.set_map atLeastLessThan_upt atLeastLessThanSuc_atLeastAtMost Suc_eq_plus1)
    have l: "length h = length rows" using assms Some validated_length by fastforce
    have "import_rows 1 h rows = rows"
    proof (rule import_present)
      fix i assume "i < length h"
      then show "1 + int i \<in> fst ` set rows" unfolding k l by (intro image_eqI [of _ _ "Suc i"]) auto
    qed
    moreover have "int (length rows) + 1 \<notin> fst ` set rows" unfolding k by auto
    ultimately have "history_table ?b = Some (rows @ [(int (length rows) + 1, canonical_json e)])"
      using Some l by (simp add: append_history_def insert_history_def)
    with n Some show "numbered ?b \<and> prefix (history_rows a) (history_rows ?b)"
      by (simp add: numbered_def history_rows_def)
  qed
  with c show ?thesis by (simp add: appends_def control_rows_def)
qed

lemma write_authorization_appends: "arelates appends (write_authorization e)"
  by (simp add: write_authorization_def appends_def numbered_def history_rows_def control_rows_def)

lemma add_control_appends: "arelates appends (add_control x y t)"
  by (simp add: add_control_def appends_def numbered_def history_rows_def control_rows_def split: option.split)

section \<open>Every operation\<close>

context step_contract begin

lemma finished: "arelates R m \<Longrightarrow> arelates R (adone m)"
  unfolding adone_def by (intro closed)

end

text \<open>What the pieces that write keep, the operations keep.\<close>

context admin_contract begin

lemma started: "arelates R (startup w s)"
  unfolding startup_def by (intro closed binding service_shown witness_shown)

lemma requested:
  assumes "\<And>h e. arelates R (append_history h e)" "\<And>e. arelates R (write_authorization e)"
  shows "arelates R (witness_request w s file valid_for kinds renew)"
  unfolding witness_request_def witness_request_body_def Let_def
  by (intro closed connected grantor assms)

lemma authorized:
  assumes "\<And>h e. arelates R (append_history h e)" "\<And>e. arelates R (write_authorization e)"
  shows "arelates R (witness_authorize w s event)"
  unfolding witness_authorize_def authorize_body_def new_authorization_def Let_def
  by (intro closed connected grantor viewed assms)

lemma revoked:
  assumes "\<And>h e. arelates R (append_history h e)" "\<And>e. arelates R (write_authorization e)"
  shows "arelates R (witness_revoke w s event)"
  unfolding witness_revoke_def revoke_body_def by (intro closed connected grantor viewed assms)

lemma controlled:
  assumes "\<And>x y t. arelates R (add_control x y t)"
  shows "arelates R (witness_control w s action reason)"
  unfolding witness_control_def control_body_def by (intro closed connected grantor viewed assms)

lemma service_run:
  assumes "\<And>d. arelates R (write_commissioning d)"
  shows "arelates R (run_service w s opn)"
proof -
  have accept: "arelates R (accept_attestation w s npub v d)" for npub v d
    unfolding accept_attestation_def Let_def by (intro closed evidence assms)
  have "arelates R (service_request w s p)" "arelates R (service_commission w s v)" for p v
    unfolding service_request_def request_body_def service_commission_def commission_body_def
    by (intro closed connected identity evidence accept assms)+
  then show ?thesis by (cases opn) (simp_all add: closed service_shown service_verified)
qed

end

text \<open>The import of a legacy authorization before a renewal.\<close>

lemma import_appends:
  "arelates appends (\<lambda>a. if h \<noteq> [] \<and> history_table a = None then append_history [] (hd h) a else (Inr (), a))"
  using append_appends [where h = "[]"] appended.same by (auto simp: arelates_def)

lemmas appends_intros = appended.closed appended.grantor appended.viewed appended.connected
  write_authorization_appends add_control_appends import_appends

lemma request_appends: "arelates appends (witness_request w s file valid_for kinds renew)"
  unfolding witness_request_def witness_request_body_def Let_def by (intro appends_intros)

lemma new_authorization_appends:
  assumes "validate_history w g a = Inr h"
  shows "appends a (snd (new_authorization w g h ev event a))"
proof -
  have "appends a (snd (abind (append_history h e) (\<lambda>_. write_authorization e) a))" for e
    using assms by (intro appended.followed append_appends [of w g] appends_intros) simp
  then show ?thesis
    using appended.same
    by (simp add: new_authorization_def Let_def abind_lift_apply split: sum.split)
qed

lemma authorize_appends: "arelates appends (witness_authorize w s event)"
proof -
  have "appends a (snd ((if in_history ''authorization'' event h then read_view w s g
      else abind (areads load_authorization) (\<lambda>evidence.
        if evidence = [] then araise (CE ''no witness request is pending'')
        else abind (if is_grant evidence then
              (if \<not> py_eq (dget evidence ''authorization'') event
               then araise (CE ''witness authorization already exists'')
               else abind (alift (check_witness_evidence w g evidence False)) (\<lambda>_. areturn ()))
            else new_authorization w g h evidence event) (\<lambda>_. read_view w s g))) a))"
    if h: "validate_history w g a = Inr h" for a g h
  proof -
    have "appends a (snd (abind (if is_grant evidence then
              (if \<not> py_eq (dget evidence ''authorization'') event
               then araise (CE ''witness authorization already exists'')
               else abind (alift (check_witness_evidence w g evidence False)) (\<lambda>_. areturn ()))
            else new_authorization w g h evidence event) (\<lambda>_. read_view w s g) a))" for evidence
    proof (rule appended.followed [OF _ appended.viewed], cases "is_grant evidence")
      case True
      then show "appends a (snd ((if is_grant evidence then
              (if \<not> py_eq (dget evidence ''authorization'') event
               then araise (CE ''witness authorization already exists'')
               else abind (alift (check_witness_evidence w g evidence False)) (\<lambda>_. areturn ()))
            else new_authorization w g h evidence event) a))"
        by (simp only: if_True) (intro appended.at appends_intros)
    qed (simp add: new_authorization_appends [OF h])
    then show ?thesis
      using appended.at [OF appended.viewed] appended.at [OF appended.pure(2)]
      by (auto intro!: appended.checked)
  qed
  then have "arelates appends (authorize_body w s event)"
    unfolding authorize_body_def by (intro appended.sequence appended.grantor appended.reading)
  then show ?thesis unfolding witness_authorize_def by (rule appended.connected)
qed

lemma revoke_appends: "arelates appends (witness_revoke w s event)"
proof -
  have "appends a (snd ((if in_history ''revocation'' event h then read_view w s g
     else
     abind (alift (valid_event w ''revocation'' event)) (\<lambda>verified.
     if time_of verified > o_now w then araise (CE ''revocation cannot be future-dated'')
     else
     abind (append_history h [(lit ''revocation'', event)]) (\<lambda>_.
     abind (areads (validate_history w g)) (\<lambda>_.
     case latest_grant h of
       None \<Rightarrow> araise StopIteration
     | Some latest \<Rightarrow>
         abind (write_authorization latest) (\<lambda>_. read_view w s g))))) a))"
    if h: "validate_history w g a = Inr h" for a g h
  proof -
    have "appends a (snd (abind (append_history h [(lit ''revocation'', event)]) (\<lambda>_.
     abind (areads (validate_history w g)) (\<lambda>_.
     case latest_grant h of
       None \<Rightarrow> araise StopIteration
     | Some latest \<Rightarrow>
         abind (write_authorization latest) (\<lambda>_. read_view w s g))) a))"
      using h by (intro appended.followed append_appends [of w g] appends_intros) simp
    then show ?thesis
      using appended.at [OF appended.viewed] appended.at [OF appended.pure(2)]
      by (auto intro!: appended.checked)
  qed
  then have "arelates appends (revoke_body w s event)"
    unfolding revoke_body_def by (intro appended.sequence appended.grantor appended.reading)
  then show ?thesis unfolding witness_revoke_def by (rule appended.connected)
qed

lemma control_appends: "arelates appends (witness_control w s action reason)"
  unfolding witness_control_def control_body_def by (intro appends_intros)

lemma run_service_appends: "arelates appends (run_service w s opn)"
  using run_service_keeps [of w s opn] keeps_appends by (simp add: arelates_def)

lemma run_admin_appends: "arelates appends (run_admin w s opn)"
  by (cases opn)
    (simp_all add: appended.finished request_appends authorize_appends revoke_appends control_appends
      appended.revocation_requested appended.witness_shown appended.witness_verified run_service_appends
      appended.started)

lemma admin_step_appends: "admin_step a a' \<Longrightarrow> appends a a'"
  by (auto elim!: admin_stepE dest: arelatesD [OF run_admin_appends])

text \<open>C14: the witness history is append-only: from a data directory whose history is numbered from
  one, such as an empty one, any sequence of administrative operations of any processes, with any
  settings, clocks, arguments and failures, keeps every row of the history and every control in
  place, only adds to their ends, keeps the numbering, and never replaces an accepted commissioning.\<close>

theorem history_append_only:
  assumes "admin_step\<^sup>*\<^sup>* a a'" "numbered a"
  shows "numbered a' \<and> prefix (history_rows a) (history_rows a')
    \<and> prefix (control_rows a) (control_rows a')
    \<and> (accepted a \<longrightarrow> commissioning_table a' = commissioning_table a)"
proof -
  have "appends a a'" by (rule appended.steps [OF admin_step_appends assms(1)])
  with assms(2) show ?thesis by (simp add: appends_def)
qed

text \<open>The request and the grant of the toy witness are two such steps.\<close>

theorem history_append_only_witness:
  "\<exists>a a'. admin_step\<^sup>*\<^sup>* a a' \<and> history_rows a = [] \<and> length (history_rows a') = 1 \<and> numbered a'"
proof -
  let ?w = "toy_world 3000"
  obtain b g operator where g: "verified_grantor ?w toy_settings (open_for_writing b) = (Inr g, b)"
    "validate_history ?w g b = Inr []" "load_controls b = []"
    "requestable ?w g hex_a operator 80000 [1415] [112] [112]"
    using toy_witness_start by blast
  have st: "stroma_ok (o_crypto ?w) (o_stroma ?w)" by (simp add: toy_stroma_ok)
  let ?b = "\<lambda>r. b\<lparr>authorization_row := Some (canonical_json (request_evidence [112] r))\<rparr>"
  obtain es r tp where r: "made_request ?w g hex_a operator 80000 [1415] [112] r"
    and q: "witness_request ?w toy_settings (Inr [112]) 80000 [1415] False b
      = (Inr (es, request_evidence [112] r, tp), ?b r)"
    using request_operation [OF g(4) _ _ toy_policy(2) g(1,2)] by auto
  have "run_admin ?w toy_settings (Witness_Request (Inr [112]) 80000 [1415] False) b = (Inr (), ?b r)"
    using q by (simp add: adone_def abind_apply)
  then have s1: "admin_step b (?b r)" by (rule admin_step.intros)
  obtain tp x where x: "authorization_template ?w r = Inr tp"
    "signed_by (o_crypto ?w) (tp_pubkey tp) (tp_kind tp) (tp_created_at tp) (tp_content tp) (tp_tags tp) x"
    using toy_grant [OF g(4) r] by auto
  have mg: "made_grant ?w g hex_a operator 80000 [1415] [112] r 3000 x"
    using template_made_grant [OF g(4) r x] by (simp add: request_expiry_def request_ttl_def)
  have w: "same_libraries ?w (toy_world 4000)" by (simp add: same_libraries_def)
  obtain row where "commissioning_table b = Some row"
    using verified_grantor_ok [OF g(1) st] by (auto split: option.splits)
  moreover have "db_file b"
    using arelatesD [OF kept.grantor g(1)] by (simp add: keeps_commissioning_def)
  ultimately have "open_for_writing (?b r) = ?b r" by (simp add: open_for_writing_def)
  then have g': "verified_grantor (toy_world 4000) toy_settings (open_for_writing (?b r)) = (Inr g, ?b r)"
    using verified_grantor_again [OF g(1) st w, of "?b r"] by simp
  have h: "history_table b = None \<or> history_table b = Some []" using no_history [OF g(2)] .
  then have "history_table (?b r) = None \<or> history_table (?b r) = Some []" by simp
  from authorize_operation [OF g(4) r w mg _ _ _ g' this]
  obtain v row' where "witness_authorize (toy_world 4000) toy_settings (VDict (to_dict x)) (?b r)
      = (Inr v, (?b r)\<lparr>history_table := Some [(1, row')], authorization_row := Some row'\<rparr>)"
    by (auto simp: request_expiry_def request_ttl_def)
  then obtain c where c: "witness_authorize (toy_world 4000) toy_settings (VDict (to_dict x)) (?b r) = (Inr v, c)"
    "history_table c = Some [(1, row')]" by simp
  have "run_admin (toy_world 4000) toy_settings (Witness_Authorize (VDict (to_dict x))) (?b r) = (Inr (), c)"
    using c(1) by (simp add: adone_def abind_apply)
  then have s2: "admin_step (?b r) c" by (rule admin_step.intros)
  from s1 s2 have s: "admin_step\<^sup>*\<^sup>* b c" by simp
  have rows: "history_rows b = []" using h by (auto simp: history_rows_def)
  then have "numbered b" by (simp add: numbered_def)
  from history_append_only [OF s this] have "numbered c" by blast
  moreover have "length (history_rows c) = 1" using c(2) by (simp add: history_rows_def)
  ultimately show ?thesis using s rows by blast
qed

section \<open>A commissioning lasts\<close>

text \<open>Accepted evidence, a sentinel and the database file, once there, stay.\<close>

definition lasts :: "admin \<Rightarrow> admin \<Rightarrow> bool" where
  "lasts a a' =
     ((accepted a \<longrightarrow> commissioning_table a' = commissioning_table a)
      \<and> (sentinel_file a \<noteq> Missing \<longrightarrow> sentinel_file a' = sentinel_file a)
      \<and> (db_file a \<longrightarrow> db_file a'))"

lemma keeps_lasts: "keeps_commissioning a b \<Longrightarrow> lasts a b"
  by (simp add: keeps_commissioning_def lasts_def)

interpretation lasting: admin_contract lasts
proof
  show "reflp lasts" by (simp add: reflp_def lasts_def)
  show "transp lasts"
  proof (rule transpI)
    fix a b c assume "lasts a b" "lasts b c"
    then show "lasts a c" unfolding lasts_def using accepted_cong [of b a] by simp
  qed
  show "arelates lasts (bind_identity w npub)" for w npub
    using keeps_lasts bind_identity_keeps [of w npub] by (simp add: arelates_def)
  show "lasts a (open_for_writing a)" for a by (rule keeps_lasts [OF open_keeps])
  show "lasts a b \<Longrightarrow> lasts a (a\<lparr>sentinel_file := sentinel_file b\<rparr>)" for a b by (simp add: lasts_def)
qed

lemma witness_writes_last:
  "arelates lasts (append_history h e)" "arelates lasts (write_authorization d)" "arelates lasts (add_control x y t)"
  by (simp_all add: lasts_def append_history_def Let_def write_authorization_def add_control_def arelates_def
      split: sum.split)

lemma run_admin_lasts: "arelates lasts (run_admin w s opn)"
proof (cases opn)
  case (On_Service o')
  then show ?thesis using run_service_keeps [of w s o'] keeps_lasts by (simp add: arelates_def)
qed (simp_all add: lasting.finished lasting.requested lasting.authorized lasting.revoked lasting.controlled
    lasting.revocation_requested lasting.witness_shown lasting.witness_verified lasting.started
    witness_writes_last)

lemma admin_step_lasting: "admin_step a a' \<Longrightarrow> lasts a a'"
  by (auto elim!: admin_stepE dest: arelatesD [OF run_admin_lasts])

text \<open>C17: a commissioning lasts: once \<open>commission\<close> has returned, every later \<open>verify\<close> with the same
  settings returns the same verified evidence, after any sequence of steps on the data directory by
  any process: service operations, witness operations that write to the same database, and starts of
  a relay, with any settings and clocks, whether they succeed or fail; on any machine with the same
  libraries whose clock is not behind. The evidence need only be JSON that Python prints and reads
  back.\<close>

theorem commissioning_lasts:
  assumes "service_commission w s v a = (Inr (c, ev), b)"
    and "stroma_ok (o_crypto w) (o_stroma w)" "json_ok (VDict ev)"
    and "admin_step\<^sup>*\<^sup>* b b'"
    and "o_crypto w' = o_crypto w" "o_stroma w' = o_stroma w" "o_now w \<le> o_now w'"
    and "o_db_fault w' = None"
  shows "service_verify w' s b' = (Inr c, b')"
proof -
  obtain n d where n: "settings_npub (o_stroma w) s = Inr (Some n)" "n \<noteq> []"
    "bound_to (sentinel_file b) n" "db_file b"
    and d: "load_commissioning b = Inr d" "check_evidence w d n (service_management s) = Inr c"
    using commission_retained [OF assms(1-3)] by blast
  have "accepted b" by (rule checked_accepted [OF d])
  then have b': "commissioning_table b' = commissioning_table b" "sentinel_file b' = sentinel_file b"
    "db_file b'"
    using lasting.steps [OF admin_step_lasting assms(4)] n(3,4) by (auto simp: lasts_def bound_to_def)
  have ck: "check_evidence w' d n (service_management s) = Inr c"
    using check_evidence_later [OF d(2) assms(2,5,6,7)] .
  have "service_identity w' s b' = (Inr n, b')"
    using service_identity_again [of w' s n b'] n b' assms(6) by simp
  then show ?thesis
    using ck d(1) load_commissioning_cong [OF b'(1)] b'(3) assms(8)
    by (simp add: service_verify_def connection_def abind_lift_apply verify_evidence_def abind_apply)
qed

theorem commissioning_lasts_witness:
  "\<exists>c ev b. service_commission (toy_world 3000) toy_settings (VDict (to_dict toy_attestation)) toy_pending
      = (Inr (c, ev), b)
    \<and> service_verify (toy_world 9000) toy_settings b = (Inr c, b)"
proof -
  obtain c d ev b where c: "service_commission (toy_world 3000) toy_settings
      (VDict (to_dict toy_attestation)) toy_pending = (Inr (c, ev), b)"
    and ev: "ev = [(lit ''commissioning_request'', sort_keys (VDict (to_dict toy_request))),
          (lit ''operator_attestation'', VDict (to_dict toy_attestation)),
          (lit ''service_descriptor'', VDict (to_dict d))]" "wf_event d" "event_printable d"
    using toy_commission by blast
  have "json_ok (VDict (to_dict toy_request))" "json_ok (VDict (to_dict toy_attestation))"
    "json_ok (VDict (to_dict d))"
    using json_ok_event toy_wf ev by blast+
  then have "json_ok (VDict ev)"
    using json_ok_sort_keys [of "VDict (to_dict toy_request)"] unfolding ev(1)
    by (simp del: sort_keys.simps)
  from commissioning_lasts [OF c _ this rtranclp.rtrancl_refl, of "toy_world 9000"] c show ?thesis
    by (auto simp: toy_stroma_ok)
qed

section \<open>An operation that raises\<close>

text \<open>
  What is left of the database: all of it, but for the empty commissioning table that opening it
  for writing creates.
\<close>

definition untouched :: "admin \<Rightarrow> admin \<Rightarrow> bool" where
  "untouched a a' =
     (authorization_row a' = authorization_row a \<and> history_table a' = history_table a
      \<and> controls_table a' = controls_table a
      \<and> (commissioning_table a' = commissioning_table a
         \<or> commissioning_table a = None \<and> commissioning_table a' = Some None))"

interpretation unharmed: admin_contract untouched
proof
  show "reflp untouched" by (simp add: reflp_def untouched_def)
  show "transp untouched" by (rule transpI) (auto simp: untouched_def)
  show "arelates untouched (bind_identity w npub)" for w npub
    by (auto simp: arelates_def bind_identity_def untouched_def split: prod.split)
qed (auto simp: untouched_def split: option.splits)

definition rolls_back :: "(admin, 'a) act \<Rightarrow> bool" where
  "rolls_back m = (\<forall>a x a'. m a = (Inl x, a') \<longrightarrow> untouched a a')"

lemma rolls_relates: "arelates untouched m \<Longrightarrow> rolls_back m"
  by (auto simp: rolls_back_def dest: arelatesD)

lemma rolls_connection: "rolls_back (connection w write body)"
  using unharmed.same
  by (auto simp: rolls_back_def connection_def Let_def untouched_def
      split: option.splits sum.splits prod.splits if_splits)

lemma rolls_abind:
  assumes "arelates untouched m" "\<And>x. rolls_back (k x)" shows "rolls_back (abind m k)"
  unfolding rolls_back_def
proof (intro allI impI)
  fix a x c assume r: "abind m k a = (Inl x, c)"
  obtain y b where m: "m a = (y, b)" by (cases "m a")
  have u: "untouched a b" using arelatesD [OF assms(1) m] .
  show "untouched a c"
  proof (cases y)
    case (Inr z)
    then have "k z b = (Inl x, c)" using r m by simp
    then have "untouched b c" using assms(2) [of z] by (auto simp: rolls_back_def)
    then show ?thesis using unharmed.further [OF u] by simp
  qed (use r m u in simp)
qed

text \<open>What cannot raise may follow.\<close>

lemma rolls_then:
  assumes "rolls_back m" "\<And>x a b. m a = (Inr x, b) \<Longrightarrow> \<exists>y c. k x b = (Inr y, c)"
  shows "rolls_back (abind m k)"
  unfolding rolls_back_def
proof (intro allI impI)
  fix a x c assume r: "abind m k a = (Inl x, c)"
  obtain y b where m: "m a = (y, b)" by (cases "m a")
  show "untouched a c"
  proof (cases y)
    case (Inr z)
    with assms(2) m obtain v d where "k z b = (Inr v, d)" by blast
    then show ?thesis using r m Inr by simp
  qed (use r m assms(1) in \<open>auto simp: rolls_back_def\<close>)
qed

lemma rolls_done: "rolls_back m \<Longrightarrow> rolls_back (adone m)"
  unfolding adone_def by (rule rolls_then) simp_all

lemma service_rolls: "rolls_back (run_service w s opn)"
proof (cases opn)
  case Show_Service
  then show ?thesis by (simp add: adone_def [symmetric] rolls_done rolls_relates unharmed.service_shown)
next
  case (Request_Operator p)
  have "rolls_back (service_request w s p)"
    unfolding service_request_def by (intro rolls_abind unharmed.identity rolls_connection)
  then show ?thesis by (simp add: Request_Operator adone_def [symmetric] rolls_done)
next
  case (Commission_With v)
  have "rolls_back (service_commission w s v)"
    unfolding service_commission_def by (intro rolls_abind unharmed.identity rolls_connection)
  then show ?thesis by (simp add: Commission_With adone_def [symmetric] rolls_done)
next
  case Verify_Service
  then show ?thesis by (simp add: adone_def [symmetric] rolls_done rolls_relates unharmed.service_verified)
qed

text \<open>The template of a request that was accepted can be made.\<close>

lemma accepted_request_template:
  assumes "connection w True (witness_request_body w s raw policy valid_for kinds renew) a = (Inr (es, ev, event), b)"
    and st: "stroma_ok (o_crypto w) (o_stroma w)" and m: "encodable (service_management s)"
  shows "\<exists>tp. authorization_template w event = Inr tp"
proof -
  have "witness_request_body w s raw policy valid_for kinds renew (open_for_writing a) = (Inr (es, ev, event), b)"
    using assms(1) by (auto simp: connection_def Let_def split: option.splits sum.splits prod.splits)
  then obtain g c where g: "verified_grantor w s (open_for_writing a) = (Inr g, c)"
    and ck: "check_witness_evidence w g [(lit ''request'', VDict (to_dict event)), (lit ''policy'', VStr policy)] True = Inr es"
    by (auto simp: witness_request_body_def abind_eq_Inr Let_def split: if_splits option.splits prod.splits)
  from ck obtain request content where
    v: "verify_witness_request w (VDict (to_dict event)) g (VStr policy) True = Inr (request, content)"
    by (auto simp: check_witness_evidence_def rbind_eq_Inr Let_def split: if_splits)
  from verify_witness_requestD [OF v] obtain service operator raw' renewal where
    r: "valid_event w ''witness request'' (VDict (to_dict event)) = Inr request"
    "request_says w g (VStr policy) request content service operator raw' renewal" by metis
  have "holds_event (to_dict event) request"
    using r(1) by (auto simp: valid_event_iff [OF st] validate_event_iff)
  then have "request = event" using holds_event_inject holds_event_to_dict by blast
  moreover have "grantor_ok g" using verified_parties [OF g st m] by (auto simp: parties_def)
  ultimately show ?thesis using template_exists [OF r(2) st] by blast
qed

lemma rolls_if: "rolls_back m \<Longrightarrow> rolls_back n \<Longrightarrow> rolls_back (if c then m else n)"
  by simp

lemma witness_request_rolls:
  assumes "stroma_ok (o_crypto w) (o_stroma w)" "encodable (service_management s)"
  shows "rolls_back (witness_request w s file valid_for kinds renew)"
  unfolding witness_request_def
  by (intro rolls_if rolls_abind rolls_then rolls_connection unharmed.pure rolls_relates)
    (auto dest: accepted_request_template [OF _ assms])

lemma run_admin_rolls:
  assumes "stroma_ok (o_crypto w) (o_stroma w)" "encodable (service_management s)"
  shows "rolls_back (run_admin w s opn)"
proof (cases opn)
  case (Witness_Control action reason)
  then show ?thesis
    by (simp add: witness_control_def rolls_done rolls_connection rolls_relates unharmed.pure)
qed (simp_all add: rolls_done service_rolls witness_request_rolls assms witness_authorize_def
    witness_revocation_request_def witness_revoke_def rolls_connection rolls_relates unharmed.witness_shown
    unharmed.witness_verified unharmed.started)

text \<open>An administrative operation that raises leaves the evidence as it was: the retained
  authorization, the history, the controls and the commissioning are those before it, except that
  the empty commissioning table may have been created. The management mode is that of validated
  settings, which is ASCII.\<close>

theorem failed_operation_rolls_back:
  assumes "run_admin w s opn a = (Inl x, a')"
    and "stroma_ok (o_crypto w) (o_stroma w)" "encodable (service_management s)"
  shows "authorization_row a' = authorization_row a \<and> history_table a' = history_table a
    \<and> controls_table a' = controls_table a
    \<and> (commissioning_table a' = commissioning_table a
       \<or> commissioning_table a = None \<and> commissioning_table a' = Some None)"
  using run_admin_rolls [OF assms(2,3)] assms(1) by (auto simp: rolls_back_def untouched_def)

text \<open>A signature without a commissioning is refused; the table has been created.\<close>

theorem failed_operation_rolls_back_witness:
  "\<exists>x a a'. run_admin (toy_world 3000) toy_settings (Witness_Authorize VNone) a = (Inl x, a')
    \<and> commissioning_table a = None \<and> commissioning_table a' = Some None \<and> history_table a' = None"
proof -
  let ?w = "toy_world 3000" and ?a = "toy_pending\<lparr>commissioning_table := None\<rparr>"
  have "bound_to (sentinel_file (open_for_writing ?a)) (lit ''npub1a'')"
    using bind_binds [OF bind_creates] by (simp add: toy_pending_def)
  then have "service_identity ?w toy_settings (open_for_writing ?a) = (Inr (lit ''npub1a''), open_for_writing ?a)"
    by (intro service_identity_again) simp_all
  then have "\<exists>x. verified_grantor ?w toy_settings (open_for_writing ?a) = (Inl x, open_for_writing ?a)"
    by (simp add: verified_grantor_def abind_lift_apply load_commissioning_def verify_evidence_def
        abind_apply check_evidence_def)
  then obtain x a' where r: "run_admin ?w toy_settings (Witness_Authorize VNone) ?a = (Inl x, a')"
    and "commissioning_table a' = Some None"
    by (auto simp: adone_def abind_apply witness_authorize_def connection_def authorize_body_def)
  moreover have "history_table a' = history_table ?a"
    using failed_operation_rolls_back [OF r] by (simp add: toy_stroma_ok)
  moreover have "commissioning_table ?a = None" "history_table ?a = None"
    by (simp_all add: toy_pending_def)
  ultimately show ?thesis by metis
qed

end
