(* ===== verification/Operator_Signing.thy ===== *)
theory Operator_Signing
  imports Witness_Properties Clock
begin

text \<open>
  \<open>spurline/operator_signing.py\<close>: the offline tool with which an operator reviews and signs a
  commissioning or a witness grant. It keeps no state; the files, the terminal and the clock are
  its inputs.
\<close>

section \<open>Inputs\<close>

datatype signing_action = Sign_Commissioning | Sign_Witness

definition action_text :: "signing_action \<Rightarrow> pystr" where
  "action_text action =
     (case action of Sign_Commissioning \<Rightarrow> lit ''sign-commissioning'' | Sign_Witness \<Rightarrow> lit ''sign-witness'')"

text \<open>\<open>getpass.getpass\<close>: what was typed, no hidden input (\<open>GetPassWarning\<close>), or an exception.\<close>

datatype secret_input = Typed pystr | No_Hidden_Input | Interrupted exc

text \<open>The contents of the three files, whether standard input is a terminal, the two answers.\<close>

record session =
  ss_tty :: bool
  ss_file :: "byte list res"
  ss_commissioning_file :: "byte list res"
  ss_policy_file :: "byte list res"
  ss_secret :: secret_input
  ss_answer :: pystr

text \<open>The tool reads one byte more than a mebibyte, which is enough to see that there is one.\<close>

definition max_input_bytes :: nat where
  "max_input_bytes = 1024 * 1024"

definition read_json :: "byte list res \<Rightarrow> pydict res" where
  "read_json contents =
     rbind contents (\<lambda>raw.
       if max_input_bytes < length raw then Inl (CE ''input exceeds 1 MiB'')
       else rbind (loads_bytes raw) (\<lambda>value.
         case value of VDict d \<Rightarrow> Inr d | _ \<Rightarrow> Inl (CE ''expected a JSON object'')))"

definition read_policy :: "byte list res \<Rightarrow> pystr res" where
  "read_policy contents =
     rbind contents (\<lambda>raw.
       if raw = [] \<or> max_policy_bytes < length raw
       then Inl (CE ''policy must be nonempty and at most 256 KiB'')
       else utf8_decode raw)"

definition sign_inputs :: "signing_action \<Rightarrow> session \<Rightarrow> (pydict \<times> pydict option \<times> pystr option) res" where
  "sign_inputs action ss =
     (if \<not> ss_tty ss
      then Inl (CE ''operator signing requires an interactive terminal; use --file for the request'')
      else rbind (read_json (ss_file ss)) (\<lambda>data.
        case action of
          Sign_Commissioning \<Rightarrow> Inr (data, None, None)
        | Sign_Witness \<Rightarrow>
            rbind (read_json (ss_commissioning_file ss)) (\<lambda>evidence.
            rbind (read_policy (ss_policy_file ss)) (\<lambda>policy.
              Inr (data, Some evidence, Some policy)))))"

section \<open>Preparing the terms\<close>

definition as_dict :: "pyval \<Rightarrow> string \<Rightarrow> pydict res" where
  "as_dict v message = (case v of VDict d \<Rightarrow> Inr d | _ \<Rightarrow> Inl (CE message))"

definition wrapped_request :: "signing_action \<Rightarrow> pydict \<Rightarrow> pydict res" where
  "wrapped_request action data =
     rbind (as_dict (dget_or data ''evidence'' (VDict data)) ''invalid request wrapper'') (\<lambda>container.
       as_dict (dget_or container
           (case action of Sign_Commissioning \<Rightarrow> ''commissioning_request'' | Sign_Witness \<Rightarrow> ''request'')
           (VDict data))
         ''missing signed request'')"

text \<open>\<open>json.loads(request['content'])['management']\<close>: anything but an object cannot be indexed by a name.\<close>

definition request_management :: "pydict \<Rightarrow> pystr res" where
  "request_management request =
     rbind (recast
       (rbind (need request ''content'') (\<lambda>text.
        rbind (case text of VStr s \<Rightarrow> loads s | _ \<Rightarrow> Inl TypeError) (\<lambda>content.
        case content of VDict c \<Rightarrow> need c ''management'' | _ \<Rightarrow> Inl TypeError)))
       (\<lambda>x. x = KeyError \<or> x = TypeError \<or> is_value_error x) (CE ''invalid request content'')) (\<lambda>management.
     case management of
       VStr m \<Rightarrow> (if m \<in> set management_modes then Inr m else Inl (CE ''unsupported management mode''))
     | _ \<Rightarrow> Inl (CE ''unsupported management mode''))"

text \<open>The verified request, its content, the operator asked and the unsigned event.\<close>

record terms =
  te_request :: stored_event
  te_content :: pydict
  te_operator :: pyval
  te_kind :: int
  te_created_at :: int
  te_text :: pystr
  te_tags :: "pystr list list"

definition commissioning_terms :: "outside \<Rightarrow> pydict \<Rightarrow> pystr \<Rightarrow> pystr \<Rightarrow> pystr \<Rightarrow> terms res" where
  "commissioning_terms w request npub service_hex management =
     rbind (verify_commissioning_request w (VDict request) npub management True) (\<lambda>(verified, content).
     rbind (need content ''requested_operator'') (\<lambda>operator.
     let body = [(lit ''schema'', VStr attestation_schema), (lit ''schema_version'', VInt 1),
                 (lit ''action'', vlit ''authorize''), (lit ''commissioning_request'', VStr (ev_id verified)),
                 (lit ''installation'', operator), (lit ''issued_at'', VInt (o_now w)),
                 (lit ''management'', VStr management), (lit ''previous'', VNone),
                 (lit ''relationship'', vlit ''operates''), (lit ''sequence'', VInt 1),
                 (lit ''service'', service_object service_hex)]
     in Inr \<lparr>te_request = verified, te_content = content, te_operator = operator, te_kind = 30078,
             te_created_at = o_now w, te_text = canonical_json body,
             te_tags = [[lit ''d'', attestation_schema @ lit '':'' @ service_hex],
                        [lit ''p'', service_hex, [], lit ''service''],
                        [lit ''e'', ev_id verified, [], lit ''commissioning-request''],
                        [lit ''t'', lit ''mainstay-service-operator''],
                        [lit ''service-type'', lit ''nostr-relay'']]\<rparr>))"

definition verified_chain :: "outside \<Rightarrow> pydict option \<Rightarrow> pystr \<Rightarrow> pystr \<Rightarrow> verified_commissioning res" where
  "verified_chain w evidence npub management =
     (let given = (case evidence of None \<Rightarrow> [] | Some e \<Rightarrow> e) in
      rbind (as_dict (dget_or given ''evidence'' (VDict given)) ''invalid commissioning evidence wrapper'') (\<lambda>chain.
      recast
        (rbind (need chain ''commissioning_request'') (\<lambda>request.
         rbind (need chain ''operator_attestation'') (\<lambda>attestation.
         rbind (verify_operator_attestation w request attestation npub management False) (\<lambda>verified.
         rbind (need chain ''service_descriptor'') (\<lambda>descriptor.
         rbind (verify_service_descriptor w descriptor attestation npub management) (\<lambda>_.
           Inr verified))))))
        (\<lambda>x. x = KeyError) (CE ''complete commissioning evidence is required'')))"

definition witness_terms ::
  "outside \<Rightarrow> pydict \<Rightarrow> pydict option \<Rightarrow> pystr option \<Rightarrow> pystr \<Rightarrow> pystr \<Rightarrow> terms res" where
  "witness_terms w request evidence policy npub management =
     rbind (verified_chain w evidence npub management) (\<lambda>chain.
     let g = \<lparr>gr_operator_npub = vc_operator_npub chain, gr_attestation_id = ev_id (vc_attestation chain),
              gr_npub = npub, gr_management = management\<rparr>
     in rbind (verify_witness_request w (VDict request) g
               (case policy of None \<Rightarrow> VNone | Some p \<Rightarrow> VStr p) True) (\<lambda>(verified, content).
        rbind (need content ''schema_version'') (\<lambda>version.
        if \<not> py_eq version (VInt 1)
        then Inl (CE ''this signer supports initial witness grants only, not renewals'')
        else
          rbind (need content ''requested_operator'') (\<lambda>operator.
          rbind (authorization_template w verified) (\<lambda>tp.
            Inr \<lparr>te_request = verified, te_content = content, te_operator = operator, te_kind = tp_kind tp,
                 te_created_at = tp_created_at tp, te_text = tp_content tp, te_tags = tp_tags tp\<rparr>)))))"

definition review_of :: "signing_action \<Rightarrow> pystr \<Rightarrow> terms \<Rightarrow> pystr option \<Rightarrow> pydict res" where
  "review_of action service_hex t policy =
     rbind (need (te_content t) ''expires_at'') (\<lambda>expires.
     rbind (loads (te_text t)) (\<lambda>body.
       Inr ([(lit ''action'', VStr (action_text action)), (lit ''expected_service_pubkey'', VStr service_hex),
             (lit ''requested_operator'', te_operator t), (lit ''request_event_id'', VStr (ev_id (te_request t))),
             (lit ''request_expires_at'', expires), (lit ''terms'', body)]
            @ (case policy of None \<Rightarrow> [] | Some p \<Rightarrow> [(lit ''policy_utf8'', VStr p)]))))"

record prepared =
  pr_request :: pydict
  pr_terms :: terms
  pr_review :: pydict
  pr_management :: pystr

definition prepare ::
  "outside \<Rightarrow> signing_action \<Rightarrow> pydict \<Rightarrow> pystr \<Rightarrow> pydict option \<Rightarrow> pystr option \<Rightarrow> prepared res" where
  "prepare w action data npub evidence policy =
     rbind (normalize_public_key (o_stroma w) npub ''expected service'') (\<lambda>(service_hex, _).
     rbind (wrapped_request action data) (\<lambda>request.
     rbind (request_management request) (\<lambda>management.
     rbind (case action of
              Sign_Commissioning \<Rightarrow> commissioning_terms w request npub service_hex management
            | Sign_Witness \<Rightarrow> witness_terms w request evidence policy npub management) (\<lambda>t.
     if o_now w < time_of (te_request t)
     then Inl (CE ''request is future-dated; wait until its issue time'')
     else rbind (review_of action service_hex t policy) (\<lambda>review.
       Inr \<lparr>pr_request = request, pr_terms = t, pr_review = review, pr_management = management\<rparr>)))))"

section \<open>Signing\<close>

text \<open>The hidden key and the answer; the key must be the operator's.\<close>

definition approve :: "outside \<Rightarrow> pyval \<Rightarrow> session \<Rightarrow> pystr res" where
  "approve w operator ss =
     (case ss_secret ss of
        No_Hidden_Input \<Rightarrow> Inl (CE ''secure hidden key input is unavailable'')
      | Interrupted x \<Rightarrow> Inl x
      | Typed secret \<Rightarrow>
          (case priv_key (o_stroma w) (strip secret) of
             None \<Rightarrow> Inl (CE ''invalid operator private key'')
           | Some (hex, _) \<Rightarrow>
               if VStr hex \<noteq> operator
               then Inl (CE ''operator key does not match the requested operator'')
               else if strip (ss_answer ss) \<noteq> lit ''yes'' then Inl (CE ''signing cancelled'')
               else Inr (strip secret)))"

text \<open>\<open>_verify_authorization(result, Event.load(request, validate=True), json.loads(request['content']))\<close>\<close>

definition verify_result :: "outside \<Rightarrow> signing_action \<Rightarrow> pystr \<Rightarrow> prepared \<Rightarrow> stored_event \<Rightarrow> unit res" where
  "verify_result w action npub p e =
     (case action of
        Sign_Commissioning \<Rightarrow>
          rbind (verify_operator_attestation w (VDict (pr_request p)) (VDict (to_dict e)) npub
                   (pr_management p) True) (\<lambda>_. Inr ())
      | Sign_Witness \<Rightarrow>
          rbind (load_event (o_stroma w) (VDict (pr_request p))) (\<lambda>loaded.
          case loaded of
            None \<Rightarrow> Inl AttributeError
          | Some request \<Rightarrow>
              rbind (rbind (need_text (pr_request p) ''content'') loads) (\<lambda>v.
              case v of
                VDict content \<Rightarrow>
                  rbind (verify_authorization w (VDict (to_dict e)) request content) (\<lambda>_. Inr ())
              | _ \<Rightarrow> Inl TypeError)))"

text \<open>
  \<open>sign\<close>: what the operator was shown, and the signed event. \<open>w\<close> is the outside before the operator
  reads the review and \<open>w'\<close> the one after the approval.
\<close>

definition operator_sign ::
  "outside \<Rightarrow> outside \<Rightarrow> signing_action \<Rightarrow> pystr \<Rightarrow> session \<Rightarrow> pydict option \<times> stored_event res" where
  "operator_sign w w' action npub ss =
     (case rbind (sign_inputs action ss) (\<lambda>(data, evidence, policy).
             rbind (prepare w action data npub evidence policy) (\<lambda>p. Inr (data, evidence, policy, p))) of
        Inl x \<Rightarrow> (None, Inl x)
      | Inr (data, evidence, policy, p) \<Rightarrow>
          (Some (pr_review p),
           rbind (approve w (te_operator (pr_terms p)) ss) (\<lambda>key.
           rbind (prepare w' action data npub evidence policy) (\<lambda>p'.
           let t = pr_terms p';
               e = sign_event (o_stroma w') key (te_kind t) (te_created_at t) (te_text t) (te_tags t)
           in rbind (verify_result w' action npub p' e) (\<lambda>_. Inr e)))))"

end
