(* ===== verification/Operator_Spec.thy ===== *)
theory Operator_Spec
  imports Operator_Signing
begin

text \<open>
  What the operator's approval covers: the signed event carries the reviewed terms, and nothing
  else but the time of the signature.
\<close>

section \<open>The terms depend on the clock only in their time\<close>

text \<open>The same unsigned event, made at two times.\<close>

definition retimed :: "outside \<Rightarrow> outside \<Rightarrow> terms \<Rightarrow> terms \<Rightarrow> bool" where
  "retimed w w' t t' =
     (te_request t' = te_request t \<and> te_operator t' = te_operator t
      \<and> te_kind t = 30078 \<and> te_kind t' = te_kind t \<and> te_tags t' = te_tags t
      \<and> te_created_at t' = o_now w' \<and> list_all (list_all encodable) (te_tags t)
      \<and> (\<exists>d d'. te_text t = canonical_json d \<and> te_text t' = canonical_json d'
           \<and> json_ok (VDict d) \<and> json_ok (VDict d')
           \<and> (\<forall>k. k \<noteq> lit ''issued_at'' \<longrightarrow> map_of d' k = map_of d k)
           \<and> map_of d' (lit ''issued_at'') = Some (VInt (o_now w'))))"

text \<open>What a request says does not depend on when it is verified.\<close>

lemma valid_event_unique:
  assumes "valid_event w label v = Inr e" "valid_event w' label' v = Inr e'"
    and "stroma_ok (o_crypto w) (o_stroma w)" "stroma_ok (o_crypto w') (o_stroma w')"
  shows "e' = e"
  using assms holds_event_inject by (auto simp: valid_event_iff validate_event_iff)

lemma witness_terms_retimed:
  assumes t: "witness_terms w rq ev pol npub m = Inr t" "witness_terms w' rq ev pol npub m = Inr t'"
    and st: "stroma_ok (o_crypto w) (o_stroma w)" and w: "same_libraries w w'"
    and n: "int_printable (o_now w)" "int_printable (o_now w')" and m: "encodable m"
  shows "retimed w w' t t'" "\<exists>op. te_operator t = VStr op"
proof -
  have st': "stroma_ok (o_crypto w') (o_stroma w')" using st w by (simp add: same_libraries_def)
  obtain chain r content op tp where a: "verified_chain w ev npub m = Inr chain"
    "verify_witness_request w (VDict rq) \<lparr>gr_operator_npub = vc_operator_npub chain,
       gr_attestation_id = ev_id (vc_attestation chain), gr_npub = npub, gr_management = m\<rparr>
       (case pol of None \<Rightarrow> VNone | Some p \<Rightarrow> VStr p) True = Inr (r, content)"
    "need content ''requested_operator'' = Inr op" "authorization_template w r = Inr tp"
    "t = \<lparr>te_request = r, te_content = content, te_operator = op, te_kind = tp_kind tp,
          te_created_at = tp_created_at tp, te_text = tp_content tp, te_tags = tp_tags tp\<rparr>"
    using t(1) by (auto simp: witness_terms_def rbind_eq_Inr Let_def split: if_splits)
  obtain g' r' content' op' tp' where b:
    "verify_witness_request w' (VDict rq) g' (case pol of None \<Rightarrow> VNone | Some p \<Rightarrow> VStr p) True = Inr (r', content')"
    "need content' ''requested_operator'' = Inr op'" "authorization_template w' r' = Inr tp'"
    "t' = \<lparr>te_request = r', te_content = content', te_operator = op', te_kind = tp_kind tp',
          te_created_at = tp_created_at tp', te_text = tp_content tp', te_tags = tp_tags tp'\<rparr>"
    using t(2) by (auto simp: witness_terms_def rbind_eq_Inr Let_def split: if_splits)
  let ?g = "\<lparr>gr_operator_npub = vc_operator_npub chain,
       gr_attestation_id = ev_id (vc_attestation chain), gr_npub = npub, gr_management = m\<rparr>"
  from verify_witness_requestD [OF a(2)] obtain service operator raw renewal where
    s: "valid_event w ''witness request'' (VDict rq) = Inr r"
      "request_says w ?g (case pol of None \<Rightarrow> VNone | Some p \<Rightarrow> VStr p) r content service operator raw renewal"
    by metis
  from verify_witness_requestD [OF b(1)] obtain service' operator' raw' renewal' where
    s': "valid_event w' ''witness request'' (VDict rq) = Inr r'"
      "request_says w' g' (case pol of None \<Rightarrow> VNone | Some p \<Rightarrow> VStr p) r' content' service' operator' raw' renewal'"
    by metis
  have r: "r' = r" by (rule valid_event_unique [OF s(1) s'(1) st st'])
  have l: "loads (ev_content r) = Inr (VDict content)" "loads (ev_content r') = Inr (VDict content')"
    using s(2) s'(2) unfolding request_says_def by blast+
  then have c: "content' = content" using r by simp
  obtain q where "valid_event w ''operator attestation'' q = Inr (vc_attestation chain)"
    using a(1) by (auto simp: verified_chain_def rbind_eq_Inr recast_eq_Inr Let_def verify_attestation_iff)
  then have "wf_event (vc_attestation chain)" by (simp add: valid_event_iff [OF st] validate_event_iff)
  then have "hex_string 64 (ev_id (vc_attestation chain))" unfolding wf_event_def by blast
  then have g: "grantor_ok ?g" using m by (simp add: grantor_ok_def hex_string_encodable)
  obtain x where "json_ok (VDict x)" "sort_keys (VDict x) = VDict content"
    using request_sorted [OF s(2) st g] unfolding Let_def by blast
  then have j: "json_ok (VDict content)" by (metis json_ok_sort_keys)
  have "wf_event r" using s(1) by (simp add: valid_event_iff [OF st] validate_event_iff)
  then have "hex_string 64 (ev_id r)" unfolding wf_event_def by blast
  then have e: "encodable (ev_id r)" by (rule hex_string_encodable)
  have f: "dget content ''requested_operator'' = VStr operator" by (rule request_field(1) [OF s(2) st g])
  then have "op = VStr operator" using a(3) by (auto simp: need_def dget_def split: option.splits)
  then show "\<exists>op. te_operator t = VStr op" using a(5) by simp
  from template_parts [OF a(4) l(1) j e n(1)] obtain copied where p:
    "tp_kind tp = 30078" "tp_content tp = canonical_json (authorization_body copied content r (o_now w))"
    "authorization_template w' r
       = Inr (tp\<lparr>tp_created_at := o_now w', tp_content := canonical_json (authorization_body copied content r (o_now w'))\<rparr>)"
    "\<And>n. int_printable n \<Longrightarrow> json_ok (VDict (authorization_body copied content r n))"
    "list_all (list_all encodable) (tp_tags tp)" by metis
  have tp': "tp' = tp\<lparr>tp_created_at := o_now w', tp_content := canonical_json (authorization_body copied content r (o_now w'))\<rparr>"
    using b(3) p(3) r by simp
  let ?b = "authorization_body copied content r"
  have "lit ''issued_at'' \<notin> set (map fst copied)"
  proof -
    have "distinct (map fst (?b 0))" using p(4) [of 0] int_printable_64 [of 0] by simp
    then show ?thesis by (auto simp: authorization_body_def)
  qed
  then have "map_of copied (lit ''issued_at'') = None" by (simp add: map_of_eq_None_iff)
  then have i: "map_of (?b i) (lit ''issued_at'') = Some (VInt i)" "k \<noteq> lit ''issued_at'' \<Longrightarrow> map_of (?b i) k = map_of (?b i') k" for i i' k
    by (simp_all add: authorization_body_def map_add_def split: option.split)
  have "op' = op" using a(3) b(2) c by simp
  moreover have "\<exists>d d'. te_text t = canonical_json d \<and> te_text t' = canonical_json d'
           \<and> json_ok (VDict d) \<and> json_ok (VDict d')
           \<and> (\<forall>k. k \<noteq> lit ''issued_at'' \<longrightarrow> map_of d' k = map_of d k)
           \<and> map_of d' (lit ''issued_at'') = Some (VInt (o_now w'))"
    by (rule exI [of _ "?b (o_now w)"], rule exI [of _ "?b (o_now w')"], intro conjI allI impI
        p(4) [OF n(1)] p(4) [OF n(2)] i) (simp_all add: a(5) b(4) p(2) tp')
  ultimately show "retimed w w' t t'"
    using a(5) b(4) r p(1,5) tp' by (simp add: retimed_def)
qed

definition attestation_body :: "stored_event \<Rightarrow> pystr \<Rightarrow> pystr \<Rightarrow> pystr \<Rightarrow> int \<Rightarrow> pydict" where
  "attestation_body r op service_hex m now =
     [(lit ''schema'', VStr attestation_schema), (lit ''schema_version'', VInt 1),
      (lit ''action'', vlit ''authorize''), (lit ''commissioning_request'', VStr (ev_id r)),
      (lit ''installation'', VStr op), (lit ''issued_at'', VInt now),
      (lit ''management'', VStr m), (lit ''previous'', VNone),
      (lit ''relationship'', vlit ''operates''), (lit ''sequence'', VInt 1),
      (lit ''service'', service_object service_hex)]"

lemma commissioning_terms_retimed:
  assumes t: "commissioning_terms w rq npub sh m = Inr t" "commissioning_terms w' rq npub sh m = Inr t'"
    and st: "stroma_ok (o_crypto w) (o_stroma w)" and w: "same_libraries w w'"
    and n: "int_printable (o_now w)" "int_printable (o_now w')" and m: "encodable m"
    and op: "te_operator t = VStr op" "hex_string 64 op" and sh: "hex_string 64 sh"
  shows "retimed w w' t t'"
proof -
  have st': "stroma_ok (o_crypto w') (o_stroma w')" using st w by (simp add: same_libraries_def)
  obtain r content where a: "verify_commissioning_request w (VDict rq) npub m True = Inr (r, content)"
    "need content ''requested_operator'' = Inr (VStr op)" "te_request t = r" "te_kind t = 30078"
    "te_text t = canonical_json (attestation_body r op sh m (o_now w))"
    and tags: "te_tags t = [[lit ''d'', attestation_schema @ lit '':'' @ sh],
                        [lit ''p'', sh, [], lit ''service''],
                        [lit ''e'', ev_id r, [], lit ''commissioning-request''],
                        [lit ''t'', lit ''mainstay-service-operator''],
                        [lit ''service-type'', lit ''nostr-relay'']]"
    using t(1) op(1) by (auto simp: commissioning_terms_def rbind_eq_Inr Let_def attestation_body_def)
  obtain r' content' op' where b: "verify_commissioning_request w' (VDict rq) npub m True = Inr (r', content')"
    "need content' ''requested_operator'' = Inr op'" using t(2)
    by (auto simp: commissioning_terms_def rbind_eq_Inr Let_def)
  have v: "valid_event w ''commissioning request'' (VDict rq) = Inr r"
    "valid_event w' ''commissioning request'' (VDict rq) = Inr r'"
    "content_of r request_schema = Inr content" "content_of r' request_schema = Inr content'"
    using a(1) b(1) by (simp_all add: verify_request_iff)
  have r: "r' = r" by (rule valid_event_unique [OF v(1,2) st st'])
  then have c: "content' = content" using v(3,4) by simp
  have t': "te_request t' = r" "te_kind t' = 30078" "te_operator t' = VStr op" "te_created_at t' = o_now w'"
    "te_text t' = canonical_json (attestation_body r op sh m (o_now w'))" "te_tags t' = te_tags t"
    using t(2) b a(2) r c tags
    by (simp_all add: commissioning_terms_def rbind_eq_Inr Let_def) (auto simp: attestation_body_def)
  have "wf_event r" using v(1) by (simp add: valid_event_iff [OF st] validate_event_iff)
  then have "hex_string 64 (ev_id r)" unfolding wf_event_def by blast
  note enc = hex_string_encodable [OF this] hex_string_encodable [OF op(2)] hex_string_encodable [OF sh] m
  have j: "json_ok (VDict (attestation_body r op sh m i))" if "int_printable i" for i
    using enc that by (simp add: attestation_body_def attestation_schema_def)
  have "list_all (list_all encodable) (te_tags t)"
    using enc by (simp add: tags attestation_schema_def)
  moreover have "\<exists>d d'. te_text t = canonical_json d \<and> te_text t' = canonical_json d'
           \<and> json_ok (VDict d) \<and> json_ok (VDict d')
           \<and> (\<forall>k. k \<noteq> lit ''issued_at'' \<longrightarrow> map_of d' k = map_of d k)
           \<and> map_of d' (lit ''issued_at'') = Some (VInt (o_now w'))"
    by (rule exI [of _ "attestation_body r op sh m (o_now w)"],
        rule exI [of _ "attestation_body r op sh m (o_now w')"],
        intro conjI allI impI a(5) t'(5) j [OF n(1)] j [OF n(2)]) (simp_all add: attestation_body_def)
  ultimately show ?thesis using a(3,4) op(1) t' by (simp add: retimed_def)
qed

section \<open>What is signed is what was reviewed\<close>

lemma request_management_ok: "request_management rq = Inr m \<Longrightarrow> encodable m"
proof -
  assume "request_management rq = Inr m"
  then obtain v where "(case v of VStr m \<Rightarrow> (if m \<in> set management_modes then Inr m
      else Inl (CE ''unsupported management mode'')) | _ \<Rightarrow> Inl (CE ''unsupported management mode'')) = Inr m"
    unfolding request_management_def rbind_eq_Inr by blast
  then show ?thesis by (cases v) (auto simp: management_modes_def split: if_splits)
qed

lemma review_fields:
  assumes "review_of action sh t pol = Inr rv"
  shows "dget rv ''requested_operator'' = te_operator t" "loads (te_text t) = Inr (dget rv ''terms'')"
proof -
  obtain x body where r: "loads (te_text t) = Inr body"
    "rv = [(lit ''action'', VStr (action_text action)), (lit ''expected_service_pubkey'', VStr sh),
           (lit ''requested_operator'', te_operator t), (lit ''request_event_id'', VStr (ev_id (te_request t))),
           (lit ''request_expires_at'', x), (lit ''terms'', body)]
          @ (case pol of None \<Rightarrow> [] | Some p \<Rightarrow> [(lit ''policy_utf8'', VStr p)])"
    using assms by (auto simp: review_of_def rbind_eq_Inr)
  show "dget rv ''requested_operator'' = te_operator t" by (simp add: r(2) dget_def)
  show "loads (te_text t) = Inr (dget rv ''terms'')" by (simp add: r dget_def)
qed

lemma prepared_retimed:
  assumes p: "prepare w action data npub ev pol = Inr p" "prepare w' action data npub ev pol = Inr p'"
    and st: "stroma_ok (o_crypto w) (o_stroma w)" and w: "same_libraries w w'"
    and n: "int_printable (o_now w)" "int_printable (o_now w')"
    and op: "te_operator (pr_terms p) = VStr op" "hex_string 64 op"
  shows "retimed w w' (pr_terms p) (pr_terms p')" "pr_request p' = pr_request p"
    "dget (pr_review p) ''requested_operator'' = VStr op"
    "loads (te_text (pr_terms p)) = Inr (dget (pr_review p) ''terms'')"
proof -
  have lib: "o_stroma w' = o_stroma w" using w by (simp add: same_libraries_def)
  obtain sh np rq m where a: "normalize_public_key (o_stroma w) npub ''expected service'' = Inr (sh, np)"
    "wrapped_request action data = Inr rq" "request_management rq = Inr m" "pr_request p = rq"
    "(case action of Sign_Commissioning \<Rightarrow> commissioning_terms w rq npub sh m
        | Sign_Witness \<Rightarrow> witness_terms w rq ev pol npub m) = Inr (pr_terms p)"
    "review_of action sh (pr_terms p) pol = Inr (pr_review p)"
    using p(1) by (auto simp: prepare_def rbind_eq_Inr split: if_splits)
  have b: "pr_request p' = rq" "(case action of Sign_Commissioning \<Rightarrow> commissioning_terms w' rq npub sh m
        | Sign_Witness \<Rightarrow> witness_terms w' rq ev pol npub m) = Inr (pr_terms p')"
    using p(2) a(1-3) lib by (auto simp: prepare_def rbind_eq_Inr split: if_splits)
  have "key_pair (o_stroma w) sh np" using a(1) stroma_pub [OF st] by (auto simp: normalize_iff)
  then have sh: "hex_string 64 sh" by (simp add: key_pair_def)
  note m = request_management_ok [OF a(3)]
  show "retimed w w' (pr_terms p) (pr_terms p')"
  proof (cases action)
    case Sign_Commissioning
    then show ?thesis
      using commissioning_terms_retimed [OF _ _ st w n m op sh, of rq npub "pr_terms p'"] a(5) b(2) by simp
  next
    case Sign_Witness
    then show ?thesis using witness_terms_retimed(1) [OF _ _ st w n m] a(5) b(2) by simp
  qed
  show "pr_request p' = pr_request p" using a(4) b(1) by simp
  show "dget (pr_review p) ''requested_operator'' = VStr op"
    "loads (te_text (pr_terms p)) = Inr (dget (pr_review p) ''terms'')"
    using review_fields [OF a(6)] op(1) by simp_all
qed

lemma approveD:
  assumes "approve w operator ss = Inr key"
  shows "\<exists>secret hex np. ss_secret ss = Typed secret \<and> key = strip secret
    \<and> priv_key (o_stroma w) key = Some (hex, np) \<and> operator = VStr hex \<and> strip (ss_answer ss) = lit ''yes''"
  using assms by (auto simp: approve_def split: secret_input.splits option.splits if_splits)

text \<open>C10: the operator signs what was shown: when the signing tool returns an event, standard input was a
  terminal, the review was displayed, the key that was typed is the one of the operator named in
  it, and the answer was yes; the event is validly signed with that key at the time of the
  approval, and its content is the displayed terms, field by field, except for the time.\<close>

theorem signed_as_reviewed:
  assumes "operator_sign w w' action npub ss = (shown, Inr e)"
    and "stroma_ok (o_crypto w) (o_stroma w)" "same_libraries w w'"
    and "int_printable (o_now w)" "int_printable (o_now w')"
  shows "\<exists>review secret hex np t t'. shown = Some review \<and> ss_tty ss
    \<and> ss_secret ss = Typed secret \<and> priv_key (o_stroma w) (strip secret) = Some (hex, np)
    \<and> strip (ss_answer ss) = lit ''yes''
    \<and> dget review ''requested_operator'' = VStr hex \<and> ev_pubkey e = hex
    \<and> validate_event (o_crypto w') True (o_now w') (VDict (to_dict e)) = Inr e
    \<and> ev_created_at e = NInt (o_now w')
    \<and> dget review ''terms'' = VDict t \<and> loads (ev_content e) = Inr (VDict t')
    \<and> (\<forall>k. k \<noteq> lit ''issued_at'' \<longrightarrow> map_of t' k = map_of t k)
    \<and> map_of t' (lit ''issued_at'') = Some (VInt (o_now w'))"
proof -
  have st': "stroma_ok (o_crypto w') (o_stroma w')" and lib: "o_stroma w' = o_stroma w"
    using assms(2,3) by (simp_all add: same_libraries_def)
  obtain data ev pol p key p' where s: "sign_inputs action ss = Inr (data, ev, pol)"
    "prepare w action data npub ev pol = Inr p" "shown = Some (pr_review p)"
    "approve w (te_operator (pr_terms p)) ss = Inr key" "prepare w' action data npub ev pol = Inr p'"
    "e = sign_event (o_stroma w') key (te_kind (pr_terms p')) (te_created_at (pr_terms p'))
           (te_text (pr_terms p')) (te_tags (pr_terms p'))"
    using assms(1) by (auto simp: operator_sign_def Let_def rbind_eq_Inr split: sum.splits prod.splits)
  obtain secret hex np where k: "ss_secret ss = Typed secret" "key = strip secret"
    "priv_key (o_stroma w) key = Some (hex, np)" "te_operator (pr_terms p) = VStr hex"
    "strip (ss_answer ss) = lit ''yes''" using approveD [OF s(4)] by blast
  have "hex_string 64 hex" using stroma_priv [OF assms(2) k(3)] by (simp add: key_pair_def)
  note r = prepared_retimed [OF s(2,5) assms(2-5) k(4) this]
  obtain d d' where d: "te_text (pr_terms p) = canonical_json d" "te_text (pr_terms p') = canonical_json d'"
    "json_ok (VDict d)" "json_ok (VDict d')" "\<And>k. k \<noteq> lit ''issued_at'' \<Longrightarrow> map_of d' k = map_of d k"
    "map_of d' (lit ''issued_at'') = Some (VInt (o_now w'))"
    using r(1) unfolding retimed_def by blast
  have "signed_by (o_crypto w') hex (te_kind (pr_terms p')) (te_created_at (pr_terms p'))
      (te_text (pr_terms p')) (te_tags (pr_terms p')) e"
    unfolding s(6) using k(3) lib r(1) encodable_canonical [OF d(4)]
    by (intro stroma_sign [OF st']) (simp_all add: retimed_def d(2))
  then have e: "ev_pubkey e = hex" "ev_created_at e = NInt (o_now w')" "ev_content e = canonical_json d'"
    "validate_event (o_crypto w') True (o_now w') (VDict (to_dict e)) = Inr e"
    using r(1) by (auto simp: signed_by_def retimed_def d(2) validate_event_iff)
  obtain t t' where t: "sort_keys (VDict d) = VDict t" "sort_keys (VDict d') = VDict t'" by simp
  have l: "dget (pr_review p) ''terms'' = VDict t" "loads (ev_content e) = Inr (VDict t')"
    using r(4) loads_canonical [OF d(3)] loads_canonical [OF d(4)] by (simp_all only: d(1) e(3) t sum.inject)
  have m: "map_of t i = map_option sort_keys (map_of d i)" "map_of t' i = map_option sort_keys (map_of d' i)" for i
    using map_of_sort_keys(1) [OF t(1)] map_of_sort_keys(1) [OF t(2)] d(3,4) by simp_all
  have "ss_tty ss" using s(1) by (auto simp: sign_inputs_def split: if_splits)
  then show ?thesis
    using s(3) k e l r(3) m d(5,6) by (intro exI [of _ "pr_review p"] exI [of _ secret] exI [of _ hex]
        exI [of _ np] exI [of _ t] exI [of _ t']) simp
qed

end
