(* ===== verification/Operator_Cycle.thy ===== *)
theory Operator_Cycle
  imports Operator_Spec
begin

text \<open>
  The service and the operator's tool together: the tool accepts the request that the service made
  and returns the grant that the service accepts.
\<close>

section \<open>The evidence of the service is the chain the tool wants\<close>

lemma check_evidence_chain:
  assumes "check_evidence w d npub m = Inr c" "map_of d (lit ''evidence'') = None"
  shows "\<exists>vc. verified_chain w (Some d) npub m = Inr vc \<and> vc_operator_npub vc = cm_operator_npub c
    \<and> ev_id (vc_attestation vc) = cm_attestation_id c"
proof -
  have k: "set (map fst d)
      = {lit ''commissioning_request'', lit ''operator_attestation'', lit ''service_descriptor''}"
    using assms(1) by (auto simp: check_evidence_def split: if_splits)
  obtain vc ds where v: "verify_operator_attestation w (dget d ''commissioning_request'')
      (dget d ''operator_attestation'') npub m False = Inr vc"
    "verify_service_descriptor w (dget d ''service_descriptor'') (dget d ''operator_attestation'') npub m = Inr ds"
    "cm_operator_npub c = vc_operator_npub vc" "cm_attestation_id c = ev_id (vc_attestation vc)"
    using assms(1) by (auto simp: check_evidence_def rbind_eq_Inr split: if_splits)
  have "need d n = Inr (dget d n)"
    if "n \<in> {''commissioning_request'', ''operator_attestation'', ''service_descriptor''}" for n
  proof -
    have "lit n \<in> set (map fst d)" using that unfolding k by auto
    then obtain v where "map_of d (lit n) = Some v" by (metis map_of_eq_None_iff not_Some_eq set_map)
    then show ?thesis by (simp add: need_def dget_def)
  qed
  then have "verified_chain w (Some d) npub m = Inr vc"
    using v(1,2) assms(2) by (simp add: verified_chain_def dget_or_def as_dict_def recast_def)
  then show ?thesis using v(3,4) by auto
qed

lemma check_evidence_no_wrapper:
  "check_evidence w d npub m = Inr c \<Longrightarrow> map_of d (lit ''evidence'') = None"
proof -
  assume "check_evidence w d npub m = Inr c"
  then have "set (map fst d)
      = {lit ''commissioning_request'', lit ''operator_attestation'', lit ''service_descriptor''}"
    by (auto simp: check_evidence_def split: if_splits)
  then have "lit ''evidence'' \<notin> set (map fst d)" by auto
  then show ?thesis by (simp add: map_of_eq_None_iff)
qed

section \<open>The tool accepts the request\<close>

text \<open>The terms of a request that the service made.\<close>

lemma made_request_terms:
  assumes rq: "requestable w g service operator valid_for kinds policy raw"
    and r: "made_request w g service operator valid_for kinds raw r" and w: "same_libraries w w1"
    and t: "o_now w \<le> o_now w1" "o_now w1 < request_expiry w valid_for"
    and c: "verified_chain w1 ev (gr_npub g) (gr_management g) = Inr vc"
      "vc_operator_npub vc = gr_operator_npub g" "ev_id (vc_attestation vc) = gr_attestation_id g"
  shows "\<exists>d. sort_keys (VDict (request_body_fields w g service operator valid_for kinds raw)) = VDict d
    \<and> witness_terms w1 (to_dict r) ev (Some policy) (gr_npub g) (gr_management g)
      = Inr \<lparr>te_request = r, te_content = d, te_operator = VStr operator, te_kind = 30078,
          te_created_at = o_now w1, te_text = canonical_json
            (authorization_fields w g service operator valid_for kinds raw (ev_id r) (o_now w1)),
          te_tags = authorization_tags g service (ev_id r)\<rparr>
    \<and> need d ''expires_at'' = Inr (VInt (request_expiry w valid_for))"
proof -
  let ?c = "request_body_fields w g service operator valid_for kinds raw"
  obtain d where d: "sort_keys (VDict ?c) = VDict d" by simp
  have st: "stroma_ok (o_crypto w1) (o_stroma w1)" using rq w by (simp add: requestable_def same_libraries_def)
  have g: "\<lparr>gr_operator_npub = vc_operator_npub vc, gr_attestation_id = ev_id (vc_attestation vc),
      gr_npub = gr_npub g, gr_management = gr_management g\<rparr> = g" using c(2,3) by simp
  have "valid_event w1 ''witness request'' (VDict (to_dict r)) = Inr r"
    using r t(1) w by (intro valid_signed [OF st]) (auto simp: made_request_def same_libraries_def)
  then have v: "verify_witness_request w1 (VDict (to_dict r)) g (VStr policy) True = Inr (r, d)"
    using t by (intro made_request_verifies [OF rq r w _ _ _ d]) (simp_all add: max_clock_skew_def)
  have di: "distinct (map fst ?c)" using request_json [OF rq] by simp
  have m: "map_of d k = map_option sort_keys (map_of ?c k)" for k using map_of_sort_keys(1) [OF d di] .
  have f: "need d ''schema_version'' = Inr (VInt 1)" "need d ''requested_operator'' = Inr (VStr operator)"
    "need d ''expires_at'' = Inr (VInt (request_expiry w valid_for))"
    unfolding need_def m by (simp_all add: request_body_fields_def Let_def request_expiry_def)
  have tp: "authorization_template w1 r =
    Inr \<lparr>tp_kind = 30078, tp_pubkey = operator, tp_created_at = o_now w1,
      tp_content = canonical_json
        (authorization_fields w g service operator valid_for kinds raw (ev_id r) (o_now w1)),
      tp_tags = authorization_tags g service (ev_id r)\<rparr>"
    using rq r by (intro template_of_request request_json [OF rq])
      (simp_all add: made_request_def signed_by_def requestable_def)
  show ?thesis
    using d f by (simp add: witness_terms_def c(1) g v tp py_eq_def Let_def)
qed

text \<open>What the operator has: the request, the chain of the service, the approved policy, the key, a yes.\<close>

definition operator_ready ::
  "stroma \<Rightarrow> stored_event \<Rightarrow> pydict \<Rightarrow> byte list \<Rightarrow> pystr \<Rightarrow> session \<Rightarrow> bool" where
  "operator_ready st r evidence raw operator ss =
     (ss_tty ss
      \<and> (\<exists>data. read_json (ss_file ss) = Inr data \<and> wrapped_request Sign_Witness data = Inr (to_dict r))
      \<and> read_json (ss_commissioning_file ss) = Inr evidence \<and> ss_policy_file ss = Inr raw
      \<and> (\<exists>secret np. ss_secret ss = Typed secret \<and> priv_key st (strip secret) = Some (operator, np))
      \<and> strip (ss_answer ss) = lit ''yes'')"

lemma made_request_management:
  assumes rq: "requestable w g service operator valid_for kinds policy raw"
    and r: "made_request w g service operator valid_for kinds raw r"
    and m: "gr_management g \<in> set management_modes"
  shows "request_management (to_dict r) = Inr (gr_management g)"
proof -
  let ?c = "request_body_fields w g service operator valid_for kinds raw"
  obtain d where d: "sort_keys (VDict ?c) = VDict d" by simp
  have l: "loads (ev_content r) = Inr (VDict d)"
    using r loads_canonical [OF request_json [OF rq]] by (simp only: made_request_def signed_by_def d)
  have "map_of d (lit ''management'') = map_option sort_keys (map_of ?c (lit ''management''))"
    using request_json [OF rq] by (intro map_of_sort_keys(1) [OF d]) simp
  then have "need d ''management'' = Inr (VStr (gr_management g))"
    unfolding need_def by (simp add: request_body_fields_def Let_def)
  then show ?thesis
    using m by (simp add: request_management_def holds_event_need [OF holds_event_to_dict] l recast_def)
qed

lemma made_request_prepared:
  assumes rq: "requestable w g service operator valid_for kinds policy raw"
    and r: "made_request w g service operator valid_for kinds raw r" and w: "same_libraries w w1"
    and t: "o_now w \<le> o_now w1" "o_now w1 < request_expiry w valid_for"
    and c: "verified_chain w1 ev (gr_npub g) (gr_management g) = Inr vc"
      "vc_operator_npub vc = gr_operator_npub g" "ev_id (vc_attestation vc) = gr_attestation_id g"
    and m: "gr_management g \<in> set management_modes"
    and n: "normalize_public_key (o_stroma w1) (gr_npub g) ''expected service'' = Inr (service, np)"
    and data: "wrapped_request Sign_Witness data = Inr (to_dict r)"
  shows "\<exists>p d. prepare w1 Sign_Witness data (gr_npub g) ev (Some policy) = Inr p
    \<and> sort_keys (VDict (request_body_fields w g service operator valid_for kinds raw)) = VDict d
    \<and> pr_request p = to_dict r \<and> te_operator (pr_terms p) = VStr operator
    \<and> te_kind (pr_terms p) = 30078 \<and> te_created_at (pr_terms p) = o_now w1
    \<and> te_text (pr_terms p) = canonical_json
        (authorization_fields w g service operator valid_for kinds raw (ev_id r) (o_now w1))
    \<and> te_tags (pr_terms p) = authorization_tags g service (ev_id r)"
proof -
  obtain d where d: "sort_keys (VDict (request_body_fields w g service operator valid_for kinds raw)) = VDict d"
    and wt: "witness_terms w1 (to_dict r) ev (Some policy) (gr_npub g) (gr_management g)
      = Inr \<lparr>te_request = r, te_content = d, te_operator = VStr operator, te_kind = 30078,
          te_created_at = o_now w1, te_text = canonical_json
            (authorization_fields w g service operator valid_for kinds raw (ev_id r) (o_now w1)),
          te_tags = authorization_tags g service (ev_id r)\<rparr>"
    and x: "need d ''expires_at'' = Inr (VInt (request_expiry w valid_for))"
    using made_request_terms [OF rq r w t c] by blast
  have wf: "wf_event r" "time_of r = o_now w" using r by (simp_all add: made_request_def signed_by_def time_of_def)
  then have "hex_string 64 (ev_id r)" unfolding wf_event_def by blast
  then have e: "encodable (ev_id r)" by (rule hex_string_encodable)
  have "0 \<le> o_now w" "o_now w + valid_for < 2 ^ 63" using rq by (simp_all add: requestable_def)
  then have "int_printable (o_now w1)" using t by (intro int_printable_64) (simp_all add: request_expiry_def)
  note j = authorization_fields_ok [OF request_json [OF rq] e this]
  obtain b where b: "loads (canonical_json
      (authorization_fields w g service operator valid_for kinds raw (ev_id r) (o_now w1))) = Inr b"
    using loads_canonical [OF j] by blast
  have "\<exists>p. prepare w1 Sign_Witness data (gr_npub g) ev (Some policy) = Inr p
    \<and> pr_request p = to_dict r \<and> te_operator (pr_terms p) = VStr operator
    \<and> te_kind (pr_terms p) = 30078 \<and> te_created_at (pr_terms p) = o_now w1
    \<and> te_text (pr_terms p) = canonical_json
        (authorization_fields w g service operator valid_for kinds raw (ev_id r) (o_now w1))
    \<and> te_tags (pr_terms p) = authorization_tags g service (ev_id r)"
    using t(1) wf(2)
    by (simp add: prepare_def n data made_request_management [OF rq r m] wt review_of_def x b del: to_dict_def)
  with d show ?thesis by blast
qed

text \<open>The operator's signature on the terms at \<open>w2\<close>, and the tool's own check of it.\<close>

lemma grant_signature:
  assumes rq: "requestable w g service operator valid_for kinds policy raw"
    and r: "made_request w g service operator valid_for kinds raw r" and w: "same_libraries w w2"
    and t: "o_now w \<le> o_now w2" "o_now w2 < request_expiry w valid_for"
    and k: "priv_key (o_stroma w) key = Some (operator, np)" and p: "pr_request p = to_dict r"
    and x: "x = sign_event (o_stroma w2) key 30078 (o_now w2) (canonical_json
      (authorization_fields w g service operator valid_for kinds raw (ev_id r) (o_now w2)))
      (authorization_tags g service (ev_id r))"
  shows "made_grant w g service operator valid_for kinds raw r (o_now w2) x"
    "verify_result w2 Sign_Witness npub p x = Inr ()"
proof -
  have st: "stroma_ok (o_crypto w) (o_stroma w)" "stroma_ok (o_crypto w2) (o_stroma w2)"
    and lib: "o_stroma w2 = o_stroma w" "o_crypto w2 = o_crypto w"
    using rq w by (simp_all add: requestable_def same_libraries_def)
  obtain rd where rd: "sort_keys (VDict (request_body_fields w g service operator valid_for kinds raw)) = VDict rd"
    by simp
  have "hex_string 64 (ev_id r)" using r unfolding made_request_def signed_by_def wf_event_def by blast
  then have e: "encodable (ev_id r)" by (rule hex_string_encodable)
  have "hex_string 64 service" "encodable (gr_attestation_id g)"
    using rq public_hex_string by (auto simp: requestable_def parties_def grantor_ok_def)
  then have tags: "list_all (list_all encodable) (authorization_tags g service (ev_id r))"
    using e hex_string_encodable by (simp add: authorization_tags_def authorization_schema_def witness_role_def)
  have nn: "0 \<le> o_now w" "o_now w + valid_for < 2 ^ 63" using rq by (simp_all add: requestable_def)
  then have "int_printable (o_now w2)" using t by (intro int_printable_64) (simp_all add: request_expiry_def)
  note enc = encodable_canonical [OF authorization_fields_ok [OF request_json [OF rq] e this]]
  have sg: "signed_by (o_crypto w) operator 30078 (o_now w2) (canonical_json
      (authorization_fields w g service operator valid_for kinds raw (ev_id r) (o_now w2)))
      (authorization_tags g service (ev_id r)) x"
    unfolding x lib by (rule stroma_sign [OF st(1) k enc tags])
  then show mg: "made_grant w g service operator valid_for kinds raw r (o_now w2) x"
    using t by (simp add: made_grant_def)
  have "valid_event w2 ''witness authorization'' (VDict (to_dict x)) = Inr x"
    by (rule valid_signed [OF st(2) sg [folded lib(2)]]) simp
  then have va: "verify_authorization w2 (VDict (to_dict x)) r rd = Inr x"
    using nn t by (intro made_grant_verifies [OF rq r w mg _ _ _ rd])
      (simp_all add: max_clock_skew_def request_expiry_def)
  have lr: "load_event (o_stroma w2) (VDict (to_dict r)) = Inr (Some r)"
    using r lib(2) by (intro stroma_load [OF st(2) holds_event_to_dict]) (simp_all add: made_request_def signed_by_def)
  have lc: "loads (ev_content r) = Inr (VDict rd)"
    using r loads_canonical [OF request_json [OF rq]] by (simp only: made_request_def signed_by_def rd)
  show "verify_result w2 Sign_Witness npub p x = Inr ()"
    by (simp add: verify_result_def p lr need_text_def holds_event_need [OF holds_event_to_dict] lc va del: to_dict_def)
qed

lemma made_request_signed:
  assumes rq: "requestable w g service operator valid_for kinds policy raw"
    and r: "made_request w g service operator valid_for kinds raw r"
    and w: "same_libraries w w1" "same_libraries w w2"
    and t: "o_now w \<le> o_now w1" "o_now w1 \<le> o_now w2" "o_now w2 < request_expiry w valid_for"
    and c: "check_evidence w ev (gr_npub g) (gr_management g) = Inr cm"
      "cm_operator_npub cm = gr_operator_npub g" "cm_attestation_id cm = gr_attestation_id g"
    and m: "gr_management g \<in> set management_modes"
    and n: "normalize_public_key (o_stroma w) (gr_npub g) ''expected service'' = Inr (service, np)"
    and ss: "operator_ready (o_stroma w) r ev raw operator ss"
  shows "\<exists>review x. operator_sign w1 w2 Sign_Witness (gr_npub g) ss = (Some review, Inr x)
    \<and> made_grant w g service operator valid_for kinds raw r (o_now w2) x"
proof -
  have st: "stroma_ok (o_crypto w) (o_stroma w)" using rq by (simp add: requestable_def)
  have lib: "o_stroma w1 = o_stroma w" "o_stroma w2 = o_stroma w" using w by (simp_all add: same_libraries_def)
  have chain: "\<exists>vc. verified_chain w' (Some ev) (gr_npub g) (gr_management g) = Inr vc
      \<and> vc_operator_npub vc = gr_operator_npub g \<and> ev_id (vc_attestation vc) = gr_attestation_id g"
    if "same_libraries w w'" "o_now w \<le> o_now w'" for w'
    using check_evidence_chain [OF check_evidence_later [OF c(1) st] check_evidence_no_wrapper [OF c(1)]] that c(2,3)
    by (auto simp: same_libraries_def)
  obtain data secret np' where d: "read_json (ss_file ss) = Inr data" "wrapped_request Sign_Witness data = Inr (to_dict r)"
    and k: "ss_secret ss = Typed secret" "priv_key (o_stroma w) (strip secret) = Some (operator, np')"
    and i: "ss_tty ss" "read_json (ss_commissioning_file ss) = Inr ev" "ss_policy_file ss = Inr raw"
      "strip (ss_answer ss) = lit ''yes''"
    using ss by (auto simp: operator_ready_def)
  have pol: "raw \<noteq> []" "length raw \<le> max_policy_bytes" "utf8_decode raw = Inr policy"
    using rq utf8_decode_encode by (auto simp: requestable_def policy_bytes_iff)
  have in': "sign_inputs Sign_Witness ss = Inr (data, Some ev, Some policy)"
    using i d(1) pol by (simp add: sign_inputs_def read_policy_def)
  have t1: "o_now w1 < request_expiry w valid_for" "o_now w \<le> o_now w2" using t by simp_all
  obtain vc1 vc2 where vc: "verified_chain w1 (Some ev) (gr_npub g) (gr_management g) = Inr vc1"
      "vc_operator_npub vc1 = gr_operator_npub g" "ev_id (vc_attestation vc1) = gr_attestation_id g"
      "verified_chain w2 (Some ev) (gr_npub g) (gr_management g) = Inr vc2"
      "vc_operator_npub vc2 = gr_operator_npub g" "ev_id (vc_attestation vc2) = gr_attestation_id g"
    using chain [OF w(1) t(1)] chain [OF w(2) t1(2)] by blast
  note n' = n [folded lib(1)] n [folded lib(2)]
  obtain p1 where p1: "prepare w1 Sign_Witness data (gr_npub g) (Some ev) (Some policy) = Inr p1"
    "te_operator (pr_terms p1) = VStr operator"
    using made_request_prepared [OF rq r w(1) t(1) t1(1) vc(1-3) m n'(1) d(2)] by blast
  let ?f = "canonical_json (authorization_fields w g service operator valid_for kinds raw (ev_id r) (o_now w2))"
  obtain p2 where p2: "prepare w2 Sign_Witness data (gr_npub g) (Some ev) (Some policy) = Inr p2"
    "pr_request p2 = to_dict r" "te_kind (pr_terms p2) = 30078" "te_created_at (pr_terms p2) = o_now w2"
    "te_text (pr_terms p2) = ?f" "te_tags (pr_terms p2) = authorization_tags g service (ev_id r)"
    using made_request_prepared [OF rq r w(2) t1(2) t(3) vc(4-6) m n'(2) d(2)] by blast
  let ?x = "sign_event (o_stroma w2) (strip secret) 30078 (o_now w2) ?f (authorization_tags g service (ev_id r))"
  note g = grant_signature [OF rq r w(2) t1(2) t(3) k(2) p2(2) refl]
  have "operator_sign w1 w2 Sign_Witness (gr_npub g) ss = (Some (pr_review p1), Inr ?x)"
    using k lib i(4) g(2) by (simp add: operator_sign_def in' p1 approve_def p2(1,3-6) Let_def)
  with g(1) show ?thesis by blast
qed

section \<open>The whole loop\<close>

text \<open>C9: the tools of the two parties fit together: when a commissioned service without a grant asks for
  one, and its operator runs the signing tool on that request, the evidence of the service and the
  policy that was asked for, with the right key and a yes, then the tool returns an event, and
  \<open>authorize\<close> accepts it: the witness is authorized, and permitted unless it had been suspended.\<close>

theorem operator_grants:
  assumes "verified_grantor w s (open_for_writing a) = (Inr g, b)" "validate_history w g b = Inr []"
    and "stroma_ok (o_crypto w) (o_stroma w)" "service_management s \<in> set management_modes"
    and "policy_bytes (VStr policy) = Inr raw"
    and "hex_string 64 (o_nonce w)" "valid_kinds (sorted_kinds kinds)"
    and "0 < valid_for" "valid_for \<le> max_validity_seconds" "0 \<le> o_now w" "o_now w + valid_for < 2 ^ 63"
    and "o_db_fault w = None"
  shows "\<exists>es ev r tp a' chain operator. witness_request w s (Inr raw) valid_for kinds False a = (Inr (es, ev, tp), a')
    \<and> dget ev ''request'' = VDict (to_dict r) \<and> load_commissioning (open_for_writing a) = Inr chain
    \<and> public_hex (o_stroma w) (gr_operator_npub g) = Inr operator
    \<and> (\<forall>w1 w2 w' ss. operator_ready (o_stroma w) r chain raw operator ss
        \<and> same_libraries w w1 \<and> same_libraries w w2 \<and> same_libraries w w' \<and> o_db_fault w' = None
        \<and> o_now w \<le> o_now w1 \<and> o_now w1 \<le> o_now w2 \<and> o_now w2 \<le> o_now w'
        \<and> o_now w' < o_now w + request_ttl \<and> o_now w' < o_now w + valid_for
        \<longrightarrow> (\<exists>review x v a''. operator_sign w1 w2 Sign_Witness (gr_npub g) ss = (Some review, Inr x)
              \<and> witness_authorize w' s (VDict (to_dict x)) a' = (Inr v, a'')
              \<and> vw_authorization_state v = Authorized
              \<and> vw_permitted v = (\<not> suspended_now (load_controls a))))"
proof -
  have enc: "encodable (service_management s)" using assms(4) by (auto simp: management_modes_def)
  from authorization_cycle [OF assms(1-3) enc assms(5-12)] obtain service operator np es ev r tp a' where
    c: "parties (o_stroma w) g service operator" "requestable w g service operator valid_for kinds policy raw"
      "made_request w g service operator valid_for kinds raw r"
      "witness_request w s (Inr raw) valid_for kinds False a = (Inr (es, ev, tp), a')"
      "dget ev ''request'' = VDict (to_dict r)"
    and go: "\<And>w1 tp1 x w'. authorization_template w1 r = Inr tp1
        \<and> signed_by (o_crypto w) (tp_pubkey tp1) (tp_kind tp1) (tp_created_at tp1) (tp_content tp1) (tp_tags tp1) x
        \<and> o_now w \<le> o_now w1 \<and> o_now w1 \<le> o_now w'
        \<and> o_now w' < o_now w + request_ttl \<and> o_now w' < o_now w + valid_for
        \<and> same_libraries w w' \<and> o_db_fault w' = None
        \<Longrightarrow> \<exists>v a''. witness_authorize w' s (VDict (to_dict x)) a' = (Inr v, a'')
              \<and> vw_authorization_state v = Authorized
              \<and> vw_permitted v = (\<not> suspended_now (load_controls a))" by blast
  obtain chain n cm where e: "load_commissioning (open_for_writing a) = Inr chain"
    "settings_npub (o_stroma w) s = Inr (Some n)" "check_evidence w chain n (service_management s) = Inr cm"
    "g = \<lparr>gr_operator_npub = cm_operator_npub cm, gr_attestation_id = cm_attestation_id cm,
            gr_npub = n, gr_management = service_management s\<rparr>"
    using verified_grantor_ok [OF assms(1,3)] by blast
  have gf: "check_evidence w chain (gr_npub g) (gr_management g) = Inr cm"
    "cm_operator_npub cm = gr_operator_npub g" "cm_attestation_id cm = gr_attestation_id g"
    "gr_management g \<in> set management_modes"
    using e(3,4) assms(4) by simp_all
  obtain hex where "priv_key (o_stroma w) (own_key s) = Some (hex, n)" using own_key_npub [OF e(2)] by blast
  then have "key_pair (o_stroma w) hex n" by (rule stroma_priv [OF assms(3)])
  then have nk: "normalize_public_key (o_stroma w) (gr_npub g) ''expected service'' = Inr (service, n)"
    using c(1) by (auto simp: key_pair_def normalize_public_key_def e(4) parties_def public_hex_iff)
  have "\<exists>review x v a''. operator_sign w1 w2 Sign_Witness (gr_npub g) ss = (Some review, Inr x)
              \<and> witness_authorize w' s (VDict (to_dict x)) a' = (Inr v, a'')
              \<and> vw_authorization_state v = Authorized
              \<and> vw_permitted v = (\<not> suspended_now (load_controls a))"
    if ss: "operator_ready (o_stroma w) r chain raw operator ss"
      and l: "same_libraries w w1" "same_libraries w w2" "same_libraries w w'" "o_db_fault w' = None"
      and t: "o_now w \<le> o_now w1" "o_now w1 \<le> o_now w2" "o_now w2 \<le> o_now w'"
        "o_now w' < o_now w + request_ttl" "o_now w' < o_now w + valid_for" for w1 w2 w' ss
  proof -
    have "o_now w2 < request_expiry w valid_for" using t by (simp add: request_expiry_def)
    from made_request_signed [OF c(2,3) l(1,2) t(1,2) this gf nk ss] obtain review x where
      x: "operator_sign w1 w2 Sign_Witness (gr_npub g) ss = (Some review, Inr x)"
        "made_grant w g service operator valid_for kinds raw r (o_now w2) x"
      by blast
    have "\<exists>v a''. witness_authorize w' s (VDict (to_dict x)) a' = (Inr v, a'')
              \<and> vw_authorization_state v = Authorized
              \<and> vw_permitted v = (\<not> suspended_now (load_controls a))"
    proof (rule go [of w2], intro conjI)
      have r: "ev_content r = canonical_json (request_body_fields w g service operator valid_for kinds raw)"
        "valid_kinds (sorted_kinds kinds)"
        using c(2,3) by (simp_all add: made_request_def signed_by_def requestable_def)
      show "authorization_template w2 r = Inr
         \<lparr>tp_kind = 30078, tp_pubkey = operator, tp_created_at = o_now w2,
           tp_content = canonical_json
             (authorization_fields w g service operator valid_for kinds raw (ev_id r) (o_now w2)),
           tp_tags = authorization_tags g service (ev_id r)\<rparr>"
        by (rule template_of_request [OF r(1) request_json [OF c(2)] r(2)])
    qed (use x(2) t l in \<open>simp_all add: made_grant_def\<close>)
    with x(1) show ?thesis by blast
  qed
  moreover have "public_hex (o_stroma w) (gr_operator_npub g) = Inr operator" using c(1) by (simp add: parties_def)
  ultimately show ?thesis using c(4,5) e(1) by blast
qed

end
