(* ===== verification/Json_Size.thy ===== *)
theory Json_Size
  imports Stroma_Spec
begin

text \<open>
  How long a JSON text can be: a bound that is computed from the lengths of the strings in a
  value, and the file of a document, which the operator's tool reads when it is at most a mebibyte.
\<close>

section \<open>A bound on the length\<close>

text \<open>A character is written as at most twelve, two \<open>\\u\<close> escapes; two more for what surrounds a member.\<close>

fun weight :: "pyval \<Rightarrow> nat" where
  "weight VNone = 4"
| "weight (VNum n) = length (num_text n)"
| "weight (VFloat f) = length (float_text f)"
| "weight (VStr s) = 12 * length s + 2"
| "weight (VList vs) = 2 + sum_list (map (\<lambda>v. weight v + 2) vs)"
| "weight (VDict d) = 2 + sum_list (map (\<lambda>(k, v). 12 * length k + weight v + 6) d)"

lemma length_json_char: "length (json_char a c) \<le> 12"
  by (simp add: json_char_def u_escape_def hex4_def)

lemma length_json_string: "length (json_string a s) \<le> 12 * length s + 2"
proof -
  have "length (concat (map (json_char a) s)) \<le> 12 * length s"
  proof (induction s)
    case (Cons c s)
    with length_json_char [of a c] show ?case by simp
  qed simp
  then show ?thesis by (simp add: json_string_def)
qed

lemma length_join: "length sep \<le> 2 \<Longrightarrow> length (join sep xs) \<le> sum_list (map (\<lambda>x. length x + 2) xs)"
  by (induction sep xs rule: join.induct) auto

lemma length_item_sep: "length (item_sep o') \<le> 2"
  by (simp add: pad_def)

lemma length_dumps: "length (dumps o' v) \<le> weight v"
proof (induction v)
  case (VStr s)
  then show ?case using length_json_string by simp
next
  case (VList vs)
  have "sum_list (map (\<lambda>x. length x + 2) (map (dumps o') vs)) \<le> sum_list (map (\<lambda>v. weight v + 2) vs)"
    using VList.IH by (simp add: comp_def sum_list_mono)
  with length_join [OF length_item_sep, of o' "map (dumps o') vs"] show ?case by simp
next
  case (VDict d)
  have "length (member_text o' (k, v)) + 2 \<le> 12 * length k + weight v + 6" if "(k, v) \<in> set d" for k v
    using VDict.IH [of "(k, v)" v] that length_json_string [of "ensure_ascii o'" k]
    by (simp add: member_text_def pad_def Basic_BNFs.snds.simps)
  then have "sum_list (map (\<lambda>x. length x + 2) (map (member_text o') d))
      \<le> sum_list (map (\<lambda>(k, v). 12 * length k + weight v + 6) d)"
    by (auto simp: comp_def intro!: sum_list_mono)
  with length_join [OF length_item_sep, of o' "map (member_text o') d"] show ?case
    by (simp add: dumps_VDict del: dumps.simps)
qed simp_all

lemma sum_list_insort: "sum_list (map f (insort_key g x xs)) = f x + (sum_list (map f xs) :: nat)"
  by (induction xs) auto

lemma sum_list_sort: "sum_list (map f (sort_key g xs)) = (sum_list (map f xs) :: nat)"
  by (induction xs) (simp_all add: sort_key_def sum_list_insort)

lemma weight_sort_keys: "weight (sort_keys v) = weight v"
proof (induction v)
  case (VList vs)
  then show ?case by (simp add: comp_def cong: map_cong)
next
  case (VDict d)
  let ?f = "\<lambda>(k, v). 12 * length k + weight v + 6"
  have "weight (sort_keys v) = weight v" if "(k, v) \<in> set d" for k v
    using VDict.IH [of "(k, v)" v] that by (simp add: Basic_BNFs.snds.simps)
  then have "map (?f \<circ> (\<lambda>(k, v). (k, sort_keys v))) d = map ?f d"
    by (intro map_cong) auto
  then have "sum_list (map (?f \<circ> (\<lambda>(k, v). (k, sort_keys v))) d) = sum_list (map ?f d)" by (rule arg_cong)
  then show ?case by (simp add: sum_list_sort)
qed simp_all

lemma length_canonical: "length (canonical_json d) \<le> weight (VDict d)"
  unfolding canonical_json_def using length_dumps weight_sort_keys by metis

section \<open>A file of a document\<close>

lemma ascii_json_char: "c' \<in> set (json_char True c) \<Longrightarrow> c' < 128"
proof -
  have h: "hex_char (n mod 16) < 128" for n
    using mod_less_divisor [of 16 n] by (auto simp: hex_char_def)
  have u: "x < 128" if "x \<in> set (u_escape n)" for x n
    using that h by (auto simp: u_escape_def hex4_def)
  show "c' \<in> set (json_char True c) \<Longrightarrow> c' < 128"
    unfolding json_char_def by (auto simp del: One_nat_def dest: u split: if_split_asm)
qed

lemma ascii_json_string: "c \<in> set (json_string True s) \<Longrightarrow> c < 128"
  using ascii_json_char by (auto simp: json_string_def)

lemma ascii_join: "c \<in> set (join sep xs) \<Longrightarrow> c \<in> set sep \<or> (\<exists>x \<in> set xs. c \<in> set x)"
  by (induction sep xs rule: join.induct) auto

lemma ascii_int_text: "c \<in> set (int_text i) \<Longrightarrow> c < 128"
  using nat_text_all_digits [of "nat i"] nat_text_all_digits [of "nat (- i)"]
  by (fastforce simp: int_text_def digit_def list_all_iff split: if_splits)

lemma ascii_dumps: "json_ok v \<Longrightarrow> c \<in> set (dumps style_ascii v) \<Longrightarrow> c < 128"
proof (induction v)
  case (VNum n)
  then show ?case by (cases n) (auto simp: lit_def dest: ascii_int_text split: if_splits)
next
  case (VStr s)
  then show ?case using ascii_json_string by simp
next
  case (VList vs)
  then show ?case by (auto simp: list_all_iff dest!: ascii_join)
next
  case (VDict d)
  have "c < 128" if "(k, v) \<in> set d" "c \<in> set (dumps style_ascii v)" for k v
    using VDict.IH [of "(k, v)" v] VDict.prems that by (auto simp: list_all_iff Basic_BNFs.snds.simps)
  then show ?case using VDict.prems ascii_json_string by (auto simp: dest!: ascii_join)
qed (auto simp: lit_def)

definition json_file :: "pydict \<Rightarrow> byte list" where
  "json_file d = map word_of_nat (concat (map utf8_char (dumps style_ascii (VDict d))))"

lemma json_file_encode:
  "json_ok (VDict d) \<Longrightarrow> utf8_encode (dumps style_ascii (VDict d)) = Inr (json_file d)"
  using encodable_dumps [of "VDict d" style_ascii] by (simp add: utf8_encode_def json_file_def del: dumps.simps json_ok.simps)

lemma length_json_file:
  assumes "json_ok (VDict d)"
  shows "length (json_file d) \<le> weight (VDict d)"
proof -
  have "length (concat (map utf8_char s)) = length s" if "\<forall>c \<in> set s. c < 128" for s
    using that by (induction s) (auto simp: utf8_char_def)
  then have "length (json_file d) = length (dumps style_ascii (VDict d))"
    using ascii_dumps [OF assms] by (simp add: json_file_def del: dumps.simps)
  then show ?thesis using length_dumps [of style_ascii "VDict d"] by simp
qed

end
