(* ===== verification/Operator_Example.thy ===== *)
theory Operator_Example
  imports Operator_Cycle Json_Size Auto_Example
begin

text \<open>
  An operator's two signatures: the commissioning of the service with the two keys, and the grant
  that the commissioned service asks for.
\<close>

section \<open>The sizes of the documents\<close>

lemma int_text_lengths [simp]:
  "length (int_text 1) = 1" "length (int_text 78) = 2" "length (int_text 1000) = 4" "length (int_text 1415) = 4"
  "length (int_text 2000) = 4" "length (int_text 3000) = 4" "length (int_text 30078) = 5"
  "length (int_text 87400) = 5" "length (int_text 83000) = 5"
  by (simp_all add: int_text_def nat_text.simps)

lemma wf_event_lengths:
  "wf_event e \<Longrightarrow> length (ev_id e) = 64" "wf_event e \<Longrightarrow> length (ev_pubkey e) = 64"
  "wf_event e \<Longrightarrow> length (ev_sig e) = 128"
  by (auto simp: wf_event_def hex_string_def)

lemma hex_lengths [simp]: "length hex_a = 64" "length hex_b = 64"
  by (simp_all add: hex_a_def hex_b_def)

text \<open>The tags of an event: at most \<open>n\<close> characters and a few for each string.\<close>

lemma weight_event:
  assumes "signed_by c hex kind t (canonical_json d) tags e" "weight (VDict d) \<le> n"
  shows "weight (VDict (to_dict e)) \<le> 12 * n + weight (tags_val tags) + length (int_text kind) + length (int_text t) + 4000"
proof -
  have "length (ev_content e) \<le> n" using assms length_canonical [of d] by (simp add: signed_by_def)
  then show ?thesis
    using assms(1) wf_event_lengths [of e] by (simp add: signed_by_def to_dict_def)
qed

lemma toy_request_weight: "weight (VDict (to_dict toy_request)) \<le> 130000"
proof -
  have "weight (VDict (request_content hex_a 1000 (lit ''independent'') (replicate 64 102) hex_b)) \<le> 9000"
    by (simp add: request_content_def service_object_def request_schema_def request_ttl_def)
  from weight_event [OF toy_request_signed this] show ?thesis
    by (simp add: request_tags_def tags_val_def request_schema_def request_ttl_def)
qed

lemma toy_attestation_weight: "weight (VDict (to_dict toy_attestation)) \<le> 130000"
proof -
  have r: "length (ev_id toy_request) = 64" "ev_created_at toy_attestation = NInt 2000"
    using toy_wf wf_event_lengths toy_attestation_signed by (auto simp: signed_by_def)
  then have "weight (VDict (expected_attestation toy_request hex_b toy_attestation (lit ''independent'') hex_a)) \<le> 9000"
    by (simp add: expected_attestation_def service_object_def attestation_schema_def)
  from weight_event [OF toy_attestation_signed this] r show ?thesis
    by (simp add: attestation_tags_def tags_val_def attestation_schema_def)
qed

lemma toy_descriptor_weight:
  assumes "signed_by lax_crypto hex_a 30078 2000
    (canonical_json (descriptor_content hex_a (lit ''independent'') toy_attestation 2000))
    (descriptor_tags toy_attestation) d"
  shows "weight (VDict (to_dict d)) \<le> 130000"
proof -
  have a: "length (ev_id toy_attestation) = 64" "length (ev_pubkey toy_attestation) = 64"
    using toy_wf wf_event_lengths by auto
  then have "weight (VDict (descriptor_content hex_a (lit ''independent'') toy_attestation 2000)) \<le> 9000"
    by (simp add: descriptor_content_def service_object_def descriptor_schema_def)
  from weight_event [OF assms this] a show ?thesis
    by (simp add: descriptor_tags_def tags_val_def descriptor_schema_def)
qed

lemma read_json_file:
  assumes "json_ok (VDict d)" "weight (VDict d) \<le> max_input_bytes"
  shows "read_json (Inr (json_file d)) = Inr d"
proof -
  have "\<exists>xs. dumps style_ascii (VDict d) = 123 # xs" by (simp add: dumps_VDict)
  then have "take 3 (json_file d) \<noteq> [239, 187, 191]"
    by (auto simp: json_file_def utf8_char_def)
  then have "loads_bytes (json_file d) = Inr (VDict d)"
    using utf8_decode_encode [OF json_file_encode [OF assms(1)]] loads_dumps [OF assms(1)]
    by (simp add: loads_bytes_def del: dumps.simps)
  then show ?thesis using length_json_file [OF assms(1)] assms(2) by (simp add: read_json_def)
qed

section \<open>The operator of the commissioned service\<close>

lemma toy_secret:
  assumes "public_hex toy_stroma k = Inr hex"
  shows "\<exists>secret np. priv_key toy_stroma (strip secret) = Some (hex, np)"
proof -
  have "strip (lit ''nsec1a'') = lit ''nsec1a''" "strip (lit ''nsec1b'') = lit ''nsec1b''"
    by (simp_all add: strip_def lit_def py_space_def)
  then have "priv_key toy_stroma (strip (lit ''nsec1a'')) = Some (hex_a, lit ''npub1a'')"
    "priv_key toy_stroma (strip (lit ''nsec1b'')) = Some (hex_b, lit ''npub1b'')" by simp_all
  moreover have "hex = hex_a \<or> hex = hex_b"
    using assms by (auto simp: public_hex_iff toy_stroma_def toy_pub_def split: if_splits)
  ultimately show ?thesis by blast
qed

lemma made_request_weight:
  assumes rq: "requestable (toy_world 3000) g hex_a operator 80000 [1415] [112] [112]"
    and r: "made_request (toy_world 3000) g hex_a operator 80000 [1415] [112] r"
    and g: "gr_management g = lit ''independent''" "length (gr_attestation_id g) = 64"
  shows "weight (VDict (to_dict r)) \<le> 200000" "json_ok (VDict (to_dict r))"
proof -
  have op: "length operator = 64"
    using rq public_hex_string by (auto simp: requestable_def parties_def hex_string_def)
  have "weight (VDict (request_body_fields (toy_world 3000) g hex_a operator 80000 [1415] [112])) \<le> 14000"
    using op g sha256_hex_digits [of "[112]"]
    by (simp add: request_body_fields_def service_object_def witness_request_schema_def witness_role_def
        request_ttl_def sorted_kinds_def)
  from weight_event [OF r [unfolded made_request_def] this] have "weight (VDict (to_dict r))
    \<le> 12 * 14000 + weight (tags_val (witness_tags g operator (request_expiry (toy_world 3000) 80000)))
      + length (int_text 78) + length (int_text 3000) + 4000"
    by (simp del: weight.simps to_dict_def)
  then show "weight (VDict (to_dict r)) \<le> 200000"
    using op g by (simp add: witness_tags_def tags_val_def witness_role_def request_expiry_def request_ttl_def)
  have "int_printable 3000" "int_printable 78" by (rule int_printable_64; simp)+
  then show "json_ok (VDict (to_dict r))"
    using r by (intro json_ok_event) (auto simp: made_request_def signed_by_def event_printable_def)
qed

lemma weight_three:
  "weight (VDict [(i, x), (j, y), (k, z)])
    = 20 + 12 * (length i + length j + length k) + weight x + weight y + weight z"
  by simp

lemma toy_ready:
  "\<exists>b g operator chain cm. verified_grantor (toy_world 3000) toy_settings (open_for_writing b) = (Inr g, b)
    \<and> validate_history (toy_world 3000) g b = Inr [] \<and> load_controls b = []
    \<and> load_commissioning (open_for_writing b) = Inr chain
    \<and> requestable (toy_world 3000) g hex_a operator 80000 [1415] [112] [112]
    \<and> check_evidence (toy_world 3000) chain (gr_npub g) (gr_management g) = Inr cm
    \<and> cm_operator_npub cm = gr_operator_npub g \<and> cm_attestation_id cm = gr_attestation_id g
    \<and> gr_npub g = lit ''npub1a'' \<and> gr_management g = lit ''independent''
    \<and> (\<forall>r. made_request (toy_world 3000) g hex_a operator 80000 [1415] [112] r
        \<longrightarrow> (\<exists>ss. operator_ready toy_stroma r chain [112] operator ss))"
proof -
  let ?w = "toy_world 3000"
  obtain b g operator ev d chain where
    g: "verified_grantor ?w toy_settings (open_for_writing b) = (Inr g, b)"
      "validate_history ?w g b = Inr []" "load_controls b = []"
    and rq: "requestable ?w g hex_a operator 80000 [1415] [112] [112]"
    and chain: "load_commissioning b = Inr chain" "VDict chain = sort_keys (VDict ev)" "json_ok (VDict ev)"
    and ev: "ev = [(lit ''commissioning_request'', sort_keys (VDict (to_dict toy_request))),
          (lit ''operator_attestation'', VDict (to_dict toy_attestation)),
          (lit ''service_descriptor'', VDict (to_dict d))]"
    and d: "signed_by lax_crypto hex_a 30078 2000
        (canonical_json (descriptor_content hex_a (lit ''independent'') toy_attestation 2000))
        (descriptor_tags toy_attestation) d"
    using toy_witness_chain by metis
  have st: "stroma_ok (o_crypto ?w) (o_stroma ?w)" by (simp add: toy_stroma_ok)
  obtain cm n e where cm: "load_commissioning (open_for_writing b) = Inr e"
    "check_evidence ?w e n (service_management toy_settings) = Inr cm"
    "g = \<lparr>gr_operator_npub = cm_operator_npub cm, gr_attestation_id = cm_attestation_id cm,
            gr_npub = n, gr_management = service_management toy_settings\<rparr>"
    "settings_npub (o_stroma ?w) toy_settings = Inr (Some n)"
    using verified_grantor_ok [OF g(1) st] by blast
  have e: "e = chain"
    using cm(1) chain(1) by (cases "commissioning_table b")
      (auto simp: load_commissioning_def open_for_writing_def split: if_splits)
  note cm = cm [unfolded e]
  obtain vc where vc: "verified_chain ?w (Some chain) n (lit ''independent'') = Inr vc"
    "ev_id (vc_attestation vc) = cm_attestation_id cm"
    using check_evidence_chain [OF cm(2) check_evidence_no_wrapper [OF cm(2)]] by auto
  have "\<exists>rq x. valid_event ?w ''operator attestation'' x = Inr (vc_attestation vc)"
    using vc(1) by (auto simp: verified_chain_def recast_eq_Inr rbind_eq_Inr verify_attestation_iff)
  then have "wf_event (vc_attestation vc)"
    by (auto simp: valid_event_iff [OF st] validate_event_iff)
  then have id: "length (gr_attestation_id g) = 64" using vc(2) cm(3) wf_event_lengths(1) by force
  have "weight (VDict ev) \<le> 400000"
    unfolding ev using toy_request_weight toy_attestation_weight toy_descriptor_weight [OF d]
    by (simp add: weight_three weight_sort_keys del: to_dict_def sort_keys.simps weight.simps)
  then have cw: "weight (VDict chain) \<le> max_input_bytes" "json_ok (VDict chain)"
    unfolding chain(2) using json_ok_sort_keys [OF chain(3)] weight_sort_keys [of "VDict ev"]
    by (simp_all only: max_input_bytes_def)
  have "\<exists>ss. operator_ready toy_stroma r chain [112] operator ss"
    if r: "made_request ?w g hex_a operator 80000 [1415] [112] r" for r
  proof -
    note mw = made_request_weight [OF rq r _ id]
    obtain secret np where s: "priv_key toy_stroma (strip secret) = Some (operator, np)"
      using toy_secret [of "gr_operator_npub g"] rq by (auto simp: requestable_def parties_def)
    let ?ss = "\<lparr>ss_tty = True, ss_file = Inr (json_file (to_dict r)),
      ss_commissioning_file = Inr (json_file chain), ss_policy_file = Inr [112],
      ss_secret = Typed secret, ss_answer = lit ''yes''\<rparr>"
    have "read_json (Inr (json_file (to_dict r))) = Inr (to_dict r)"
      using mw cm(3) by (intro read_json_file) (simp_all add: max_input_bytes_def del: to_dict_def)
    moreover have "wrapped_request Sign_Witness (to_dict r) = Inr (to_dict r)"
      by (simp add: wrapped_request_def as_dict_def to_dict_def dget_or_def)
    moreover have "strip (lit ''yes'') = lit ''yes''" by (simp add: strip_def lit_def py_space_def)
    ultimately have "operator_ready toy_stroma r chain [112] operator ?ss"
      using s read_json_file [OF cw(2,1)] by (auto simp: operator_ready_def)
    then show ?thesis by blast
  qed
  then show ?thesis using g rq cm by (intro exI [of _ b] exI [of _ g] exI [of _ operator] exI [of _ chain] exI [of _ cm]) simp
qed

section \<open>The two properties there\<close>

lemma toy_key: "normalize_public_key toy_stroma (lit ''npub1a'') ''expected service'' = Inr (hex_a, lit ''npub1a'')"
  by (simp add: normalize_public_key_def)

theorem signed_as_reviewed_witness:
  "\<exists>ss review e t t'. operator_sign (toy_world 3100) (toy_world 3200) Sign_Witness (lit ''npub1a'') ss = (Some review, Inr e)
    \<and> dget review ''terms'' = VDict t \<and> loads (ev_content e) = Inr (VDict t')
    \<and> map_of t' (lit ''issued_at'') = Some (VInt 3200)
    \<and> map_of t' (lit ''subject_kinds'') = map_of t (lit ''subject_kinds'')"
proof -
  let ?w = "toy_world 3000" and ?w1 = "toy_world 3100" and ?w2 = "toy_world 3200"
  obtain b g operator chain cm where t:
    "verified_grantor ?w toy_settings (open_for_writing b) = (Inr g, b)" "validate_history ?w g b = Inr []"
    "requestable ?w g hex_a operator 80000 [1415] [112] [112]"
    "check_evidence ?w chain (gr_npub g) (gr_management g) = Inr cm"
    "cm_operator_npub cm = gr_operator_npub g" "cm_attestation_id cm = gr_attestation_id g"
    "gr_npub g = lit ''npub1a''" "gr_management g = lit ''independent''"
    "\<And>r. made_request ?w g hex_a operator 80000 [1415] [112] r
      \<Longrightarrow> \<exists>ss. operator_ready toy_stroma r chain [112] operator ss"
    using toy_ready by metis
  obtain r where r: "made_request ?w g hex_a operator 80000 [1415] [112] r"
    using request_operation [OF t(3) _ _ toy_policy(2) t(1,2)] by auto
  obtain ss where ss: "operator_ready toy_stroma r chain [112] operator ss" using t(9) [OF r] by blast
  have lib: "same_libraries ?w ?w1" "same_libraries ?w ?w2" "same_libraries ?w1 ?w2"
    by (simp_all add: same_libraries_def)
  have n: "normalize_public_key (o_stroma ?w) (gr_npub g) ''expected service'' = Inr (hex_a, lit ''npub1a'')"
    using toy_key t(7) by simp
  have "\<exists>review x. operator_sign ?w1 ?w2 Sign_Witness (gr_npub g) ss = (Some review, Inr x)"
    using made_request_signed [OF t(3) r lib(1,2) _ _ _ t(4-6) _ n, of ss] ss t(8)
    by (auto simp: request_expiry_def request_ttl_def management_modes_def)
  then obtain review x where s: "operator_sign ?w1 ?w2 Sign_Witness (lit ''npub1a'') ss = (Some review, Inr x)"
    using t(7) by auto
  have "int_printable 3100" "int_printable 3200" by (rule int_printable_64; simp)+
  then obtain t t' where "dget review ''terms'' = VDict t" "loads (ev_content x) = Inr (VDict t')"
    "\<forall>k. k \<noteq> lit ''issued_at'' \<longrightarrow> map_of t' k = map_of t k" "map_of t' (lit ''issued_at'') = Some (VInt 3200)"
    using signed_as_reviewed [OF s _ lib(3)] by (auto simp: toy_stroma_ok)
  moreover from this(3) have "map_of t' (lit ''subject_kinds'') = map_of t (lit ''subject_kinds'')" by simp
  ultimately show ?thesis using s by blast
qed

theorem operator_grants_witness:
  "\<exists>b es ev tp a' ss review x v a''.
    witness_request (toy_world 3000) toy_settings (Inr [112]) 80000 [1415] False b = (Inr (es, ev, tp), a')
    \<and> operator_sign (toy_world 3100) (toy_world 3200) Sign_Witness (lit ''npub1a'') ss = (Some review, Inr x)
    \<and> witness_authorize (toy_world 4000) toy_settings (VDict (to_dict x)) a' = (Inr v, a'') \<and> vw_permitted v"
proof -
  let ?w = "toy_world 3000"
  obtain b g operator chain where t:
    "verified_grantor ?w toy_settings (open_for_writing b) = (Inr g, b)" "validate_history ?w g b = Inr []"
    "load_controls b = []" "load_commissioning (open_for_writing b) = Inr chain"
    "requestable ?w g hex_a operator 80000 [1415] [112] [112]"
    "gr_npub g = lit ''npub1a''"
    "\<And>r. made_request ?w g hex_a operator 80000 [1415] [112] r
      \<Longrightarrow> \<exists>ss. operator_ready toy_stroma r chain [112] operator ss"
    using toy_ready by metis
  have st: "stroma_ok (o_crypto ?w) (o_stroma ?w)" by (simp add: toy_stroma_ok)
  have kinds: "valid_kinds (sorted_kinds [1415])" using t(5) by (simp add: requestable_def)
  have mode: "service_management toy_settings \<in> set management_modes" by (simp add: management_modes_def)
  from operator_grants [OF t(1,2) st mode toy_policy(1) _ kinds, of 80000] obtain es ev r tp a' chain' operator' where
    c: "witness_request ?w toy_settings (Inr [112]) 80000 [1415] False b = (Inr (es, ev, tp), a')"
      "dget ev ''request'' = VDict (to_dict r)" "load_commissioning (open_for_writing b) = Inr chain'"
      "public_hex (o_stroma ?w) (gr_operator_npub g) = Inr operator'"
    and go: "\<And>w1 w2 w' ss. operator_ready (o_stroma ?w) r chain' [112] operator' ss
        \<and> same_libraries ?w w1 \<and> same_libraries ?w w2 \<and> same_libraries ?w w' \<and> o_db_fault w' = None
        \<and> o_now ?w \<le> o_now w1 \<and> o_now w1 \<le> o_now w2 \<and> o_now w2 \<le> o_now w'
        \<and> o_now w' < o_now ?w + request_ttl \<and> o_now w' < o_now ?w + 80000
        \<Longrightarrow> \<exists>review x v a''. operator_sign w1 w2 Sign_Witness (gr_npub g) ss = (Some review, Inr x)
              \<and> witness_authorize w' toy_settings (VDict (to_dict x)) a' = (Inr v, a'')
              \<and> vw_authorization_state v = Authorized
              \<and> vw_permitted v = (\<not> suspended_now (load_controls b))"
    by (auto simp: hex_string_replicate max_validity_seconds_def)
  have same: "chain' = chain" "operator' = operator"
    using c(3,4) t(4,5) by (auto simp: requestable_def parties_def)
  obtain es2 r2 tp2 where r2: "made_request ?w g hex_a operator 80000 [1415] [112] r2"
    "witness_request ?w toy_settings (Inr [112]) 80000 [1415] False b
      = (Inr (es2, request_evidence [112] r2, tp2), b\<lparr>authorization_row := Some (canonical_json (request_evidence [112] r2))\<rparr>)"
    using request_operation [OF t(5) _ _ toy_policy(2) t(1,2)] by auto
  have "ev = request_evidence [112] r2" using c(1) r2(2) by simp
  then have "to_dict r = to_dict r2" using c(2) by (simp add: request_evidence_def dget_def)
  then have "r = r2" by (simp add: to_dict_inject)
  then obtain ss where "operator_ready toy_stroma r chain [112] operator ss" using t(7) r2(1) by blast
  then have "\<exists>review x v a''. operator_sign (toy_world 3100) (toy_world 3200) Sign_Witness (gr_npub g) ss
        = (Some review, Inr x)
      \<and> witness_authorize (toy_world 4000) toy_settings (VDict (to_dict x)) a' = (Inr v, a'')
      \<and> vw_authorization_state v = Authorized
      \<and> vw_permitted v = (\<not> suspended_now (load_controls b))"
    using same by (intro go) (simp add: same_libraries_def request_ttl_def)
  then obtain review x v a'' where
    "operator_sign (toy_world 3100) (toy_world 3200) Sign_Witness (lit ''npub1a'') ss = (Some review, Inr x)"
    "witness_authorize (toy_world 4000) toy_settings (VDict (to_dict x)) a' = (Inr v, a'')" "vw_permitted v"
    using t(3,6) by (auto simp: suspended_now_def)
  with c(1) show ?thesis by blast
qed

end
