(* ===== verification/Admin_Views.thy ===== *)
theory Admin_Views
  imports Witness_Properties
begin

text \<open>
  The dictionaries that \<open>show\<close> and \<open>verify\<close> of \<open>service.py\<close> and \<open>witness.py\<close> return, key by key:
  what the commands print and the HTTP endpoints answer with.
\<close>

section \<open>The service\<close>

definition service_show_dict :: "outside \<Rightarrow> settings \<Rightarrow> (admin, pydict) act" where
  "service_show_dict w s =
     abind (service_show w s) (\<lambda>(state, evidence).
       areturn (state_dict state @ [(lit ''evidence'', VDict evidence)]))"

definition service_request_dict :: "outside \<Rightarrow> settings \<Rightarrow> pystr \<Rightarrow> (admin, pydict) act" where
  "service_request_dict w s operator_npub =
     abind (service_request w s operator_npub) (\<lambda>event.
       areturn [(lit ''state'', vlit ''commissioning-pending''), (lit ''commissioning_request'', VDict event)])"

definition service_commission_dict :: "outside \<Rightarrow> settings \<Rightarrow> pyval \<Rightarrow> (admin, pydict) act" where
  "service_commission_dict w s attestation =
     abind (service_commission w s attestation) (\<lambda>(c, evidence).
       areturn (commissioned_dict c @ [(lit ''evidence'', VDict evidence)]))"

section \<open>The witness\<close>

fun witness_state_text :: "witness_state \<Rightarrow> string" where
  "witness_state_text Not_Authorized = ''not-authorized''"
| "witness_state_text Request_Pending = ''pending''"
| "witness_state_text Request_Expired = ''request-expired''"
| "witness_state_text Not_Yet_Valid = ''not-yet-valid''"
| "witness_state_text Grant_Expired = ''expired''"
| "witness_state_text Authorized = ''authorized''"
| "witness_state_text Revoked = ''revoked''"
| "witness_state_text Suspended = ''suspended''"

abbreviation optional :: "('a \<Rightarrow> pyval) \<Rightarrow> 'a option \<Rightarrow> pyval" where
  "optional f x \<equiv> (case x of None \<Rightarrow> VNone | Some y \<Rightarrow> f y)"

abbreviation vbool :: "bool \<Rightarrow> pyval" where
  "vbool b \<equiv> VNum (NBool b)"

text \<open>The status of \<open>_check\<close>, or of \<open>_view\<close> without evidence, under the state it is shown with.\<close>

definition status_dict :: "witness_state \<Rightarrow> bool \<Rightarrow> evidence_status option \<Rightarrow> pydict" where
  "status_dict state receipts status =
     [(lit ''state'', vlit (witness_state_text state)), (lit ''role'', VStr witness_role),
      (lit ''receipt_issuance_enabled'', vbool receipts)]
     @ (case status of
          None \<Rightarrow> []
        | Some e \<Rightarrow>
            [(lit ''operator_npub'', VStr (es_operator_npub e)),
             (lit ''authorization_event_id'', optional VStr (es_authorization_id e)),
             (lit ''request_event_id'', VStr (es_request_id e)), (lit ''policy_sha256'', es_policy_sha256 e),
             (lit ''subject_kinds'', es_subject_kinds e),
             (lit ''not_before'', VInt (es_not_before e)), (lit ''not_after'', VInt (es_not_after e))])"

definition evidence_status_dict :: "evidence_status \<Rightarrow> pydict" where
  "evidence_status_dict e = status_dict (es_state e) False (Some e)"

definition control_dict :: "control_row \<Rightarrow> pydict" where
  "control_dict c = [(lit ''action'', VStr (ct_action c)), (lit ''reason'', VStr (ct_reason c)),
     (lit ''recorded_at'', VInt (ct_recorded_at c))]"

text \<open>\<open>{**status, ...}\<close>: \<open>receipt_issuance_enabled\<close> is replaced where it stands.\<close>

definition view_dict :: "witness_view \<Rightarrow> pydict" where
  "view_dict v =
     status_dict (vw_state v) (vw_receipts_enabled v) (vw_status v)
     @ [(lit ''authorization_state'', vlit (witness_state_text (vw_authorization_state v))),
        (lit ''locally_suspended'', vbool (vw_suspended v)),
        (lit ''witnessing_permitted'', vbool (vw_permitted v)),
        (lit ''head_event_id'', optional (\<lambda>x. x) (vw_head v)),
        (lit ''sequence'', VInt (int (vw_sequence v))), (lit ''evidence'', VDict (vw_evidence v)),
        (lit ''history'', VList (map VDict (vw_history v))), (lit ''pending'', optional VDict (vw_pending v)),
        (lit ''pending_status'', optional (\<lambda>e. VDict (evidence_status_dict e)) (vw_pending_status v)),
        (lit ''local_controls'', VList (map (\<lambda>c. VDict (control_dict c)) (vw_controls v)))]"

definition no_view_dict :: "settings \<Rightarrow> pydict" where
  "no_view_dict s =
     [(lit ''state'', vlit ''not-authorized''), (lit ''role'', VStr witness_role),
      (lit ''receipt_issuance_enabled'', vbool (witness_enabled s)),
      (lit ''witnessing_permitted'', vbool False), (lit ''evidence'', VDict []),
      (lit ''history'', VList []), (lit ''local_controls'', VList [])]"

text \<open>\<open>show\<close>, with the dictionary of each of its two returns.\<close>

definition witness_show_dict :: "outside \<Rightarrow> settings \<Rightarrow> (admin, pydict) act" where
  "witness_show_dict w s a =
     (if \<not> db_file a then (Inr (no_view_dict s), a)
      else connection w False
        (abind (areads load_authorization) (\<lambda>evidence.
         abind (areads (\<lambda>a. Inr (load_controls a))) (\<lambda>controls.
         if evidence \<noteq> [] \<or> controls \<noteq> []
         then abind (verified_grantor w s) (\<lambda>g. abind (read_view w s g) (\<lambda>v. areturn (view_dict v)))
         else areturn (no_view_dict s)))) a)"

definition witness_verify_dict :: "outside \<Rightarrow> settings \<Rightarrow> (admin, pydict) act" where
  "witness_verify_dict w s =
     abind (witness_verify w s) (\<lambda>v. areturn (view_dict v @ [(lit ''evidence_verified'', vbool True)]))"

text \<open>The answers of \<open>request\<close> and \<open>renew\<close>: the status, the evidence and the template to sign.\<close>

definition template_dict :: "template \<Rightarrow> pydict" where
  "template_dict t =
     [(lit ''kind'', VInt (tp_kind t)), (lit ''pubkey'', VStr (tp_pubkey t)),
      (lit ''created_at'', VInt (tp_created_at t)), (lit ''content'', VStr (tp_content t)),
      (lit ''tags'', tags_val (tp_tags t))]"

end
