(* ===== verification/Homepage.thy ===== *)
theory Homepage
  imports Py_Json
begin

text \<open>
  \<open>spurline/homepage.py\<close>: the page that a browser is shown. The template is written out line by
  line, cut where a value is inserted; every value goes through \<open>html.escape\<close>. The lemmas are about
  the escaping and hold for any template.
\<close>

section \<open>\<open>html.escape\<close>\<close>

definition replace_char :: "nat \<Rightarrow> pystr \<Rightarrow> pystr \<Rightarrow> pystr" where
  "replace_char c t s = concat (map (\<lambda>x. if x = c then t else [x]) s)"

text \<open>The ampersand first, then \<open><\<close>, \<open>>\<close> and the two quotes.\<close>

definition html_escape :: "pystr \<Rightarrow> pystr" where
  "html_escape s =
     replace_char 39 (lit ''&#x27;'') (replace_char 34 (lit ''&quot;'')
       (replace_char 62 (lit ''&gt;'') (replace_char 60 (lit ''&lt;'')
         (replace_char 38 (lit ''&amp;'') s))))"

section \<open>The values\<close>

text \<open>\<open>f"NIP-{nip:02d}"\<close>\<close>

definition nip_text :: "int \<Rightarrow> pystr" where
  "nip_text nip = lit ''NIP-'' @ (if 0 \<le> nip \<and> nip < 10 then 48 # int_text nip else int_text nip)"

text \<open>\<open>value or "Not configured"\<close>\<close>

definition or_unset :: "pystr option \<Rightarrow> pystr" where
  "or_unset v = (case v of Some t \<Rightarrow> (if t = [] then lit ''Not configured'' else t) | None \<Rightarrow> lit ''Not configured'')"

record page_values =
  pg_version :: pystr
  pg_relay_url :: pystr
  pg_verify_signatures :: bool
  pg_supported_nips :: "int list"
  pg_service_npub :: "pystr option"
  pg_fips_address :: "pystr option"
  pg_management :: pystr
  pg_state :: pystr

section \<open>The template\<close>

definition page_text :: "string list \<Rightarrow> pystr" where
  "page_text ls = join [10] (map lit ls)"

definition page_head :: "string list" where
  "page_head = [
    ''<!doctype html>'',
    ''<html lang=\"en\">'',
    ''<head>'',
    ''  <meta charset=\"utf-8\">'',
    ''  <meta name=\"viewport\" content=\"width=device-width, initial-scale=1\">'',
    ''  <meta name=\"description\" content=\"Spurline local-first Nostr relay\">'',
    ''  <meta name=\"color-scheme\" content=\"light dark\">'',
    ''  <link rel=\"icon\" href=\"assets/spurline-logo.svg\" type=\"image/svg+xml\">'',
    ''  <title>Spurline | Local-first Nostr relay</title>'',
    ''  <style>'',
    ''    :root {'',
    ''      color-scheme: light;'',
    ''      --page: #f4f7fb;'',
    ''      --surface: #ffffff;'',
    ''      --surface-soft: #eaf0fb;'',
    ''      --ink: #101d3c;'',
    ''      --muted: #59667e;'',
    ''      --line: #d7deeb;'',
    ''      --navy: #162a63;'',
    ''      --blue: #1c65d8;'',
    ''      --amber: #d99021;'',
    ''      --green: #237a4b;'',
    ''      --shadow: 0 18px 45px rgba(22, 42, 99, 0.09);'',
    ''    }'',
    '''']"

definition style_layout :: "string list" where
  "style_layout = [
    ''    * { box-sizing: border-box; }'',
    '''',
    ''    body {'',
    ''      margin: 0;'',
    ''      min-height: 100vh;'',
    ''      background: var(--page);'',
    ''      color: var(--ink);'',
    ''      font-family: Inter, ui-sans-serif, system-ui, -apple-system, BlinkMacSystemFont,'',
    ''        \"Segoe UI\", sans-serif;'',
    ''      letter-spacing: 0;'',
    ''    }'',
    '''',
    ''    a { color: var(--navy); }'',
    '''',
    ''    .shell {'',
    ''      width: min(100% - 2rem, 68rem);'',
    ''      margin: 0 auto;'',
    ''      padding: 1.25rem 0 3rem;'',
    ''    }'',
    '''',
    ''    .topbar {'',
    ''      display: flex;'',
    ''      min-height: 2.75rem;'',
    ''      align-items: center;'',
    ''      justify-content: space-between;'',
    ''      gap: 1rem;'',
    ''      margin-bottom: 1rem;'',
    ''    }'',
    '''',
    ''    .brand {'',
    ''      display: flex;'',
    ''      align-items: center;'',
    ''      gap: 0.7rem;'',
    ''      color: var(--navy);'',
    ''      font-size: 0.82rem;'',
    ''      font-weight: 760;'',
    ''      text-transform: uppercase;'',
    ''    }'',
    '''',
    ''    .brand svg { width: 2rem; height: 2rem; flex: 0 0 auto; }'',
    '''',
    ''    .online {'',
    ''      display: inline-flex;'',
    ''      align-items: center;'',
    ''      gap: 0.45rem;'',
    ''      color: var(--green);'',
    ''      font-size: 0.82rem;'',
    ''      font-weight: 720;'',
    ''    }'',
    '''',
    ''    .online::before {'',
    ''      width: 0.55rem;'',
    ''      height: 0.55rem;'',
    ''      border-radius: 50%;'',
    ''      background: var(--green);'',
    ''      content: \"\";'',
    ''      box-shadow: 0 0 0 0.22rem rgba(35, 122, 75, 0.12);'',
    ''    }'',
    '''',
    ''    .hero {'',
    ''      display: grid;'',
    ''      grid-template-columns: minmax(0, 1.35fr) minmax(17rem, 0.65fr);'',
    ''      gap: 1.5rem;'',
    ''      align-items: stretch;'',
    ''      padding: clamp(1.5rem, 5vw, 3.5rem);'',
    ''      border: 1px solid var(--line);'',
    ''      border-radius: 8px;'',
    ''      background: var(--surface);'',
    ''      box-shadow: var(--shadow);'',
    ''    }'',
    '''']"

definition style_hero :: "string list" where
  "style_hero = [
    ''    .eyebrow {'',
    ''      margin: 0 0 0.8rem;'',
    ''      color: var(--amber);'',
    ''      font-size: 0.78rem;'',
    ''      font-weight: 800;'',
    ''      text-transform: uppercase;'',
    ''    }'',
    '''',
    ''    h1 {'',
    ''      margin: 0;'',
    ''      color: var(--navy);'',
    ''      font-size: clamp(3rem, 8vw, 5.4rem);'',
    ''      line-height: 0.98;'',
    ''      overflow-wrap: anywhere;'',
    ''    }'',
    '''',
    ''    .lede {'',
    ''      max-width: 39rem;'',
    ''      margin: 1.2rem 0 1.5rem;'',
    ''      color: var(--muted);'',
    ''      font-size: clamp(1rem, 2vw, 1.18rem);'',
    ''      line-height: 1.65;'',
    ''    }'',
    '''',
    ''    .relay-address {'',
    ''      display: flex;'',
    ''      max-width: 40rem;'',
    ''      align-items: center;'',
    ''      gap: 0.75rem;'',
    ''      padding: 0.7rem 0.75rem 0.7rem 1rem;'',
    ''      border: 1px solid var(--line);'',
    ''      border-radius: 6px;'',
    ''      background: var(--surface-soft);'',
    ''    }'',
    '''',
    ''    .relay-address code {'',
    ''      min-width: 0;'',
    ''      flex: 1;'',
    ''      overflow-wrap: anywhere;'',
    ''      color: var(--navy);'',
    ''      font-size: 0.86rem;'',
    ''    }'',
    '''',
    ''    button {'',
    ''      flex: 0 0 auto;'',
    ''      min-height: 2.35rem;'',
    ''      padding: 0.55rem 0.8rem;'',
    ''      border: 0;'',
    ''      border-radius: 5px;'',
    ''      background: var(--navy);'',
    ''      color: #ffffff;'',
    ''      cursor: pointer;'',
    ''      font: inherit;'',
    ''      font-size: 0.78rem;'',
    ''      font-weight: 720;'',
    ''    }'',
    '''',
    ''    button:focus-visible, a:focus-visible {'',
    ''      outline: 3px solid rgba(217, 144, 33, 0.48);'',
    ''      outline-offset: 3px;'',
    ''    }'',
    '''',
    ''    .signal {'',
    ''      display: grid;'',
    ''      min-height: 18rem;'',
    ''      place-items: center;'',
    ''      align-content: center;'',
    ''      gap: 1rem;'',
    ''      border-left: 1px solid var(--line);'',
    ''      text-align: center;'',
    ''    }'',
    '''',
    ''    .signal svg { width: min(12rem, 65%); height: auto; }'',
    ''    .signal strong { display: block; color: var(--navy); font-size: 1.1rem; }'',
    ''    .signal span { display: block; margin-top: 0.25rem; color: var(--muted); font-size: 0.84rem; }'',
    '''']"

definition style_panels :: "string list" where
  "style_panels = [
    ''    .grid {'',
    ''      display: grid;'',
    ''      grid-template-columns: repeat(2, minmax(0, 1fr));'',
    ''      gap: 1rem;'',
    ''      margin-top: 1rem;'',
    ''    }'',
    '''',
    ''    .panel {'',
    ''      padding: 1.35rem;'',
    ''      border: 1px solid var(--line);'',
    ''      border-radius: 8px;'',
    ''      background: var(--surface);'',
    ''    }'',
    '''',
    ''    .panel h2 { margin: 0 0 1rem; color: var(--navy); font-size: 1rem; }'',
    ''    dl { margin: 0; }'',
    '''',
    ''    .row {'',
    ''      display: grid;'',
    ''      grid-template-columns: minmax(7.5rem, 0.4fr) minmax(0, 1fr);'',
    ''      gap: 1rem;'',
    ''      padding: 0.72rem 0;'',
    ''      border-top: 1px solid var(--line);'',
    ''    }'',
    '''',
    ''    .row:first-child { padding-top: 0; border-top: 0; }'',
    ''    dt { color: var(--muted); font-size: 0.82rem; }'',
    ''    dd { margin: 0; overflow-wrap: anywhere; font-size: 0.86rem; font-weight: 650; }'',
    '''',
    ''    .features {'',
    ''      display: grid;'',
    ''      grid-template-columns: repeat(2, minmax(0, 1fr));'',
    ''      gap: 0.7rem;'',
    ''      margin: 0;'',
    ''      padding: 0;'',
    ''      list-style: none;'',
    ''    }'',
    '''',
    ''    .features li {'',
    ''      display: flex;'',
    ''      align-items: flex-start;'',
    ''      gap: 0.55rem;'',
    ''      color: var(--muted);'',
    ''      font-size: 0.84rem;'',
    ''      line-height: 1.45;'',
    ''    }'',
    '''',
    ''    .features li::before { color: var(--green); content: \"'' @ CHR 0x5C # ''2713\"; font-weight: 850; }'',
    '''']"

definition style_links :: "string list" where
  "style_links = [
    ''    .about {'',
    ''      margin-top: 1rem;'',
    ''      padding: 1.2rem 1.35rem;'',
    ''      border-left: 0.28rem solid var(--amber);'',
    ''      background: #fff8ec;'',
    ''      color: #5f4b29;'',
    ''      font-size: 0.9rem;'',
    ''      line-height: 1.6;'',
    ''    }'',
    '''',
    ''    .links {'',
    ''      display: flex;'',
    ''      flex-wrap: wrap;'',
    ''      gap: 0.85rem 1.25rem;'',
    ''      margin-top: 1rem;'',
    ''      padding: 0 0.2rem;'',
    ''      font-size: 0.82rem;'',
    ''    }'',
    '''',
    ''    .links a { font-weight: 680; text-decoration-thickness: 1px; }'',
    ''    .links .version { margin-left: auto; color: var(--muted); }'',
    '''',
    ''    @media (max-width: 47rem) {'',
    ''      .shell { width: min(100% - 1.2rem, 68rem); }'',
    ''      .hero { grid-template-columns: 1fr; padding: 1.4rem; }'',
    ''      .signal { min-height: auto; padding-top: 1.5rem; border-top: 1px solid var(--line); border-left: 0; }'',
    ''      .signal svg { width: 7rem; }'',
    ''      .grid { grid-template-columns: 1fr; }'',
    ''      .relay-address { align-items: stretch; flex-direction: column; }'',
    ''      button { width: 100%; }'',
    ''      .links .version { width: 100%; margin-left: 0; }'',
    ''    }'',
    '''',
    ''    @media (prefers-color-scheme: dark) {'',
    ''      :root {'',
    ''        color-scheme: dark;'',
    ''        --page: #0d1322;'',
    ''        --surface: #151e34;'',
    ''        --surface-soft: #1d2945;'',
    ''        --ink: #eef3ff;'',
    ''        --muted: #afbdd8;'',
    ''        --line: #33415e;'',
    ''        --navy: #94b7ff;'',
    ''        --amber: #efb756;'',
    ''        --green: #76c794;'',
    ''        --shadow: none;'',
    ''      }'',
    ''      .about { background: #2a2318; color: #ead5ae; }'',
    ''      button { background: #94b7ff; color: #101a31; }'',
    ''    }'',
    ''  </style>'',
    ''</head>'',
    ''<body>'',
    ''  <main class=\"shell\">'',
    ''    <header class=\"topbar\">'',
    ''      <div class=\"brand\">'',
    ''        '']"

definition after_logo :: "string list" where
  "after_logo = [
    '''',
    ''        <span>Spurline relay</span>'',
    ''      </div>'',
    ''      <div class=\"online\">Online</div>'',
    ''    </header>'',
    '''',
    ''    <section class=\"hero\">'',
    ''      <div>'',
    ''        <p class=\"eyebrow\">Local-first Nostr infrastructure</p>'',
    ''        <h1>Spurline</h1>'',
    ''        <p class=\"lede\">'',
    ''          A lightweight relay that keeps important events close while remaining'',
    ''          connected to the wider Nostr network.'',
    ''        </p>'',
    ''        <div class=\"relay-address\">'',
    ''          <code id=\"relay-url\">'']"

definition after_url :: "string list" where
  "after_url = [
    ''</code>'',
    ''          <button id=\"copy-relay\" type=\"button\" aria-label=\"Copy relay URL\">'',
    ''            Copy relay URL'',
    ''          </button>'',
    ''        </div>'',
    ''      </div>'',
    ''      <div class=\"signal\" aria-label=\"Relay identity\">'',
    ''        '']"

definition after_second_logo :: "string list" where
  "after_second_logo = [
    '''',
    ''        <div>'',
    ''          <strong>Nostr relay</strong>'',
    ''          <span>WebSocket event service</span>'',
    ''        </div>'',
    ''      </div>'',
    ''    </section>'',
    '''',
    ''    <div class=\"grid\">'',
    ''      <section class=\"panel\">'',
    ''        <h2>Relay details</h2>'',
    ''        <dl>'',
    ''          <div class=\"row\"><dt>Status</dt><dd>Online</dd></div>'',
    ''          <div class=\"row\"><dt>Protocol</dt><dd>Nostr over WebSockets</dd></div>'',
    ''          <div class=\"row\"><dt>Supported NIPs</dt><dd>'']"

definition after_nips :: "string list" where
  "after_nips = [
    ''</dd></div>'',
    ''          <div class=\"row\"><dt>Signatures</dt><dd>'']"

definition after_signatures :: "string list" where
  "after_signatures = [
    ''</dd></div>'',
    ''          <div class=\"row\"><dt>Service identity</dt><dd><code>'']"

definition after_npub :: "string list" where
  "after_npub = [
    ''</code></dd></div>'',
    ''          <div class=\"row\"><dt>FIPS IPv6 address</dt><dd><code>'']"

definition after_address :: "string list" where
  "after_address = [
    ''</code></dd></div>'',
    ''          <div class=\"row\"><dt>Management</dt><dd>'']"

definition after_management :: "string list" where
  "after_management = [
    ''</dd></div>'',
    ''          <div class=\"row\"><dt>Identity state</dt><dd>'']"

definition after_state :: "string list" where
  "after_state = [
    ''</dd></div>'',
    ''        </dl>'',
    ''      </section>'',
    '''',
    ''      <section class=\"panel\">'',
    ''        <h2>What this relay provides</h2>'',
    ''        <ul class=\"features\">'',
    ''          <li>Signed event acceptance</li>'',
    ''          <li>Stored event replay</li>'',
    ''          <li>Live subscription fan-out</li>'',
    ''          <li>NIP-01 filter matching</li>'',
    ''          <li>Durable SQLite storage</li>'',
    ''          <li>Local continuity</li>'',
    ''        </ul>'',
    ''      </section>'',
    ''    </div>'',
    '''',
    ''    <aside class=\"about\">'',
    ''      Spurline is local-first, not local-only. It gives individuals,'',
    ''      applications and communities a durable nearby relay while standard Nostr'',
    ''      events preserve interoperability with other relays and future mesh'',
    ''      synchronization.'',
    ''    </aside>'',
    '''',
    ''    <nav class=\"links\" aria-label=\"Relay resources\">'',
    ''      <a href=\"info\">Relay information</a>'',
    ''      <a href=\"health\">Health</a>'',
    ''      <a href=\"https://trbouma.github.io/spurline/\">Docs</a>'',
    ''      <span class=\"version\">Spurline '']"

definition after_version :: "string list" where
  "after_version = [
    ''</span>'',
    ''    </nav>'',
    ''  </main>'',
    ''  <script>'',
    ''    const button = document.getElementById(\"copy-relay\");'',
    ''    button.addEventListener(\"click\", async () => {'',
    ''      try {'',
    ''        const relayUrl = document.getElementById(\"relay-url\").textContent;'',
    ''        await navigator.clipboard.writeText(relayUrl);'',
    ''        button.textContent = \"Copied\";'',
    ''      } catch (_error) {'',
    ''        button.textContent = \"Select URL to copy\";'',
    ''      }'',
    ''      window.setTimeout(() => { button.textContent = \"Copy relay URL\"; }, 1800);'',
    ''    });'',
    ''  </script>'',
    ''</body>'',
    ''</html>'']"

definition logo_lines :: "string list" where
  "logo_lines = [
    ''<svg viewBox=\"0 0 512 512\" role=\"img\" aria-label=\"Spurline\">'',
    ''      <defs>'',
    ''        <linearGradient id=\"spur-body\" x1=\"92\" y1=\"70\" x2=\"374\" y2=\"430\" gradientUnits=\"userSpaceOnUse\">'',
    ''          <stop offset=\"0\" stop-color=\"#162a63\"/><stop offset=\"1\" stop-color=\"#07112e\"/>'',
    ''        </linearGradient>'',
    ''        <linearGradient id=\"spur-blue\" x1=\"218\" y1=\"108\" x2=\"404\" y2=\"206\" gradientUnits=\"userSpaceOnUse\">'',
    ''          <stop offset=\"0\" stop-color=\"#1c65d8\"/><stop offset=\"1\" stop-color=\"#0f3c94\"/>'',
    ''        </linearGradient>'',
    ''      </defs>'',
    ''      <path fill=\"url(#spur-body)\" d=\"M96 132c0-42 34-76 76-76h110c14 0 26 12 26 26v30c0 14-12 26-26 26H172c-22 0-40 18-40 40v54c0 22 18 40 40 40h172c42 0 76 34 76 76v82c0 14-12 26-26 26h-36c-14 0-26-12-26-26v-72c0-12-10-22-22-22H172c-42 0-76-34-76-76z\"/>'',
    ''      <path fill=\"url(#spur-body)\" d=\"M96 354c0-14 12-26 26-26h110c14 0 26 12 26 26v48c0 14-12 26-26 26H122c-14 0-26-12-26-26z\"/>'',
    ''      <path fill=\"url(#spur-blue)\" d=\"M210 142c0-14 12-26 26-26h128v-34c0-14 12-26 26-26h36c14 0 26 12 26 26v126c0 14-12 26-26 26H236c-14 0-26-12-26-26z\"/>'',
    ''      <rect x=\"292\" y=\"342\" width=\"68\" height=\"86\" rx=\"16\" fill=\"#d99021\"/>'',
    ''    </svg>'']"

section \<open>The page\<close>

definition spurline_logo :: pystr where
  "spurline_logo = page_text logo_lines"

definition render_homepage :: "page_values \<Rightarrow> pystr" where
  "render_homepage v =
     page_text (page_head @ style_layout @ style_hero @ style_panels @ style_links)
     @ spurline_logo @ page_text after_logo
     @ html_escape (pg_relay_url v) @ page_text after_url
     @ spurline_logo @ page_text after_second_logo
     @ html_escape (join (lit '', '') (map nip_text (pg_supported_nips v))) @ page_text after_nips
     @ (if pg_verify_signatures v then lit ''Enabled'' else lit ''Disabled'') @ page_text after_signatures
     @ html_escape (or_unset (pg_service_npub v)) @ page_text after_npub
     @ html_escape (or_unset (pg_fips_address v)) @ page_text after_address
     @ html_escape (pg_management v) @ page_text after_management
     @ html_escape (pg_state v) @ page_text after_state
     @ html_escape (pg_version v) @ page_text after_version"

section \<open>Escaping\<close>

lemma replace_char_simps [simp]:
  "replace_char c t [] = []" "replace_char c t (x # s) = (if x = c then t else [x]) @ replace_char c t s"
  "replace_char c t (s @ s') = replace_char c t s @ replace_char c t s'"
  by (simp_all add: replace_char_def)

definition escape_char :: "nat \<Rightarrow> pystr" where
  "escape_char c =
     (if c = 38 then lit ''&amp;'' else if c = 60 then lit ''&lt;'' else if c = 62 then lit ''&gt;''
      else if c = 34 then lit ''&quot;'' else if c = 39 then lit ''&#x27;'' else [c])"

lemma html_escape_simps [simp]:
  "html_escape [] = []" "html_escape (c # s) = escape_char c @ html_escape s"
  by (simp_all add: html_escape_def escape_char_def lit_def)

text \<open>The characters that open a tag, end one, or end an attribute's value.\<close>

definition markup :: "nat \<Rightarrow> bool" where
  "markup c = (c \<in> {60, 62, 34, 39})"

lemma no_markup_escaped: "filter markup (html_escape s) = []"
  by (induction s) (auto simp: escape_char_def markup_def lit_def)

text \<open>What a browser shows for the escaped text: the five references resolved.\<close>

fun html_text :: "pystr \<Rightarrow> pystr" where
  "html_text [] = []"
| "html_text (c # s) =
     (if c \<noteq> 38 then c # html_text s
      else if take 4 s = lit ''amp;'' then 38 # html_text (drop 4 s)
      else if take 3 s = lit ''lt;'' then 60 # html_text (drop 3 s)
      else if take 3 s = lit ''gt;'' then 62 # html_text (drop 3 s)
      else if take 5 s = lit ''quot;'' then 34 # html_text (drop 5 s)
      else if take 5 s = lit ''#x27;'' then 39 # html_text (drop 5 s)
      else c # html_text s)"

lemma html_text_escape: "html_text (html_escape s) = s"
  by (induction s) (auto simp: escape_char_def lit_def)

section \<open>Where a value is shown\<close>

text \<open>Behind the label, and up to the tag that ends the field, the page has text without any markup of its
  own, which a browser shows as the value.\<close>

definition shown_as :: "pystr \<Rightarrow> string \<Rightarrow> string \<Rightarrow> pystr \<Rightarrow> bool" where
  "shown_as page label closing x = (\<exists>before shown after. page = before @ lit label @ shown @ lit closing @ after
     \<and> filter markup shown = [] \<and> html_text shown = x)"

lemma lit_append: "lit (s @ t) = lit s @ lit t"
  by (simp add: lit_def)

lemma join_last: "\<exists>q. join sep (xs @ [x]) = q @ x"
proof (induction sep xs rule: join.induct)
  case (3 sep y z xs)
  then show ?case by (auto intro: exI [of _ "y @ sep @ q" for q])
qed auto

lemma page_ends: "ls \<noteq> [] \<Longrightarrow> last ls = l @ label \<Longrightarrow> \<exists>p. page_text ls = p @ lit label"
proof (induction ls rule: rev_induct)
  case (snoc x ls)
  then show ?case using join_last [of "[10]" "map lit ls" "lit x"] by (auto simp: page_text_def lit_append)
qed simp

lemma page_begins: "ms \<noteq> [] \<Longrightarrow> hd ms = closing @ r \<Longrightarrow> \<exists>p. page_text ms = lit closing @ p"
  by (cases ms; cases "tl ms") (auto simp: page_text_def lit_append)

lemma shown_between:
  assumes "page = a @ page_text ls @ html_escape x @ page_text ms @ b"
    and "ls \<noteq> []" "last ls = l @ label" "ms \<noteq> []" "hd ms = closing @ r"
  shows "shown_as page label closing x"
proof -
  obtain p q where "page_text ls = p @ lit label" "page_text ms = lit closing @ q"
    using page_ends [OF assms(2,3)] page_begins [OF assms(4,5)] by blast
  then have "page = (a @ p) @ lit label @ html_escape x @ lit closing @ q @ b" using assms(1) by simp
  then show ?thesis using no_markup_escaped html_text_escape unfolding shown_as_def by blast
qed

lemma plain_word: "html_escape (lit ''Enabled'') = lit ''Enabled''" "html_escape (lit ''Disabled'') = lit ''Disabled''"
  by (simp_all add: lit_def escape_char_def)

text \<open>C22: nothing that is configured or derived can change the structure of the page: between any two
  sets of values the tags and attributes of the page are the same, character by character. And the page
  shows every value as it is, in the field that is labelled for it: the address of the relay in the
  element that its script copies, the supported protocols by number, whether signatures are verified,
  the service's key and its address or that they are not configured, the management, the state of the
  identity and the version.\<close>

theorem page_structure:
  "filter markup (render_homepage v) = filter markup (render_homepage v')
   \<and> shown_as (render_homepage v) ''<code id=\"relay-url\">'' ''</code>'' (pg_relay_url v)
   \<and> shown_as (render_homepage v) ''<dt>Supported NIPs</dt><dd>'' ''</dd>''
       (join (lit '', '') (map (\<lambda>n. lit (if 0 \<le> n \<and> n < 10 then ''NIP-0'' else ''NIP-'') @ int_text n)
          (pg_supported_nips v)))
   \<and> shown_as (render_homepage v) ''<dt>Signatures</dt><dd>'' ''</dd>''
       (lit (if pg_verify_signatures v then ''Enabled'' else ''Disabled''))
   \<and> shown_as (render_homepage v) ''<dt>Service identity</dt><dd><code>'' ''</code>''
       (if pg_service_npub v \<in> {None, Some []} then lit ''Not configured'' else the (pg_service_npub v))
   \<and> shown_as (render_homepage v) ''<dt>FIPS IPv6 address</dt><dd><code>'' ''</code>''
       (if pg_fips_address v \<in> {None, Some []} then lit ''Not configured'' else the (pg_fips_address v))
   \<and> shown_as (render_homepage v) ''<dt>Management</dt><dd>'' ''</dd>'' (pg_management v)
   \<and> shown_as (render_homepage v) ''<dt>Identity state</dt><dd>'' ''</dd>'' (pg_state v)
   \<and> shown_as (render_homepage v) ''<span class=\"version\">Spurline '' ''</span>'' (pg_version v)"
proof -
  have "filter markup (lit ''Enabled'') = []" "filter markup (lit ''Disabled'') = []"
    by (simp_all add: markup_def lit_def)
  then have same: "filter markup (render_homepage v) = filter markup (render_homepage v')"
    by (simp add: render_homepage_def no_markup_escaped)
  have names: "or_unset = (\<lambda>t. if t \<in> {None, Some []} then lit ''Not configured'' else the t)"
    "nip_text = (\<lambda>n. lit (if 0 \<le> n \<and> n < 10 then ''NIP-0'' else ''NIP-'') @ int_text n)"
    by (auto simp: fun_eq_iff or_unset_def nip_text_def lit_def split: option.split)
  let ?a1 = "page_text (page_head @ style_layout @ style_hero @ style_panels @ style_links) @ spurline_logo"
  let ?a2 = "?a1 @ page_text after_logo @ html_escape (pg_relay_url v) @ page_text after_url @ spurline_logo"
  let ?a3 = "?a2 @ page_text after_second_logo @ html_escape (join (lit '', '') (map nip_text (pg_supported_nips v)))"
  let ?a4 = "?a3 @ page_text after_nips @ html_escape (if pg_verify_signatures v then lit ''Enabled'' else lit ''Disabled'')"
  let ?a5 = "?a4 @ page_text after_signatures @ html_escape (or_unset (pg_service_npub v))"
  let ?a6 = "?a5 @ page_text after_npub @ html_escape (or_unset (pg_fips_address v))"
  let ?a7 = "?a6 @ page_text after_address @ html_escape (pg_management v)"
  let ?a8 = "?a7 @ page_text after_management @ html_escape (pg_state v)"
  have v1: "shown_as (render_homepage v) ''<code id=\"relay-url\">'' ''</code>''
      (pg_relay_url v)"
    by (rule shown_between [where a = ?a1 and ls = after_logo and ms = after_url and l = "''          ''"],
        simp add: render_homepage_def) (simp_all add: after_logo_def after_url_def)
  have v2: "shown_as (render_homepage v) ''<dt>Supported NIPs</dt><dd>'' ''</dd>''
      (join (lit '', '') (map nip_text (pg_supported_nips v)))"
    by (rule shown_between [where a = ?a2 and ls = after_second_logo and ms = after_nips and l = "''          <div class=\"row\">''"],
        simp add: render_homepage_def) (simp_all add: after_second_logo_def after_nips_def)
  have v3: "shown_as (render_homepage v) ''<dt>Signatures</dt><dd>'' ''</dd>''
      (if pg_verify_signatures v then lit ''Enabled'' else lit ''Disabled'')"
    by (rule shown_between [where a = ?a3 and ls = after_nips and ms = after_signatures and l = "''          <div class=\"row\">''"],
        simp add: render_homepage_def plain_word if_distrib [of html_escape]) (simp_all add: after_nips_def after_signatures_def)
  have v4: "shown_as (render_homepage v) ''<dt>Service identity</dt><dd><code>'' ''</code>''
      (or_unset (pg_service_npub v))"
    by (rule shown_between [where a = ?a4 and ls = after_signatures and ms = after_npub and l = "''          <div class=\"row\">''"],
        simp add: render_homepage_def plain_word if_distrib [of html_escape]) (simp_all add: after_signatures_def after_npub_def)
  have v5: "shown_as (render_homepage v) ''<dt>FIPS IPv6 address</dt><dd><code>'' ''</code>''
      (or_unset (pg_fips_address v))"
    by (rule shown_between [where a = ?a5 and ls = after_npub and ms = after_address and l = "''          <div class=\"row\">''"],
        simp add: render_homepage_def plain_word if_distrib [of html_escape]) (simp_all add: after_npub_def after_address_def)
  have v6: "shown_as (render_homepage v) ''<dt>Management</dt><dd>'' ''</dd>''
      (pg_management v)"
    by (rule shown_between [where a = ?a6 and ls = after_address and ms = after_management and l = "''          <div class=\"row\">''"],
        simp add: render_homepage_def plain_word if_distrib [of html_escape]) (simp_all add: after_address_def after_management_def)
  have v7: "shown_as (render_homepage v) ''<dt>Identity state</dt><dd>'' ''</dd>''
      (pg_state v)"
    by (rule shown_between [where a = ?a7 and ls = after_management and ms = after_state and l = "''          <div class=\"row\">''"],
        simp add: render_homepage_def plain_word if_distrib [of html_escape]) (simp_all add: after_management_def after_state_def)
  have v8: "shown_as (render_homepage v) ''<span class=\"version\">Spurline '' ''</span>''
      (pg_version v)"
    by (rule shown_between [where a = ?a8 and ls = after_state and ms = after_version and l = "''      ''"],
        simp add: render_homepage_def plain_word if_distrib [of html_escape]) (simp_all add: after_state_def after_version_def)
  show ?thesis
    using same v1 v2 [unfolded names] v3 v4 [unfolded names] v5 [unfolded names] v6 v7 v8
    by (simp only: if_distrib [of lit])
qed

end
