(* ===== verification/Endpoints.thy ===== *)
theory Endpoints
  imports Admin_Views Homepage Auto_Witness Startup
begin

text \<open>
  The FastAPI application of \<open>spurline/main.py\<close>: its HTTP endpoints over the administrative data and, for the witness status, the event store. Routing, JSON encoding and the
  HTTP protocol are FastAPI's; a response is what the handler returns.
\<close>

section \<open>The relay's description\<close>

definition package_version :: pystr where
  "package_version = lit ''0.1.0''"

text \<open>\<open>{key: value for key, value in d.items() if key not in names}\<close>\<close>

definition without_keys :: "pystr list \<Rightarrow> pydict \<Rightarrow> pydict" where
  "without_keys names d = [(k, v) \<leftarrow> d. k \<notin> set names]"

definition hidden_keys :: "pystr list" where
  "hidden_keys = [lit ''evidence'', lit ''history'', lit ''pending'', lit ''pending_status'', lit ''local_controls'']"

definition websocket_url :: "settings \<Rightarrow> pystr" where
  "websocket_url s =
     (case public_url s of
        Some url \<Rightarrow> (if url = [] then lit ''ws://'' @ host s @ 58 # int_text (port s) else url)
      | None \<Rightarrow> lit ''ws://'' @ host s @ 58 # int_text (port s))"

definition automatic_witness_info :: "settings \<Rightarrow> int \<Rightarrow> pydict" where
  "automatic_witness_info s version =
     [(lit ''configured'', vbool (witness_enabled s)), (lit ''clock_mode'', VStr (witness_clock_mode s)),
      (lit ''receipt_version'', VInt version), (lit ''publication'', vlit ''local''),
      (lit ''receipt_kind'', VInt 1418),
      (lit ''status_url'', vlit ''/v1/witness-status/{signed_event_digest}''),
      (lit ''clock_health_required'', vbool (witness_clock_mode s \<noteq> lit ''system''))]"

definition service_identity_info ::
  "settings \<Rightarrow> pystr option \<Rightarrow> pystr option \<Rightarrow> pyval \<Rightarrow> pydict \<Rightarrow> pydict" where
  "service_identity_info s npub address state status =
     [(lit ''npub'', optional VStr npub), (lit ''fips_ipv6_address'', optional VStr address),
      (lit ''type'', vlit ''nostr-relay''), (lit ''management'', VStr (service_management s)),
      (lit ''state'', state),
      (lit ''descriptor_event_id'', dget status ''service_descriptor_event_id''),
      (lit ''operator'', dget status ''operator_npub'')]"

definition relay_info :: "outside \<Rightarrow> settings \<Rightarrow> pydict option \<Rightarrow> (admin, pydict) act" where
  "relay_info w s given =
     abind (case given of None \<Rightarrow> service_show_dict w s | Some d \<Rightarrow> areturn d) (\<lambda>status.
     abind (witness_show_dict w s) (\<lambda>witness.
     abind (alift (witness_receipt_version s)) (\<lambda>version.
     abind (alift (settings_npub (o_stroma w) s)) (\<lambda>npub.
     abind (alift (service_fips_ipv6_address (o_stroma w) s)) (\<lambda>address.
     abind (alift (need status ''state'')) (\<lambda>state.
       areturn
         [(lit ''name'', vlit ''Spurline''),
          (lit ''description'', vlit ''A local-first relay for individuals and communities.''),
          (lit ''software'', vlit ''spurline''), (lit ''version'', VStr package_version),
          (lit ''automatic_witness'', VDict (automatic_witness_info s version)),
          (lit ''witness_authorization'', VDict (without_keys hidden_keys witness)),
          (lit ''service_identity'', VDict (service_identity_info s npub address state status)),
          (lit ''supported_nips'', VList [VInt 1]), (lit ''contact'', VStr []), (lit ''pubkey'', VStr []),
          (lit ''limitation'', VDict [(lit ''payment_required'', vbool False),
             (lit ''auth_required'', vbool False), (lit ''restricted_writes'', vbool False)]),
          (lit ''relay'', VDict [(lit ''websocket_url'', VStr (websocket_url s)),
             (lit ''health_url'', vlit ''/health''), (lit ''info_url'', vlit ''/info'')])]))))))"

section \<open>The endpoints\<close>

datatype response = Json pydict | Html pystr | Logo_File

text \<open>\<open>"text/html" in accept.lower()\<close>; as for \<open>env_bool\<close>, \<open>ascii_lower\<close> decides it.\<close>

fun contains :: "pystr \<Rightarrow> pystr \<Rightarrow> bool" where
  "contains part [] = (part = [])"
| "contains part (c # s) = (startswith (c # s) part \<or> contains part s)"

definition wants_html :: "pystr \<Rightarrow> bool" where
  "wants_html header = contains (lit ''text/html'') (ascii_lower header)"

definition page_of ::
  "settings \<Rightarrow> pystr option \<Rightarrow> pystr option \<Rightarrow> pystr \<Rightarrow> page_values" where
  "page_of s npub address state =
     \<lparr>pg_version = package_version, pg_relay_url = websocket_url s,
      pg_verify_signatures = verify_signatures s, pg_supported_nips = [1], pg_service_npub = npub,
      pg_fips_address = address, pg_management = service_management s, pg_state = state\<rparr>"

text \<open>The state that \<open>info\<close> holds is a string in every case of \<open>show\<close>.\<close>

definition root :: "outside \<Rightarrow> settings \<Rightarrow> pystr \<Rightarrow> (admin, response) act" where
  "root w s header =
     abind (relay_info w s None) (\<lambda>info.
     if wants_html header then
       abind (alift (settings_npub (o_stroma w) s)) (\<lambda>npub.
       abind (alift (service_fips_ipv6_address (o_stroma w) s)) (\<lambda>address.
       case dget info ''service_identity'' of
         VDict identity \<Rightarrow>
           (case dget identity ''state'' of
              VStr state \<Rightarrow> areturn (Html (render_homepage (page_of s npub address state)))
            | _ \<Rightarrow> araise AttributeError)
       | _ \<Rightarrow> araise TypeError))
     else areturn (Json info))"

definition service_identity_answer :: "outside \<Rightarrow> settings \<Rightarrow> (admin, response) act" where
  "service_identity_answer w s =
     abind (service_show_dict w s) (\<lambda>status.
     abind (relay_info w s (Some status)) (\<lambda>info.
       areturn (Json [(lit ''service_identity'', dget info ''service_identity''),
                      (lit ''evidence'', dget status ''evidence'')])))"

definition witness_authorization_answer :: "outside \<Rightarrow> settings \<Rightarrow> (admin, response) act" where
  "witness_authorization_answer w s =
     abind (witness_show_dict w s) (\<lambda>status.
       areturn (Json (without_keys [lit ''local_controls''] status)))"

fun job_state_text :: "job_state option \<Rightarrow> string" where
  "job_state_text None = ''not-observed''"
| "job_state_text (Some Pending) = ''pending''"
| "job_state_text (Some Unavailable) = ''unavailable''"
| "job_state_text (Some Issued) = ''issued''"

text \<open>The store is the witness's, when one is configured; its digests are lower-case hex.\<close>

definition witness_status_answer :: "settings \<Rightarrow> store \<Rightarrow> pystr \<Rightarrow> response res" where
  "witness_status_answer s st digest =
     (if length digest \<noteq> 64 \<or> \<not> list_all hex_digit digest
      then Inr (Json [(lit ''state'', vlit ''invalid-digest'')])
      else if \<not> witness_enabled s
      then Inr (Json [(lit ''state'', vlit ''disabled''), (lit ''receipt_event_id'', VNone)])
      else rbind (job_status digest st) (\<lambda>(state, receipt).
        Inr (Json [(lit ''state'', vlit (job_state_text state)), (lit ''receipt_event_id'', receipt)])))"

datatype get_request =
    Get_Root pystr
  | Get_Health
  | Get_Logo
  | Get_Info
  | Get_Service_Identity
  | Get_Witness_Authorization
  | Get_Witness_Status pystr
  | Get_Well_Known

definition health_answer :: response where
  "health_answer = Json [(lit ''status'', vlit ''ok''), (lit ''service'', vlit ''spurline''),
     (lit ''version'', VStr package_version)]"

fun http_get :: "outside \<Rightarrow> settings \<Rightarrow> store \<Rightarrow> get_request \<Rightarrow> (admin, response) act" where
  "http_get w s st (Get_Root header) = root w s header"
| "http_get w s st Get_Health = areturn health_answer"
| "http_get w s st Get_Logo = areturn Logo_File"
| "http_get w s st Get_Info = abind (relay_info w s None) (\<lambda>info. areturn (Json info))"
| "http_get w s st Get_Service_Identity = service_identity_answer w s"
| "http_get w s st Get_Witness_Authorization = witness_authorization_answer w s"
| "http_get w s st (Get_Witness_Status digest) = alift (witness_status_answer s st digest)"
| "http_get w s st Get_Well_Known = abind (relay_info w s None) (\<lambda>info. areturn (Json info))"

section \<open>Headers\<close>

text \<open>Header names are compared in lower case; \<open>setdefault\<close> appends what is not there.\<close>

definition set_header :: "string \<Rightarrow> string \<Rightarrow> (pystr \<times> pystr) list \<Rightarrow> (pystr \<times> pystr) list" where
  "set_header name value headers =
     (if lit name \<in> set (map fst headers) then headers else headers @ [(lit name, lit value)])"

definition response_headers :: "(pystr \<times> pystr) list \<Rightarrow> (pystr \<times> pystr) list" where
  "response_headers headers =
     set_header ''x-content-type-options'' ''nosniff''
       (set_header ''cache-control'' ''no-store''
         (set_header ''access-control-allow-origin'' ''*'' headers))"

definition handler_headers :: "get_request \<Rightarrow> (pystr \<times> pystr) list" where
  "handler_headers request =
     (case request of Get_Logo \<Rightarrow> [(lit ''cache-control'', lit ''public, max-age=86400'')] | _ \<Rightarrow> [])"

end
