(* ===== verification/Witness_Later.thy ===== *)
theory Witness_Later
  imports Operator_Spec Endpoints
begin

text \<open>
  Evidence does not decay: what verified once verifies at any later time, with the same history,
  so the pages of a relay that started keep answering.
\<close>

section \<open>Requests and grants\<close>

lemma request_later:
  assumes "verify_witness_request w data g policy False = Inr x" "stroma_ok (o_crypto w) (o_stroma w)"
    and "same_libraries w w'" "o_now w \<le> o_now w'"
  shows "verify_witness_request w' data g policy False = Inr x"
  using assms valid_later [OF _ assms(2), of "''witness request''" data _ w' "''witness request''"]
  by (auto simp: verify_witness_request_def rbind_eq_Inr same_libraries_def split: if_splits)

text \<open>The text of a template's body, with the time of the grant put in, is the same for every clock.\<close>

lemma canonical_issued:
  assumes "sort_keys (VDict (authorization_body copied content r n)) = VDict d"
    and "json_ok (VDict (authorization_body copied content r n))"
  shows "canonical_json (dict_set (lit ''issued_at'') x d)
    = canonical_json (dict_set (lit ''issued_at'') x (authorization_body copied content r 0))"
proof -
  have di: "distinct (map fst (authorization_body copied content r n))" using assms(2) by simp
  then have "lit ''issued_at'' \<notin> fst ` set copied" by (auto simp: authorization_body_def)
  then have "dict_set (lit ''issued_at'') x (authorization_body copied content r n)
      = dict_set (lit ''issued_at'') x (authorization_body copied content r 0)"
    unfolding authorization_body_def by (induction copied) auto
  then show ?thesis using canonical_dict_set [OF assms(1) di] by simp
qed

lemma authorization_later:
  assumes a: "verify_authorization w data r content = Inr e"
    and v: "verify_witness_request w rd g policy c = Inr (r, content)"
    and st: "stroma_ok (o_crypto w) (o_stroma w)" and g: "grantor_ok g"
    and w: "same_libraries w w'" "o_now w \<le> o_now w'"
    and n: "int_printable (o_now w)" "int_printable (o_now w')"
  shows "verify_authorization w' data r content = Inr e"
proof -
  from verify_witness_requestD [OF v] obtain service operator raw renewal where
    s: "valid_event w ''witness request'' rd = Inr r" "request_says w g policy r content service operator raw renewal"
    by metis
  have l: "loads (ev_content r) = Inr (VDict content)" using s(2) unfolding request_says_def by blast
  obtain t1 t2 t3 t4 where x: "json_ok (VDict (expected_request g content service operator t1 t2 t3 t4 (sha256_hex raw) @ renewal))"
    "sort_keys (VDict (expected_request g content service operator t1 t2 t3 t4 (sha256_hex raw) @ renewal)) = VDict content"
    using request_sorted [OF s(2) st g] unfolding Let_def by blast
  have jc: "json_ok (VDict content)" using json_ok_sort_keys [OF x(1)] by (simp only: x(2))
  have "wf_event r" using s(1) by (auto simp: valid_event_iff [OF st] validate_event_iff)
  then have er: "encodable (ev_id r)" unfolding wf_event_def using hex_string_encodable by blast
  obtain tp d where t: "authorization_template w r = Inr tp" "loads (tp_content tp) = Inr (VDict d)"
    and e: "valid_event w ''witness authorization'' data = Inr e"
      "require_tags e (tp_tags tp) = Inr ()" "time_of e \<le> o_now w + max_clock_skew"
      "kind_of e = 30078" "VStr (ev_pubkey e) = dget content ''requested_operator''"
      "time_of r \<le> time_of e" "time_of e < num_val (the_num (dget content ''expires_at''))"
    and b: "\<exists>body. witness_content e authorization_schema = Inr body
      \<and> canonical_json body = canonical_json (dict_set (lit ''issued_at'') (VNum (ev_created_at e)) d)"
    using a by (auto simp: verify_authorization_def rbind_eq_Inr case_VDict_Inr split: if_splits)
  obtain copied where p: "tp_content tp = canonical_json (authorization_body copied content r (o_now w))"
    "json_ok (VDict (authorization_body copied content r (o_now w)))"
    "\<And>w'. authorization_template w' r
       = Inr (tp\<lparr>tp_created_at := o_now w', tp_content := canonical_json (authorization_body copied content r (o_now w'))\<rparr>)"
    "\<And>n. int_printable n \<Longrightarrow> json_ok (VDict (authorization_body copied content r n))"
    using template_parts [OF t(1) l jc er n(1)] by metis
  note j' = p(4) [OF n(2)]
  obtain d' where d': "sort_keys (VDict (authorization_body copied content r (o_now w'))) = VDict d'" by simp
  have l': "loads (canonical_json (authorization_body copied content r (o_now w'))) = Inr (VDict d')"
    using loads_canonical [OF j'] by (simp only: d')
  have "sort_keys (VDict (authorization_body copied content r (o_now w))) = VDict d"
    using loads_canonical [OF p(2)] t(2) by (simp only: p(1) sum.inject)
  from canonical_issued [OF this p(2)] canonical_issued [OF d' j']
  have "canonical_json (dict_set (lit ''issued_at'') x d') = canonical_json (dict_set (lit ''issued_at'') x d)" for x
    by simp
  moreover have "valid_event w' ''witness authorization'' data = Inr e"
    using valid_later [OF e(1) st] w by (simp add: same_libraries_def)
  ultimately show ?thesis
    using e w(2) b by (auto simp: verify_authorization_def p(3) l')
qed

lemma evidence_later:
  assumes "check_witness_evidence w g ev False = Inr es"
    and "stroma_ok (o_crypto w) (o_stroma w)" "grantor_ok g" "same_libraries w w'" "o_now w \<le> o_now w'"
    and "int_printable (o_now w)" "int_printable (o_now w')"
  shows "\<exists>es'. check_witness_evidence w' g ev False = Inr es'"
proof -
  obtain r content where v: "verify_witness_request w (dget ev ''request'') g (dget ev ''policy'') False = Inr (r, content)"
    and k: "set (map fst ev) = {lit ''request'', lit ''policy''}
      \<or> set (map fst ev) = {lit ''request'', lit ''policy'', lit ''authorization''}"
    and a: "is_grant ev \<Longrightarrow> \<exists>e. verify_authorization w (dget ev ''authorization'') r content = Inr e"
    using assms(1) by (auto simp: check_witness_evidence_def Let_def rbind_eq_Inr insert_commute split: if_splits)
  have "is_grant ev \<Longrightarrow> \<exists>e. verify_authorization w' (dget ev ''authorization'') r content = Inr e"
    using a authorization_later [OF _ v assms(2-7)] by blast
  with request_later [OF v assms(2,4,5)] k show ?thesis
    by (cases "is_grant ev") (auto simp: check_witness_evidence_def Let_def insert_commute)
qed

section \<open>The history and the view\<close>

lemma revocation_template_libraries:
  assumes "o_stroma w' = o_stroma w"
  shows "revocation_template w' g p reason issued = revocation_template w g p reason issued"
  unfolding revocation_template_def assms ..

lemma entry_later:
  assumes "Witness_Auth.check_entry w g i p entry = Inr ()"
    and "stroma_ok (o_crypto w) (o_stroma w)" "grantor_ok g" "same_libraries w w'" "o_now w \<le> o_now w'"
    and "int_printable (o_now w)" "int_printable (o_now w')"
  shows "Witness_Auth.check_entry w' g i p entry = Inr ()"
proof -
  have w: "o_crypto w' = o_crypto w" "o_stroma w' = o_stroma w" using assms(4) by (simp_all add: same_libraries_def)
  have "is_grant entry \<Longrightarrow> check_witness_evidence w g entry False = Inr es
      \<Longrightarrow> \<exists>es'. check_witness_evidence w' g entry False = Inr es'" for es
    using evidence_later [OF _ assms(2-7)] by blast
  moreover have "check_revocation w' g p entry e b = check_revocation w g p entry e b" for e b
    using revocation_template_libraries [OF w(2)] by (simp add: check_revocation_def split: option.split)
  moreover have "valid_event w ''witness lifecycle event'' (entry_event entry) = Inr e
      \<Longrightarrow> valid_event w' ''witness lifecycle event'' (entry_event entry) = Inr e" for e
    using valid_later [OF _ assms(2) w assms(5)] .
  ultimately show ?thesis
    using assms(1) by (fastforce simp: Witness_Auth.check_entry_def rbind_eq_Inr split: if_splits)
qed

lemma entries_later:
  assumes "check_entries w g i p entries = Inr ()"
    and "stroma_ok (o_crypto w) (o_stroma w)" "grantor_ok g" "same_libraries w w'" "o_now w \<le> o_now w'"
    and "int_printable (o_now w)" "int_printable (o_now w')"
  shows "check_entries w' g i p entries = Inr ()"
  using assms(1)
proof (induction entries arbitrary: i p)
  case (Cons e entries)
  then show ?case using entry_later [OF _ assms(2-7)] by (auto simp: rbind_eq_Inr)
qed simp

lemma history_later:
  assumes "validate_history w g a = Inr h"
    and "stroma_ok (o_crypto w) (o_stroma w)" "grantor_ok g" "same_libraries w w'" "o_now w \<le> o_now w'"
    and "int_printable (o_now w)" "int_printable (o_now w')"
  shows "validate_history w' g a = Inr h"
  using assms(1) entries_later [OF _ assms(2-7)]
  by (auto simp: validate_history_def rbind_eq_Inr split: if_splits option.splits)

lemma optional_later:
  assumes "check_optional w g ev = Inr x"
    and "stroma_ok (o_crypto w) (o_stroma w)" "grantor_ok g" "same_libraries w w'" "o_now w \<le> o_now w'"
    and "int_printable (o_now w)" "int_printable (o_now w')"
  shows "\<exists>x'. check_optional w' g ev = Inr x'"
  using assms(1) evidence_later [OF _ assms(2-7)]
  by (fastforce simp: check_optional_def rbind_eq_Inr split: option.splits)

lemma view_later:
  assumes "witness_view_of w s g a = Inr v"
    and "stroma_ok (o_crypto w) (o_stroma w)" "grantor_ok g" "same_libraries w w'" "o_now w \<le> o_now w'"
    and "int_printable (o_now w)" "int_printable (o_now w')"
  shows "\<exists>v'. witness_view_of w' s g a = Inr v' \<and> vw_history v' = vw_history v \<and> vw_evidence v' = vw_evidence v"
proof -
  obtain h current p granted where v: "validate_history w g a = Inr h" "load_authorization a = Inr current"
    "check_optional w g (if current \<noteq> [] \<and> \<not> is_grant current then Some current else None) = Inr p"
    "check_optional w g (latest_grant h) = Inr granted"
    and e: "vw_history v = h" "vw_evidence v = (case latest_grant h of Some d \<Rightarrow> d
      | None \<Rightarrow> (case (if current \<noteq> [] \<and> \<not> is_grant current then Some current else None) of
          Some d \<Rightarrow> d | None \<Rightarrow> []))"
    using assms(1) unfolding witness_view_of_def by (auto simp: rbind_eq_Inr Let_def)
  obtain p' granted' where
    "check_optional w' g (if current \<noteq> [] \<and> \<not> is_grant current then Some current else None) = Inr p'"
    "check_optional w' g (latest_grant h) = Inr granted'"
    using optional_later [OF v(3) assms(2-7)] optional_later [OF v(4) assms(2-7)] by blast
  with history_later [OF v(1) assms(2-7)] v(2) e show ?thesis by (simp add: witness_view_of_def Let_def)
qed

section \<open>The pages of a relay that has started\<close>

lemma witness_show_later:
  assumes "witness_show w s a = (Inr v, b)"
    and st: "stroma_ok (o_crypto w) (o_stroma w)" and m: "encodable (service_management s)"
    and w: "same_libraries w w'" "o_now w \<le> o_now w'" "o_db_fault w' = None"
    and n: "int_printable (o_now w)" "int_printable (o_now w')"
  shows "\<exists>d. witness_show_dict w' s b = (Inr d, b)"
proof (cases "db_file a")
  case False
  then have "b = a" using assms(1) by (simp add: witness_show_def)
  then show ?thesis using False by (simp add: witness_show_dict_def)
next
  case True
  obtain ev where ev: "load_authorization a = Inr ev"
    and body: "(if ev \<noteq> [] \<or> load_controls a \<noteq> [] then abind (verified_grantor w s) (read_view w s)
      else areturn (no_view s)) a = (Inr v, b)"
    using assms(1) True
    by (auto simp: witness_show_def connection_def abind_apply areads_def split: option.splits sum.splits prod.splits)
  show ?thesis
  proof (cases "ev \<noteq> [] \<or> load_controls a \<noteq> []")
    case False
    then have "b = a" using body by (simp add: areturn_def)
    then show ?thesis
      using ev True False w(3) by (simp add: witness_show_dict_def connection_def abind_apply areads_def areturn_def)
  next
    case c: True
    obtain g where g: "verified_grantor w s a = (Inr g, b)" "witness_view_of w s g b = Inr v"
      using body c by (auto simp: abind_apply read_view_def areads_def split: sum.splits prod.splits)
    have k: "keeps_commissioning a b" using arelatesD [OF kept.grantor g(1)] .
    then have same: "load_authorization b = load_authorization a" "load_controls b = load_controls a" "db_file b"
      using True by (simp_all add: keeps_commissioning_def load_authorization_def load_controls_def)
    have "grantor_ok g" using verified_parties [OF g(1) st m] by (auto simp: parties_def)
    from view_later [OF g(2) st this w(1,2) n] obtain v' where "witness_view_of w' s g b = Inr v'" by blast
    with verified_grantor_again [OF g(1) st w(1,2)] show ?thesis
      using ev c same w(3)
      by (auto simp: witness_show_dict_def connection_def abind_apply areads_def areturn_def read_view_def)
  qed
qed

text \<open>\<open>show\<close> after it has read the evidence.\<close>

definition evidence_state :: "outside \<Rightarrow> settings \<Rightarrow> pydict \<Rightarrow> (admin, service_state \<times> pydict) act" where
  "evidence_state w s ev =
     (if has_key (lit ''operator_attestation'') ev \<or> has_key (lit ''service_descriptor'') ev
         then abind (verify_evidence w s ev) (\<lambda>c. areturn (Commissioned c, ev))
         else if ev \<noteq> []
         then abind (service_identity w s) (\<lambda>npub.
              abind (alift (verify_commissioning_request w (dget ev ''commissioning_request'')
                        npub (service_management s) False))
                (\<lambda>_. areturn (Commissioning_Pending, ev)))
         else abind (alift (settings_npub (o_stroma w) s)) (\<lambda>npub.
              areturn (if npub = None \<or> npub = Some [] then Unconfigured else Uncommissioned, ev)))"

lemma service_show_reads:
  "service_show w s = abind (\<lambda>a. if db_file a then connection w False (areads load_commissioning) a else (Inr [], a))
     (evidence_state w s)"
  unfolding service_show_def evidence_state_def [abs_def] ..

lemma evidence_state_same: "evidence_state w s ev a = (Inr (x, ev'), b) \<Longrightarrow> ev' = ev"
  by (auto simp: evidence_state_def abind_apply areturn_def alift_def split: if_splits sum.splits prod.splits)

lemma service_show_later:
  assumes s: "service_show w s a = (Inr (x, ev), b)"
    and st: "stroma_ok (o_crypto w) (o_stroma w)"
    and w: "same_libraries w w'" "o_now w \<le> o_now w'" "o_db_fault w' = None"
  shows "service_show w' s b = (Inr (x, ev), b)"
proof -
  have lib: "o_crypto w' = o_crypto w" "o_stroma w' = o_stroma w" using w(1) by (simp_all add: same_libraries_def)
  have l: "(if db_file a then load_commissioning a else Inr []) = Inr ev"
    and body: "evidence_state w s ev a = (Inr (x, ev), b)"
    using s
    by (auto simp: service_show_reads abind_apply connection_def areads_def dest: evidence_state_same
        split: if_splits option.splits sum.splits prod.splits)
  have again: "service_show w' s b = (Inr (x, ev), b)"
    if "commissioning_table b = commissioning_table a" "db_file b = db_file a"
      "evidence_state w' s ev b = (Inr (x, ev), b)"
  proof -
    have "(if db_file b then connection w' False (areads load_commissioning) b else (Inr [], b)) = (Inr ev, b)"
      using l that(1,2) w(3) load_commissioning_cong [OF that(1)]
      by (auto simp: connection_def areads_def split: if_splits)
    with that(3) show ?thesis by (simp add: service_show_reads abind_apply)
  qed
  show ?thesis
  proof (cases "has_key (lit ''operator_attestation'') ev \<or> has_key (lit ''service_descriptor'') ev")
    case True
    then obtain c where c: "verify_evidence w s ev a = (Inr c, b)" "x = Commissioned c"
      using body by (auto simp: evidence_state_def abind_apply areturn_def split: sum.splits prod.splits)
    from verify_evidence_ok [OF c(1) st] obtain n where n: "settings_npub (o_stroma w) s = Inr (Some n)" "n \<noteq> []"
      "bound_to (sentinel_file b) n" "check_evidence w ev n (service_management s) = Inr c"
      "commissioning_table b = commissioning_table a" "db_file b = db_file a" by blast
    have "verify_evidence w' s ev b = (Inr c, b)"
      using service_identity_again [of w' s n b] n(1-3) lib check_evidence_later [OF n(4) st lib w(2)]
      by (simp add: verify_evidence_def abind_apply)
    with True c(2) n(5,6) show ?thesis by (intro again) (simp_all add: evidence_state_def abind_apply areturn_def)
  next
    case no: False
    show ?thesis
    proof (cases "ev = []")
      case True
      then have "b = a" using body no by (auto simp: evidence_state_def abind_apply areturn_def alift_def split: sum.splits prod.splits)
      then show ?thesis using body no True lib by (intro again) (simp_all add: evidence_state_def)
    next
      case False
      then obtain n e c where c: "service_identity w s a = (Inr n, b)" "x = Commissioning_Pending"
        "verify_commissioning_request w (dget ev ''commissioning_request'') n (service_management s) False = Inr (e, c)"
        using body no by (auto simp: evidence_state_def abind_apply areturn_def alift_def split: sum.splits prod.splits)
      note i = service_identity_ok [OF c(1) st]
      have "verify_commissioning_request w' (dget ev ''commissioning_request'') n (service_management s) False = Inr (e, c)"
        using c(3) valid_later [OF _ st lib w(2)] w(2) by (auto simp: verify_request_iff lib(2))
      moreover have "service_identity w' s b = (Inr n, b)"
        using service_identity_again [of w' s n b] i lib by simp
      ultimately show ?thesis
        using no False c(2) i(4,5) by (intro again) (simp_all add: evidence_state_def abind_apply areturn_def alift_def)
    qed
  qed
qed

lemma witness_show_keeps:
  assumes "witness_show w s a = (Inr v, b)" "stroma_ok (o_crypto w) (o_stroma w)"
  shows "b = a \<or> (\<exists>g. verified_grantor w s a = (Inr g, b))"
proof -
  have "b = a" if "areads f a = (x, b)" for f x using that by (simp add: areads_def)
  then show ?thesis
    using assms(1)
    by (auto simp: witness_show_def connection_def abind_apply areturn_def read_view_def areads_def
        split: if_splits option.splits sum.splits prod.splits)
qed

lemma identity_bound:
  assumes "bind_identity w (Some k) a = (Inr (), b)" "stroma_ok (o_crypto w) (o_stroma w)"
    and "settings_npub (o_stroma w) s = Inr (Some k)"
  shows "bound_to (sentinel_file b) k"
proof -
  have "encodable k"
    using own_key_npub [OF assms(3)] stroma_priv [OF assms(2)] by (auto simp: key_pair_def)
  moreover have "bind_service_identity (o_unwritable w) (Some k) (sentinel_file a) = (Inr (), sentinel_file b)"
    using assms(1) by (auto simp: bind_identity_def split: prod.splits)
  ultimately show ?thesis using bind_binds by blast
qed

lemma grantor_unmoved:
  assumes "verified_grantor w s a = (Inr g, b)" "stroma_ok (o_crypto w) (o_stroma w)"
    and "settings_npub (o_stroma w) s = Inr (Some k)" "bound_to (sentinel_file a) k"
  shows "b = a"
proof -
  have "k \<noteq> []" using verified_grantor_ok [OF assms(1,2)] assms(3) by auto
  then have "service_identity w s a = (Inr k, a)" by (rule service_identity_again [OF assms(3) _ assms(4)])
  then show ?thesis
    using assms(1)
    by (auto simp: verified_grantor_def abind_apply areads_def verify_evidence_def alift_def areturn_def
        split: sum.splits prod.splits)
qed

lemma show_state: "\<exists>t. need (state_dict x @ d) ''state'' = Inr (VStr t)"
  by (cases x) (simp_all add: need_def commissioned_dict_def)

lemma info_shown:
  assumes "(case given of None \<Rightarrow> service_show_dict w s | Some d \<Rightarrow> areturn d) b = (Inr status, b)"
    and "witness_show_dict w s b = (Inr d, b)" "witness_receipt_version s = Inr version"
    and "settings_npub (o_stroma w) s = Inr npub" "service_fips_ipv6_address (o_stroma w) s = Inr address"
    and "need status ''state'' = Inr state"
  shows "\<exists>info. relay_info w s given b = (Inr info, b)
    \<and> dget info ''service_identity'' = VDict (service_identity_info s npub address state status)"
  using assms by (simp add: relay_info_def abind_apply areturn_def alift_def dget_def)

lemma identity_shown:
  "dget (service_identity_info s npub address state status) ''npub'' = optional VStr npub"
  "dget (service_identity_info s npub address state status) ''fips_ipv6_address'' = optional VStr address"
  "dget (service_identity_info s npub address state status) ''state'' = state"
  by (simp_all add: service_identity_info_def dget_def)

text \<open>C18: a relay that has started keeps answering: once the start-up has bound the identity and verified
  the retained evidence, every page is served at every later time, on the data that the start-up left:
  the root in both its forms, with the page a browser gets showing the relay's own key, its address and
  the state that the description holds; the description itself under both its addresses; the health and
  the logo; the service's identity and the witness's authorization. Nothing that verified stops
  verifying. The status of a single receipt is not among them: it is read from the event store.\<close>

theorem pages_last:
  assumes "startup w s a = (Inr (), b)" "settings_ok (o_stroma w) s"
    and "stroma_ok (o_crypto w) (o_stroma w)" "service_fips_ipv6_address (o_stroma w) s = Inr address"
    and "same_libraries w w'" "o_now w \<le> o_now w'" "o_db_fault w' = None"
    and "int_printable (o_now w)" "int_printable (o_now w')"
  shows "\<exists>npub info identity state. settings_npub (o_stroma w) s = Inr npub
    \<and> dget info ''service_identity'' = VDict identity \<and> dget identity ''npub'' = optional VStr npub
    \<and> dget identity ''fips_ipv6_address'' = optional VStr address \<and> dget identity ''state'' = VStr state
    \<and> (\<forall>header. http_get w' s st (Get_Root header) b =
        (Inr (if wants_html header then Html (render_homepage (page_of s npub address state)) else Json info), b))
    \<and> http_get w' s st Get_Info b = (Inr (Json info), b)
    \<and> http_get w' s st Get_Well_Known b = (Inr (Json info), b)
    \<and> http_get w' s st Get_Health b = (Inr health_answer, b)
    \<and> http_get w' s st Get_Logo b = (Inr Logo_File, b)
    \<and> (\<exists>evidence. http_get w' s st Get_Service_Identity b =
        (Inr (Json [(lit ''service_identity'', VDict identity), (lit ''evidence'', VDict evidence)]), b))
    \<and> (\<exists>d. http_get w' s st Get_Witness_Authorization b = (Inr (Json d), b))"
proof -
  obtain npub a1 a2 x ev v where
    n: "settings_npub (o_stroma w) s = Inr npub" and i: "bind_identity w npub a = (Inr (), a1)"
    and sh: "service_show w s a1 = (Inr (x, ev), a2)" and wi: "witness_show w s a2 = (Inr v, b)"
    using assms(1) by (auto simp: startup_def abind_apply areturn_def alift_def split: sum.splits prod.splits)
  have lib: "o_stroma w' = o_stroma w" using assms(5) by (simp add: same_libraries_def)
  have m: "encodable (service_management s)" using assms(2) by (auto simp: settings_ok_def management_modes_def)
  have version: "\<exists>r. witness_receipt_version s = Inr r"
    using assms(2) by (auto simp: settings_ok_def clock_modes_def witness_receipt_version_def)
  have "service_show w' s b = (Inr (x, ev), b)"
  proof -
    have "service_show w' s a2 = (Inr (x, ev), a2)" by (rule service_show_later [OF sh assms(3,5-7)])
    moreover have "b = a2" if g: "verified_grantor w s a2 = (Inr g, b)" for g
    proof -
      obtain k where k: "settings_npub (o_stroma w) s = Inr (Some k)" using verified_grantor_ok [OF g assms(3)] by blast
      then have "bound_to (sentinel_file a1) k" using identity_bound [OF _ assms(3) k] i n by simp
      then have "bound_to (sentinel_file a2) k"
        using arelatesD [OF kept.service_shown sh] by (auto simp: keeps_commissioning_def bound_to_def)
      then show ?thesis using grantor_unmoved [OF g assms(3) k] by simp
    qed
    ultimately show ?thesis using witness_show_keeps [OF wi assms(3)] by metis
  qed
  moreover define status where "status = state_dict x @ [(lit ''evidence'', VDict ev)]"
  ultimately have ss: "service_show_dict w' s b = (Inr status, b)"
    by (simp add: service_show_dict_def abind_apply areturn_def)
  obtain d where ws: "witness_show_dict w' s b = (Inr d, b)"
    using witness_show_later [OF wi assms(3) m assms(5-9)] by blast
  obtain t where t: "need status ''state'' = Inr (VStr t)" unfolding status_def using show_state by blast
  obtain v where v: "witness_receipt_version s = Inr v" using version by blast
  have n': "settings_npub (o_stroma w') s = Inr npub" "service_fips_ipv6_address (o_stroma w') s = Inr address"
    using n assms(4) lib by simp_all
  note shown = info_shown [OF _ ws v n' t]
  let ?identity = "service_identity_info s npub address (VStr t) status"
  obtain info where info: "relay_info w' s None b = (Inr info, b)" "dget info ''service_identity'' = VDict ?identity"
    using shown [of None] ss by auto
  obtain info' where info': "relay_info w' s (Some status) b = (Inr info', b)"
    "dget info' ''service_identity'' = VDict ?identity"
    using shown [of "Some status"] by (auto simp: areturn_def)
  have "dget status ''evidence'' = VDict ev"
    unfolding status_def by (cases x) (simp_all add: dget_def commissioned_dict_def)
  then have "http_get w' s st Get_Service_Identity b
      = (Inr (Json [(lit ''service_identity'', VDict ?identity), (lit ''evidence'', VDict ev)]), b)"
    using ss info' by (simp add: service_identity_answer_def abind_apply areturn_def)
  moreover have "http_get w' s st (Get_Root header) b
      = (Inr (if wants_html header then Html (render_homepage (page_of s npub address t)) else Json info), b)" for header
    using info n' by (simp add: root_def abind_apply areturn_def alift_def identity_shown)
  moreover have "\<exists>d. http_get w' s st Get_Witness_Authorization b = (Inr (Json d), b)"
    using ws by (simp add: abind_apply areturn_def witness_authorization_answer_def)
  ultimately show ?thesis
    using n info by (intro exI [of _ npub] exI [of _ info] exI [of _ ?identity] exI [of _ t])
      (auto simp: identity_shown abind_apply areturn_def)
qed

end
