(* ===== verification/Endpoint_Spec.thy ===== *)
theory Endpoint_Spec
  imports Endpoints
begin

text \<open>
  What the HTTP endpoints keep to themselves: nothing that they answer depends on the local audit
  trail beyond which actions it records.
\<close>

section \<open>Hiding the audit trail\<close>

text \<open>The same administrative data without the reasons and times of the local controls.\<close>

definition redact :: "admin \<Rightarrow> admin" where
  "redact a = a\<lparr>controls_table := map_option (map (\<lambda>(action, reason, t). (action, [], 0))) (controls_table a)\<rparr>"

definition redact_control :: "control_row \<Rightarrow> control_row" where
  "redact_control c = c\<lparr>ct_reason := [], ct_recorded_at := 0\<rparr>"

definition redact_view :: "witness_view \<Rightarrow> witness_view" where
  "redact_view v = v\<lparr>vw_controls := map redact_control (vw_controls v)\<rparr>"

lemma redact_simps [simp]:
  "sentinel_file (redact a) = sentinel_file a" "db_file (redact a) = db_file a"
  "commissioning_table (redact a) = commissioning_table a" "authorization_row (redact a) = authorization_row a"
  "history_table (redact a) = history_table a" "redact (a\<lparr>sentinel_file := f\<rparr>) = redact a\<lparr>sentinel_file := f\<rparr>"
  by (simp_all add: redact_def)

lemma load_redact [simp]:
  "load_commissioning (redact a) = load_commissioning a" "load_authorization (redact a) = load_authorization a"
  "validate_history w g (redact a) = validate_history w g a"
proof -
  show l: "load_commissioning (redact a) = load_commissioning a" "load_authorization (redact a) = load_authorization a"
    by (simp_all add: load_commissioning_def load_authorization_def)
  then have "load_history (redact a) = load_history a" by (simp add: load_history_def split: option.split)
  with l show "validate_history w g (redact a) = validate_history w g a" by (simp add: validate_history_def)
qed

lemma load_controls_redact: "load_controls (redact a) = map redact_control (load_controls a)"
  by (auto simp: load_controls_def redact_def redact_control_def split: option.splits)

text \<open>Two operations, on data and on the redacted data, with related results.\<close>

definition hides :: "('a \<Rightarrow> 'b \<Rightarrow> bool) \<Rightarrow> (admin, 'a) act \<Rightarrow> (admin, 'b) act \<Rightarrow> bool" where
  "hides R f g = (\<forall>a. rel_sum (=) R (fst (f a)) (fst (g (redact a))) \<and> snd (g (redact a)) = redact (snd (f a)))"

lemma hides_abind:
  assumes "hides R f g" "\<And>x y. R x y \<Longrightarrow> hides S (k x) (l y)"
  shows "hides S (abind f k) (abind g l)"
  unfolding hides_def
proof
  fix a
  have r: "rel_sum (=) R (fst (f a)) (fst (g (redact a)))" "snd (g (redact a)) = redact (snd (f a))"
    using assms(1) unfolding hides_def by blast+
  obtain m b n c where e: "f a = (m, b)" "g (redact a) = (n, c)" by fastforce
  show "rel_sum (=) S (fst (abind f k a)) (fst (abind g l (redact a)))
      \<and> snd (abind g l (redact a)) = redact (snd (abind f k a))"
  proof (cases m)
    case (Inl x)
    then show ?thesis using r by (cases n) (auto simp: e abind_apply)
  next
    case (Inr x)
    then obtain y where y: "n = Inr y" "R x y" using r(1) by (cases n) (auto simp: e)
    then show ?thesis using assms(2) [OF y(2)] r(2) Inr by (simp add: e abind_apply hides_def)
  qed
qed

lemma hides_same: "hides (=) f g \<Longrightarrow> (\<And>x. hides S (k x) (l x)) \<Longrightarrow> hides S (abind f k) (abind g l)"
  by (rule hides_abind [where R = "(=)"]) auto

lemma hides_areturn: "R x y \<Longrightarrow> hides R (areturn x) (areturn y)"
  by (simp add: hides_def areturn_def)

lemma hides_araise: "hides R (araise x) (araise x)"
  by (simp add: hides_def araise_def)

lemma hides_alift: "(\<And>x. R x x) \<Longrightarrow> hides R (alift m) (alift m)"
  by (cases m) (simp_all add: hides_def alift_def)

lemma hides_areads: "(\<And>a. rel_sum (=) R (f a) (g (redact a))) \<Longrightarrow> hides R (areads f) (areads g)"
  by (simp add: hides_def areads_def)

lemma hides_if: "(b \<Longrightarrow> hides R f g) \<Longrightarrow> (\<not> b \<Longrightarrow> hides R f' g') \<Longrightarrow> hides R (if b then f else f') (if b then g else g')"
  by simp

lemma hides_file:
  "hides R f g \<Longrightarrow> hides R f' g'
    \<Longrightarrow> hides R (\<lambda>a. if db_file a then f a else f' a) (\<lambda>a. if db_file a then g a else g' a)"
  by (auto simp: hides_def)

lemma hides_unless:
  "hides R f g \<Longrightarrow> hides R f' g'
    \<Longrightarrow> hides R (\<lambda>a. if \<not> db_file a then f a else f' a) (\<lambda>a. if \<not> db_file a then g a else g' a)"
  by (auto simp: hides_def)

lemma hides_connection: "hides R f g \<Longrightarrow> hides R (connection w False f) (connection w False g)"
  unfolding hides_def
proof
  fix a
  assume "\<forall>a. rel_sum (=) R (fst (f a)) (fst (g (redact a))) \<and> snd (g (redact a)) = redact (snd (f a))"
  then have "rel_sum (=) R (fst (f a)) (fst (g (redact a)))" "snd (g (redact a)) = redact (snd (f a))" by blast+
  then show "rel_sum (=) R (fst (connection w False f a)) (fst (connection w False g (redact a)))
      \<and> snd (connection w False g (redact a)) = redact (snd (connection w False f a))"
    by (cases "f a"; cases "g (redact a)"; cases "fst (f a)"; cases "fst (g (redact a))")
      (auto simp: connection_def split: option.splits)
qed

lemma hides_identity: "hides (=) (service_identity w s) (service_identity w s)"
  unfolding service_identity_def
  by (intro hides_abind hides_alift) (auto simp: hides_def bind_identity_def hides_araise areturn_def araise_def
      abind_apply split: sum.splits prod.splits)

section \<open>The operations\<close>

lemma hides_evidence: "hides (=) (verify_evidence w s d) (verify_evidence w s d)"
  unfolding verify_evidence_def by (rule hides_same [OF hides_identity]) (simp add: hides_alift)

lemma hides_loads:
  "hides (=) (areads load_commissioning) (areads load_commissioning)"
  "hides (=) (areads load_authorization) (areads load_authorization)"
  by (auto intro!: hides_areads simp: sum.rel_refl)

lemma hides_service_show: "hides (=) (service_show w s) (service_show w s)"
proof -
  have "hides (=) (\<lambda>a. if db_file a then connection w False (areads load_commissioning) a else (Inr [], a))
      (\<lambda>a. if db_file a then connection w False (areads load_commissioning) a else (Inr [], a))"
    by (intro hides_file hides_connection hides_loads) (simp add: hides_def)
  then show ?thesis
    unfolding service_show_def
    by (rule hides_same)
      (auto intro!: hides_if hides_same [OF hides_evidence] hides_same [OF hides_identity]
        hides_same [OF hides_alift] hides_areturn)
qed

lemma hides_show_dict: "hides (=) (service_show_dict w s) (service_show_dict w s)"
  unfolding service_show_dict_def
  by (rule hides_same [OF hides_service_show]) (auto intro!: hides_areturn)

lemma hides_grantor: "hides (=) (verified_grantor w s) (verified_grantor w s)"
  unfolding verified_grantor_def
  by (intro hides_same [OF hides_loads(1)] hides_same [OF hides_evidence] hides_same [OF hides_alift] hides_areturn) simp_all

lemma suspended_redact: "suspended_now (map redact_control controls) = suspended_now controls"
  by (auto simp: suspended_now_def redact_control_def last_map)

lemma hides_read_view: "hides (\<lambda>v v'. v' = redact_view v) (read_view w s g) (read_view w s g)"
  unfolding read_view_def
proof (rule hides_areads)
  fix a
  show "rel_sum (=) (\<lambda>v v'. v' = redact_view v) (witness_view_of w s g a) (witness_view_of w s g (redact a))"
    unfolding witness_view_of_def
    by (cases "validate_history w g a"; cases "load_authorization a")
      (auto simp: Let_def load_controls_redact suspended_redact redact_view_def rbind_def split: sum.splits)
qed

text \<open>What is shown of the witness, without the local controls.\<close>

definition alike :: "pystr list \<Rightarrow> pydict \<Rightarrow> pydict \<Rightarrow> bool" where
  "alike names d d' = (without_keys names d = without_keys names d')"

lemma without_keys_simps [simp]:
  "without_keys names [] = []" "without_keys names ((k, v) # d) =
    (if k \<in> set names then without_keys names d else (k, v) # without_keys names d)"
  "without_keys names (d @ d') = without_keys names d @ without_keys names d'"
  by (simp_all add: without_keys_def)

lemma alike_view: "lit ''local_controls'' \<in> set names \<Longrightarrow> alike names (view_dict v) (view_dict (redact_view v))"
  by (simp add: alike_def view_dict_def redact_view_def)

lemma hides_witness_show:
  assumes "lit ''local_controls'' \<in> set names"
  shows "hides (alike names) (witness_show_dict w s) (witness_show_dict w s)"
proof -
  have r: "hides (\<lambda>c c'. c' = map redact_control c) (areads (\<lambda>a. Inr (load_controls a)))
      (areads (\<lambda>a. Inr (load_controls a)))"
    by (rule hides_areads) (simp add: load_controls_redact)
  have v: "hides (alike names) (abind (verified_grantor w s) (\<lambda>g. abind (read_view w s g) (\<lambda>v. areturn (view_dict v))))
      (abind (verified_grantor w s) (\<lambda>g. abind (read_view w s g) (\<lambda>v. areturn (view_dict v))))"
    using alike_view [OF assms]
    by (intro hides_same [OF hides_grantor] hides_abind [where R = "\<lambda>v v'. v' = redact_view v"] hides_areturn)
      (auto intro: hides_read_view)
  have n: "hides (alike names) (areturn (no_view_dict s)) (areturn (no_view_dict s))"
    by (rule hides_areturn) (simp add: alike_def)
  have "hides (alike names) (\<lambda>a. if \<not> db_file a then (Inr (no_view_dict s), a) else connection w False
        (abind (areads load_authorization) (\<lambda>evidence.
         abind (areads (\<lambda>a. Inr (load_controls a))) (\<lambda>controls.
         if evidence \<noteq> [] \<or> controls \<noteq> []
         then abind (verified_grantor w s) (\<lambda>g. abind (read_view w s g) (\<lambda>v. areturn (view_dict v)))
         else areturn (no_view_dict s)))) a)
     (\<lambda>a. if \<not> db_file a then (Inr (no_view_dict s), a) else connection w False
        (abind (areads load_authorization) (\<lambda>evidence.
         abind (areads (\<lambda>a. Inr (load_controls a))) (\<lambda>controls.
         if evidence \<noteq> [] \<or> controls \<noteq> []
         then abind (verified_grantor w s) (\<lambda>g. abind (read_view w s g) (\<lambda>v. areturn (view_dict v)))
         else areturn (no_view_dict s)))) a)"
    by (intro hides_unless hides_connection hides_same [OF hides_loads(2)] hides_abind [OF r])
      (use v n in \<open>auto simp: hides_def areturn_def\<close>)
  then show ?thesis unfolding witness_show_dict_def .
qed

lemma hides_relay_info:
  "hides (=) (relay_info w s given) (relay_info w s given)"
  unfolding relay_info_def
proof (rule hides_same)
  show "hides (=) (case given of None \<Rightarrow> service_show_dict w s | Some d \<Rightarrow> areturn d)
      (case given of None \<Rightarrow> service_show_dict w s | Some d \<Rightarrow> areturn d)"
    by (cases given) (auto intro: hides_show_dict hides_areturn)
qed (rule hides_abind [OF hides_witness_show [of hidden_keys]],
     auto simp: alike_def hidden_keys_def intro!: hides_same [OF hides_alift] hides_areturn)

section \<open>The property\<close>

text \<open>C19: the reasons that the operator of the machine gives for suspending and resuming, and when, stay
  local: no endpoint answers differently when they are changed or removed.\<close>

theorem local_reasons_private:
  "fst (http_get w s st request (redact a)) = fst (http_get w s st request a)"
proof -
  have h: "hides (=) (relay_info w s given) (relay_info w s given)" for given by (rule hides_relay_info)
  have "hides (=) (http_get w s st request) (http_get w s st request)"
  proof (cases request)
    case (Get_Root header)
    then show ?thesis
      by (auto simp: root_def intro!: hides_same [OF h] hides_if hides_same [OF hides_alift] hides_areturn
          hides_araise split: pyval.splits)
  next
    case Get_Service_Identity
    then show ?thesis
      by (auto simp: service_identity_answer_def intro!: hides_same [OF hides_show_dict] hides_same [OF h] hides_areturn)
  next
    case Get_Witness_Authorization
    have "hides (alike [lit ''local_controls'']) (witness_show_dict w s) (witness_show_dict w s)"
      by (rule hides_witness_show) simp
    then show ?thesis
      using Get_Witness_Authorization
      by (auto simp: witness_authorization_answer_def alike_def intro!: hides_areturn elim!: hides_abind)
  qed (auto intro!: hides_areturn hides_alift hides_same [OF h])
  then show ?thesis unfolding hides_def by (simp add: sum.rel_eq)
qed

end
