(* ===== verification/Endpoint_Example.thy ===== *)
theory Endpoint_Example
  imports Witness_Later Endpoint_Spec Auto_Example
begin

text \<open>
  A relay with an authorized witness that starts, and its pages an hour later.
\<close>

lemma startup_verified:
  assumes "auto_view w s a = (Inr v, a)" "db_file a" "o_db_fault w = None"
    and "stroma_ok (o_crypto w) (o_stroma w)" "encodable (service_management s)"
  shows "startup w s a = (Inr (), a)"
proof -
  obtain g where g: "verified_grantor w s a = (Inr g, a)" "witness_view_of w s g a = Inr v"
    using auto_view_parts [OF assms(1,4,5)] by blast
  obtain d n c where d: "load_commissioning a = Inr d" "settings_npub (o_stroma w) s = Inr (Some n)" "n \<noteq> []"
    "bound_to (sentinel_file a) n" "check_evidence w d n (service_management s) = Inr c"
    using verified_grantor_ok [OF g(1) assms(4)] by blast
  have i: "service_identity w s a = (Inr n, a)" by (rule service_identity_again [OF d(2-4)])
  then have b: "bind_identity w (Some n) a = (Inr (), a)"
    using d(2,3) by (auto simp: service_identity_def abind_apply areturn_def split: sum.splits prod.splits)
  have "verify_evidence w s d a = (Inr c, a)" using i d(5) by (simp add: verify_evidence_def abind_apply alift_def)
  moreover have "lit ''operator_attestation'' \<in> set (map fst d)"
    using d(5) by (auto simp: check_evidence_def split: if_splits)
  then have "has_key (lit ''operator_attestation'') d"
    by (simp add: has_key_def) (metis map_of_eq_None_iff not_Some_eq set_map)
  ultimately have sh: "service_show w s a = (Inr (Commissioned c, d), a)"
    using d(1) assms(2,3) by (simp add: service_show_def abind_apply connection_def areads_def areturn_def)
  obtain ev where "load_authorization a = Inr ev"
    using g(2) by (auto simp: witness_view_of_def rbind_eq_Inr)
  then have "\<exists>v. witness_show w s a = (Inr v, a)"
    using g assms(2,3) by (auto simp: witness_show_def abind_apply connection_def areads_def areturn_def read_view_def)
  then show ?thesis using d(2) b sh by (auto simp: startup_def abind_apply areturn_def alift_def)
qed

theorem pages_last_witness:
  "\<exists>a npub info state. startup (toy_world 4000) toy_settings a = (Inr (), a)
    \<and> http_get (toy_world 7600) toy_settings empty_store (Get_Root (lit ''Text/HTML'')) a
        = (Inr (Html (render_homepage (page_of toy_settings npub (Some (lit ''fd00::1'')) state))), a)
    \<and> http_get (toy_world 7600) toy_settings empty_store (Get_Root []) a = (Inr (Json info), a)
    \<and> http_get (toy_world 7600) toy_settings empty_store Get_Info a = (Inr (Json info), a)
    \<and> (\<exists>d. http_get (toy_world 7600) toy_settings empty_store Get_Witness_Authorization a = (Inr (Json d), a))"
proof -
  obtain c v where c: "open_for_writing c = c" "auto_view (toy_world 4000) toy_settings c = (Inr v, c)"
    using toy_authorized by blast
  have "db_file (open_for_writing c)" by (simp add: open_for_writing_def)
  then have f: "db_file c" using c(1) by simp
  have s: "startup (toy_world 4000) toy_settings c = (Inr (), c)"
    using f by (intro startup_verified [OF c(2)]) (simp_all add: toy_stroma_ok)
  have f: "fips_address toy_stroma n = Some (lit ''fd00::1'')" for n by (simp add: toy_stroma_def)
  have x: "service_fips_ipv6_address toy_stroma toy_settings = Inr (Some (lit ''fd00::1''))"
    using f by (simp add: service_fips_ipv6_address_def fips_ipv6_address_def lit_def)
  have n: "int_printable 4000" "int_printable 7600" by (rule int_printable_64; simp)+
  have h: "wants_html (lit ''Text/HTML'')" "\<not> wants_html []"
    by (simp_all add: wants_html_def ascii_lower_def lit_def)
  have w: "settings_ok (o_stroma (toy_world 4000)) toy_settings"
    "stroma_ok (o_crypto (toy_world 4000)) (o_stroma (toy_world 4000))"
    "service_fips_ipv6_address (o_stroma (toy_world 4000)) toy_settings = Inr (Some (lit ''fd00::1''))"
    "same_libraries (toy_world 4000) (toy_world 7600)" "o_now (toy_world 4000) \<le> o_now (toy_world 7600)"
    "o_db_fault (toy_world 7600) = None" "int_printable (o_now (toy_world 4000))"
    "int_printable (o_now (toy_world 7600))"
    using x n by (simp_all add: toy_settings_ok toy_stroma_ok same_libraries_def)
  from pages_last [OF s w, of empty_store] obtain npub info state d where p:
    "\<And>header. http_get (toy_world 7600) toy_settings empty_store (Get_Root header) c
      = (Inr (if wants_html header
          then Html (render_homepage (page_of toy_settings npub (Some (lit ''fd00::1'')) state)) else Json info), c)"
    "http_get (toy_world 7600) toy_settings empty_store Get_Info c = (Inr (Json info), c)"
    "http_get (toy_world 7600) toy_settings empty_store Get_Witness_Authorization c = (Inr (Json d), c)"
    by blast
  have "http_get (toy_world 7600) toy_settings empty_store (Get_Root (lit ''Text/HTML'')) c
      = (Inr (Html (render_homepage (page_of toy_settings npub (Some (lit ''fd00::1'')) state))), c)"
    "http_get (toy_world 7600) toy_settings empty_store (Get_Root []) c = (Inr (Json info), c)"
    using p(1) [of "lit ''Text/HTML''"] p(1) [of "[]"] h by (simp_all only: if_True if_False)
  with s p(2,3) show ?thesis by blast
qed

end
