(* ===== verification/Cli.thy ===== *)
theory Cli
  imports Admin_Views Operator_Signing Startup
begin

text \<open>
  \<open>spurline/cli.py\<close>: the commands, after \<open>argparse\<close> has read the command line. A command works on
  the administrative data; publishing also sends events to other relays, through stroma's pool,
  which is a parameter.
\<close>

section \<open>The command line\<close>

text \<open>The options before the command; an option that was not given is \<open>None\<close>.\<close>

record options =
  op_host :: "pystr option"
  op_port :: "int option"
  op_database :: "pystr option"
  op_no_verify :: bool
  op_public_url :: "pystr option"

text \<open>
  A file argument is what reading the file gives, \<open>--file\<close> or standard input as text; that of
  \<open>Run_Relay\<close> is what opening the event database gives.
\<close>

datatype witness_action =
    Do_Request "byte list res" int "int list option" bool
  | Do_Authorize "pystr res"
  | Do_Revocation_Request pystr
  | Do_Revoke "pystr res"
  | Do_Control pystr pystr
  | Do_History
  | Do_Show
  | Do_Verify
  | Do_Publish "pystr list"

datatype service_action =
    Service_Request pystr
  | Service_Commission "pystr res"
  | Service_Show
  | Service_Verify
  | Service_Publish "pystr list"
  | Service_Witness witness_action

datatype command =
    Operator_Command signing_action pystr session
  | Service_Command service_action
  | Run_Relay "unit res"

section \<open>Publishing\<close>

text \<open>The administrative data, and the events that were handed to the pool.\<close>

record console =
  cn_admin :: admin
  cn_sent :: "stored_event list"

text \<open>\<open>RelayPool(relays, timeout=...)\<close>: what publishing an event gives, unless it cannot be made.\<close>

type_synonym relay_pool = "pystr list \<Rightarrow> (stored_event \<Rightarrow> pystr list res) res"

definition with_admin :: "(admin, 'a) act \<Rightarrow> (console, 'a) act" where
  "with_admin m c = (case m (cn_admin c) of (x, a) \<Rightarrow> (x, c\<lparr>cn_admin := a\<rparr>))"

text \<open>
  \<open>await pool.publish(event, require=...)\<close>: the relays of the results, or an exception. An event
  whose signature does not verify loads as \<open>None\<close>, which has no id.
\<close>

definition publish_one ::
  "outside \<Rightarrow> (stored_event \<Rightarrow> pystr list res) \<Rightarrow> pydict \<Rightarrow> pystr \<Rightarrow> (console, pydict) act" where
  "publish_one w publish evidence name =
     abind (alift (case map_of evidence name of None \<Rightarrow> Inl KeyError | Some v \<Rightarrow> load_event (o_stroma w) v))
       (\<lambda>loaded. case loaded of
          None \<Rightarrow> araise AttributeError
        | Some event \<Rightarrow>
            abind (amodify (\<lambda>c. c\<lparr>cn_sent := cn_sent c @ [event]\<rparr>)) (\<lambda>_.
            abind (alift (publish event)) (\<lambda>reached.
              areturn [(lit ''event_id'', VStr (ev_id event)), (lit ''relays'', VList (map VStr reached))])))"

fun publish_each ::
  "outside \<Rightarrow> (stored_event \<Rightarrow> pystr list res) \<Rightarrow> pydict \<Rightarrow> pystr list \<Rightarrow> (console, pydict list) act" where
  "publish_each w publish evidence [] = areturn []"
| "publish_each w publish evidence (name # names) =
     abind (publish_one w publish evidence name) (\<lambda>d.
     abind (publish_each w publish evidence names) (\<lambda>ds. areturn (d # ds)))"

definition chain_names :: "pystr list" where
  "chain_names = [lit ''commissioning_request'', lit ''operator_attestation'', lit ''service_descriptor'']"

definition publish_evidence ::
  "outside \<Rightarrow> relay_pool \<Rightarrow> pydict \<Rightarrow> pystr list \<Rightarrow> pystr list \<Rightarrow> (console, pydict) act" where
  "publish_evidence w pool evidence relays names =
     abind (alift (pool relays)) (\<lambda>publish.
     abind (publish_each w publish evidence (if names = [] then chain_names else names)) (\<lambda>events.
       areturn [(lit ''state'', vlit ''published''), (lit ''events'', VList (map VDict events))]))"

section \<open>Reading a signed event\<close>

definition read_signed_event :: "pystr res \<Rightarrow> pyval res" where
  "read_signed_event contents =
     rbind contents (\<lambda>raw.
       if 1024 * 1024 < length raw then Inl (CE ''attestation exceeds 1 MiB'')
       else rbind (loads raw) (\<lambda>event.
         Inr (case event of
                VDict d \<Rightarrow> (case map_of d (lit ''event'') of Some e \<Rightarrow> e | None \<Rightarrow> event)
              | _ \<Rightarrow> event)))"

section \<open>The witness commands\<close>

text \<open>The signed events of the history by \<open>index:name\<close>, in its order.\<close>

definition entry_parts :: "nat \<Rightarrow> pydict \<Rightarrow> pydict" where
  "entry_parts index entry =
     concat (map (\<lambda>name. case map_of entry (lit name) of
         None \<Rightarrow> []
       | Some v \<Rightarrow> [(int_text (int index) @ lit '':'' @ lit name, v)])
       [''request'', ''authorization'', ''revocation''])"

definition history_parts :: "pydict list \<Rightarrow> pydict" where
  "history_parts history = concat (map (\<lambda>(index, entry). entry_parts index entry) (enumerate 0 history))"

definition default_kinds :: "int list option \<Rightarrow> int list" where
  "default_kinds kinds = (case kinds of Some (k # ks) \<Rightarrow> k # ks | _ \<Rightarrow> [1415, 1416])"

fun witness_command ::
  "outside \<Rightarrow> settings \<Rightarrow> relay_pool \<Rightarrow> witness_action \<Rightarrow> (console, pydict) act" where
  "witness_command w s pool (Do_Request policy valid_for kinds renew) =
     abind (with_admin (witness_request w s policy valid_for (default_kinds kinds) renew))
       (\<lambda>(status, evidence, template). areturn (evidence_status_dict status
          @ [(lit ''evidence'', VDict evidence), (lit ''unsigned_authorization'', VDict (template_dict template))]))"
| "witness_command w s pool (Do_Authorize file) =
     abind (alift (read_signed_event file)) (\<lambda>event.
     abind (with_admin (witness_authorize w s event)) (\<lambda>v. areturn (view_dict v)))"
| "witness_command w s pool (Do_Revocation_Request reason) =
     abind (with_admin (witness_revocation_request w s (VStr reason))) (\<lambda>template.
       areturn [(lit ''unsigned_revocation'', VDict (template_dict template))])"
| "witness_command w s pool (Do_Revoke file) =
     abind (alift (read_signed_event file)) (\<lambda>event.
     abind (with_admin (witness_revoke w s event)) (\<lambda>v. areturn (view_dict v)))"
| "witness_command w s pool (Do_Control action reason) =
     abind (with_admin (witness_control w s action reason)) (\<lambda>v. areturn (view_dict v))"
| "witness_command w s pool Do_Verify = with_admin (witness_verify_dict w s)"
| "witness_command w s pool (Do_Publish relays) =
     abind (with_admin (witness_verify w s)) (\<lambda>v.
       let evidence = history_parts (vw_history v)
       in publish_evidence w pool evidence relays (map fst evidence))"
| "witness_command w s pool Do_History = with_admin (witness_show_dict w s)"
| "witness_command w s pool Do_Show = with_admin (witness_show_dict w s)"

section \<open>The service commands\<close>

fun service_command ::
  "outside \<Rightarrow> settings \<Rightarrow> relay_pool \<Rightarrow> service_action \<Rightarrow> (console, pydict) act" where
  "service_command w s pool (Service_Witness action) = witness_command w s pool action"
| "service_command w s pool (Service_Request operator_npub) = with_admin (service_request_dict w s operator_npub)"
| "service_command w s pool (Service_Commission file) =
     abind (alift (read_signed_event file)) (\<lambda>event. with_admin (service_commission_dict w s event))"
| "service_command w s pool Service_Verify =
     abind (with_admin (service_verify w s)) (\<lambda>c. areturn (commissioned_dict c))"
| "service_command w s pool (Service_Publish relays) =
     abind (with_admin (service_verify w s)) (\<lambda>_.
     abind (with_admin (service_show w s)) (\<lambda>(_, evidence). publish_evidence w pool evidence relays []))"
| "service_command w s pool Service_Show = with_admin (service_show_dict w s)"

section \<open>The program\<close>

text \<open>
  What \<open>main\<close> ends with: printed JSON, an error message and status 1, a traceback, a relay that serves,
  or one whose start-up raised, which uvicorn reports before it exits.
\<close>

datatype outcome = Printed pydict | Exits exc | Crashes exc | Serves settings | Startup_Fails exc

definition cli_settings :: "stroma \<Rightarrow> (pystr \<Rightarrow> pystr option) \<Rightarrow> options \<Rightarrow> settings res" where
  "cli_settings st env opts =
     rbind (from_env st env) (\<lambda>s.
       post_init st (s\<lparr>host := (case op_host opts of Some h \<Rightarrow> h | None \<Rightarrow> host s),
         port := (case op_port opts of Some p \<Rightarrow> p | None \<Rightarrow> port s),
         database_path := (case op_database opts of Some p \<Rightarrow> p | None \<Rightarrow> database_path s),
         verify_signatures := (if op_no_verify opts then False else verify_signatures s),
         public_url := (case op_public_url opts of Some u \<Rightarrow> Some u | None \<Rightarrow> public_url s)\<rparr>))"

definition service_exits :: "exc \<Rightarrow> bool" where
  "service_exits x = (is_value_error x \<or> x = OSError \<or> x = SqliteError \<or> x = RelayError)"

definition operator_exits :: "exc \<Rightarrow> bool" where
  "operator_exits x = (is_value_error x \<or> x = OSError \<or> x = EOFError \<or> x = KeyboardInterrupt)"

definition outcome_of :: "(exc \<Rightarrow> bool) \<Rightarrow> pydict res \<Rightarrow> outcome" where
  "outcome_of exits r = (case r of Inr d \<Rightarrow> Printed d | Inl x \<Rightarrow> if exits x then Exits x else Crashes x)"

definition cli_main ::
  "outside \<Rightarrow> outside \<Rightarrow> (pystr \<Rightarrow> pystr option) \<Rightarrow> options \<Rightarrow> relay_pool
     \<Rightarrow> command \<Rightarrow> console \<Rightarrow> outcome \<times> console" where
  "cli_main w w' env opts pool cmd c =
     (case cmd of
        Operator_Command action npub ss \<Rightarrow>
          (outcome_of operator_exits
             (rbind (snd (operator_sign w w' action npub ss)) (\<lambda>e. Inr (to_dict e))), c)
      | Service_Command action \<Rightarrow>
          (case cli_settings (o_stroma w) env opts of
             Inl x \<Rightarrow> (Crashes x, c)
           | Inr s \<Rightarrow>
               (case service_command w s pool action c of
                  (r, c') \<Rightarrow> (outcome_of service_exits r, c')))
      | Run_Relay opened \<Rightarrow>
          (case cli_settings (o_stroma w) env opts of
             Inl x \<Rightarrow> (Crashes x, c)
           | Inr s \<Rightarrow>
               (case rbind opened (\<lambda>_. create_app s True) of
                  Inl x \<Rightarrow> (Crashes x, c)
                | Inr _ \<Rightarrow>
                    (case with_admin (startup w s) c of
                       (Inl x, c') \<Rightarrow> (Startup_Fails x, c')
                     | (Inr _, c') \<Rightarrow> (Serves s, c')))))"

end
