(* ===== verification/Cli_Spec.thy ===== *)
theory Cli_Spec
  imports Cli Witness_History
begin

text \<open>
  The commands are the administrative operations: each does what its operation does, fails when it
  fails, and only the publishing ones send anything.
\<close>

section \<open>Commands and operations\<close>

text \<open>The same effect on the administrative data and the same exceptions, nothing sent.\<close>

definition does :: "(console, 'a) act \<Rightarrow> (admin, 'b) act \<Rightarrow> bool" where
  "does m n = (\<forall>c. snd (m c) = c\<lparr>cn_admin := snd (n (cn_admin c))\<rparr>
     \<and> rel_sum (=) (\<lambda>_ _. True) (fst (m c)) (fst (n (cn_admin c))))"

lemma does_with: "does (with_admin m) m"
  by (auto simp: does_def with_admin_def sum.rel_refl split: prod.split)

lemma does_then: "does m n \<Longrightarrow> does (abind m (\<lambda>x. areturn (f x))) n"
  unfolding does_def
proof
  fix c
  assume "\<forall>c. snd (m c) = c\<lparr>cn_admin := snd (n (cn_admin c))\<rparr>
     \<and> rel_sum (=) (\<lambda>_ _. True) (fst (m c)) (fst (n (cn_admin c)))"
  then have "snd (m c) = c\<lparr>cn_admin := snd (n (cn_admin c))\<rparr>"
    "rel_sum (=) (\<lambda>_ _. True) (fst (m c)) (fst (n (cn_admin c)))" by blast+
  then show "snd (abind m (\<lambda>x. areturn (f x)) c) = c\<lparr>cn_admin := snd (n (cn_admin c))\<rparr>
     \<and> rel_sum (=) (\<lambda>_ _. True) (fst (abind m (\<lambda>x. areturn (f x)) c)) (fst (n (cn_admin c)))"
    by (cases "m c"; cases "fst (m c)"; cases "fst (n (cn_admin c))") (auto simp: abind_apply areturn_def)
qed

lemma does_same:
  assumes "does m n" "\<And>a. snd (n' a) = snd (n a) \<and> rel_sum (=) (\<lambda>_ _. True) (fst (n a)) (fst (n' a))"
  shows "does m n'"
  unfolding does_def
proof
  fix c
  have "rel_sum (=) (\<lambda>_ _. True) (fst (m c)) (fst (n (cn_admin c)))" "snd (m c) = c\<lparr>cn_admin := snd (n (cn_admin c))\<rparr>"
    using assms(1) unfolding does_def by blast+
  with assms(2) [of "cn_admin c"] show "snd (m c) = c\<lparr>cn_admin := snd (n' (cn_admin c))\<rparr>
      \<and> rel_sum (=) (\<lambda>_ _. True) (fst (m c)) (fst (n' (cn_admin c)))"
    by (cases "fst (m c)"; cases "fst (n (cn_admin c))"; cases "fst (n' (cn_admin c))") auto
qed

lemma does_abind: "does m n \<Longrightarrow> does m (abind n (\<lambda>x. areturn (f x)))"
  by (erule does_same) (auto simp: abind_apply areturn_def split: sum.split prod.split)

lemma does_done: "does m n \<Longrightarrow> does m (adone n)"
  unfolding adone_def by (rule does_abind)

text \<open>The dictionaries change nothing but the result.\<close>

lemma show_dict_does: "does m (witness_show_dict w s) \<Longrightarrow> does m (witness_show w s)"
  by (erule does_same)
    (auto simp: witness_show_dict_def witness_show_def connection_def abind_apply areturn_def read_view_def
      split: sum.split prod.split option.split)

lemma service_dict_does: "does m (service_show_dict w s) \<Longrightarrow> does m (service_show w s)"
  "does m (service_request_dict w s p) \<Longrightarrow> does m (service_request w s p)"
  "does m (service_commission_dict w s v) \<Longrightarrow> does m (service_commission w s v)"
  by (erule does_same; auto simp: service_show_dict_def service_request_dict_def service_commission_dict_def
      abind_apply areturn_def split: sum.split prod.split)+

text \<open>The operation of a command that does not publish; an unreadable file has none.\<close>

fun witness_op :: "witness_action \<Rightarrow> admin_op res" where
  "witness_op (Do_Request policy valid_for kinds renew) =
     Inr (Witness_Request policy valid_for (default_kinds kinds) renew)"
| "witness_op (Do_Authorize file) = rbind (read_signed_event file) (\<lambda>e. Inr (Witness_Authorize e))"
| "witness_op (Do_Revocation_Request reason) = Inr (Witness_Revocation_Request (VStr reason))"
| "witness_op (Do_Revoke file) = rbind (read_signed_event file) (\<lambda>e. Inr (Witness_Revoke e))"
| "witness_op (Do_Control action reason) = Inr (Witness_Control action reason)"
| "witness_op Do_History = Inr Witness_Show"
| "witness_op Do_Show = Inr Witness_Show"
| "witness_op Do_Verify = Inr Witness_Verify"
| "witness_op (Do_Publish relays) = Inr Witness_Verify"

fun service_op_of :: "service_action \<Rightarrow> admin_op res" where
  "service_op_of (Service_Request npub) = Inr (On_Service (Request_Operator npub))"
| "service_op_of (Service_Commission file) =
     rbind (read_signed_event file) (\<lambda>e. Inr (On_Service (Commission_With e)))"
| "service_op_of Service_Show = Inr (On_Service Show_Service)"
| "service_op_of Service_Verify = Inr (On_Service Verify_Service)"
| "service_op_of (Service_Publish relays) = Inr (On_Service Verify_Service)"
| "service_op_of (Service_Witness action) = witness_op action"

fun publishes :: "service_action \<Rightarrow> bool" where
  "publishes (Service_Publish relays) = True"
| "publishes (Service_Witness (Do_Publish relays)) = True"
| "publishes _ = False"

lemma witness_command_does:
  assumes "witness_op action = Inr opn" "\<not> publishes (Service_Witness action)"
  shows "does (witness_command w s pool action) (run_admin w s opn)"
proof -
  have v: "does (with_admin (witness_verify_dict w s)) (witness_verify w s)"
    by (rule does_same [OF does_with])
      (auto simp: witness_verify_dict_def abind_apply areturn_def split: sum.split prod.split)
  show ?thesis
    using assms v
    by (cases action)
      (auto simp: rbind_eq_Inr split_def Let_def intro!: does_then does_done does_with show_dict_does)
qed

lemma service_command_does:
  assumes "service_op_of action = Inr opn" "\<not> publishes action"
  shows "does (service_command w s pool action) (run_admin w s opn)"
proof (cases action)
  case (Service_Witness a)
  then show ?thesis using assms by (simp add: witness_command_does)
qed (use assms in \<open>auto simp: rbind_eq_Inr split_def intro!: does_abind does_then does_with service_dict_does\<close>)

lemma command_unreadable:
  "service_op_of action = Inl x \<Longrightarrow> service_command w s pool action c = (Inl x, c)"
proof -
  have "witness_op a = Inl x \<Longrightarrow> witness_command w s pool a c = (Inl x, c)" for a
    by (cases a) (auto simp: rbind_eq_Inl abind_apply alift_def)
  then show "service_op_of action = Inl x \<Longrightarrow> service_command w s pool action c = (Inl x, c)"
    by (cases action) (auto simp: rbind_eq_Inl abind_apply alift_def)
qed

section \<open>Publishing\<close>

lemma publish_each_admin: "publish_each w publish ev names c = (x, c') \<Longrightarrow> cn_admin c' = cn_admin c"
proof (induction names arbitrary: c x)
  case (Cons name names)
  then show ?case
    by (fastforce simp: publish_one_def abind_apply areturn_def araise_def alift_def amodify_def
        split: sum.splits prod.splits option.splits)
qed (simp add: areturn_def)

lemma publish_evidence_admin:
  "publish_evidence w pool ev relays names c = (x, c') \<Longrightarrow> cn_admin c' = cn_admin c"
  by (auto simp: publish_evidence_def abind_apply areturn_def alift_def dest: publish_each_admin
      split: sum.splits prod.splits)

text \<open>What a successful publication has sent.\<close>

lemma publish_each_sends:
  "publish_each w publish ev names c = (Inr ds, c') \<Longrightarrow>
    \<exists>es. cn_sent c' = cn_sent c @ es
      \<and> list_all2 (\<lambda>name e. \<exists>v. map_of ev name = Some v \<and> load_event (o_stroma w) v = Inr (Some e)) names es
      \<and> list_all2 (\<lambda>e d. \<exists>r. publish e = Inr r \<and> d = [(lit ''event_id'', VStr (ev_id e)), (lit ''relays'', VList (map VStr r))]) es ds"
proof (induction names arbitrary: c ds)
  case (Cons name names)
  obtain v e r ds' c1 where "map_of ev name = Some v" "load_event (o_stroma w) v = Inr (Some e)" "publish e = Inr r"
    "ds = [(lit ''event_id'', VStr (ev_id e)), (lit ''relays'', VList (map VStr r))] # ds'"
    "c1 = c\<lparr>cn_sent := cn_sent c @ [e]\<rparr>" "publish_each w publish ev names c1 = (Inr ds', c')"
    using Cons.prems
    by (auto simp: publish_one_def abind_apply areturn_def araise_def alift_def amodify_def
        split: sum.splits prod.splits option.splits)
  with Cons.IH [OF this(6)] show ?case
    by (auto intro: exI [of _ "e # _"])
qed (auto simp: areturn_def)

text \<open>Whatever happens, what is sent was loaded from the evidence, in the order of the names.\<close>

lemma publish_each_from:
  "\<exists>es. cn_sent (snd (publish_each w publish ev names c)) = cn_sent c @ es
    \<and> list_all2 (\<lambda>name e. \<exists>v. map_of ev name = Some v \<and> load_event (o_stroma w) v = Inr (Some e))
        (take (length es) names) es"
proof (induction names arbitrary: c)
  case (Cons name names)
  let ?c = "\<lambda>e. c\<lparr>cn_sent := cn_sent c @ [e]\<rparr>"
  show ?case
  proof (cases "\<exists>v e r. map_of ev name = Some v \<and> load_event (o_stroma w) v = Inr (Some e) \<and> publish e = Inr r")
    case True
    then obtain v e r where e: "map_of ev name = Some v" "load_event (o_stroma w) v = Inr (Some e)" "publish e = Inr r"
      by blast
    have "snd (publish_each w publish ev (name # names) c) = snd (publish_each w publish ev names (?c e))"
      using e by (auto simp: publish_one_def abind_apply areturn_def alift_def amodify_def split: sum.split prod.split)
    with Cons.IH [of "?c e"] e show ?thesis by (auto intro: exI [of _ "e # _"])
  next
    case False
    then have "snd (publish_each w publish ev (name # names) c) = c
      \<or> (\<exists>v e. map_of ev name = Some v \<and> load_event (o_stroma w) v = Inr (Some e)
            \<and> snd (publish_each w publish ev (name # names) c) = ?c e)"
      by (auto simp: publish_one_def abind_apply araise_def alift_def amodify_def split: sum.split prod.split option.split)
    then show ?thesis by (auto intro: exI [of _ "[]"] exI [of _ "[_]"])
  qed
qed (auto simp: areturn_def)

lemma publishesE:
  assumes "publishes action"
  obtains relays where "action = Service_Publish relays" | relays where "action = Service_Witness (Do_Publish relays)"
  using assms that by (cases action rule: publishes.cases) auto

lemma snd_abind_areturn: "snd (abind m (\<lambda>x. areturn (f x)) a) = snd (m a)"
  by (auto simp: abind_apply areturn_def split: sum.split prod.split)

text \<open>The data directory after a lifted operation and a continuation.\<close>

lemma admin_of_with:
  assumes "\<And>x c. cn_admin (snd (k x c)) = cn_admin c"
  shows "cn_admin (snd (abind (with_admin m) k c)) = snd (m (cn_admin c))"
  using assms by (cases "m (cn_admin c)"; cases "fst (m (cn_admin c))") (auto simp: abind_apply with_admin_def)

lemma relates_then_with:
  assumes "transp R" "R (cn_admin c) (snd (m (cn_admin c)))" "\<And>c. R (cn_admin c) (cn_admin (snd (k c)))"
  shows "R (cn_admin c) (cn_admin (snd (abind (with_admin m) (\<lambda>_. k) c)))"
proof (cases "m (cn_admin c)")
  case (Pair x a)
  show ?thesis
  proof (cases x)
    case (Inr y)
    then have "snd (abind (with_admin m) (\<lambda>_. k) c) = snd (k (c\<lparr>cn_admin := a\<rparr>))"
      using Pair by (simp add: abind_apply with_admin_def)
    then show ?thesis using transpD [OF assms(1)] assms(2) assms(3) [of "c\<lparr>cn_admin := a\<rparr>"] Pair by simp
  qed (use assms(2) Pair in \<open>simp add: abind_apply with_admin_def\<close>)
qed

text \<open>A publishing command does to the data what its verification and reading do.\<close>

lemma publishing_relates:
  assumes "publishes action" "transp R"
    and v: "\<And>a. R a (snd (service_verify w s a))" "\<And>a. R a (snd (service_show w s a))"
      "\<And>a. R a (snd (witness_verify w s a))"
  shows "R (cn_admin c) (cn_admin (snd (service_command w s pool action c)))"
proof -
  have p: "cn_admin (snd (publish_evidence w pool ev relays names c)) = cn_admin c" for ev relays names c
    using publish_evidence_admin by (metis prod.collapse)
  from publishesE [OF assms(1)] show ?thesis
  proof cases
    case (1 relays)
    let ?k = "\<lambda>(_ :: service_state, evidence). publish_evidence w pool evidence relays []"
    have k: "cn_admin (snd (?k x c)) = cn_admin c" for x c using p by (cases x) simp
    have "R (cn_admin c) (cn_admin (snd (abind (with_admin (service_show w s)) ?k c)))" for c
      using v(2) [of "cn_admin c"] by (simp only: admin_of_with [OF k])
    then show ?thesis
      using v(1) [of "cn_admin c"] unfolding 1 service_command.simps by (rule relates_then_with [OF assms(2), rotated])
  next
    case (2 relays)
    then show ?thesis
      using v(3) [of "cn_admin c"] by (simp only: service_command.simps witness_command.simps Let_def admin_of_with [OF p])
  qed
qed

section \<open>What is published\<close>

lemma with_admin_apply: "with_admin m c = (case m (cn_admin c) of (x, a) \<Rightarrow> (x, c\<lparr>cn_admin := a\<rparr>))"
  by (simp add: with_admin_def)

lemma digits_before_colon: "takeWhile (\<lambda>c. c \<noteq> 58) (int_text (int i) @ 58 # t) = int_text (int i)"
proof -
  have "c \<noteq> 58" if "c \<in> set (int_text (int i))" for c
    using that nat_text_digits [of c i] by (auto simp: int_text_def)
  then show ?thesis by (subst takeWhile_append2) auto
qed

lemma part_name_inject:
  "int_text (int i) @ 58 # t = int_text (int j) @ 58 # u \<longleftrightarrow> i = j \<and> t = u"
proof
  assume e: "int_text (int i) @ 58 # t = int_text (int j) @ 58 # u"
  then have "int_text (int i) = int_text (int j)" using digits_before_colon by metis
  then have "nat_text i = nat_text j" by (simp add: int_text_def)
  then have "i = j" by (metis digits_val_nat_text)
  with e show "i = j \<and> t = u" by simp
qed simp

lemma entry_parts_keys: "k \<in> fst ` set (entry_parts i d) \<Longrightarrow> \<exists>t. k = int_text (int i) @ 58 # t"
  by (auto simp: entry_parts_def split: option.splits) (auto simp: lit_def)

lemma entry_parts_distinct: "distinct (map fst (entry_parts i d))"
  by (auto simp: entry_parts_def split: option.split)

lemma history_parts_distinct: "distinct (map fst (concat (map (\<lambda>(i, d). entry_parts i d) (enumerate n h))))"
proof (induction h arbitrary: n)
  case (Cons d h)
  have "\<exists>j t. n < j \<and> k = int_text (int j) @ 58 # t"
    if "k \<in> fst ` set (concat (map (\<lambda>(i, d). entry_parts i d) (enumerate (Suc n) h)))" for k
  proof -
    from that obtain j d' where "(j, d') \<in> set (enumerate (Suc n) h)" "k \<in> fst ` set (entry_parts j d')"
      by (force simp: image_iff)
    moreover from this(1) have "n < j" by (simp add: in_set_enumerate_eq)
    ultimately show ?thesis using entry_parts_keys by blast
  qed
  moreover have "\<exists>t. k = int_text (int n) @ 58 # t" if "k \<in> fst ` set (entry_parts n d)" for k
    using entry_parts_keys [OF that] .
  ultimately have "fst ` set (entry_parts n d) \<inter> fst ` set (concat (map (\<lambda>(i, d). entry_parts i d) (enumerate (Suc n) h))) = {}"
    using part_name_inject by (fastforce simp del: set_concat)
  then show ?case using Cons.IH entry_parts_distinct by simp
qed simp

text \<open>The parts that a publishing command looks up, by the names it uses.\<close>

definition get_or_none :: "pydict \<Rightarrow> pystr \<Rightarrow> pyval" where
  "get_or_none d n = (case map_of d n of None \<Rightarrow> VNone | Some v \<Rightarrow> v)"

definition named_evidence :: "outside \<Rightarrow> settings \<Rightarrow> service_action \<Rightarrow> admin \<Rightarrow> pydict" where
  "named_evidence w s action a =
     (case action of
        Service_Publish relays \<Rightarrow>
          (case service_verify w s a of
             (Inl x, b) \<Rightarrow> []
           | (Inr cm, b) \<Rightarrow>
               (case fst (service_show w s b) of
                  Inl x \<Rightarrow> []
                | Inr (state, evidence) \<Rightarrow> map (\<lambda>n. (n, get_or_none evidence n)) chain_names))
      | Service_Witness (Do_Publish relays) \<Rightarrow>
          (case fst (witness_verify w s a) of Inl x \<Rightarrow> [] | Inr v \<Rightarrow> history_parts (vw_history v))
      | _ \<Rightarrow> [])"

lemma publish_evidence_from:
  assumes "publish_evidence w pool ev relays names c = (r, c')"
  shows "\<exists>es. cn_sent c' = cn_sent c @ es
    \<and> list_all2 (\<lambda>name e. \<exists>v. map_of ev name = Some v \<and> load_event (o_stroma w) v = Inr (Some e))
        (take (length es) (if names = [] then chain_names else names)) es
    \<and> (case r of Inl x \<Rightarrow> True | Inr d \<Rightarrow> length es = length (if names = [] then chain_names else names))"
proof (cases "pool relays")
  case (Inl x)
  then show ?thesis using assms by (auto simp: publish_evidence_def abind_apply alift_def)
next
  case (Inr publish)
  let ?n = "if names = [] then chain_names else names"
  obtain x c1 where x: "publish_each w publish ev ?n c = (x, c1)" by fastforce
  then have r: "c' = c1" "(case r of Inl _ \<Rightarrow> True | Inr _ \<Rightarrow> \<exists>ds. x = Inr ds)"
    using assms Inr by (auto simp: publish_evidence_def abind_apply alift_def areturn_def split: sum.splits)
  show ?thesis
  proof (cases x)
    case (Inl y)
    then have "\<exists>y. r = Inl y" using r(2) by (cases r) auto
    with publish_each_from [of w publish ev ?n c] x r(1) show ?thesis by auto
  next
    case (Inr ds)
    with publish_each_sends [of w publish ev ?n c ds c1] x obtain es where
      es: "cn_sent c1 = cn_sent c @ es"
        "list_all2 (\<lambda>name e. \<exists>v. map_of ev name = Some v \<and> load_event (o_stroma w) v = Inr (Some e)) ?n es" by blast
    with r(1) list_all2_lengthD [OF es(2)] show ?thesis by (auto split: sum.split)
  qed
qed

lemma named_parts:
  assumes "list_all2 (\<lambda>name e. \<exists>v. map_of d name = Some v \<and> P v e) (take n (map fst d)) es" "distinct (map fst d)"
  shows "list_all2 (\<lambda>(k, v) e. P v e) (take n d) es"
proof -
  have "list_all2 (\<lambda>p e. \<exists>v. map_of d (fst p) = Some v \<and> P v e) (take n d) es"
    using assms(1) by (simp add: take_map list_all2_map1)
  then show ?thesis
    by (rule list.rel_mono_strong) (use assms(2) in \<open>auto dest!: in_set_takeD dest: eq_key_imp_eq_value\<close>)
qed

lemma witness_publish_sends:
  assumes "witness_command w s pool (Do_Publish relays) c = (r, c')"
  shows "\<exists>es. cn_sent c' = cn_sent c @ es
    \<and> list_all2 (\<lambda>(name, v) e. load_event (o_stroma w) v = Inr (Some e))
        (take (length es) (named_evidence w s (Service_Witness (Do_Publish relays)) (cn_admin c))) es
    \<and> (case r of Inl x \<Rightarrow> True
       | Inr d \<Rightarrow> length es = length (named_evidence w s (Service_Witness (Do_Publish relays)) (cn_admin c)))"
proof -
  obtain x b where v: "witness_verify w s (cn_admin c) = (x, b)" by fastforce
  show ?thesis
  proof (cases x)
    case (Inl y)
    then show ?thesis using assms v by (auto simp: abind_apply with_admin_apply named_evidence_def)
  next
    case (Inr view)
    let ?d = "history_parts (vw_history view)"
    have p: "publish_evidence w pool ?d relays (map fst ?d) (c\<lparr>cn_admin := b\<rparr>) = (r, c')"
      using assms v Inr by (simp add: abind_apply with_admin_apply Let_def)
    have e: "named_evidence w s (Service_Witness (Do_Publish relays)) (cn_admin c) = ?d"
      using v Inr by (simp add: named_evidence_def)
    from publish_evidence_from [OF p] obtain es where es: "cn_sent c' = cn_sent c @ es"
      "list_all2 (\<lambda>name e. \<exists>v. map_of ?d name = Some v \<and> load_event (o_stroma w) v = Inr (Some e))
        (take (length es) (if map fst ?d = [] then chain_names else map fst ?d)) es"
      "case r of Inl x \<Rightarrow> True | Inr d \<Rightarrow> length es = length (if map fst ?d = [] then chain_names else map fst ?d)"
      by auto
    show ?thesis
    proof (cases "?d = []")
      case True
      then have "es = []" using es(2) by (cases es) (auto simp: chain_names_def)
      then show ?thesis using es True unfolding e by (auto simp: chain_names_def split: sum.split)
    next
      case False
      then have "list_all2 (\<lambda>(name, v) e. load_event (o_stroma w) v = Inr (Some e)) (take (length es) ?d) es"
        using es(2) by (intro named_parts) (simp_all add: history_parts_distinct [of 0, folded history_parts_def])
      then show ?thesis using es False unfolding e by (auto split: sum.splits)
    qed
  qed
qed

lemma service_publish_sends:
  assumes "service_command w s pool (Service_Publish relays) c = (r, c')"
  shows "\<exists>es. cn_sent c' = cn_sent c @ es
    \<and> list_all2 (\<lambda>(name, v) e. load_event (o_stroma w) v = Inr (Some e))
        (take (length es) (named_evidence w s (Service_Publish relays) (cn_admin c))) es
    \<and> (case r of Inl x \<Rightarrow> True
       | Inr d \<Rightarrow> length es = length (named_evidence w s (Service_Publish relays) (cn_admin c)))"
proof -
  obtain x b where v: "service_verify w s (cn_admin c) = (x, b)" by fastforce
  obtain y b' where sh: "service_show w s b = (y, b')" by fastforce
  consider (err) "(\<exists>i. x = Inl i) \<or> (\<exists>i. y = Inl i)" | (ok) cm state ev where "x = Inr cm" "y = Inr (state, ev)"
    by (cases x; cases y) auto
  then show ?thesis
  proof cases
    case err
    then show ?thesis using assms v sh by (auto simp: abind_apply with_admin_apply named_evidence_def split: sum.splits)
  next
    case ok
    have p: "publish_evidence w pool ev relays [] (c\<lparr>cn_admin := b'\<rparr>) = (r, c')"
      using assms v sh ok by (simp add: abind_apply with_admin_apply)
    have e: "named_evidence w s (Service_Publish relays) (cn_admin c) = map (\<lambda>n. (n, get_or_none ev n)) chain_names"
      using v sh ok by (simp add: named_evidence_def)
    from publish_evidence_from [OF p] obtain es where es: "cn_sent c' = cn_sent (c\<lparr>cn_admin := b'\<rparr>) @ es"
      "list_all2 (\<lambda>name e. \<exists>v. map_of ev name = Some v \<and> load_event (o_stroma w) v = Inr (Some e))
        (take (length es) chain_names) es"
      "(case r of Inl x \<Rightarrow> True | Inr d \<Rightarrow> length es = length (if ([] :: pystr list) = [] then chain_names else []))"
      by (simp only: if_True refl) blast
    have "list_all2 (\<lambda>n e. load_event (o_stroma w) (get_or_none ev n) = Inr (Some e)) (take (length es) chain_names) es"
      using es(2) by (rule list_all2_mono) (auto simp: get_or_none_def)
    then show ?thesis using es unfolding e by (auto simp: take_map list_all2_map1 split: sum.splits)
  qed
qed

lemma sends_named_evidence:
  "\<exists>es. cn_sent (snd (service_command w s pool action c)) = cn_sent c @ es
    \<and> list_all2 (\<lambda>(name, v) e. load_event (o_stroma w) v = Inr (Some e))
        (take (length es) (named_evidence w s action (cn_admin c))) es
    \<and> (case fst (service_command w s pool action c) of
         Inl x \<Rightarrow> True
       | Inr d \<Rightarrow> length es = length (named_evidence w s action (cn_admin c)))"
proof (cases "publishes action")
  case True
  obtain r c' where c: "service_command w s pool action c = (r, c')" by fastforce
  from publishesE [OF True] show ?thesis
  proof cases
    case (1 relays)
    show ?thesis using service_publish_sends [of w s pool relays c r c'] c unfolding 1 by (simp only: fst_conv snd_conv)
  next
    case (2 relays)
    have "witness_command w s pool (Do_Publish relays) c = (r, c')" using c unfolding 2 by (simp only: service_command.simps)
    with witness_publish_sends [of w s pool relays c r c'] show ?thesis using c unfolding 2 by (simp only: fst_conv snd_conv)
  qed
next
  case False
  then have e: "named_evidence w s action (cn_admin c) = []"
    by (auto simp: named_evidence_def split: service_action.split witness_action.split)
  have "cn_sent (snd (service_command w s pool action c)) = cn_sent c"
  proof (cases "service_op_of action")
    case (Inl x)
    then show ?thesis by (simp add: command_unreadable)
  next
    case (Inr opn)
    from service_command_does [OF this False, of w s pool] show ?thesis unfolding does_def by simp
  qed
  then show ?thesis unfolding e by (auto split: sum.split)
qed

text \<open>
  What has to be published, whatever the code calls it: the three signed events of the commissioning,
  and, for each entry of the verified history in its order, a grant's request and authorization or
  the revocation.
\<close>

definition entry_events :: "pydict \<Rightarrow> pyval list" where
  "entry_events entry =
     (if is_grant entry then [dget entry ''request'', dget entry ''authorization'']
      else [dget entry ''revocation''])"

definition to_publish :: "outside \<Rightarrow> settings \<Rightarrow> service_action \<Rightarrow> admin \<Rightarrow> pyval list" where
  "to_publish w s action a =
     (case action of
        Service_Publish relays \<Rightarrow>
          (case service_verify w s a of
             (Inl x, b) \<Rightarrow> []
           | (Inr cm, b) \<Rightarrow>
               (case fst (service_show w s b) of
                  Inl x \<Rightarrow> []
                | Inr (state, ev) \<Rightarrow>
                    [dget ev ''commissioning_request'', dget ev ''operator_attestation'',
                     dget ev ''service_descriptor'']))
      | Service_Witness (Do_Publish relays) \<Rightarrow>
          (case fst (witness_verify w s a) of
             Inl x \<Rightarrow> []
           | Inr v \<Rightarrow> concat (map entry_events (vw_history v)))
      | _ \<Rightarrow> [])"

lemma checked_entry_keys:
  assumes "Witness_Auth.check_entry w g i p entry = Inr ()"
  shows "if is_grant entry then set (map fst entry) = {lit ''request'', lit ''policy'', lit ''authorization''}
    else set (map fst entry) = {lit ''revocation''}"
proof (cases "is_grant entry")
  case True
  then obtain es where "check_witness_evidence w g entry False = Inr es"
    using assms by (auto simp: Witness_Auth.check_entry_def rbind_eq_Inr split: if_splits)
  moreover have "lit ''authorization'' \<in> set (map fst entry)"
    using True by (simp add: has_key_def) (metis map_of_eq_None_iff not_Some_eq set_map)
  ultimately show ?thesis
    using True by (auto simp: check_witness_evidence_def Let_def insert_commute split: if_splits)
next
  case False
  then show ?thesis
    using assms
    by (auto simp: Witness_Auth.check_entry_def check_revocation_def rbind_eq_Inr split: if_splits option.splits)
qed

lemma entry_parts_events:
  assumes "Witness_Auth.check_entry w g i p entry = Inr ()"
  shows "map snd (entry_parts n entry) = entry_events entry"
proof -
  have m: "map_of entry k = None \<longleftrightarrow> k \<notin> set (map fst entry)" for k by (simp add: map_of_eq_None_iff)
  show ?thesis
    using checked_entry_keys [OF assms] m [of "lit ''request''"] m [of "lit ''authorization''"] m [of "lit ''revocation''"]
    by (auto simp: entry_parts_def entry_events_def dget_def has_key_def split: if_splits option.splits)
qed

lemma history_parts_events:
  "check_entries w g i p h = Inr () \<Longrightarrow>
    map snd (concat (map (\<lambda>(n, e). entry_parts n e) (enumerate k h))) = concat (map entry_events h)"
proof (induction h arbitrary: i p k)
  case (Cons e h)
  then show ?case using entry_parts_events by (fastforce simp: rbind_eq_Inr)
qed simp

lemma verified_history:
  assumes "witness_verify w s a = (Inr v, b)"
  shows "\<exists>g. check_entries w g 1 None (vw_history v) = Inr ()"
proof -
  have g: "is_grant (vw_evidence v)" and sh: "witness_show w s a = (Inr v, b)"
    using assms by (auto simp: witness_verify_def abind_apply areturn_def araise_def split: sum.splits prod.splits if_splits)
  have "vw_evidence (no_view s) = []" by (simp add: no_view_def)
  with g have "v \<noteq> no_view s" by auto
  moreover have "db_file a" using sh calculation by (auto simp: witness_show_def split: if_splits)
  then obtain ev where "load_authorization a = Inr ev"
    and "(if ev \<noteq> [] \<or> load_controls a \<noteq> [] then abind (verified_grantor w s) (read_view w s)
      else areturn (no_view s)) a = (Inr v, b)"
    using sh by (auto simp: witness_show_def connection_def abind_apply areads_def
        split: option.splits sum.splits prod.splits)
  ultimately obtain g c where "witness_view_of w s g c = Inr v"
    by (auto simp: abind_eq_Inr areturn_def read_view_def areads_def split: if_splits)
  then obtain h a' where "validate_history w g a' = Inr h" "vw_history v = h"
    by (auto simp: witness_view_of_def rbind_eq_Inr Let_def)
  then show ?thesis
    by (auto simp: validate_history_def rbind_eq_Inr split: if_splits option.splits)
qed

lemma named_to_publish: "map snd (named_evidence w s action a) = to_publish w s action a"
proof -
  have "map snd (history_parts (vw_history v)) = concat (map entry_events (vw_history v))"
    if v: "fst (witness_verify w s a) = Inr v" for v
  proof -
    obtain b where "witness_verify w s a = (Inr v, b)" using v by (cases "witness_verify w s a") simp
    from verified_history [OF this] show ?thesis unfolding history_parts_def by (blast intro: history_parts_events)
  qed
  then show ?thesis
    by (auto simp: named_evidence_def to_publish_def chain_names_def dget_def get_or_none_def
        split: service_action.split witness_action.split sum.split prod.split)
qed

text \<open>C20: the publishing commands send what the service retains, and nothing else: a command that does not
  publish sends nothing; a publishing one sends, in that order, the signed events of the evidence
  that the preceding verification accepted: the commissioning request, the attestation and the
  descriptor; or, entry by entry of the witness history, each grant's request and authorization and
  each revocation. When it returns it has sent all of them, each once; when it raises, some first
  part.\<close>

theorem published_is_retained:
  "\<exists>es. cn_sent (snd (service_command w s pool action c)) = cn_sent c @ es
    \<and> list_all2 (\<lambda>v e. load_event (o_stroma w) v = Inr (Some e))
        (take (length es) (to_publish w s action (cn_admin c))) es
    \<and> (case fst (service_command w s pool action c) of
         Inl x \<Rightarrow> True
       | Inr d \<Rightarrow> length es = length (to_publish w s action (cn_admin c)))"
proof -
  let ?n = "named_evidence w s action (cn_admin c)"
  obtain es where es: "cn_sent (snd (service_command w s pool action c)) = cn_sent c @ es"
    "list_all2 (\<lambda>(name, v) e. load_event (o_stroma w) v = Inr (Some e)) (take (length es) ?n) es"
    "case fst (service_command w s pool action c) of Inl x \<Rightarrow> True | Inr d \<Rightarrow> length es = length ?n"
    using sends_named_evidence by blast
  have "list_all2 (\<lambda>v e. load_event (o_stroma w) v = Inr (Some e)) (take (length es) (map snd ?n)) es"
    using es(2) by (simp add: take_map list_all2_map1 split_def)
  moreover have "length (map snd ?n) = length ?n" by simp
  ultimately show ?thesis using es(1,3) unfolding named_to_publish by metis
qed

text \<open>
  Whatever a command does to the data directory, and however it ends, is a sequence of the steps of
  \<open>Witness_History\<close>, so what holds over those histories holds over every sequence of commands.
\<close>

theorem commands_are_operations:
  "admin_step\<^sup>*\<^sup>* (cn_admin c) (cn_admin (snd (cli_main w w' env opts pool cmd c)))"
proof -
  have one: "admin_step\<^sup>*\<^sup>* a (snd (run_admin w s opn a))" for s opn a
    by (rule r_into_rtranclp, rule admin_step.intros [of w s opn a "fst (run_admin w s opn a)"]) simp
  have "admin_step\<^sup>*\<^sup>* (cn_admin c) (cn_admin (snd (service_command w s pool action c)))" for s action
  proof (cases "publishes action")
    case False
    show ?thesis
    proof (cases "service_op_of action")
      case (Inl x)
      then show ?thesis by (simp add: command_unreadable)
    next
      case (Inr opn)
      from service_command_does [OF this False, of w s pool] have
        "snd (service_command w s pool action c) = c\<lparr>cn_admin := snd (run_admin w s opn (cn_admin c))\<rparr>"
        unfolding does_def by blast
      then show ?thesis using one by simp
    qed
  next
    case True
    have v: "admin_step\<^sup>*\<^sup>* a (snd (service_verify w s a))" "admin_step\<^sup>*\<^sup>* a (snd (service_show w s a))"
      "admin_step\<^sup>*\<^sup>* a (snd (witness_verify w s a))" for a
      using one [where opn = "On_Service Verify_Service"] one [where opn = "On_Service Show_Service"]
        one [where opn = Witness_Verify]
      by (simp_all add: adone_def snd_abind_areturn)
    have "transp admin_step\<^sup>*\<^sup>*" by (rule transpI) (rule rtranclp_trans)
    from publishing_relates [OF True this v] show ?thesis .
  qed
  moreover have "admin_step\<^sup>*\<^sup>* (cn_admin c) (snd (startup w s (cn_admin c)))" for s
    using one [where opn = Start_Relay] by simp
  ultimately show ?thesis
    by (auto simp: cli_main_def with_admin_apply split_def split: command.split sum.split)
qed

section \<open>Settings and failures\<close>

lemma cli_settings_type_ok: "cli_settings st env opts = Inr s \<Longrightarrow> settings_ok st s"
  by (auto simp: cli_settings_def rbind_eq_Inr post_init_iff)

lemma publishing_untouched:
  assumes "publishes action" "service_command w s pool action c = (r, c')"
  shows "untouched (cn_admin c) (cn_admin c')"
proof -
  have "untouched (cn_admin c) (cn_admin (snd (service_command w s pool action c)))"
    by (rule publishing_relates [OF assms(1) unharmed.transitive])
      (rule unharmed.at unharmed.service_verified unharmed.service_shown unharmed.witness_verified)+
  then show ?thesis using assms(2) by simp
qed

text \<open>C39: the settings that a command runs with, from any environment and any options, are of the right type,
  or \<open>ValueError\<close> ends the program before it touches anything; the key and the receipt version
  derived from them never raise, and \<open>--no-verify-signatures\<close> is the only option that turns
  verification off.\<close>

theorem cli_settings_type:
  "case cli_settings st env opts of
     Inl x \<Rightarrow> \<exists>m. x = ValueError m
   | Inr s \<Rightarrow> settings_ok st s \<and> (\<exists>npub. settings_npub st s = Inr npub)
       \<and> (\<exists>v \<in> {1, 2, 3}. witness_receipt_version s = Inr v)
       \<and> (\<exists>s0. from_env st env = Inr s0 \<and> service_nsec s = service_nsec s0
            \<and> witness_enabled s = witness_enabled s0
            \<and> verify_signatures s = (verify_signatures s0 \<and> \<not> op_no_verify opts))"
proof (cases "cli_settings st env opts")
  case (Inl x)
  then show ?thesis
    using from_env_cases [of st env] by (auto simp: cli_settings_def rbind_eq_Inl dest: post_init_error)
next
  case (Inr s)
  then obtain s0 where s0: "from_env st env = Inr s0" and "settings_ok st s"
    and e: "s = s0\<lparr>host := (case op_host opts of Some h \<Rightarrow> h | None \<Rightarrow> host s0),
         port := (case op_port opts of Some p \<Rightarrow> p | None \<Rightarrow> port s0),
         database_path := (case op_database opts of Some p \<Rightarrow> p | None \<Rightarrow> database_path s0),
         verify_signatures := (if op_no_verify opts then False else verify_signatures s0),
         public_url := (case op_public_url opts of Some u \<Rightarrow> Some u | None \<Rightarrow> public_url s0)\<rparr>"
    by (auto simp: cli_settings_def rbind_eq_Inr post_init_iff)
  have s: "service_nsec s = service_nsec s0" "witness_enabled s = witness_enabled s0"
    "verify_signatures s = (verify_signatures s0 \<and> \<not> op_no_verify opts)" "settings_ok st s"
    using \<open>settings_ok st s\<close> by (simp_all add: e)
  obtain npub where n: "settings_npub st s = Inr npub" using settings_ok_npub [OF s(4)] by blast
  show ?thesis unfolding Inr sum.case using s0 s n settings_ok_version [OF s(4)] by blast
qed

lemma failed_untouched:
  assumes "cli_main w w' env opts pool cmd c = (out, c')" "out = Exits x \<or> out = Crashes x \<or> out = Startup_Fails x"
    and "stroma_ok (o_crypto w) (o_stroma w)"
  shows "untouched (cn_admin c) (cn_admin c')
    \<and> (cn_sent c' = cn_sent c \<or> (\<exists>action. cmd = Service_Command action \<and> publishes action))"
proof (cases "\<exists>action. cmd = Service_Command action \<and> (\<exists>s. cli_settings (o_stroma w) env opts = Inr s)")
  case False
  have "untouched a (snd (startup w s a))" for s a by (rule unharmed.at [OF unharmed.started])
  with False show ?thesis using assms(1) unharmed.same
    by (auto simp: cli_main_def with_admin_apply split: command.splits sum.splits prod.splits)
      (metis snd_conv)+
next
  case True
  then obtain action s where a: "cmd = Service_Command action" "cli_settings (o_stroma w) env opts = Inr s" by blast
  have "settings_ok (o_stroma w) s" using cli_settings_type_ok [OF a(2)] .
  then have m: "encodable (service_management s)" by (auto simp: settings_ok_def management_modes_def)
  obtain r where r: "service_command w s pool action c = (r, c')" "\<exists>y. r = Inl y"
    using assms(1,2) a by (cases "service_command w s pool action c")
      (auto simp: cli_main_def outcome_of_def split: sum.splits if_splits)
  show ?thesis
  proof (cases "publishes action")
    case True
    then show ?thesis using publishing_untouched [OF True r(1)] a(1) by auto
  next
    case no: False
    show ?thesis
    proof (cases "service_op_of action")
      case (Inl y)
      then show ?thesis using r(1) unharmed.same by (simp add: command_unreadable)
    next
      case (Inr opn)
      from service_command_does [OF this no, of w s pool]
      have d: "snd (service_command w s pool action c) = c\<lparr>cn_admin := snd (run_admin w s opn (cn_admin c))\<rparr>"
        "rel_sum (=) (\<lambda>_ _. True) (fst (service_command w s pool action c)) (fst (run_admin w s opn (cn_admin c)))"
        unfolding does_def by blast+
      obtain y where "fst (run_admin w s opn (cn_admin c)) = Inl y" using d(2) r by (auto elim: rel_sum.cases)
      then have "untouched (cn_admin c) (snd (run_admin w s opn (cn_admin c)))"
        using run_admin_rolls [OF assms(3) m, of opn] by (metis prod.collapse rolls_back_def)
      then show ?thesis using d(1) r(1) by simp
    qed
  qed
qed

text \<open>C32: a command that fails, with a message, a traceback or as a relay whose start-up raises, leaves the retained evidence as it was: the
  authorization, the history, the controls and the commissioning are those before it, except that
  the empty commissioning table may have been created; and it has sent nothing, unless it publishes.\<close>

theorem failed_command:
  assumes "cli_main w w' env opts pool cmd c = (out, c')" "out = Exits x \<or> out = Crashes x \<or> out = Startup_Fails x"
    and "stroma_ok (o_crypto w) (o_stroma w)"
  shows "authorization_row (cn_admin c') = authorization_row (cn_admin c)
    \<and> history_table (cn_admin c') = history_table (cn_admin c)
    \<and> controls_table (cn_admin c') = controls_table (cn_admin c)
    \<and> (commissioning_table (cn_admin c') = commissioning_table (cn_admin c)
       \<or> commissioning_table (cn_admin c) = None \<and> commissioning_table (cn_admin c') = Some None)
    \<and> (cn_sent c' = cn_sent c \<or> (\<exists>action. cmd = Service_Command action \<and> publishes action))"
  using failed_untouched [OF assms] by (simp add: untouched_def)

lemma null_file: "read_signed_event (Inr (lit ''null'')) = Inr VNone"
proof -
  have "loads (dumps Compact VNone) = Inr VNone" by (rule loads_dumps) simp
  then show ?thesis by (simp add: read_signed_event_def)
qed

lemma no_environment:
  "\<exists>s. cli_settings toy_stroma (\<lambda>_. None)
      \<lparr>op_host = None, op_port = None, op_database = None, op_no_verify = False, op_public_url = None\<rparr> = Inr s
    \<and> service_nsec s = None"
proof -
  have "py_int (lit ''1000'') = Inr 1000" "py_int (lit ''60'') = Inr 60" "py_int (lit ''8080'') = Inr 8080"
    by (simp_all add: py_int_def lit_def strip_def Let_def digit_def py_space_def digits_val_def)
  then show ?thesis
    by (simp add: cli_settings_def from_env_def env_or_def env_nonempty_def env_bool_def rbind_eq_Inr post_init_iff
        settings_ok_def the_key_def clock_modes_def management_modes_def)
qed

text \<open>A signature for an uncommissioned service without a key is refused; the table has been created.\<close>

theorem failed_command_witness:
  "\<exists>x c c'. cli_main (toy_world 3000) (toy_world 3000) (\<lambda>_. None)
      \<lparr>op_host = None, op_port = None, op_database = None, op_no_verify = False, op_public_url = None\<rparr>
      (\<lambda>_. Inl RelayError) (Service_Command (Service_Witness (Do_Authorize (Inr (lit ''null''))))) c = (Exits x, c')
    \<and> commissioning_table (cn_admin c) = None \<and> commissioning_table (cn_admin c') = Some None
    \<and> history_table (cn_admin c') = None"
proof -
  let ?w = "toy_world 3000" and ?a = "toy_pending\<lparr>commissioning_table := None\<rparr>"
  let ?o = "\<lparr>op_host = None, op_port = None, op_database = None, op_no_verify = False, op_public_url = None\<rparr>"
  let ?f = "Inr (lit ''null'') :: pystr res"
  obtain s where s: "cli_settings toy_stroma (\<lambda>_. None) ?o = Inr s" "service_nsec s = None"
    using no_environment by blast
  have e: "read_signed_event ?f = Inr VNone" using null_file .
  have "service_identity ?w s b = (Inl (CE ''SPURLINE_SERVICE_NSEC is required''), b)" for b
    using s(2) by (simp add: service_identity_def settings_npub_def the_key_def abind_apply araise_def)
  then have "verified_grantor ?w s (open_for_writing ?a) = (Inl (CE ''SPURLINE_SERVICE_NSEC is required''), open_for_writing ?a)"
    by (simp add: verified_grantor_def abind_lift_apply load_commissioning_def verify_evidence_def abind_apply)
  then have "\<exists>a'. witness_authorize ?w s VNone ?a = (Inl (CE ''SPURLINE_SERVICE_NSEC is required''), a')
      \<and> commissioning_table a' = Some None"
    by (auto simp: abind_apply witness_authorize_def connection_def authorize_body_def)
  then obtain a' where a: "witness_authorize ?w s VNone ?a = (Inl (CE ''SPURLINE_SERVICE_NSEC is required''), a')"
    "commissioning_table a' = Some None" by blast
  let ?c = "\<lparr>cn_admin = ?a, cn_sent = []\<rparr>"
  have r: "cli_main ?w ?w (\<lambda>_. None) ?o (\<lambda>_. Inl RelayError) (Service_Command (Service_Witness (Do_Authorize ?f))) ?c
      = (Exits (CE ''SPURLINE_SERVICE_NSEC is required''), ?c\<lparr>cn_admin := a'\<rparr>)"
    using s a e by (simp add: cli_main_def abind_apply with_admin_def outcome_of_def service_exits_def)
  have "history_table a' = None" using failed_command [OF r] by (simp add: toy_stroma_ok toy_pending_def)
  with r a(2) show ?thesis by (intro exI conjI) (assumption | simp add: toy_pending_def)+
qed

end
