(* ===== verification/Cli_Writes.thy ===== *)
theory Cli_Writes
  imports Cli_Spec
begin

text \<open>
  Which command writes what: on success the rows that it is for, and nothing else; on any other end
  nothing.
\<close>

section \<open>A transaction that commits\<close>








section \<open>The operations that write\<close>










section \<open>The commands\<close>








end
