(* ===== verification/Spec2Isabelle.thy ===== *)
theory Spec2Isabelle
  imports Receipt_Example Service_Spec Witness_History Clock_Spec Operator_Example Endpoint_Example Cli_Writes
begin

text \<open>
  Spurline, a Nostr relay with an operator-authorised witness: a model of its Python source under
  \<open>src/src/spurline\<close> and the theorems that make it correct.

  1. The program

  A relay keeps signed events and serves them over WebSockets: \<open>EVENT\<close> publishes, \<open>REQ\<close> queries and
  subscribes, \<open>CLOSE\<close> ends a subscription (\<open>main.py\<close>, \<open>events.py\<close>, \<open>filters.py\<close>, \<open>store.py\<close>,
  \<open>storage.py\<close>). The service has a key of its own, bound to its data directory by a sentinel file
  (\<open>identity.py\<close>, \<open>config.py\<close>). An operator takes responsibility for the service by three signed
  documents (\<open>commissioning.py\<close>, \<open>service.py\<close>) and may authorise it as a witness for an interval and
  for some kinds of events, renew, revoke, and locally suspend that (\<open>witness.py\<close>); the operator signs
  with an offline tool (\<open>operator_signing.py\<close>). An authorised witness observes events as they are
  published and issues receipts for them (\<open>receipts.py\<close>, \<open>automatic_witness.py\<close>) under a clock that a
  monitor vouches for (\<open>clock_monitor.py\<close>). The command line (\<open>cli.py\<close>) administers all of this, and
  HTTP endpoints and a homepage (\<open>main.py\<close>, \<open>homepage.py\<close>) show it.

  The parts meet in three places. The event store is written by the connections (through
  \<open>SQLiteStorage.save\<close>, or \<open>AutomaticWitness.accept\<close> when witnessing is on) and by the worker that
  issues receipts. The administrative database beside it is written by the command line and read, under
  a write transaction, by the witness. The connections' tables of subscriptions are read by every
  broadcast, the worker's included.

  2. How the code is modelled

  A Python function that may raise is a function into \<open>'a res\<close>, that is \<open>exc + 'a\<close>; one that also
  changes a state is an \<open>act\<close>: it returns the outcome and the state that it leaves, also when it raises.
  \<open>rbind\<close> and \<open>abind\<close> sequence them, so every early return and every exception of the source is a
  branch. A \<open>str\<close> is the list of its code points (lone surrogates included), \<open>bytes\<close> a list of 8-bit
  words, a dictionary an association list in insertion order with Python's update, an integer an
  \<open>int\<close>; a bool is a number, as in Python. What \<open>json.loads\<close> may return is the datatype \<open>pyval\<close>. SQLite's
  64-bit columns and its text encoding are checked where the source binds a parameter.

  Code outside \<open>src\<close> is a parameter: coincurve's verification of signatures is the field of \<open>crypto\<close>,
  stroma's keys and signing the record \<open>stroma\<close> with the hypothesis \<open>stroma_ok\<close> (a signature made
  with a key verifies under its public key, which is a hexadecimal string), stroma's relay pool a
  function from a part to its outcome. \<open>Stroma_Spec\<close> has a concrete stroma with two keys that satisfies
  the hypothesis; every property with it has an instance there. SHA-256, UTF-8, base-16, JSON and the
  conversions of floats are not parameters: they are written out.

  3. Theories, from the bottom up

  Prelude: \<open>Spur_Base\<close> (exceptions, results, actions, dictionaries, list lemmas, the locales
  \<open>step_contract\<close> and \<open>round_trip\<close>), \<open>Py_Values\<close>, \<open>Py_Bytes\<close>, \<open>Py_Utf8\<close>, \<open>Py_Float\<close>, \<open>Py_Json\<close>,
  \<open>Json_Facts\<close>, \<open>Json_Ints\<close>, \<open>Json_Size\<close> (the values and codecs, and that reading undoes writing),
  \<open>Sha256\<close>.

  Relay: \<open>Events\<close>, \<open>Event_Spec\<close> (\<open>events.py\<close>); \<open>Filters\<close>, \<open>Filter_Spec\<close> (\<open>filters.py\<close>); \<open>Event_Store\<close>
  (\<open>store.py\<close>: the four tables as the record \<open>store\<close> of lists of rows, and every statement on them),
  \<open>Store_Spec\<close> (the abstract store, \<open>spec_save\<close> and \<open>spec_query\<close>, and the simulation), \<open>Job_Queue\<close>
  (the job table as a state machine), \<open>Storage\<close> (\<open>storage.py\<close>), \<open>Store_Properties\<close>; \<open>Relay\<close> (the class
  \<open>RelayService\<close>: record \<open>relay\<close> for \<open>connections\<close>, the backend and what was sent), \<open>Relay_Steps\<close>
  (the same handlers cut at their \<open>await\<close>s, as a step relation \<open>wstep\<close> over all connections),
  \<open>Relay_Delivery\<close>, \<open>Relay_Spec\<close>, \<open>Relay_Properties\<close>.

  Administration: \<open>Signed_Documents\<close>, \<open>Stroma_Spec\<close>; \<open>Commissioning\<close>, \<open>Commissioning_Spec\<close>
  (\<open>commissioning.py\<close>); \<open>Identity\<close>, \<open>Config\<close>; \<open>Service\<close>, \<open>Service_Spec\<close> (\<open>service.py\<close>: record \<open>admin\<close>
  for the tables of the administrative database and the sentinel file; \<open>connection\<close> is the transaction
  that rolls the tables back); \<open>Witness_Documents\<close>, \<open>Witness_Auth\<close>, \<open>Witness_Spec\<close>, \<open>Witness_Roundtrip\<close>,
  \<open>Witness_Cycle\<close>, \<open>Witness_Properties\<close>, \<open>Witness_History\<close>, \<open>Witness_Later\<close> (\<open>witness.py\<close>);
  \<open>Operator_Signing\<close>, \<open>Operator_Spec\<close>, \<open>Operator_Cycle\<close>, \<open>Operator_Example\<close> (\<open>operator_signing.py\<close>);
  \<open>Startup\<close> (what \<open>create_app\<close> decides and what the lifespan does to the administrative data);
  \<open>Admin_Views\<close>, \<open>Cli\<close>, \<open>Cli_Spec\<close>, \<open>Cli_Writes\<close> (\<open>cli.py\<close>); \<open>Homepage\<close>, \<open>Endpoints\<close>, \<open>Endpoint_Spec\<close>,
  \<open>Endpoint_Example\<close> (\<open>homepage.py\<close> and the application in \<open>main.py\<close>).

  Witness: \<open>Clock\<close>, \<open>Clock_Spec\<close> (\<open>WitnessClock\<close> and \<open>clock_monitor.py\<close>); \<open>Receipts\<close> (\<open>receipts.py\<close>);
  \<open>Auto_Witness\<close> (record \<open>auto\<close>: administrative data, event store, clock, receipts broadcast; \<open>accept\<close>,
  \<open>issue\<close>, \<open>run_pass\<close>), \<open>Auto_Spec\<close>, \<open>Auto_Worker\<close>, \<open>Auto_Receipt\<close>, \<open>Auto_Example\<close>; \<open>Relay_Witness\<close>
  (the relay with \<open>accept\<close> as its way of saving and the worker \<open>run\<close> beside the connections, one step
  relation \<open>system_step\<close> for all their interleavings), \<open>Receipt_Example\<close>.

  4. What the lemmas show

  Store: saving and querying through SQL implement the abstract store, tag index and deletions
  included; migration builds the index; over any history of writes jobs keep their inputs and finished
  jobs their state.
  Relay: the answer to every publication and every subscription on every branch; the handlers are
  their steps, and a pass of the worker one run of the interleaved system (lemmas of the library that
  tie the two presentations together); under every interleaving of connections, failures and disconnections no stored event is
  lost to a subscription whose name can be sent, and neither is a receipt when the worker runs beside
  them. Exactly which messages end a connection unanswered, and the event that is stored and not
  broadcast, are stated as what they are.
  Authority: a verified attestation or grant rests on the signatures, times and contents that it should;
  a permitted witness is traced back to the commissioned operator, whose signed text names the request
  and the interval; the documents each party makes are
  accepted by the other; retained evidence is only ever appended to, an operation that raises changes
  none of it, and what verified once verifies at any later time. These hold over every history of
  \<open>admin_step\<close>: service operations, witness operations and starts of the relay, by any process.
  Witness: jobs are queued and receipts issued only on authority that is current at that moment; when
  accepting returns the relay stores what it would store without a witness; an observation whose authority stands gets its receipt,
  and the worker's passes empty the queue.
  Tools and pages: what the operator signs is what was displayed; a command is a sequence of administrative
  operations, writes only the rows that it is for and sends exactly the retained evidence; every value
  is shown on the homepage in its own field and changes no markup, a relay that started keeps answering,
  and the local reasons of a suspension stay private.

  5. Interfaces

  \<open>event_source\<close> is what the delivery of events needs of a backend: that an accepted event is in the
  store and that a page is the abstract query's. \<open>event_storage\<close> is the protocol \<open>EventStorage\<close>; a
  sublocale makes every storage, called in a transaction, an event source. \<open>SQLiteStorage\<close> interprets
  the second and thereby the first, \<open>AutomaticWitness.accept\<close> with \<open>SQLiteStorage.query\<close> the first, so
  the delivery invariant is proved once and holds for both. \<open>step_contract\<close> is a reflexive and
  transitive relation between states, kept by whatever sequences actions that keep it; it is
  interpreted on what a handler leaves of other connections and on what accepting leaves of the event
  store. \<open>admin_contract\<close> adds that binding the identity, opening the database and rolling it back
  keep the relation; it is interpreted on the commissioning, the growing history and the untouched
  evidence. \<open>round_trip\<close> is interpreted on rows, dictionaries, hexadecimal and JSON.

  6. Bounds and fuel

  The reader of JSON takes fuel, twice the length of the text and two; \<open>Py_Json\<close> proves that this
  never runs out, so \<open>RecursionError\<close> is not a result of \<open>loads\<close>. Which received messages nest beyond
  CPython's recursion limit is a parameter of the relay's environment, \<open>re_too_deep\<close>; \<open>read_message\<close>
  raises on those. \<open>finish\<close> counts the steps of a
  task; enough of them give the handler, and more change nothing. Everything else recurs on its data.
  \<open>run\<close> loops for ever by design: its pass is a function, its repetition a step relation.

  7. What is not modelled, and why

  CPython's recursion limit on files and evidence (for messages it is the parameter above) and its
  refusal to print integers of more than 4300 digits; SQLite's own limits, such as the depth of an
  expression with very many tag filters, are among the failures that the fault flag of a storage call
  stands for; the
  rounding of the clock's floating-point differences (readings are exact, in nanoseconds); health
  files in UTF-16 or UTF-32, and integers in non-ASCII digits in the environment. An administrative
  operation reads the clock once where the source may read it a few times, and a failure of its database
  is met at its start, before any change. Sending raises
  for a closed socket and for a lone surrogate in the message, which UTF-8 cannot encode. TLS, HTTP,
  FastAPI's routing and its CORS middleware,
  \<open>argparse\<close> with its parser, the printing of results, \<open>uvicorn\<close>, the opening, closing and PRAGMAs of a
  SQLite connection, and the process that \<open>clock_monitor.py\<close> starts are libraries and services that the
  source calls; their inputs to the modelled code are arguments.
\<close>

end
